(* ===== verification/Prelude.thy ===== *)
theory Prelude
  imports Main "HOL-Library.AList" "HOL-Library.Multiset"
begin

text \<open>
  The vocabulary the component theories share.

  The program is TypeScript that runs in a browser tab. This theory fixes how the values of
  the language are written down: strings are lists of characters (the ASCII range is what the
  code compares and slices; natural-language text produced by the translation library is a
  parameter wherever it occurs), \<open>null\<close> and \<open>undefined\<close> are \<open>None\<close>, a \<open>Map\<close> is an association
  list in insertion order (\<open>AList.update\<close> replaces in place or appends, exactly what
  \<open>Map.prototype.set\<close> does), a \<open>Set\<close> that is iterated is a list without duplicates in insertion
  order, and \<open>Array.prototype.sort\<close>, which is stable, is an insertion sort.

  It also holds the grouping loop of the displays with its locale, and the three generic locales for
  state machines (an event-driven step function, the same with assumptions on the events, and a transition relation) whose invariant lemmas the components reuse, and the collections
  \<open>store_simps\<close> and \<open>js_simps\<close> that carry the proofs.
\<close>

named_theorems store_simps "unfolding of the store operations"
named_theorems js_simps "evaluation of the string and collection helpers"

section \<open>Strings\<close>

definition truthy :: "string \<Rightarrow> bool" where
  "truthy s \<longleftrightarrow> s \<noteq> []"

text \<open>\<open>s || undefined\<close> on an optional string: the empty string counts as absent.\<close>

definition or_undefined :: "string \<Rightarrow> string option" where
  "or_undefined s = (if truthy s then Some s else None)"

definition char_lower :: "char \<Rightarrow> char" where
  "char_lower c = (let n = (of_char c :: nat) in
     if 65 \<le> n \<and> n \<le> 90 then char_of (n + 32) else c)"

definition char_upper :: "char \<Rightarrow> char" where
  "char_upper c = (let n = (of_char c :: nat) in
     if 97 \<le> n \<and> n \<le> 122 then char_of (n - 32) else c)"

definition js_lower :: "string \<Rightarrow> string" where
  "js_lower s = List.map char_lower s"

definition is_space :: "char \<Rightarrow> bool" where
  "is_space c \<longleftrightarrow> (let n = (of_char c :: nat) in n = 32 \<or> (9 \<le> n \<and> n \<le> 13) \<or> n = 160)"

definition js_trim_start :: "string \<Rightarrow> string" where
  "js_trim_start s = dropWhile is_space s"

definition js_trim_end :: "string \<Rightarrow> string" where
  "js_trim_end s = rev (dropWhile is_space (rev s))"

definition js_trim :: "string \<Rightarrow> string" where
  "js_trim s = js_trim_end (js_trim_start s)"

fun js_starts_with :: "string \<Rightarrow> string \<Rightarrow> bool" where
  "js_starts_with s [] = True"
| "js_starts_with [] (c # cs) = False"
| "js_starts_with (x # xs) (c # cs) = (x = c \<and> js_starts_with xs cs)"

fun js_includes :: "string \<Rightarrow> string \<Rightarrow> bool" where
  "js_includes [] n = (n = [])"
| "js_includes (c # cs) n = (js_starts_with (c # cs) n \<or> js_includes cs n)"

text \<open>\<open>s.split(c)\<close> for a one-character separator: always at least one piece.\<close>

fun js_split :: "char \<Rightarrow> string \<Rightarrow> string list" where
  "js_split c [] = [[]]"
| "js_split c (x # xs) =
     (if x = c then [] # js_split c xs
      else (case js_split c xs of [] \<Rightarrow> [[x]] | p # ps \<Rightarrow> (x # p) # ps))"

fun js_join :: "string \<Rightarrow> string list \<Rightarrow> string" where
  "js_join sep [] = []"
| "js_join sep [s] = s"
| "js_join sep (s # t # ts) = s @ sep @ js_join sep (t # ts)"

lemma js_split_ne [simp]: "js_split c s \<noteq> []"
  by (induction s) (auto split: list.splits)

lemma js_join_split [simp]: "js_join [c] (js_split c s) = s"
proof (induction s)
  case Nil
  then show ?case by simp
next
  case (Cons x xs)
  obtain p ps where ps: "js_split c xs = p # ps"
    by (cases "js_split c xs") auto
  with Cons.IH show ?case by (cases ps) auto
qed

lemma js_starts_with_iff: "js_starts_with s p \<longleftrightarrow> (\<exists>t. s = p @ t)"
  by (induction s p rule: js_starts_with.induct) auto

lemma js_includes_iff: "js_includes s n \<longleftrightarrow> (\<exists>a b. s = a @ n @ b)"
proof (induction s)
  case Nil
  then show ?case by auto
next
  case (Cons c cs)
  have "(\<exists>a b. c # cs = a @ n @ b) \<longleftrightarrow> (\<exists>b. c # cs = n @ b) \<or> (\<exists>a b. cs = a @ n @ b)"
    by (metis append_Cons append_Nil append_eq_Cons_conv)
  with Cons show ?case by (simp add: js_starts_with_iff)
qed

lemma truthy_Nil [simp]: "\<not> truthy []"
  by (simp add: truthy_def)

lemma truthy_Cons [simp]: "truthy (c # s)"
  by (simp add: truthy_def)

lemma or_undefined_simps [simp]:
  "or_undefined [] = None" "or_undefined (c # s) = Some (c # s)"
  by (simp_all add: or_undefined_def)

section \<open>Ordered maps, sets and sorting\<close>

text \<open>\<open>new Set(xs)\<close> iterated: the first occurrence of every element, in order.\<close>

fun js_distinct :: "'a list \<Rightarrow> 'a list" where
  "js_distinct [] = []"
| "js_distinct (x # xs) = x # js_distinct (filter (\<lambda>y. y \<noteq> x) xs)"

lemma set_js_distinct [simp]: "set (js_distinct xs) = set xs"
  by (induction xs rule: js_distinct.induct) auto

lemma distinct_js_distinct [simp]: "distinct (js_distinct xs)"
  by (induction xs rule: js_distinct.induct) auto

text \<open>\<open>s.add(x)\<close> on a set as the list of its elements in insertion order.\<close>

definition set_add :: "'a list \<Rightarrow> 'a \<Rightarrow> 'a list" where
  "set_add s x = (if x \<in> set s then s else s @ [x])"

lemma set_set_add [simp]: "set (set_add s x) = insert x (set s)"
  by (auto simp: set_add_def)

text \<open>
  The code's grouping loop: look the bucket up, append to it or start a new one. Buckets come
  out in the order in which their key is first seen.
\<close>

definition bucket_add :: "'k \<Rightarrow> 'a \<Rightarrow> ('k \<times> 'a list) list \<Rightarrow> ('k \<times> 'a list) list" where
  "bucket_add k x m = (case map_of m k of
      Some g \<Rightarrow> AList.update k (g @ [x]) m
    | None \<Rightarrow> AList.update k [x] m)"

text \<open>\<open>Array.prototype.sort\<close> with a comparator \<open>le\<close> (\<open>compare a b <= 0\<close>): a stable sort.\<close>

fun sort_insert :: "('a \<Rightarrow> 'a \<Rightarrow> bool) \<Rightarrow> 'a \<Rightarrow> 'a list \<Rightarrow> 'a list" where
  "sort_insert le x [] = [x]"
| "sort_insert le x (y # ys) = (if le x y then x # y # ys else y # sort_insert le x ys)"

fun js_sort :: "('a \<Rightarrow> 'a \<Rightarrow> bool) \<Rightarrow> 'a list \<Rightarrow> 'a list" where
  "js_sort le [] = []"
| "js_sort le (x # xs) = sort_insert le x (js_sort le xs)"

lemma mset_sort_insert [simp]: "mset (sort_insert le x ys) = add_mset x (mset ys)"
  by (induction ys) auto

lemma mset_js_sort [simp]: "mset (js_sort le xs) = mset xs"
  by (induction xs) auto

lemma set_js_sort [simp]: "set (js_sort le xs) = set xs"
  by (metis mset_js_sort set_mset_mset)

lemma length_js_sort [simp]: "length (js_sort le xs) = length xs"
  by (metis mset_js_sort size_mset)

lemma set_sort_insert [simp]: "set (sort_insert le x ys) = insert x (set ys)"
  by (induction ys) auto

text \<open>A comparator the sort can rely on: total and transitive.\<close>

definition total_preorder :: "('a \<Rightarrow> 'a \<Rightarrow> bool) \<Rightarrow> bool" where
  "total_preorder le \<longleftrightarrow> (\<forall>x y. le x y \<or> le y x) \<and> (\<forall>x y z. le x y \<longrightarrow> le y z \<longrightarrow> le x z)"

lemma sorted_sort_insert:
  assumes "total_preorder le" and "sorted_wrt le ys"
  shows "sorted_wrt le (sort_insert le x ys)"
  using assms(2)
proof (induction ys)
  case Nil
  then show ?case by simp
next
  case (Cons y ys)
  with assms(1) show ?case unfolding total_preorder_def by (auto; metis)
qed

lemma sorted_js_sort: "total_preorder le \<Longrightarrow> sorted_wrt le (js_sort le xs)"
  by (induction xs) (auto intro: sorted_sort_insert)

text \<open>\<open>xs.indexOf(x)\<close>.\<close>

fun index_of :: "'a \<Rightarrow> 'a list \<Rightarrow> int" where
  "index_of x [] = -1"
| "index_of x (y # ys) = (if x = y then 0 else let i = index_of x ys in if i = -1 then -1 else i + 1)"

section \<open>Grouping\<close>

text \<open>The loop \<open>for (const item of items) ...\<close> that fills buckets.\<close>

definition group_by :: "('a \<Rightarrow> 'k) \<Rightarrow> 'a list \<Rightarrow> ('k \<times> 'a list) list" where
  "group_by key items = foldl (\<lambda>m x. bucket_add (key x) x m) [] items"

lemma group_by_Nil [simp]: "group_by key [] = []"
  by (simp add: group_by_def)

lemma group_by_snoc: "group_by key (xs @ [x]) = bucket_add (key x) x (group_by key xs)"
  by (simp add: group_by_def)

lemma js_distinct_snoc:
  "js_distinct (xs @ [x]) = (if x \<in> set xs then js_distinct xs else js_distinct xs @ [x])"
  by (induction xs arbitrary: x rule: js_distinct.induct) auto

lemma bucket_add_lookup:
  "map_of (bucket_add k x m) j =
     (if j = k then Some ((case map_of m k of Some g \<Rightarrow> g | None \<Rightarrow> []) @ [x]) else map_of m j)"
  by (simp add: bucket_add_def update_conv' split: option.split)

lemma bucket_add_keys:
  "map fst (bucket_add k x m) = (if k \<in> fst ` set m then map fst m else map fst m @ [k])"
  by (simp add: bucket_add_def update_keys split: option.split)

lemma filter_no_key: "k \<notin> key ` set xs \<Longrightarrow> filter (\<lambda>x. key x = k) xs = []"
  by (auto simp: filter_empty_conv)

lemma group_by_lookup:
  "map_of (group_by key xs) k =
     (if k \<in> key ` set xs then Some (filter (\<lambda>x. key x = k) xs) else None)"
proof (induction xs rule: rev_induct)
  case (snoc x xs)
  then show ?case
    using filter_no_key [of k key xs] by (auto simp: group_by_snoc bucket_add_lookup)
qed simp

lemma group_by_keys: "map fst (group_by key xs) = js_distinct (map key xs)"
proof (induction xs rule: rev_induct)
  case (snoc x xs)
  then have "fst ` set (group_by key xs) = key ` set xs"
    by (metis list.set_map set_js_distinct)
  with snoc show ?case by (simp add: group_by_snoc bucket_add_keys js_distinct_snoc)
qed simp

lemma group_by_distinct: "distinct (map fst (group_by key xs))"
  by (simp add: group_by_keys)

lemma group_by_entries:
  "group_by key xs = map (\<lambda>k. (k, filter (\<lambda>x. key x = k) xs)) (js_distinct (map key xs))"
proof -
  have "(k, g) \<in> set (group_by key xs) \<Longrightarrow> g = filter (\<lambda>x. key x = k) xs" for k g
    using group_by_lookup [of key xs k] map_of_eq_Some_iff [OF group_by_distinct, of key xs k g]
    by (auto split: if_splits)
  then have "group_by key xs = map (\<lambda>(k, g). (k, filter (\<lambda>x. key x = k) xs)) (group_by key xs)"
    by (auto intro!: map_idI [symmetric])
  also have "\<dots> = map (\<lambda>k. (k, filter (\<lambda>x. key x = k) xs)) (map fst (group_by key xs))"
    by (simp add: case_prod_beta)
  finally show ?thesis by (simp only: group_by_keys)
qed

lemma mset_concat_filter:
  "distinct ks \<Longrightarrow> key ` set xs \<subseteq> set ks \<Longrightarrow>
   mset (concat (map (\<lambda>k. filter (\<lambda>x. key x = k) xs) ks)) = mset xs"
proof (induction ks arbitrary: xs)
  case (Cons k ks)
  have "mset (concat (map (\<lambda>j. filter (\<lambda>x. key x = j) xs) ks))
      = mset (concat (map (\<lambda>j. filter (\<lambda>x. key x = j) (filter (\<lambda>x. key x \<noteq> k) xs)) ks))"
    using Cons.prems(1)
    by (intro arg_cong [of _ _ mset] arg_cong [of _ _ concat] map_cong refl)
      (auto intro!: filter_cong)
  also have "\<dots> = mset (filter (\<lambda>x. key x \<noteq> k) xs)"
    using Cons.prems by (intro Cons.IH) auto
  finally show ?case by (simp add: mset_filter)
qed simp

text \<open>A display that groups its items: every bucket holds exactly the items of its key, in their
  order, no bucket is empty and nothing is lost.\<close>

locale grouping =
  fixes groups :: "'a list \<Rightarrow> ('k \<times> 'a list) list"
    and key :: "'a \<Rightarrow> 'k"
  assumes groups_keys: "distinct (map fst (groups xs))" "fst ` set (groups xs) = key ` set xs"
    and groups_bucket: "(k, g) \<in> set (groups xs) \<Longrightarrow> mset g = mset (filter (\<lambda>x. key x = k) xs)"
begin

lemma bucket_nonempty: "(k, g) \<in> set (groups xs) \<Longrightarrow> g \<noteq> []"
proof
  assume g: "(k, g) \<in> set (groups xs)" "g = []"
  then have none: "filter (\<lambda>x. key x = k) xs = []"
    using groups_bucket [OF g(1)] by (metis mset_zero_iff)
  have "k \<in> key ` set xs"
    using g(1) groups_keys(2) [of xs] by (metis fst_conv imageI)
  with none show False by (auto simp: filter_empty_conv)
qed

lemma nothing_lost: "mset (concat (map snd (groups xs))) = mset xs"
proof -
  have "mset (concat (map snd gs)) = mset (concat (map (\<lambda>k. filter (\<lambda>x. key x = k) xs) (map fst gs)))"
    if "set gs \<subseteq> set (groups xs)" for gs
    using that by (induction gs) (auto simp: groups_bucket)
  from this [of "groups xs"] show ?thesis
    using mset_concat_filter [of "map fst (groups xs)" key xs] groups_keys [of xs] by auto
qed

lemma item_bucket: "x \<in> set xs \<Longrightarrow> \<exists>g. (key x, g) \<in> set (groups xs) \<and> x \<in> set g"
proof -
  assume x: "x \<in> set xs"
  with groups_keys(2) [of xs] obtain g where g: "(key x, g) \<in> set (groups xs)"
    by (metis imageI imageE prod.collapse)
  have "set g = set (filter (\<lambda>y. key y = key x) xs)"
    using groups_bucket [OF g] by (rule mset_eq_setD)
  with x have "x \<in> set g" by simp
  with g show ?thesis by blast
qed

end

lemma group_by_grouping: "grouping (group_by key) key"
proof
  show "distinct (map fst (group_by key xs))" for xs by (rule group_by_distinct)
  show "fst ` set (group_by key xs) = key ` set xs" for xs
    by (simp add: group_by_entries image_image)
  show "mset g = mset (filter (\<lambda>x. key x = k) xs)" if "(k, g) \<in> set (group_by key xs)" for k g xs
    using that by (auto simp: group_by_entries)
qed

lemma mset_concat_mset: "mset (concat xss) = \<Sum>\<^sub># (image_mset mset (mset xss))"
  by (induction xss) auto

text \<open>Blocks: a list cut into non-empty pieces of one kind each, no kind twice.\<close>

lemma blocks_adjacent:
  assumes "\<And>g x. g \<in> set gs \<Longrightarrow> x \<in> set g \<Longrightarrow> f x = k g" and "\<And>g. g \<in> set gs \<Longrightarrow> g \<noteq> []"
    and "distinct (map k gs)"
  shows "remdups_adj (map f (concat gs)) = map k gs"
  using assms
proof (induction gs)
  case (Cons g gs)
  have tail: "remdups_adj (map f (concat gs)) = map k gs" using Cons by simp
  have "k g \<notin> set (map f (concat gs))" using Cons.prems by fastforce
  then have new: "map f (concat gs) = [] \<or> hd (map f (concat gs)) \<noteq> k g"
    by (metis hd_in_set)
  have step: "remdups_adj (replicate (Suc n) c @ ys) = c # remdups_adj ys" if "ys = [] \<or> hd ys \<noteq> c" for n c ys
    using that by (induction n) (cases ys, auto)
  have "g \<noteq> []" using Cons.prems(2) by simp
  then obtain n where n: "length g = Suc n" by (cases g) auto
  have "map f g = replicate (length g) (k g)"
    using Cons.prems(1) [of g] by (intro replicate_eqI) auto
  then have "map f (concat (g # gs)) = replicate (Suc n) (k g) @ map f (concat gs)" using n by simp
  then show ?case using step [OF new] tail by simp
qed simp

lemma sorted_wrt_blocks:
  assumes "\<And>g x. g \<in> set gs \<Longrightarrow> x \<in> set g \<Longrightarrow> f x = k g" and "\<And>g. g \<in> set gs \<Longrightarrow> sorted_wrt R g"
    and "distinct (map k gs)"
  shows "sorted_wrt (\<lambda>a b. f a = f b \<longrightarrow> R a b) (concat gs)"
  using assms
proof (induction gs)
  case (Cons g gs)
  have "sorted_wrt R g" using Cons.prems(2) by simp
  then have "sorted_wrt (\<lambda>a b. f a = f b \<longrightarrow> R a b) g" by (rule sorted_wrt_mono_rel [rotated]) simp
  moreover have "f a \<noteq> f b" if "a \<in> set g" "b \<in> set (concat gs)" for a b
  proof -
    from that(2) obtain h where h: "h \<in> set gs" "b \<in> set h" by auto
    then have "k h \<in> k ` set gs" by simp
    then have "k h \<noteq> k g" using Cons.prems(3) by auto
    then show ?thesis using Cons.prems(1) [of g a] Cons.prems(1) [of h b] that h by simp
  qed
  moreover have "sorted_wrt (\<lambda>a b. f a = f b \<longrightarrow> R a b) (concat gs)" using Cons by simp
  ultimately show ?case by (simp add: sorted_wrt_append)
qed simp

section \<open>State machines\<close>

text \<open>
  A component driven by events: what one step keeps, every run keeps. The components interpret
  this at their own step function.
\<close>

locale event_machine =
  fixes step :: "'s \<Rightarrow> 'e \<Rightarrow> 's"
    and inv :: "'s \<Rightarrow> bool"
  assumes step_inv: "inv s \<Longrightarrow> inv (step s e)"
begin

lemma run_inv: "inv s \<Longrightarrow> inv (foldl step s es)"
  by (induction es arbitrary: s) (auto intro: step_inv)

lemma run_prefix_inv: "inv s \<Longrightarrow> inv (foldl step s (take n es))"
  by (rule run_inv)

end

text \<open>The same where what is kept depends on what the events bring in.\<close>

locale fed_machine =
  fixes step :: "'s \<Rightarrow> 'e \<Rightarrow> 's"
    and fed :: "'e \<Rightarrow> bool"
    and inv :: "'s \<Rightarrow> bool"
  assumes fed_step_inv: "inv s \<Longrightarrow> fed e \<Longrightarrow> inv (step s e)"
begin

lemma fed_run_inv: "inv s \<Longrightarrow> (\<And>e. e \<in> set es \<Longrightarrow> fed e) \<Longrightarrow> inv (foldl step s es)"
  by (induction es arbitrary: s) (auto intro: fed_step_inv)

end

sublocale event_machine \<subseteq> fed_machine step "\<lambda>e. True" inv
  by unfold_locales (rule step_inv)

text \<open>A component whose next step is not determined: a transition relation.\<close>

locale transition_system =
  fixes init :: "'s \<Rightarrow> bool"
    and trans :: "'s \<Rightarrow> 's \<Rightarrow> bool"
    and inv :: "'s \<Rightarrow> bool"
  assumes init_inv: "init s \<Longrightarrow> inv s"
    and trans_inv: "trans s t \<Longrightarrow> inv s \<Longrightarrow> inv t"
begin

lemma reach_inv: "trans\<^sup>*\<^sup>* s t \<Longrightarrow> init s \<Longrightarrow> inv t"
  by (induction rule: rtranclp_induct) (auto intro: init_inv trans_inv)

end

end
