(* ===== verification/AuthStore.thy ===== *)
theory AuthStore
  imports Prelude
begin

text \<open>
  The client-side authentication store, \<open>store/authStore.ts\<close>: who is signed in and which actions
  they hold. One function per store operation; \<open>set\<close> in the code merges the given fields into the
  store, which is a record update here. \<open>Date.now()\<close> is the argument \<open>now\<close>.
\<close>

text \<open>\<open>CurrentUserProfile\<close>, the body of \<open>GET /auth/me\<close>. \<open>permissions\<close> is optional because
  \<open>setProfile\<close> defends against its absence.\<close>

record current_user_profile =
  cu_name :: string
  cu_email :: string
  cu_role :: "string option"
  cu_permissions :: "string list option"
  cu_has_password :: bool
  cu_created_at :: string
  cu_active_sessions :: int
  cu_brand_color :: "string option"

record auth_state =
  isAuthenticated :: "bool option"
  authenticatedAt :: "int option"
  profile_name :: "string option"
  profile_email :: "string option"
  profile_role :: "string option"
  permissions :: "string list"
  hasPassword :: bool
  permissionsPending :: bool

definition initialProfile :: "auth_state \<Rightarrow> auth_state" where
  "initialProfile s = s\<lparr>profile_name := None, profile_email := None, profile_role := None,
     permissions := [], hasPassword := False, permissionsPending := False\<rparr>"

definition auth_initial :: auth_state where
  "auth_initial = \<lparr>isAuthenticated = None, authenticatedAt = None, profile_name = None,
     profile_email = None, profile_role = None, permissions = [], hasPassword = False,
     permissionsPending = False\<rparr>"

definition setAuthenticated :: "int \<Rightarrow> bool \<Rightarrow> auth_state \<Rightarrow> auth_state" where
  "setAuthenticated now b s =
     (if b then s\<lparr>isAuthenticated := Some True, authenticatedAt := Some now\<rparr>
      else initialProfile (s\<lparr>isAuthenticated := Some False, authenticatedAt := None\<rparr>))"

definition setProfile :: "current_user_profile \<Rightarrow> auth_state \<Rightarrow> auth_state" where
  "setProfile p s = s\<lparr>profile_name := Some (cu_name p), profile_email := Some (cu_email p),
     profile_role := cu_role p,
     permissions := (case cu_permissions p of None \<Rightarrow> [] | Some ps \<Rightarrow> ps),
     hasPassword := cu_has_password p, permissionsPending := False\<rparr>"

definition clearProfile :: "auth_state \<Rightarrow> auth_state" where
  "clearProfile s = initialProfile s"

definition dropPermissions :: "auth_state \<Rightarrow> auth_state" where
  "dropPermissions s = s\<lparr>permissions := [], permissionsPending := True\<rparr>"

definition reset_auth :: "auth_state \<Rightarrow> auth_state" where
  "reset_auth s = initialProfile (s\<lparr>isAuthenticated := None, authenticatedAt := None\<rparr>)"

lemmas auth_store_defs [store_simps] =
  initialProfile_def setAuthenticated_def setProfile_def clearProfile_def dropPermissions_def
  reset_auth_def auth_initial_def

text \<open>The operations as events, so that a run of the store is a list of them.\<close>

datatype auth_event =
    EvSetAuthenticated int bool
  | EvSetProfile current_user_profile
  | EvClearProfile
  | EvDropPermissions
  | EvReset

fun auth_step :: "auth_state \<Rightarrow> auth_event \<Rightarrow> auth_state" where
  "auth_step s (EvSetAuthenticated now b) = setAuthenticated now b s"
| "auth_step s (EvSetProfile p) = setProfile p s"
| "auth_step s EvClearProfile = clearProfile s"
| "auth_step s EvDropPermissions = dropPermissions s"
| "auth_step s EvReset = reset_auth s"

text \<open>
  What the store keeps true: the establishment timestamp exists exactly while a session is
  established, and a list known to be stale is empty.
\<close>

definition auth_inv :: "auth_state \<Rightarrow> bool" where
  "auth_inv s \<longleftrightarrow> (authenticatedAt s \<noteq> None \<longleftrightarrow> isAuthenticated s = Some True)
     \<and> (permissionsPending s \<longrightarrow> permissions s = [])"

lemma auth_inv_initial: "auth_inv auth_initial"
  by (simp add: auth_inv_def auth_initial_def)

lemma auth_step_inv: "auth_inv s \<Longrightarrow> auth_inv (auth_step s e)"
  by (cases e) (auto simp: auth_inv_def store_simps)

interpretation auth_machine: event_machine auth_step auth_inv
  by unfold_locales (rule auth_step_inv)

text \<open>In every state the store reaches from its initial state by any sequence of its
  operations, \<open>authenticatedAt\<close> is set exactly while \<open>isAuthenticated\<close> is true, and whenever the
  permission list is flagged as stale it is empty.\<close>

theorem auth_store_invariant:
  "auth_inv (foldl auth_step auth_initial es)"
  by (rule auth_machine.run_inv [OF auth_inv_initial])

end
