(* ===== verification/Authorization.thy ===== *)
theory Authorization
  imports AuthStore
begin

text \<open>
  The client-side permission checks of \<open>authorization/\<close>: the catalogue of actions, the \<open>can\<close> check
  every guard goes through, the grantability rules, the destructive-action list, the declarative
  guard \<open>Authorized\<close> (and its alias \<open>IfCan\<close>), and the route guard \<open>ProtectedRoute\<close> with the state
  React keeps for it between renders.
\<close>

section \<open>Actions\<close>

text \<open>\<open>PERMISSIONS\<close> in \<open>permissions.ts\<close>: the constant's name and its value.\<close>

definition PERMISSIONS :: "(string \<times> string) list" where
  "PERMISSIONS = [
    (''USERS_READ_OWN'', ''users:read_own''),
    (''USERS_UPDATE_OWN'', ''users:update_own''),
    (''USERS_LIST_ALL'', ''users:list_all''),
    (''USERS_UPDATE_ANY'', ''users:update_any''),
    (''USERS_DEACTIVATE_ANY'', ''users:deactivate_any''),
    (''USERS_ASSIGN_ROLE'', ''users:assign_role''),
    (''USERS_ASSIGN_SYSTEM_ROLE'', ''users:assign_system_role''),
    (''USERS_DELETE_ANY'', ''users:delete_any''),
    (''USERS_REACTIVATE'', ''users:reactivate''),
    (''POLICIES_READ'', ''policies:read''),
    (''POLICIES_CREATE'', ''policies:create''),
    (''POLICIES_UPDATE'', ''policies:update''),
    (''POLICIES_DELETE'', ''policies:delete''),
    (''POLICIES_ASSIGN'', ''policies:assign''),
    (''POLICIES_REVOKE'', ''policies:revoke''),
    (''PERMISSIONS_GRANT'', ''permissions:grant''),
    (''PERMISSIONS_REVOKE'', ''permissions:revoke''),
    (''PERMISSIONS_READ'', ''permissions:read''),
    (''SECURITY_AUDIT_READ'', ''security_audit:read''),
    (''RATE_LIMITS_READ'', ''rate_limits:read''),
    (''RATE_LIMITS_RESET'', ''rate_limits:reset'')]"

definition permission_values :: "string list" where
  "permission_values = map snd PERMISSIONS"

definition DESTRUCTIVE_ACTIONS :: "string list" where
  "DESTRUCTIVE_ACTIONS = [''users:deactivate_any'', ''users:delete_any'',
     ''users:assign_system_role'', ''policies:delete'', ''policies:revoke'',
     ''permissions:revoke'', ''rate_limits:reset'']"

definition isDestructiveAction :: "string \<Rightarrow> bool" where
  "isDestructiveAction a \<longleftrightarrow> a \<in> set DESTRUCTIVE_ACTIONS"

lemma destructive_actions_in_catalogue:
  "set DESTRUCTIVE_ACTIONS \<subseteq> set permission_values"
  by (simp add: DESTRUCTIVE_ACTIONS_def permission_values_def PERMISSIONS_def)

section \<open>The check\<close>

text \<open>The argument of \<open>can\<close> and of the guards: absent, one action, or "any of" a list.\<close>

datatype permission_arg = NoPermission | OneAction string | AnyOf "string list"

text \<open>\<open>if (!isAuthenticated) return false\<close> covers \<open>null\<close> (session not checked yet) and \<open>false\<close>. An
  absent argument reaches \<open>permissions.includes(undefined)\<close>, which holds for no list of strings.\<close>

fun holds_action :: "string list \<Rightarrow> permission_arg \<Rightarrow> bool" where
  "holds_action ps NoPermission = False"
| "holds_action ps (OneAction a) = (a \<in> set ps)"
| "holds_action ps (AnyOf as) = (\<exists>a \<in> set as. a \<in> set ps)"

definition can :: "auth_state \<Rightarrow> permission_arg \<Rightarrow> bool" where
  "can s p = (if isAuthenticated s \<noteq> Some True then False else holds_action (permissions s) p)"

definition useCan :: "auth_state \<Rightarrow> permission_arg \<Rightarrow> string option \<Rightarrow> bool" where
  "useCan s p resourceType = can s p"

definition canGrantAction :: "string \<Rightarrow> (permission_arg \<Rightarrow> bool) \<Rightarrow> bool" where
  "canGrantAction a c = c (OneAction a)"

definition canGrantPolicy :: "string list \<Rightarrow> (permission_arg \<Rightarrow> bool) \<Rightarrow> bool" where
  "canGrantPolicy actions c = (\<forall>a \<in> set actions. canGrantAction a c)"

lemma can_iff:
  "can s p \<longleftrightarrow> isAuthenticated s = Some True \<and> holds_action (permissions s) p"
  by (simp add: can_def)

lemma can_dropped [simp]: "\<not> can (dropPermissions s) p"
  by (cases p) (simp_all add: can_iff dropPermissions_def)

lemma can_signed_out [simp]: "\<not> can (setAuthenticated now False s) p"
  by (simp add: can_iff setAuthenticated_def initialProfile_def)

lemma canGrantPolicy_iff:
  "canGrantPolicy actions (can s) \<longleftrightarrow>
     actions = [] \<or> (isAuthenticated s = Some True \<and> set actions \<subseteq> set (permissions s))"
  by (cases actions) (auto simp: canGrantPolicy_def canGrantAction_def can_iff)

section \<open>Authorized and IfCan\<close>

datatype 'v guarded = Nothing | Children | Fallback 'v

definition Authorized :: "auth_state \<Rightarrow> permission_arg \<Rightarrow> string option \<Rightarrow> 'v \<Rightarrow> 'v guarded" where
  "Authorized s p resourceType fallback =
     (if isAuthenticated s = None then Nothing
      else if useCan s p resourceType then Children else Fallback fallback)"

definition IfCan :: "auth_state \<Rightarrow> permission_arg \<Rightarrow> string option \<Rightarrow> 'v \<Rightarrow> 'v guarded" where
  "IfCan s action resourceType fallback = Authorized s action resourceType fallback"

lemma IfCan_children: "IfCan s p r v = Children \<longleftrightarrow> can s p"
  by (auto simp: IfCan_def Authorized_def useCan_def can_iff)

section \<open>ProtectedRoute\<close>

datatype route_view = VerifyingSession | RedirectTo string | RouteChildren

text \<open>The two \<open>useState\<close> cells of the component.\<close>

record route_memory =
  prevIsAllowed :: bool
  wasEverAllowed :: bool

text \<open>\<open>!permission\<close>: an absent or empty string asks for no permission; an array is truthy.\<close>

fun no_permission_asked :: "permission_arg \<Rightarrow> bool" where
  "no_permission_asked NoPermission = True"
| "no_permission_asked (OneAction a) = (\<not> truthy a)"
| "no_permission_asked (AnyOf as) = False"

definition route_allowed :: "auth_state \<Rightarrow> permission_arg \<Rightarrow> bool" where
  "route_allowed s p \<longleftrightarrow> isAuthenticated s = Some True \<and> (no_permission_asked p \<or> can s p)"

definition route_mount :: "auth_state \<Rightarrow> permission_arg \<Rightarrow> route_memory" where
  "route_mount s p = \<lparr>prevIsAllowed = route_allowed s p, wasEverAllowed = route_allowed s p\<rparr>"

definition route_remember :: "auth_state \<Rightarrow> permission_arg \<Rightarrow> route_memory \<Rightarrow> route_memory" where
  "route_remember s p m =
     (let allowed = route_allowed s p in
      if allowed \<noteq> prevIsAllowed m
      then m\<lparr>prevIsAllowed := allowed, wasEverAllowed := (if allowed then True else wasEverAllowed m)\<rparr>
      else m)"

definition route_decision :: "auth_state \<Rightarrow> permission_arg \<Rightarrow> route_memory \<Rightarrow> route_view" where
  "route_decision s p m =
     (if isAuthenticated s = None then VerifyingSession
      else if isAuthenticated s = Some False then RedirectTo ''/login''
      else if \<not> route_allowed s p then
        (if wasEverAllowed m \<and> permissionsPending s then VerifyingSession
         else if wasEverAllowed m then RedirectTo ''/dashboard''
         else RedirectTo ''/not-authorized'')
      else RouteChildren)"

text \<open>One render: the state set during render is seen by the render that commits.\<close>

definition route_render :: "permission_arg \<Rightarrow> auth_state \<Rightarrow> route_memory \<Rightarrow> route_view \<times> route_memory"
where
  "route_render p s m = (let m' = route_remember s p m in (route_decision s p m', m'))"

text \<open>The memory after a mounted guard has been rendered in the given store states.\<close>

fun route_history :: "permission_arg \<Rightarrow> auth_state list \<Rightarrow> route_memory \<Rightarrow> route_memory" where
  "route_history p [] m = m"
| "route_history p (s # ss) m = route_history p ss (snd (route_render p s m))"

definition route_memory_ok :: "route_memory \<Rightarrow> bool" where
  "route_memory_ok m \<longleftrightarrow> (prevIsAllowed m \<longrightarrow> wasEverAllowed m)"

lemma route_mount_ok: "route_memory_ok (route_mount s p)"
  by (simp add: route_memory_ok_def route_mount_def)

lemma route_render_remembers:
  "route_memory_ok m \<Longrightarrow> wasEverAllowed (snd (route_render p s m)) \<longleftrightarrow> wasEverAllowed m \<or> route_allowed s p"
  by (auto simp: route_render_def route_remember_def Let_def route_memory_ok_def)

lemma route_render_ok: "route_memory_ok m \<Longrightarrow> route_memory_ok (snd (route_render p s m))"
  by (auto simp: route_render_def route_remember_def Let_def route_memory_ok_def)

lemma route_history_ok: "route_memory_ok m \<Longrightarrow> route_memory_ok (route_history p ss m)"
  by (induction ss arbitrary: m) (auto intro: route_render_ok)

lemma route_history_remembers:
  "route_memory_ok m \<Longrightarrow>
   wasEverAllowed (route_history p ss m) \<longleftrightarrow> wasEverAllowed m \<or> (\<exists>s \<in> set ss. route_allowed s p)"
  by (induction ss arbitrary: m) (auto simp: route_render_remembers route_render_ok)

lemma route_history_snoc:
  "route_history p (ss @ [s]) m = snd (route_render p s (route_history p ss m))"
  by (induction ss arbitrary: m) auto

section \<open>Properties\<close>

text \<open>Permission checks fail closed: \<open>can\<close> answers yes only for a store in which a session is
  established and one of the asked actions is in the held list, so it is false before the session
  has been checked, when signed out, right after a \<open>permissions_changed\<close> push has dropped the list,
  and for an absent or empty request.\<close>

theorem can_fails_closed:
  "(can s p \<longleftrightarrow> isAuthenticated s = Some True \<and>
       (\<exists>a \<in> set (permissions s). p = OneAction a \<or> (\<exists>as. p = AnyOf as \<and> a \<in> set as)))
   \<and> \<not> can auth_initial p \<and> \<not> can (setAuthenticated now False s) p
   \<and> \<not> can (dropPermissions s) p \<and> \<not> can s NoPermission \<and> \<not> can s (AnyOf [])"
proof -
  have "\<not> can auth_initial p" by (simp add: can_iff auth_initial_def)
  moreover have "\<not> can s NoPermission" "\<not> can s (AnyOf [])" by (simp_all add: can_iff)
  moreover have "can s p \<longleftrightarrow> isAuthenticated s = Some True \<and>
       (\<exists>a \<in> set (permissions s). p = OneAction a \<or> (\<exists>as. p = AnyOf as \<and> a \<in> set as))"
    by (cases p) (auto simp: can_iff)
  ultimately show ?thesis by simp
qed

text \<open>C5. A route guard mounted in some store state and rendered in any sequence of store states
  shows its children in the last one exactly when that state has an established session that holds
  the asked permission (or none is asked), sends a caller without a session to the login page, and
  otherwise tells an access that was never there (the not-authorized page) from one that was taken
  away while the page was open (a loader while the new list is being fetched, then the dashboard).\<close>

theorem protected_route_decision:
  "let m = route_history p ss (route_mount s0 p);
       ever = (\<exists>s' \<in> insert s0 (insert s (set ss)). route_allowed s' p);
       v = fst (route_render p s m)
   in (v = RouteChildren \<longleftrightarrow> route_allowed s p)
      \<and> (isAuthenticated s = None \<longrightarrow> v = VerifyingSession)
      \<and> (isAuthenticated s = Some False \<longrightarrow> v = RedirectTo ''/login'')
      \<and> (isAuthenticated s = Some True \<and> \<not> route_allowed s p \<longrightarrow>
           v = (if \<not> ever then RedirectTo ''/not-authorized''
                else if permissionsPending s then VerifyingSession
                else RedirectTo ''/dashboard''))"
proof -
  let ?m = "route_history p ss (route_mount s0 p)"
  have "wasEverAllowed (route_remember s p ?m)
      \<longleftrightarrow> (\<exists>s' \<in> insert s0 (insert s (set ss)). route_allowed s' p)"
    using route_render_remembers [OF route_history_ok [OF route_mount_ok], of p s p ss s0 p]
      route_history_remembers [OF route_mount_ok, of p ss s0 p]
    by (auto simp: route_render_def Let_def route_mount_def)
  then show ?thesis
    by (cases "isAuthenticated s")
      (auto simp: route_render_def route_decision_def Let_def route_allowed_def)
qed

theorem protected_route_decision_witness:
  "let p = OneAction ''users:list_all'';
       s = auth_initial\<lparr>isAuthenticated := Some True, authenticatedAt := Some 5,
                        permissions := [''users:list_all'']\<rparr>
   in fst (route_render p (dropPermissions s) (route_history p [] (route_mount s p))) = VerifyingSession
      \<and> fst (route_render p (s\<lparr>permissions := []\<rparr>) (route_history p [] (route_mount s p)))
          = RedirectTo ''/dashboard''"
  using protected_route_decision
    [of "OneAction ''users:list_all''" "[]"
        "auth_initial\<lparr>isAuthenticated := Some True, authenticatedAt := Some 5,
                      permissions := [''users:list_all'']\<rparr>"
        "dropPermissions (auth_initial\<lparr>isAuthenticated := Some True, authenticatedAt := Some 5,
                      permissions := [''users:list_all'']\<rparr>)"]
    protected_route_decision
    [of "OneAction ''users:list_all''" "[]"
        "auth_initial\<lparr>isAuthenticated := Some True, authenticatedAt := Some 5,
                      permissions := [''users:list_all'']\<rparr>"
        "auth_initial\<lparr>isAuthenticated := Some True, authenticatedAt := Some 5, permissions := []\<rparr>"]
  by (simp add: Let_def route_allowed_def can_iff dropPermissions_def auth_initial_def)

text \<open>A caller may offer a policy for granting only if they hold every action in it; in
  particular dropping an action from a grantable policy keeps it grantable, and holding more
  actions never makes a policy ungrantable.\<close>

theorem grantable_policies:
  "isAuthenticated s = Some True \<Longrightarrow>
   (canGrantPolicy actions (can s) \<longleftrightarrow> set actions \<subseteq> set (permissions s))
   \<and> (canGrantPolicy actions (can s) \<longrightarrow> canGrantPolicy (filter keep actions) (can s))
   \<and> (canGrantPolicy actions (can s) \<longrightarrow>
        canGrantPolicy actions (can (s\<lparr>permissions := extra @ permissions s\<rparr>)))"
  by (auto simp: canGrantPolicy_iff)

theorem grantable_policies_witness:
  "canGrantPolicy [''policies:read''] (can (auth_initial\<lparr>isAuthenticated := Some True,
     permissions := [''policies:read'', ''policies:create'']\<rparr>))"
  using grantable_policies [of "auth_initial\<lparr>isAuthenticated := Some True,
     permissions := [''policies:read'', ''policies:create'']\<rparr>" "[''policies:read'']"]
  by (simp add: auth_initial_def)

end
