(* ===== verification/JsValues.thy ===== *)
theory JsValues
  imports Prelude
begin

text \<open>
  Values that cross the wire: JSON documents with the accessors the code uses on them (optional
  chaining, the nullish operator, truthiness), the HTTP requests the \<open>api/*.ts\<close> modules build, and
  \<open>encodeURIComponent\<close>. The text of a stored or received JSON document is a parameter through its
  parse: \<open>JSON.parse\<close> either throws (\<open>Malformed\<close>) or yields a document.
\<close>

section \<open>JSON documents\<close>

datatype json =
    JNull
  | JBool bool
  | JNum int
  | JStr string
  | JArr "json list"
  | JObj "(string \<times> json) list"

datatype json_text = Malformed | Document json

text \<open>\<open>v?.f\<close>: absent on \<open>undefined\<close>, on \<open>null\<close>, and on values without such a property.\<close>

fun json_field :: "string \<Rightarrow> json option \<Rightarrow> json option" where
  "json_field f (Some (JObj kvs)) = map_of kvs f"
| "json_field f _ = None"

text \<open>\<open>a ?? b\<close>.\<close>

fun nullish_or :: "json option \<Rightarrow> json option \<Rightarrow> json option" where
  "nullish_or None b = b"
| "nullish_or (Some JNull) b = b"
| "nullish_or (Some v) b = Some v"

fun json_truthy :: "json option \<Rightarrow> bool" where
  "json_truthy None = False"
| "json_truthy (Some JNull) = False"
| "json_truthy (Some (JBool b)) = b"
| "json_truthy (Some (JNum n)) = (n \<noteq> 0)"
| "json_truthy (Some (JStr s)) = truthy s"
| "json_truthy (Some (JArr vs)) = True"
| "json_truthy (Some (JObj kvs)) = True"

text \<open>A plain object, as opposed to \<open>null\<close>, an array or a primitive.\<close>

fun is_plain_object :: "json \<Rightarrow> bool" where
  "is_plain_object (JObj kvs) = True"
| "is_plain_object _ = False"

section \<open>encodeURIComponent\<close>

definition hex_digit :: "nat \<Rightarrow> char" where
  "hex_digit n = (if n < 10 then char_of (48 + n) else char_of (55 + n))"

definition percent_byte :: "nat \<Rightarrow> string" where
  "percent_byte n = [CHR ''%'', hex_digit (n div 16), hex_digit (n mod 16)]"

definition uri_unreserved :: "char \<Rightarrow> bool" where
  "uri_unreserved c \<longleftrightarrow> (let n = (of_char c :: nat) in
     (48 \<le> n \<and> n \<le> 57) \<or> (65 \<le> n \<and> n \<le> 90) \<or> (97 \<le> n \<and> n \<le> 122)
     \<or> n \<in> {45, 95, 46, 33, 126, 42, 39, 40, 41})"

text \<open>A code point below 256 takes one byte of UTF-8, or two from 128 on.\<close>

definition encode_char :: "char \<Rightarrow> string" where
  "encode_char c = (let n = (of_char c :: nat) in
     if uri_unreserved c then [c]
     else if n < 128 then percent_byte n
     else percent_byte (192 + n div 64) @ percent_byte (128 + n mod 64))"

definition encodeURIComponent :: "string \<Rightarrow> string" where
  "encodeURIComponent s = concat (map encode_char s)"

lemma encodeURIComponent_simps [simp]:
  "encodeURIComponent [] = []"
  "encodeURIComponent (c # s) = encode_char c @ encodeURIComponent s"
  by (simp_all add: encodeURIComponent_def)

text \<open>No reserved delimiter survives the encoding, so an encoded value stays inside its path
  segment.\<close>

definition url_delimiter :: "char \<Rightarrow> bool" where
  "url_delimiter c \<longleftrightarrow> c \<in> {CHR ''/'', CHR ''?'', CHR ''#'', CHR ''&'', CHR ''='', CHR ''+''}"

lemma hex_digit_no_delimiter:
  "n < 16 \<Longrightarrow> \<not> url_delimiter (hex_digit n)"
proof -
  assume n: "n < 16"
  have "\<forall>m \<in> set [0..<16]. \<not> url_delimiter (hex_digit m)" by code_simp
  with n show ?thesis by simp
qed

lemma percent_byte_no_delimiter:
  "n < 256 \<Longrightarrow> c \<in> set (percent_byte n) \<Longrightarrow> \<not> url_delimiter c"
proof -
  assume n: "n < 256" and c: "c \<in> set (percent_byte n)"
  have "n div 16 < 16" "n mod 16 < 16" using n by auto
  then have "\<not> url_delimiter (hex_digit (n div 16))" "\<not> url_delimiter (hex_digit (n mod 16))"
    by (simp_all add: hex_digit_no_delimiter)
  moreover have "\<not> url_delimiter (CHR ''%'')" by (simp add: url_delimiter_def)
  ultimately show ?thesis using c by (auto simp: percent_byte_def)
qed

lemma unreserved_no_delimiter: "uri_unreserved c \<Longrightarrow> \<not> url_delimiter c"
  by (auto simp: uri_unreserved_def url_delimiter_def Let_def)

lemma encode_char_no_delimiter:
  assumes "d \<in> set (encode_char c)"
  shows "\<not> url_delimiter d"
proof (cases "uri_unreserved c")
  case True
  with assms show ?thesis by (auto simp: encode_char_def Let_def dest: unreserved_no_delimiter)
next
  case False
  let ?n = "of_char c :: nat"
  have n: "?n < 256" by simp
  then have "192 + ?n div 64 < 256" "128 + ?n mod 64 < 256" by linarith+
  note n = this n
  have bytes: "\<not> url_delimiter d"
    if "d \<in> set (percent_byte k)" "k \<in> {?n, 192 + ?n div 64, 128 + ?n mod 64}" for k
    by (rule percent_byte_no_delimiter [OF _ that(1)]) (use that(2) n in auto)
  from False assms show ?thesis
    by (auto simp: encode_char_def Let_def split: if_splits dest: bytes)
qed

lemma encodeURIComponent_no_delimiter:
  "d \<in> set (encodeURIComponent s) \<Longrightarrow> \<not> url_delimiter d"
  by (induction s) (auto dest: encode_char_no_delimiter)

section \<open>Numbers in templates\<close>

fun nat_text :: "nat \<Rightarrow> string" where
  "nat_text n = (if n < 10 then [char_of (48 + n)] else nat_text (n div 10) @ [char_of (48 + n mod 10)])"

definition int_text :: "int \<Rightarrow> string" where
  "int_text i = (if i < 0 then CHR ''-'' # nat_text (nat (- i)) else nat_text (nat i))"

declare nat_text.simps [simp del]

lemma nat_text_digits: "c \<in> set (nat_text n) \<Longrightarrow> 48 \<le> (of_char c :: nat) \<and> (of_char c :: nat) \<le> 57"
proof (induction n rule: nat_text.induct)
  case (1 n)
  have digit: "(of_char (char_of (48 + k) :: char) :: nat) = 48 + k" if "k < 10" for k :: nat
  proof -
    from that have "48 + k < 256" by simp
    then show ?thesis by (simp only: of_char_of mod_less)
  qed
  then have "(of_char (char_of (48 + n mod 10) :: char) :: nat) = 48 + n mod 10" "n mod 10 < 10"
    by simp_all
  with 1 digit [of n] show ?case by (auto simp: nat_text.simps [of n] split: if_splits)
qed

text \<open>Reading the digits back: different numbers have different texts.\<close>

definition digits_value :: "string \<Rightarrow> nat" where
  "digits_value s = foldl (\<lambda>v c. 10 * v + (of_char c - 48)) 0 s"

lemma digits_value_nat_text: "digits_value (nat_text n) = n"
proof (induction n rule: nat_text.induct)
  case (1 n)
  have digit: "(of_char (char_of (48 + k) :: char) :: nat) - 48 = k" if "k < 10" for k :: nat
  proof -
    from that have "48 + k < 256" by simp
    then show ?thesis by (simp only: of_char_of mod_less)
  qed
  show ?case
  proof (cases "n < 10")
    case True
    then show ?thesis using digit [of n] by (simp add: nat_text.simps [of n] digits_value_def)
  next
    case False
    then have "digits_value (nat_text (n div 10)) = n div 10" by (rule 1)
    then show ?thesis using False digit [of "n mod 10"]
      by (simp add: nat_text.simps [of n] digits_value_def) 
  qed
qed

lemma nat_text_inj: "nat_text m = nat_text n \<Longrightarrow> m = n"
  by (metis digits_value_nat_text)

lemma nat_text_no_minus: "nat_text n \<noteq> CHR ''-'' # s"
proof
  assume "nat_text n = CHR ''-'' # s"
  then have "48 \<le> (of_char CHR ''-'' :: nat)" using nat_text_digits [of "CHR ''-''" n] by simp
  then show False by simp
qed

lemma int_text_inj: "int_text m = int_text n \<Longrightarrow> m = n"
  using nat_text_no_minus by (auto simp: int_text_def nat_text_no_minus [symmetric] dest: nat_text_inj split: if_split_asm)

lemma int_text_no_delimiter: "c \<in> set (int_text i) \<Longrightarrow> \<not> url_delimiter c"
proof -
  assume "c \<in> set (int_text i)"
  then have "c = CHR ''-'' \<or> (48 \<le> (of_char c :: nat) \<and> (of_char c :: nat) \<le> 57)"
    by (auto simp: int_text_def dest: nat_text_digits split: if_splits)
  then show ?thesis by (auto simp: url_delimiter_def)
qed

section \<open>What the receiver of an encoded segment reads\<close>

definition hex_value :: "char \<Rightarrow> nat" where
  "hex_value c = (let n = (of_char c :: nat) in if n < 65 then n - 48 else n - 55)"

fun percent_decode :: "string \<Rightarrow> nat list" where
  "percent_decode [] = []"
| "percent_decode (c # cs) =
     (if c = CHR ''%'' then (case cs of a # b # r \<Rightarrow> (hex_value a * 16 + hex_value b) # percent_decode r
                              | _ \<Rightarrow> of_char c # percent_decode cs)
      else of_char c # percent_decode cs)"

fun utf8_decode :: "nat list \<Rightarrow> string" where
  "utf8_decode [] = []"
| "utf8_decode (b # bs) =
     (if b < 128 then char_of b # utf8_decode bs
      else (case bs of b2 # r \<Rightarrow> char_of ((b - 192) * 64 + (b2 - 128)) # utf8_decode r | [] \<Rightarrow> []))"

definition decodeURIComponent :: "string \<Rightarrow> string" where
  "decodeURIComponent s = utf8_decode (percent_decode s)"

lemma hex_value_digit: "n < 16 \<Longrightarrow> hex_value (hex_digit n) = n"
proof -
  assume n: "n < 16"
  have "(of_char (char_of k :: char) :: nat) = k" if "k < 256" for k :: nat
    using that by (simp only: of_char_of mod_less)
  from this [of "48 + n"] this [of "55 + n"] n show ?thesis
    by (simp add: hex_value_def hex_digit_def Let_def)
qed

lemma percent_decode_byte:
  "n < 256 \<Longrightarrow> percent_decode (percent_byte n @ s) = n # percent_decode s"
  by (simp add: percent_byte_def hex_value_digit)

lemma unreserved_ascii: "uri_unreserved c \<Longrightarrow> (of_char c :: nat) < 128 \<and> c \<noteq> CHR ''%''"
  by (auto simp: uri_unreserved_def Let_def)

lemma percent_decode_plain: "c \<noteq> CHR ''%'' \<Longrightarrow> percent_decode (c # s) = of_char c # percent_decode s"
  by simp

lemma utf8_decode_two:
  "utf8_decode ((192 + n div 64) # (128 + n mod 64) # bs) = char_of n # utf8_decode bs"
proof -
  have "192 + n div 64 - 192 = n div 64" "128 + n mod 64 - 128 = n mod 64" by simp_all
  then have "(192 + n div 64 - 192) * 64 + (128 + n mod 64 - 128) = n" by simp
  then show ?thesis by (subst utf8_decode.simps(2)) (simp del: utf8_decode.simps)
qed

lemma decode_encode_char:
  "decodeURIComponent (encode_char c @ s) = c # decodeURIComponent s"
proof -
  let ?n = "of_char c :: nat"
  have n: "?n < 256" by simp
  consider "uri_unreserved c" | "\<not> uri_unreserved c" "?n < 128" | "\<not> uri_unreserved c" "128 \<le> ?n"
    by linarith
  then show ?thesis
  proof cases
    case 1
    with unreserved_ascii [OF 1] show ?thesis
      by (simp add: encode_char_def Let_def decodeURIComponent_def percent_decode_plain
          del: percent_decode.simps)
  next
    case 2
    with n show ?thesis
      by (simp add: encode_char_def Let_def decodeURIComponent_def percent_decode_byte
          del: percent_decode.simps)
  next
    case 3
    have "192 + ?n div 64 < 256" "128 + ?n mod 64 < 256" using n by linarith+
    with 3 n show ?thesis
      by (simp add: encode_char_def Let_def decodeURIComponent_def percent_decode_byte utf8_decode_two
          del: percent_decode.simps utf8_decode.simps)
  qed
qed

lemma decode_encode [simp]: "decodeURIComponent (encodeURIComponent s) = s"
  by (induction s) (simp_all add: decode_encode_char, simp add: decodeURIComponent_def)

lemma encodeURIComponent_inj: "encodeURIComponent a = encodeURIComponent b \<Longrightarrow> a = b"
  by (metis decode_encode)

section \<open>Requests\<close>

datatype http_method = GET | POST | PUT | PATCH | DELETE

text \<open>A query parameter whose value is \<open>undefined\<close> is kept as \<open>None\<close>; axios drops it.\<close>

record http_request =
  req_method :: http_method
  req_url :: string
  req_params :: "(string \<times> json option) list"
  req_body :: "json option"

definition http_get :: "string \<Rightarrow> (string \<times> json option) list \<Rightarrow> http_request" where
  "http_get u ps = \<lparr>req_method = GET, req_url = u, req_params = ps, req_body = None\<rparr>"

definition http_send :: "http_method \<Rightarrow> string \<Rightarrow> json option \<Rightarrow> http_request" where
  "http_send m u b = \<lparr>req_method = m, req_url = u, req_params = [], req_body = b\<rparr>"

text \<open>An object literal: properties whose value is \<open>undefined\<close> do not reach the JSON body.\<close>

fun json_object :: "(string \<times> json option) list \<Rightarrow> json" where
  "json_object kvs = JObj (List.map_filter (\<lambda>(k, v). map_option (Pair k) v) kvs)"

abbreviation opt_str :: "string option \<Rightarrow> json option" where
  "opt_str \<equiv> map_option JStr"

abbreviation opt_bool :: "bool option \<Rightarrow> json option" where
  "opt_bool \<equiv> map_option JBool"

end
