(* ===== verification/QueryClient.thy ===== *)
theory QueryClient
  imports AuthStore JsValues
begin

text \<open>
  The shared TanStack query client as the program uses it. The client itself is a library, so the
  model records which commands the code issues, in order; a theorem that needs to know what a
  command does to the cache takes the cache as a parameter with the library's documented laws
  (\<open>query_client_laws\<close>): \<open>removeQueries\<close> matches keys by prefix, \<open>setQueryData\<close> writes one key,
  \<open>invalidateQueries\<close> and \<open>cancelQueries\<close> keep the data they mark.

  The keys are the constants of \<open>auth/current_user\<close>, \<open>active_sessions\<close>, \<open>policies/queries\<close>,
  \<open>users/queries\<close>, \<open>audit_log\<close> and \<open>dashboard\<close>. The record \<open>client\<close> is the part of the tab's
  state the session components share: the authentication store, the commands issued so far, the
  toasts shown so far and the self-mutation flag.
\<close>

datatype key_part = KStr string | KNum int | KBool bool | KNone | KParams "(string \<times> json option) list"

type_synonym qkey = "key_part list"

definition CURRENT_USER_QUERY_KEY :: qkey where
  "CURRENT_USER_QUERY_KEY = [KStr ''currentUser'']"

definition SESSIONS_QUERY_KEY :: qkey where
  "SESSIONS_QUERY_KEY = [KStr ''sessions'', KStr ''me'']"

definition POLICIES_QUERY_KEY :: qkey where
  "POLICIES_QUERY_KEY = [KStr ''policies'']"

definition policyHistoryQueryKey :: "string \<Rightarrow> int \<Rightarrow> int \<Rightarrow> qkey" where
  "policyHistoryQueryKey p page pageSize =
     [KStr ''policies'', KStr p, KStr ''history'', KNum page, KNum pageSize]"

definition policyHoldersQueryKey :: "string \<Rightarrow> qkey" where
  "policyHoldersQueryKey p = [KStr ''policies'', KStr p, KStr ''holders'']"

definition MY_POLICIES_QUERY_KEY :: qkey where
  "MY_POLICIES_QUERY_KEY = [KStr ''policies'', KStr ''me'']"

definition userPoliciesQueryKey :: "string \<Rightarrow> qkey" where
  "userPoliciesQueryKey e = [KStr ''policies'', KStr ''user'', KStr e]"

definition MY_PERMISSIONS_QUERY_KEY :: qkey where
  "MY_PERMISSIONS_QUERY_KEY = [KStr ''permissions'', KStr ''me'']"

definition userPermissionsQueryKey :: "string \<Rightarrow> qkey" where
  "userPermissionsQueryKey e = [KStr ''permissions'', KStr ''user'', KStr e]"

definition PERMISSION_CATALOG_QUERY_KEY :: qkey where
  "PERMISSION_CATALOG_QUERY_KEY = [KStr ''permissions'', KStr ''catalog'']"

definition PERMISSION_CATALOG_USAGE_QUERY_KEY :: qkey where
  "PERMISSION_CATALOG_USAGE_QUERY_KEY = [KStr ''permissions'', KStr ''catalog'', KStr ''usage'']"

definition USERS_QUERY_KEY :: qkey where
  "USERS_QUERY_KEY = [KStr ''users'']"

definition USER_STATS_QUERY_KEY :: qkey where
  "USER_STATS_QUERY_KEY = [KStr ''users'', KStr ''stats'']"

definition APPLICATIONS_QUERY_KEY :: qkey where
  "APPLICATIONS_QUERY_KEY = [KStr ''applications'']"

definition applicationsListQueryKey :: "int \<Rightarrow> int \<Rightarrow> qkey" where
  "applicationsListQueryKey limit offset = [KStr ''applications'', KStr ''list'', KNum limit, KNum offset]"

definition applicationQueryKey :: "int \<Rightarrow> qkey" where
  "applicationQueryKey i = [KStr ''applications'', KNum i]"

definition CAREER_KNOWLEDGE_QUERY_KEY :: qkey where
  "CAREER_KNOWLEDGE_QUERY_KEY = [KStr ''career-knowledge'']"

definition MY_AUTHORIZATION_AUDIT_LOG_QUERY_KEY :: qkey where
  "MY_AUTHORIZATION_AUDIT_LOG_QUERY_KEY = [KStr ''auditLog'', KStr ''authorization'', KStr ''me'']"

definition MY_SECURITY_AUDIT_LOG_QUERY_KEY :: qkey where
  "MY_SECURITY_AUDIT_LOG_QUERY_KEY = [KStr ''auditLog'', KStr ''security'', KStr ''me'']"

definition PREVIOUS_LOGIN_QUERY_KEY :: qkey where
  "PREVIOUS_LOGIN_QUERY_KEY =
     [KStr ''auditLog'', KStr ''security'', KStr ''me'', KStr ''previousLogin'']"

definition RATE_LIMITS_QUERY_KEY :: qkey where
  "RATE_LIMITS_QUERY_KEY = [KStr ''rate-limits'']"

definition RATE_LIMITS_SUMMARY_QUERY_KEY :: qkey where
  "RATE_LIMITS_SUMMARY_QUERY_KEY = [KStr ''rate-limits'', KStr ''summary'']"

definition SECURITY_AUDIT_LOG_QUERY_KEY :: qkey where
  "SECURITY_AUDIT_LOG_QUERY_KEY = [KStr ''auditLog'', KStr ''security'', KStr ''all'']"

definition LOGIN_TREND_QUERY_KEY :: qkey where
  "LOGIN_TREND_QUERY_KEY = [KStr ''auditLog'', KStr ''security'', KStr ''all'', KStr ''loginTrend'']"

definition MY_LOGIN_TREND_QUERY_KEY :: qkey where
  "MY_LOGIN_TREND_QUERY_KEY = [KStr ''auditLog'', KStr ''security'', KStr ''me'', KStr ''loginTrend'']"

definition AUTHORIZATION_AUDIT_LOG_QUERY_KEY :: qkey where
  "AUTHORIZATION_AUDIT_LOG_QUERY_KEY = [KStr ''auditLog'', KStr ''authorization'', KStr ''all'']"

definition userAuthorizationAuditLogQueryKey :: "string \<Rightarrow> qkey" where
  "userAuthorizationAuditLogQueryKey e =
     [KStr ''auditLog'', KStr ''authorization'', KStr ''user'', KStr e]"

lemmas query_key_defs =
  applicationsListQueryKey_def applicationQueryKey_def RATE_LIMITS_QUERY_KEY_def
  RATE_LIMITS_SUMMARY_QUERY_KEY_def SECURITY_AUDIT_LOG_QUERY_KEY_def LOGIN_TREND_QUERY_KEY_def
  MY_LOGIN_TREND_QUERY_KEY_def AUTHORIZATION_AUDIT_LOG_QUERY_KEY_def
  userAuthorizationAuditLogQueryKey_def
  USER_STATS_QUERY_KEY_def APPLICATIONS_QUERY_KEY_def CAREER_KNOWLEDGE_QUERY_KEY_def
  CURRENT_USER_QUERY_KEY_def SESSIONS_QUERY_KEY_def POLICIES_QUERY_KEY_def
  policyHistoryQueryKey_def policyHoldersQueryKey_def MY_POLICIES_QUERY_KEY_def
  userPoliciesQueryKey_def MY_PERMISSIONS_QUERY_KEY_def userPermissionsQueryKey_def
  PERMISSION_CATALOG_QUERY_KEY_def PERMISSION_CATALOG_USAGE_QUERY_KEY_def USERS_QUERY_KEY_def
  MY_AUTHORIZATION_AUDIT_LOG_QUERY_KEY_def MY_SECURITY_AUDIT_LOG_QUERY_KEY_def
  PREVIOUS_LOGIN_QUERY_KEY_def

datatype query_data = DNull | DProfile current_user_profile | DJson json

datatype query_command =
    SetQueryData qkey query_data
  | RemoveQueries qkey
  | InvalidateQueries qkey
  | CancelQueries qkey
  | ResetQueries

fun key_prefix :: "qkey \<Rightarrow> qkey \<Rightarrow> bool" where
  "key_prefix [] q = True"
| "key_prefix (k # ks) [] = False"
| "key_prefix (k # ks) (q # qs) = (k = q \<and> key_prefix ks qs)"

lemma key_prefix_refl [simp]: "key_prefix k k"
  by (induction k) auto

lemma key_prefix_append [simp]: "key_prefix k (k @ q)"
  by (induction k) auto

text \<open>What the library documents about its cache: \<open>apply\<close> performs a command and \<open>cached\<close> reads
  the data held for a key.\<close>

definition query_client_laws ::
  "(query_command \<Rightarrow> 'c \<Rightarrow> 'c) \<Rightarrow> ('c \<Rightarrow> qkey \<Rightarrow> query_data option) \<Rightarrow> bool" where
  "query_client_laws run cached \<longleftrightarrow>
     (\<forall>k c q. cached (run (RemoveQueries k) c) q = (if key_prefix k q then None else cached c q))
   \<and> (\<forall>k d c q. cached (run (SetQueryData k d) c) q = (if q = k then Some d else cached c q))
   \<and> (\<forall>k c q. cached (run (InvalidateQueries k) c) q = cached c q)
   \<and> (\<forall>k c q. cached (run (CancelQueries k) c) q = cached c q)"

text \<open>An instance of the laws, for the witnesses: the cache as a map.\<close>

fun map_cache_run :: "query_command \<Rightarrow> (qkey \<Rightarrow> query_data option) \<Rightarrow> (qkey \<Rightarrow> query_data option)"
where
  "map_cache_run (SetQueryData k d) c = c(k := Some d)"
| "map_cache_run (RemoveQueries k) c = (\<lambda>q. if key_prefix k q then None else c q)"
| "map_cache_run (InvalidateQueries k) c = c"
| "map_cache_run (CancelQueries k) c = c"
| "map_cache_run ResetQueries c = (\<lambda>q. None)"

lemma map_cache_laws: "query_client_laws map_cache_run (\<lambda>c. c)"
  by (simp add: query_client_laws_def)

section \<open>The tab's shared state\<close>

datatype toast_type = ToastSuccess | ToastError | ToastWarning | ToastInfo | ToastLoading

record shown_toast =
  shown_title :: string
  shown_description :: "string option"
  shown_type :: toast_type

record client =
  auth :: auth_state
  issued :: "query_command list"
  shown :: "shown_toast list"
  lastSelfMutationAt :: "int option"

definition client_initial :: client where
  "client_initial = \<lparr>auth = auth_initial, issued = [], shown = [], lastSelfMutationAt = None\<rparr>"

definition issue :: "query_command list \<Rightarrow> client \<Rightarrow> client" where
  "issue cmds c = c\<lparr>issued := issued c @ cmds\<rparr>"

definition with_auth :: "(auth_state \<Rightarrow> auth_state) \<Rightarrow> client \<Rightarrow> client" where
  "with_auth f c = c\<lparr>auth := f (auth c)\<rparr>"

lemma issue_simps [simp]:
  "auth (issue cmds c) = auth c" "shown (issue cmds c) = shown c"
  "issued (issue cmds c) = issued c @ cmds"
  "lastSelfMutationAt (issue cmds c) = lastSelfMutationAt c"
  by (simp_all add: issue_def)

lemma with_auth_simps [simp]:
  "auth (with_auth f c) = f (auth c)" "issued (with_auth f c) = issued c"
  "shown (with_auth f c) = shown c" "lastSelfMutationAt (with_auth f c) = lastSelfMutationAt c"
  by (simp_all add: with_auth_def)

end
