(* ===== verification/ApiError.thy ===== *)
theory ApiError
  imports JsValues
begin

text \<open>
  Failed requests and the messages shown for them, \<open>api/apiError.ts\<close>, with the login-specific
  recovery of \<open>auth/login/useLoginMutation.ts\<close>. An axios error carries a response or, for a network
  failure, none; the response body is an arbitrary JSON document. The translation library is the
  parameter \<open>i18n\<close>: \<open>exists\<close> and \<open>t\<close>. The development-only console message of
  \<open>translateErrorCode\<close> is not part of the model.
\<close>

record axios_response =
  resp_status :: int
  resp_data :: "json option"

datatype js_error = AxiosError "axios_response option" | OtherError string

record i18n =
  i18n_exists :: "string \<Rightarrow> bool"
  i18n_t :: "string \<Rightarrow> json \<Rightarrow> string"

text \<open>\<open>error.response?.data\<close> and \<open>error.response?.status\<close>.\<close>

fun error_data :: "js_error \<Rightarrow> json option" where
  "error_data (AxiosError (Some r)) = resp_data r"
| "error_data _ = None"

fun error_status :: "js_error \<Rightarrow> int option" where
  "error_status (AxiosError (Some r)) = Some (resp_status r)"
| "error_status _ = None"

fun isAxiosError :: "js_error \<Rightarrow> bool" where
  "isAxiosError (AxiosError r) = True"
| "isAxiosError (OtherError m) = False"

definition translateErrorCode :: "i18n \<Rightarrow> json option \<Rightarrow> json option \<Rightarrow> string option" where
  "translateErrorCode i code params = (case code of
      Some (JStr c) \<Rightarrow>
        (let key = ''errors:'' @ c in
         if i18n_exists i key
         then Some (i18n_t i key (case nullish_or params None of None \<Rightarrow> JObj [] | Some p \<Rightarrow> p))
         else None)
    | _ \<Rightarrow> None)"

definition isForbiddenError :: "js_error \<Rightarrow> bool" where
  "isForbiddenError e \<longleftrightarrow> isAxiosError e \<and> error_status e = Some 403"

text \<open>The plain-text message the server sent: \<open>data?.error ?? data?.detail\<close>, if a non-empty string.\<close>

definition server_message :: "json option \<Rightarrow> string option" where
  "server_message d = (case nullish_or (json_field ''error'' d) (json_field ''detail'' d) of
      Some (JStr m) \<Rightarrow> if length m > 0 then Some m else None
    | _ \<Rightarrow> None)"

definition extractApiErrorMessage :: "i18n \<Rightarrow> js_error \<Rightarrow> string \<Rightarrow> string" where
  "extractApiErrorMessage i e fallback =
     (if isAxiosError e then
        (let d = error_data e in
         case translateErrorCode i (json_field ''code'' d) (json_field ''params'' d) of
           Some m \<Rightarrow> if truthy m then m
                     else (case server_message d of Some s \<Rightarrow> s | None \<Rightarrow> fallback)
         | None \<Rightarrow> (case server_message d of Some s \<Rightarrow> s | None \<Rightarrow> fallback))
      else fallback)"

text \<open>The catch block of \<open>useLoginMutation\<close>. \<open>translateErrorCode(..) ?? message\<close> keeps the extracted
  message when the catalogue has no entry.\<close>

definition login_error_message :: "i18n \<Rightarrow> js_error \<Rightarrow> string" where
  "login_error_message i e =
     (let message = extractApiErrorMessage i e ''Login failed'';
          or_message = (\<lambda>m. case m of Some s \<Rightarrow> s | None \<Rightarrow> message) in
      if isAxiosError e \<and> \<not> json_truthy (json_field ''code'' (error_data e)) then
        (if error_status e = Some 401
         then or_message (translateErrorCode i (Some (JStr ''INVALID_CREDENTIALS'')) None)
         else if error_status e = Some 429
         then or_message (translateErrorCode i (Some (JStr ''TOO_MANY_ATTEMPTS''))
                            (Some (JObj [(''endpoint'', JStr ''login'')])))
         else (case error_status e of
                 None \<Rightarrow> or_message (translateErrorCode i (Some (JStr ''NETWORK_ERROR'')) None)
               | Some st \<Rightarrow>
                   if st \<ge> 500
                   then or_message (translateErrorCode i (Some (JStr ''SERVER_ERROR'')) None)
                   else message))
      else message)"

lemma translateErrorCode_absent [simp]: "translateErrorCode i None params = None"
  by (simp add: translateErrorCode_def)

lemma server_message_nonempty: "server_message d = Some m \<Longrightarrow> m \<noteq> []"
  by (auto simp: server_message_def split: option.splits json.splits if_splits)

text \<open>Whatever failed and whatever the body of the response is, the extracted message is
  non-empty when the fallback is; a translated error code wins over the server's own text, the
  server's text over the fallback, and a body whose \<open>detail\<close> is not a string (the list of a
  validation failure) falls through to the fallback.\<close>

theorem api_error_message:
  "(fallback \<noteq> [] \<longrightarrow> extractApiErrorMessage i e fallback \<noteq> [])
   \<and> (isAxiosError e \<and> translateErrorCode i (json_field ''code'' (error_data e))
          (json_field ''params'' (error_data e)) = Some m \<and> m \<noteq> [] \<longrightarrow>
        extractApiErrorMessage i e fallback = m)
   \<and> (json_field ''code'' (error_data (AxiosError (Some r))) = None
        \<and> server_message (resp_data r) = Some m \<longrightarrow>
        extractApiErrorMessage i (AxiosError (Some r)) fallback = m)
   \<and> extractApiErrorMessage i (AxiosError (Some (r\<lparr>resp_data := Some (JObj [(''detail'', JArr vs)])\<rparr>))) fallback
        = fallback"
proof -
  have "fallback \<noteq> [] \<longrightarrow> extractApiErrorMessage i e fallback \<noteq> []"
    by (auto simp: extractApiErrorMessage_def Let_def truthy_def
        dest: server_message_nonempty split: option.splits)
  then show ?thesis
    by (auto simp: extractApiErrorMessage_def Let_def truthy_def server_message_def)
qed

theorem api_error_message_witness:
  "extractApiErrorMessage \<lparr>i18n_exists = (\<lambda>k. False), i18n_t = (\<lambda>k p. [])\<rparr>
     (AxiosError (Some \<lparr>resp_status = 400, resp_data = Some (JObj [(''detail'', JStr ''no'')])\<rparr>)) ''failed''
     = ''no''"
  using api_error_message [of "''failed''" "\<lparr>i18n_exists = (\<lambda>k. False), i18n_t = (\<lambda>k p. [])\<rparr>"
     "OtherError []" "''no''" "\<lparr>resp_status = 400, resp_data = Some (JObj [(''detail'', JStr ''no'')])\<rparr>"]
  by (simp add: server_message_def)

end
