(* ===== verification/SessionLifecycle.thy ===== *)
theory SessionLifecycle
  imports QueryClient Authorization ApiError
begin

text \<open>
  What starts, keeps and ends a session in a tab, apart from the 401 interceptor: the cache cleanup
  every sign-out shares (\<open>clearMyAccountSessionCaches\<close>), the login, logout, logout-all and account
  deletion mutations, the mirror of \<open>GET /auth/me\<close> into the store (\<open>useAuthSession\<close>), the two guards
  (\<open>selfPermissionMutationGuard\<close>, \<open>sessionRotationGuard\<close>) and the handler of the server-sent session
  events. The outcome of a request is an argument (\<open>Inl\<close> an error, \<open>Inr\<close> the body); what the
  handler then does to the tab is the result.
\<close>

section \<open>Ending a session\<close>

definition end_of_session_commands :: "query_command list" where
  "end_of_session_commands =
     [SetQueryData CURRENT_USER_QUERY_KEY DNull,
      RemoveQueries SESSIONS_QUERY_KEY,
      RemoveQueries MY_POLICIES_QUERY_KEY,
      RemoveQueries MY_AUTHORIZATION_AUDIT_LOG_QUERY_KEY,
      RemoveQueries MY_SECURITY_AUDIT_LOG_QUERY_KEY]"

definition clearMyAccountSessionCaches :: "client \<Rightarrow> client" where
  "clearMyAccountSessionCaches c =
     issue end_of_session_commands (with_auth (setAuthenticated 0 False) c)"

text \<open>Logout clears whether the request succeeded or not (\<open>onSettled\<close>).\<close>

definition useLogoutMutation :: "i18n \<Rightarrow> (js_error + json) \<Rightarrow> client \<Rightarrow> (string + json) \<times> client" where
  "useLogoutMutation i r c =
     (case r of Inl e \<Rightarrow> Inl (extractApiErrorMessage i e ''Logout failed'') | Inr d \<Rightarrow> Inr d,
      clearMyAccountSessionCaches c)"

definition useLogoutAllMutation :: "i18n \<Rightarrow> (js_error + json) \<Rightarrow> client \<Rightarrow> (string + json) \<times> client" where
  "useLogoutAllMutation i r c =
     (case r of Inl e \<Rightarrow> Inl (extractApiErrorMessage i e ''Logout all devices failed'') | Inr d \<Rightarrow> Inr d,
      clearMyAccountSessionCaches c)"

text \<open>Account deletion clears only on success, and not while an e-mail confirmation is pending.\<close>

definition useDeleteMyAccountMutation ::
  "i18n \<Rightarrow> (js_error + json) \<Rightarrow> client \<Rightarrow> (string + json) \<times> client" where
  "useDeleteMyAccountMutation i r c = (case r of
      Inl e \<Rightarrow> (Inl (extractApiErrorMessage i e ''Failed to delete account''), c)
    | Inr d \<Rightarrow> (Inr d, if json_truthy (json_field ''confirmation_required'' (Some d)) then c
                       else clearMyAccountSessionCaches c))"

definition useConfirmDeleteMyAccountMutation ::
  "i18n \<Rightarrow> (js_error + json) \<Rightarrow> client \<Rightarrow> (string + json) \<times> client" where
  "useConfirmDeleteMyAccountMutation i r c = (case r of
      Inl e \<Rightarrow> (Inl (extractApiErrorMessage i e ''Account deletion confirmation failed''), c)
    | Inr d \<Rightarrow> (Inr d, clearMyAccountSessionCaches c))"

section \<open>Starting a session\<close>

text \<open>\<open>mutationFn\<close>: cancel the running session probe, log in, fetch the profile; the first failure
  ends it. \<open>onSuccess\<close> runs with the profile.\<close>

definition login_success :: "int \<Rightarrow> current_user_profile \<Rightarrow> client \<Rightarrow> client" where
  "login_success now p c =
     issue [SetQueryData CURRENT_USER_QUERY_KEY (DProfile p),
            InvalidateQueries SESSIONS_QUERY_KEY,
            InvalidateQueries MY_POLICIES_QUERY_KEY,
            InvalidateQueries MY_AUTHORIZATION_AUDIT_LOG_QUERY_KEY,
            InvalidateQueries MY_SECURITY_AUDIT_LOG_QUERY_KEY]
       (with_auth (setAuthenticated now True) (with_auth (setProfile p) c))"

definition useLoginMutation ::
  "i18n \<Rightarrow> int \<Rightarrow> (js_error + unit) \<Rightarrow> (js_error + current_user_profile) \<Rightarrow> client
     \<Rightarrow> (string + current_user_profile) \<times> client" where
  "useLoginMutation i now login_result me_result c =
     (let c1 = issue [CancelQueries CURRENT_USER_QUERY_KEY] c in
      case login_result of
        Inl e \<Rightarrow> (Inl (login_error_message i e), c1)
      | Inr _ \<Rightarrow> (case me_result of
            Inl e \<Rightarrow> (Inl (login_error_message i e), c1)
          | Inr p \<Rightarrow> (Inr p, login_success now p c1)))"

text \<open>
  \<open>useAuthSession\<close>: the effect that mirrors the current-user query into the store. \<open>cq_data\<close> is
  \<open>None\<close> for both \<open>undefined\<close> and the \<open>null\<close> a sign-out writes. The second component is the brand
  color passed to the appearance store, if any.
\<close>

record current_user_query =
  cq_data :: "current_user_profile option"
  cq_isSuccess :: bool
  cq_isError :: bool
  cq_status_error :: bool
  cq_errorUpdatedAt :: "int option"

definition useAuthSession ::
  "int \<Rightarrow> current_user_query \<Rightarrow> auth_state \<Rightarrow> auth_state \<times> (string option) option" where
  "useAuthSession now q s =
     (case (cq_isSuccess q, cq_data q) of
        (True, Some p) \<Rightarrow> (setAuthenticated now True (setProfile p s), Some (cu_brand_color p))
      | _ \<Rightarrow>
        if cq_isError q \<and> cq_status_error q then
          (case authenticatedAt s of
             Some at \<Rightarrow>
               if (case cq_errorUpdatedAt q of None \<Rightarrow> 0 | Some t \<Rightarrow> t) < at then (s, None)
               else (setAuthenticated now False (clearProfile s), Some None)
           | None \<Rightarrow> (setAuthenticated now False (clearProfile s), Some None))
        else (s, None))"

section \<open>The self-mutation guard\<close>

definition RECENT_SELF_MUTATION_WINDOW_MS :: int where
  "RECENT_SELF_MUTATION_WINDOW_MS = 5000"

definition markSelfPermissionMutation :: "int \<Rightarrow> client \<Rightarrow> client" where
  "markSelfPermissionMutation now c = c\<lparr>lastSelfMutationAt := Some now\<rparr>"

definition wasSelfPermissionMutationRecent :: "int \<Rightarrow> client \<Rightarrow> bool \<times> client" where
  "wasSelfPermissionMutationRecent now c = (case lastSelfMutationAt c of
      None \<Rightarrow> (False, c)
    | Some at \<Rightarrow> (now - at < RECENT_SELF_MUTATION_WINDOW_MS, c\<lparr>lastSelfMutationAt := None\<rparr>))"

section \<open>Server-sent session events\<close>

text \<open>\<open>JSON.parse(event.data).type\<close> in a \<open>try\<close>: a malformed payload, a \<open>null\<close> or a primitive leaves
  the type undefined.\<close>

fun event_type :: "json_text \<Rightarrow> json option" where
  "event_type Malformed = None"
| "event_type (Document j) = json_field ''type'' (Some j)"

definition onSessionEvent :: "int \<Rightarrow> json_text \<Rightarrow> client \<Rightarrow> client" where
  "onSessionEvent now msg c =
     (if event_type msg = Some (JStr ''permissions_changed'') then
        (let (recent, c1) = wasSelfPermissionMutationRecent now c;
             c2 = (if \<not> recent then with_auth dropPermissions c1 else c1)
         in issue [ResetQueries] c2)
      else issue [InvalidateQueries CURRENT_USER_QUERY_KEY, InvalidateQueries SESSIONS_QUERY_KEY,
                  InvalidateQueries PREVIOUS_LOGIN_QUERY_KEY] c)"

section \<open>The session-rotation guard\<close>

text \<open>A tracked request is known by a number; it settles at some later time.\<close>

record rotation_guard =
  pendingRotation :: "nat option"
  rotationSettledAt :: "int option"

definition RECENTLY_ROTATED_GRACE_MS :: int where
  "RECENTLY_ROTATED_GRACE_MS = 3000"

definition rotation_initial :: rotation_guard where
  "rotation_initial = \<lparr>pendingRotation = None, rotationSettledAt = None\<rparr>"

definition trackSessionRotatingRequest :: "nat \<Rightarrow> rotation_guard \<Rightarrow> rotation_guard" where
  "trackSessionRotatingRequest r g = g\<lparr>pendingRotation := Some r\<rparr>"

definition rotation_settled :: "nat \<Rightarrow> int \<Rightarrow> rotation_guard \<Rightarrow> rotation_guard" where
  "rotation_settled r now g =
     (let g1 = (if pendingRotation g = Some r then g\<lparr>pendingRotation := None\<rparr> else g)
      in g1\<lparr>rotationSettledAt := Some now\<rparr>)"

definition getPendingSessionRotation :: "rotation_guard \<Rightarrow> nat option" where
  "getPendingSessionRotation g = pendingRotation g"

definition wasSessionRecentlyRotated :: "int \<Rightarrow> rotation_guard \<Rightarrow> bool" where
  "wasSessionRecentlyRotated now g =
     (if pendingRotation g \<noteq> None then True
      else (case rotationSettledAt g of None \<Rightarrow> False
            | Some at \<Rightarrow> now - at < RECENTLY_ROTATED_GRACE_MS))"

text \<open>\<open>useUpdateMyAccountMutation\<close> tracks its request only when the payload carries a password.\<close>

definition useUpdateMyAccountMutation_request ::
  "string option \<Rightarrow> nat \<Rightarrow> rotation_guard \<Rightarrow> rotation_guard" where
  "useUpdateMyAccountMutation_request password r g =
     (case password of Some p \<Rightarrow> if truthy p then trackSessionRotatingRequest r g else g | None \<Rightarrow> g)"

definition useUpdateMyAccountMutation ::
  "i18n \<Rightarrow> (js_error + json) \<Rightarrow> client \<Rightarrow> (string + json) \<times> client" where
  "useUpdateMyAccountMutation i r c = (case r of
      Inl e \<Rightarrow> (Inl (extractApiErrorMessage i e ''Failed to update profile''), c)
    | Inr d \<Rightarrow> (Inr d, issue [InvalidateQueries CURRENT_USER_QUERY_KEY] c))"

lemmas session_defs [store_simps] =
  clearMyAccountSessionCaches_def login_success_def useAuthSession_def
  markSelfPermissionMutation_def wasSelfPermissionMutationRecent_def onSessionEvent_def

lemma clear_session_auth [simp]:
  "auth (clearMyAccountSessionCaches c) = setAuthenticated 0 False (auth c)"
  "issued (clearMyAccountSessionCaches c) = issued c @ end_of_session_commands"
  "shown (clearMyAccountSessionCaches c) = shown c"
  by (simp_all add: clearMyAccountSessionCaches_def)

section \<open>Properties\<close>

text \<open>The keys of the caller's own data that the cleanup names.\<close>

definition cleared_prefixes :: "qkey list" where
  "cleared_prefixes = [SESSIONS_QUERY_KEY, MY_POLICIES_QUERY_KEY,
     MY_AUTHORIZATION_AUDIT_LOG_QUERY_KEY, MY_SECURITY_AUDIT_LOG_QUERY_KEY]"

lemma cleanup_effect:
  assumes "query_client_laws run cached"
  shows "cached (fold run end_of_session_commands k) q =
     (if \<exists>p \<in> set cleared_prefixes. key_prefix p q then None
      else if q = CURRENT_USER_QUERY_KEY then Some DNull else cached k q)"
  using assms
  by (auto simp: query_client_laws_def end_of_session_commands_def cleared_prefixes_def)

lemma current_user_not_cleared:
  "p \<in> set cleared_prefixes \<Longrightarrow> \<not> key_prefix p CURRENT_USER_QUERY_KEY"
  by (auto simp: cleared_prefixes_def query_key_defs)

definition untranslated :: i18n where
  "untranslated = \<lparr>i18n_exists = (\<lambda>k. False), i18n_t = (\<lambda>k p. [])\<rparr>"

text \<open>The cleanup at the end of a session reaches only the queries it names. Every other cached
  query keeps its data for whoever signs in next in this tab, among them the caller's own direct
  permissions, career knowledge base and applications, none of which is keyed by user.\<close>

theorem cleanup_leaves_user_data:
  assumes "query_client_laws run cached"
    and "q \<in> {MY_PERMISSIONS_QUERY_KEY, CAREER_KNOWLEDGE_QUERY_KEY, APPLICATIONS_QUERY_KEY}"
  shows "cached (fold run (drop (length (issued c)) (issued (clearMyAccountSessionCaches c))) k) q
           = cached k q"
proof -
  have "\<forall>p \<in> set cleared_prefixes. \<not> key_prefix p q" "q \<noteq> CURRENT_USER_QUERY_KEY"
    using assms(2) by (auto simp: cleared_prefixes_def query_key_defs)
  then show ?thesis by (simp add: cleanup_effect [OF assms(1)])
qed

theorem cleanup_leaves_user_data_witness:
  "fold map_cache_run (drop (length (issued client_initial))
     (issued (clearMyAccountSessionCaches client_initial)))
     ((\<lambda>q. None)(MY_PERMISSIONS_QUERY_KEY := Some DNull)) MY_PERMISSIONS_QUERY_KEY = Some DNull"
  using cleanup_leaves_user_data [OF map_cache_laws, of MY_PERMISSIONS_QUERY_KEY client_initial
      "(\<lambda>q. None)(MY_PERMISSIONS_QUERY_KEY := Some DNull)"]
  by simp

text \<open>C12. A failed session probe that was answered before the login completed cannot sign the user
  out again: after a login at \<open>t\<close>, an error of the current-user query dated before \<open>t\<close> leaves the
  store as the login left it, while one dated at or after \<open>t\<close> ends the session.\<close>

theorem stale_probe_ignored:
  assumes "useLoginMutation i t (Inr ()) (Inr p) c = (out, c')"
    and "\<not> cq_isSuccess q" and "cq_isError q" and "cq_status_error q"
  shows "out = Inr p \<and> isAuthenticated (auth c') = Some True
     \<and> profile_email (auth c') = Some (cu_email p)
     \<and> (if (case cq_errorUpdatedAt q of None \<Rightarrow> 0 | Some e \<Rightarrow> e) < t
        then useAuthSession now q (auth c') = (auth c', None)
        else isAuthenticated (fst (useAuthSession now q (auth c'))) = Some False
             \<and> permissions (fst (useAuthSession now q (auth c'))) = []
             \<and> snd (useAuthSession now q (auth c')) = Some None)"
  using assms
  by (auto simp: useLoginMutation_def login_success_def useAuthSession_def setAuthenticated_def
      setProfile_def initialProfile_def clearProfile_def Let_def split: option.splits)

definition sample_profile :: current_user_profile where
  "sample_profile = \<lparr>cu_name = ''A'', cu_email = ''a'', cu_role = None,
     cu_permissions = Some [''users:read_own''], cu_has_password = True, cu_created_at = [],
     cu_active_sessions = 1, cu_brand_color = None\<rparr>"

theorem stale_probe_ignored_witness:
  "let c' = snd (useLoginMutation untranslated 100 (Inr ()) (Inr sample_profile) client_initial);
       q = \<lparr>cq_data = None, cq_isSuccess = False, cq_isError = True, cq_status_error = True,
            cq_errorUpdatedAt = Some 40\<rparr>
   in useAuthSession 200 q (auth c') = (auth c', None)"
  using stale_probe_ignored [of untranslated 100 sample_profile client_initial
      "fst (useLoginMutation untranslated 100 (Inr ()) (Inr sample_profile) client_initial)"
      "snd (useLoginMutation untranslated 100 (Inr ()) (Inr sample_profile) client_initial)"
      "\<lparr>cq_data = None, cq_isSuccess = False, cq_isError = True, cq_status_error = True,
            cq_errorUpdatedAt = Some 40\<rparr>" 200]
  by (simp add: Let_def)

text \<open>What reaches the tab: its own permission mutations and the server's pushes.\<close>

datatype tab_event = SelfMutation int | Push int json_text

definition is_permissions_push :: "json_text \<Rightarrow> bool" where
  "is_permissions_push msg \<longleftrightarrow> event_type msg = Some (JStr ''permissions_changed'')"

text \<open>The tab after the events, and how many permission pushes did not drop the permission list.\<close>

fun tab_run :: "tab_event list \<Rightarrow> client \<Rightarrow> client \<times> nat" where
  "tab_run [] c = (c, 0)"
| "tab_run (SelfMutation now # es) c = tab_run es (markSelfPermissionMutation now c)"
| "tab_run (Push now msg # es) c =
     (let (c', n) = tab_run es (onSessionEvent now msg c)
      in (c', n + (if is_permissions_push msg \<and> fst (wasSelfPermissionMutationRecent now c) then 1 else 0)))"

fun is_self_mutation :: "tab_event \<Rightarrow> bool" where
  "is_self_mutation (SelfMutation now) = True"
| "is_self_mutation (Push now msg) = False"

lemma onSessionEvent_flag:
  "lastSelfMutationAt (onSessionEvent now msg c) =
     (if is_permissions_push msg then None else lastSelfMutationAt c)"
  by (auto simp: onSessionEvent_def is_permissions_push_def wasSelfPermissionMutationRecent_def
      Let_def split: option.splits)

lemma recent_needs_flag: "fst (wasSelfPermissionMutationRecent now c) \<Longrightarrow> lastSelfMutationAt c \<noteq> None"
  by (auto simp: wasSelfPermissionMutationRecent_def split: option.splits)

lemma tab_run_bound:
  "snd (tab_run es c) \<le> length (filter is_self_mutation es) + (if lastSelfMutationAt c = None then 0 else 1)"
proof (induction es arbitrary: c)
  case Nil
  then show ?case by simp
next
  case (Cons e es)
  show ?case
  proof (cases e)
    case (SelfMutation now)
    with Cons.IH [of "markSelfPermissionMutation now c"] show ?thesis
      by (simp add: markSelfPermissionMutation_def)
  next
    case (Push now msg)
    with Cons.IH [of "onSessionEvent now msg c"] recent_needs_flag [of now c] show ?thesis
      by (auto simp: onSessionEvent_flag split: prod.splits if_splits)
  qed
qed

text \<open>Over any run of a tab, at most one permission push per permission mutation the tab made
  itself is taken for the echo of that mutation; every other push empties the permission list at
  once, leaves the caller signed in with the list flagged as stale, and refetches everything.\<close>

theorem self_echo_bounded:
  "snd (tab_run es client_initial) \<le> length (filter is_self_mutation es)
   \<and> (is_permissions_push msg \<and> \<not> fst (wasSelfPermissionMutationRecent now c) \<longrightarrow>
        \<not> can (auth (onSessionEvent now msg c)) p
        \<and> permissionsPending (auth (onSessionEvent now msg c))
        \<and> isAuthenticated (auth (onSessionEvent now msg c)) = isAuthenticated (auth c)
        \<and> issued (onSessionEvent now msg c) = issued c @ [ResetQueries])"
proof -
  have "is_permissions_push msg \<and> \<not> fst (wasSelfPermissionMutationRecent now c) \<Longrightarrow>
      auth (onSessionEvent now msg c) = dropPermissions (auth c)
      \<and> issued (onSessionEvent now msg c) = issued c @ [ResetQueries]"
    by (auto simp: onSessionEvent_def is_permissions_push_def wasSelfPermissionMutationRecent_def
        Let_def split: option.splits if_splits)
  moreover have "permissionsPending (dropPermissions a)"
    "isAuthenticated (dropPermissions a) = isAuthenticated a" for a
    by (simp_all add: dropPermissions_def)
  ultimately show ?thesis
    using tab_run_bound [of es client_initial] by (auto simp: client_initial_def)
qed

theorem self_echo_bounded_witness:
  "\<not> can (auth (onSessionEvent 9000 (Document (JObj [(''type'', JStr ''permissions_changed'')]))
      (markSelfPermissionMutation 1000 client_initial))) (OneAction ''users:read_own'')"
  using self_echo_bounded [of "[]" "Document (JObj [(''type'', JStr ''permissions_changed'')])" 9000
      "markSelfPermissionMutation 1000 client_initial" "OneAction ''users:read_own''"]
  by (simp add: is_permissions_push_def markSelfPermissionMutation_def
      wasSelfPermissionMutationRecent_def RECENT_SELF_MUTATION_WINDOW_MS_def)

text \<open>A session-rotating request is reported as recent from the moment it is tracked until
  three seconds after it settled, and not after that; a request tracked later stays pending when an
  earlier one settles.\<close>

theorem rotation_grace_window:
  "r \<noteq> r' \<Longrightarrow> pendingRotation g = Some r \<Longrightarrow>
   wasSessionRecentlyRotated now g
   \<and> (wasSessionRecentlyRotated now (rotation_settled r t g) \<longleftrightarrow> now - t < 3000)
   \<and> getPendingSessionRotation (rotation_settled r t g) = None
   \<and> getPendingSessionRotation (rotation_settled r t (trackSessionRotatingRequest r' g)) = Some r'
   \<and> wasSessionRecentlyRotated now (rotation_settled r t (trackSessionRotatingRequest r' g))"
  by (simp add: wasSessionRecentlyRotated_def rotation_settled_def getPendingSessionRotation_def
      trackSessionRotatingRequest_def RECENTLY_ROTATED_GRACE_MS_def Let_def)

theorem rotation_grace_window_witness:
  "wasSessionRecentlyRotated 3999 (rotation_settled 0 1000 (trackSessionRotatingRequest 0 rotation_initial))
   \<and> \<not> wasSessionRecentlyRotated 4000 (rotation_settled 0 1000 (trackSessionRotatingRequest 0 rotation_initial))"
  using rotation_grace_window [of 0 1 "trackSessionRotatingRequest 0 rotation_initial" 3999 1000]
    rotation_grace_window [of 0 1 "trackSessionRotatingRequest 0 rotation_initial" 4000 1000]
  by (simp add: trackSessionRotatingRequest_def)

end
