(* ===== verification/Interceptor.thy ===== *)
theory Interceptor
  imports SessionLifecycle
begin

text \<open>
  The 401 interceptor of \<open>auth/session_lifecycle/setupAuthInterceptor.ts\<close>: one silent refresh and one
  retry per request, a second retry around a session rotation, and the end of the session when both
  fail. A request sent through the shared axios instance passes through the interceptor again, so
  the handler is recursive; the two flags on the request's configuration, which axios copies into the
  configuration of the retry, are what makes the recursion stop, and the model is accepted as a
  total function on that ground. A handler can nevertheless wait for ever: each of its awaits may never settle, and
  then the call is \<open>Unsettled\<close>.

  The network and the passing of time are the parameter \<open>net\<close> over a world \<open>'w\<close>: what the server
  answers to a request; what comes of the shared refresh, which another request of this tab or another tab may settle
  for us (\<open>refreshInFlight\<close>, \<open>runCrossTabRefresh\<close>) and which need not end (theory \<open>CrossTab\<close>:
  \<open>restricted_storage_never_refreshes\<close>); the guard of session rotations (\<open>sessionRotationGuard\<close>, theory \<open>SessionLifecycle\<close>)
  and the clock at a moment; and what the world is when a tracked request has settled, if it does.
\<close>

record api_request =
  req_path :: string
  retriedAfterRefresh :: bool
  retriedAfterRotation :: bool
  tracked_as :: "nat option"

text \<open>\<open>tracked_as\<close> is the number under which the guard tracks the promise of this call, or of the call that waits for
  this one: that promise cannot settle before this request has.\<close>

record resp_error =
  err_status :: "int option"
  err_has_config :: bool

datatype api_response = Resolved nat | Rejected resp_error | Unsettled

text \<open>The shared refresh: settled by somebody else, ours to request, or never settled.\<close>

datatype shared_turn = SettledFor bool | OwnTurn | NeverSettles

record 'w net =
  send :: "api_request \<Rightarrow> 'w \<Rightarrow> api_response \<times> 'w"
  shared_refresh :: "'w \<Rightarrow> shared_turn \<times> 'w"
  guard_at :: "'w \<Rightarrow> rotation_guard"
  now_at :: "'w \<Rightarrow> int"
  await_tracked :: "nat \<Rightarrow> 'w \<Rightarrow> 'w option"

text \<open>\<open>pendingRotation || wasSessionRecentlyRotated()\<close>, and the await of a pending rotation: a call that the tracked
  promise itself waits for waits for ever.\<close>

definition rotation_near :: "'w net \<Rightarrow> 'w \<Rightarrow> bool" where
  "rotation_near n w \<longleftrightarrow> getPendingSessionRotation (guard_at n w) \<noteq> None
     \<or> wasSessionRecentlyRotated (now_at n w) (guard_at n w)"

definition rotation_wait :: "'w net \<Rightarrow> api_request \<Rightarrow> 'w \<Rightarrow> 'w option" where
  "rotation_wait n r w = (case getPendingSessionRotation (guard_at n w) of
      None \<Rightarrow> Some w
    | Some p \<Rightarrow> if tracked_as r = Some p then None else await_tracked n p w)"

definition AUTH_ENDPOINTS_EXCLUDED_FROM_REFRESH :: "string list" where
  "AUTH_ENDPOINTS_EXCLUDED_FROM_REFRESH =
     [''/auth/login'', ''/auth/signup'', ''/auth/refresh'', ''/auth/logout'',
      ''/auth/password-reset'', ''/auth/verify-account'', ''/auth/oauth2'']"

definition isEligibleForRefresh :: "string \<Rightarrow> bool" where
  "isEligibleForRefresh u \<longleftrightarrow> \<not> (\<exists>p \<in> set AUTH_ENDPOINTS_EXCLUDED_FROM_REFRESH. js_includes u p)"

definition refresh_request :: "nat option \<Rightarrow> api_request" where
  "refresh_request waiting = \<lparr>req_path = ''/auth/refresh/'', retriedAfterRefresh = False,
     retriedAfterRotation = False, tracked_as = waiting\<rparr>"

definition session_expired_toast :: shown_toast where
  "session_expired_toast = \<lparr>shown_title = ''Your session has expired'',
     shown_description = Some ''Please log in again to continue.'', shown_type = ToastError\<rparr>"

text \<open>The tail of the handler: the session is over.\<close>

definition end_session :: "client \<Rightarrow> client" where
  "end_session c =
     (let hadLiveSession = (isAuthenticated (auth c) = Some True);
          c1 = issue end_of_session_commands (with_auth (setAuthenticated 0 False) c)
      in if hadLiveSession then c1\<lparr>shown := shown c1 @ [session_expired_toast]\<rparr> else c1)"

text \<open>How many more retries the flags of a request allow.\<close>

definition retries_left :: "api_request \<Rightarrow> nat" where
  "retries_left r =
     (if isEligibleForRefresh (req_path r) \<and> \<not> retriedAfterRefresh r then 2 else 0)
     + (if retriedAfterRotation r then 0 else 1)"

lemma refresh_not_eligible [simp]: "\<not> isEligibleForRefresh ''/auth/refresh/''"
  by (simp add: isEligibleForRefresh_def AUTH_ENDPOINTS_EXCLUDED_FROM_REFRESH_def)

lemma retries_left_refresh_request [simp]: "retries_left (refresh_request t) = 1"
  by (simp add: retries_left_def refresh_request_def)

lemma retries_left_after_refresh:
  "isEligibleForRefresh (req_path r) \<Longrightarrow> \<not> retriedAfterRefresh r \<Longrightarrow>
   retries_left (r\<lparr>retriedAfterRefresh := True\<rparr>) + 2 = retries_left r"
  by (simp add: retries_left_def)

lemma retries_left_after_rotation:
  "\<not> retriedAfterRotation r \<Longrightarrow> retries_left (r\<lparr>retriedAfterRotation := True\<rparr>) + 1 = retries_left r"
  by (simp add: retries_left_def)

function api_call :: "'w net \<Rightarrow> api_request \<Rightarrow> 'w \<Rightarrow> client \<Rightarrow> api_response \<times> 'w \<times> client"
  and on_response_error ::
    "'w net \<Rightarrow> api_request \<Rightarrow> resp_error \<Rightarrow> 'w \<Rightarrow> client \<Rightarrow> api_response \<times> 'w \<times> client"
  and after_refresh_failed ::
    "'w net \<Rightarrow> api_request \<Rightarrow> resp_error \<Rightarrow> 'w \<Rightarrow> client \<Rightarrow> api_response \<times> 'w \<times> client"
  and refreshSession :: "'w net \<Rightarrow> nat option \<Rightarrow> 'w \<Rightarrow> client \<Rightarrow> bool option \<times> 'w \<times> client"
where
  "api_call n r w c = (case send n r w of
      (Resolved d, w1) \<Rightarrow> (Resolved d, w1, c)
    | (Rejected e, w1) \<Rightarrow> on_response_error n r e w1 c
    | (Unsettled, w1) \<Rightarrow> (Unsettled, w1, c))"
| "on_response_error n r e w c =
     (if err_status e \<noteq> Some 401 then (Rejected e, w, c)
      else if isEligibleForRefresh (req_path r) \<and> err_has_config e \<and> \<not> retriedAfterRefresh r then
        (case refreshSession n (tracked_as r) w c of
           (Some True, w1, c1) \<Rightarrow>
             (case api_call n (r\<lparr>retriedAfterRefresh := True\<rparr>) w1 c1 of
                (Resolved d, w2, c2) \<Rightarrow> (Resolved d, w2, c2)
              | (Rejected e', w2, c2) \<Rightarrow>
                  after_refresh_failed n (r\<lparr>retriedAfterRefresh := True\<rparr>) e w2 c2
              | (Unsettled, w2, c2) \<Rightarrow> (Unsettled, w2, c2))
         | (Some False, w1, c1) \<Rightarrow> after_refresh_failed n r e w1 c1
         | (None, w1, c1) \<Rightarrow> (Unsettled, w1, c1))
      else after_refresh_failed n r e w c)"
| "after_refresh_failed n r e w c =
     (if err_has_config e \<and> \<not> retriedAfterRotation r \<and> rotation_near n w then
        (case rotation_wait n r w of
           None \<Rightarrow> (Unsettled, w, c)
         | Some w0 \<Rightarrow> (case api_call n (r\<lparr>retriedAfterRotation := True\<rparr>) w0 c of
             (Resolved d, w1, c1) \<Rightarrow> (Resolved d, w1, c1)
           | (Rejected e', w1, c1) \<Rightarrow> (Rejected e, w1, end_session c1)
           | (Unsettled, w1, c1) \<Rightarrow> (Unsettled, w1, c1)))
      else (Rejected e, w, end_session c))"
| "refreshSession n t w c = (case shared_refresh n w of
      (SettledFor ok, w1) \<Rightarrow> (Some ok, w1, c)
    | (NeverSettles, w1) \<Rightarrow> (None, w1, c)
    | (OwnTurn, w1) \<Rightarrow> (case api_call n (refresh_request t) w1 c of
         (Resolved d, w2, c2) \<Rightarrow> (Some True, w2, c2)
       | (Rejected e, w2, c2) \<Rightarrow> (Some False, w2, c2)
       | (Unsettled, w2, c2) \<Rightarrow> (None, w2, c2)))"
  by pat_completeness auto
termination
  by (relation "measure (\<lambda>x. case x of
       Inl (Inl (n, r, w, c)) \<Rightarrow> 3 * retries_left r + 2
     | Inl (Inr (n, r, e, w, c)) \<Rightarrow> 3 * retries_left r + 1
     | Inr (Inl (n, r, e, w, c)) \<Rightarrow> 3 * retries_left r
     | Inr (Inr (n, t, w, c)) \<Rightarrow> 6)")
    (auto simp: retries_left_def refresh_request_def)

declare api_call.simps [simp del] on_response_error.simps [simp del]
  after_refresh_failed.simps [simp del] refreshSession.simps [simp del]

section \<open>The runs of the interceptor\<close>

text \<open>The same behaviour as a relation, one rule per path through the handler, so that a property of
  every run is a rule induction.\<close>

definition refreshable :: "api_request \<Rightarrow> resp_error \<Rightarrow> bool" where
  "refreshable r e \<longleftrightarrow>
     isEligibleForRefresh (req_path r) \<and> err_has_config e \<and> \<not> retriedAfterRefresh r"

definition rotating :: "'w net \<Rightarrow> api_request \<Rightarrow> resp_error \<Rightarrow> 'w \<Rightarrow> bool" where
  "rotating n r e w \<longleftrightarrow> err_has_config e \<and> \<not> retriedAfterRotation r \<and> rotation_near n w"

inductive calls ::
    "'w net \<Rightarrow> api_request \<Rightarrow> 'w \<Rightarrow> client \<Rightarrow> api_response \<Rightarrow> 'w \<Rightarrow> client \<Rightarrow> bool"
  and handles ::
    "'w net \<Rightarrow> api_request \<Rightarrow> resp_error \<Rightarrow> 'w \<Rightarrow> client \<Rightarrow> api_response \<Rightarrow> 'w \<Rightarrow> client \<Rightarrow> bool"
  and falls_through ::
    "'w net \<Rightarrow> api_request \<Rightarrow> resp_error \<Rightarrow> 'w \<Rightarrow> client \<Rightarrow> api_response \<Rightarrow> 'w \<Rightarrow> client \<Rightarrow> bool"
  and refreshes :: "'w net \<Rightarrow> nat option \<Rightarrow> 'w \<Rightarrow> client \<Rightarrow> bool option \<Rightarrow> 'w \<Rightarrow> client \<Rightarrow> bool"
  for n :: "'w net"
where
  call_ok: "send n r w = (Resolved d, w1) \<Longrightarrow> calls n r w c (Resolved d) w1 c"
| call_waits: "send n r w = (Unsettled, w1) \<Longrightarrow> calls n r w c Unsettled w1 c"
| call_err: "send n r w = (Rejected e, w1) \<Longrightarrow> handles n r e w1 c a w' c' \<Longrightarrow> calls n r w c a w' c'"
| other_status: "err_status e \<noteq> Some 401 \<Longrightarrow> handles n r e w c (Rejected e) w c"
| retry_ok: "err_status e = Some 401 \<Longrightarrow> refreshable r e \<Longrightarrow> refreshes n (tracked_as r) w c (Some True) w1 c1 \<Longrightarrow>
    calls n (r\<lparr>retriedAfterRefresh := True\<rparr>) w1 c1 (Resolved d) w' c' \<Longrightarrow>
    handles n r e w c (Resolved d) w' c'"
| retry_waits: "err_status e = Some 401 \<Longrightarrow> refreshable r e \<Longrightarrow> refreshes n (tracked_as r) w c (Some True) w1 c1 \<Longrightarrow>
    calls n (r\<lparr>retriedAfterRefresh := True\<rparr>) w1 c1 Unsettled w' c' \<Longrightarrow>
    handles n r e w c Unsettled w' c'"
| retry_failed: "err_status e = Some 401 \<Longrightarrow> refreshable r e \<Longrightarrow> refreshes n (tracked_as r) w c (Some True) w1 c1 \<Longrightarrow>
    calls n (r\<lparr>retriedAfterRefresh := True\<rparr>) w1 c1 (Rejected e') w2 c2 \<Longrightarrow>
    falls_through n (r\<lparr>retriedAfterRefresh := True\<rparr>) e w2 c2 a w' c' \<Longrightarrow> handles n r e w c a w' c'"
| refresh_failed: "err_status e = Some 401 \<Longrightarrow> refreshable r e \<Longrightarrow> refreshes n (tracked_as r) w c (Some False) w1 c1 \<Longrightarrow>
    falls_through n r e w1 c1 a w' c' \<Longrightarrow> handles n r e w c a w' c'"
| refresh_waits: "err_status e = Some 401 \<Longrightarrow> refreshable r e \<Longrightarrow> refreshes n (tracked_as r) w c None w' c' \<Longrightarrow>
    handles n r e w c Unsettled w' c'"
| not_refreshable: "err_status e = Some 401 \<Longrightarrow> \<not> refreshable r e \<Longrightarrow>
    falls_through n r e w c a w' c' \<Longrightarrow> handles n r e w c a w' c'"
| rotation_unsettled: "rotating n r e w \<Longrightarrow> rotation_wait n r w = None \<Longrightarrow> falls_through n r e w c Unsettled w c"
| rotation_ok: "rotating n r e w \<Longrightarrow> rotation_wait n r w = Some w0 \<Longrightarrow>
    calls n (r\<lparr>retriedAfterRotation := True\<rparr>) w0 c (Resolved d) w' c' \<Longrightarrow>
    falls_through n r e w c (Resolved d) w' c'"
| rotation_failed: "rotating n r e w \<Longrightarrow> rotation_wait n r w = Some w0 \<Longrightarrow>
    calls n (r\<lparr>retriedAfterRotation := True\<rparr>) w0 c (Rejected e') w' c' \<Longrightarrow>
    falls_through n r e w c (Rejected e) w' (end_session c')"
| rotation_retry_waits: "rotating n r e w \<Longrightarrow> rotation_wait n r w = Some w0 \<Longrightarrow>
    calls n (r\<lparr>retriedAfterRotation := True\<rparr>) w0 c Unsettled w' c' \<Longrightarrow>
    falls_through n r e w c Unsettled w' c'"
| session_over: "\<not> rotating n r e w \<Longrightarrow> falls_through n r e w c (Rejected e) w (end_session c)"
| refresh_shared: "shared_refresh n w = (SettledFor ok, w1) \<Longrightarrow> refreshes n t w c (Some ok) w1 c"
| refresh_never: "shared_refresh n w = (NeverSettles, w1) \<Longrightarrow> refreshes n t w c None w1 c"
| refresh_ok: "shared_refresh n w = (OwnTurn, w1) \<Longrightarrow> calls n (refresh_request t) w1 c (Resolved d) w' c' \<Longrightarrow>
    refreshes n t w c (Some True) w' c'"
| refresh_rejected: "shared_refresh n w = (OwnTurn, w1) \<Longrightarrow> calls n (refresh_request t) w1 c (Rejected e) w' c' \<Longrightarrow>
    refreshes n t w c (Some False) w' c'"
| refresh_unsettled: "shared_refresh n w = (OwnTurn, w1) \<Longrightarrow> calls n (refresh_request t) w1 c Unsettled w' c' \<Longrightarrow>
    refreshes n t w c None w' c'"

text \<open>The code's run is a run of the relation.\<close>

lemma interceptor_runs:
  "case api_call n r w c of (a, w', c') \<Rightarrow> calls n r w c a w' c'"
  "case on_response_error n r e w c of (a, w', c') \<Rightarrow> handles n r e w c a w' c'"
  "case after_refresh_failed n r e w c of (a, w', c') \<Rightarrow> falls_through n r e w c a w' c'"
  "case refreshSession n t w c of (ok, w', c') \<Rightarrow> refreshes n t w c ok w' c'"
proof (induction n r w c and n r e w c and n r e w c and n t w c
    rule: api_call_on_response_error_after_refresh_failed_refreshSession.induct)
  case (1 n r w c)
  then show ?case
    by (subst api_call.simps)
      (auto split: prod.splits api_response.splits intro: call_ok call_err call_waits)
next
  case (2 n r e w c)
  then show ?case
    apply (subst on_response_error.simps)
    apply (simp only: refreshable_def [symmetric] not_not)
    by (fastforce split: prod.splits api_response.splits option.splits bool.splits if_splits
        intro: other_status retry_ok retry_waits retry_failed refresh_failed refresh_waits not_refreshable)
next
  case (3 n r e w c)
  then show ?case
    by (subst after_refresh_failed.simps)
      (auto simp: rotating_def [symmetric] split: prod.splits api_response.splits option.splits
        intro: rotation_ok rotation_failed rotation_unsettled rotation_retry_waits session_over)
next
  case (4 n t w c)
  then show ?case
    by (subst refreshSession.simps)
      (auto split: prod.splits api_response.splits shared_turn.splits
        intro: refresh_shared refresh_never refresh_ok refresh_rejected refresh_unsettled)
qed

section \<open>How much traffic one request can cause\<close>

text \<open>\<open>k\<close> counts the requests that have reached the network of \<open>n\<close>.\<close>

definition counts_sends :: "'w net \<Rightarrow> ('w \<Rightarrow> nat) \<Rightarrow> bool" where
  "counts_sends n k \<longleftrightarrow>
     (\<forall>r w. k (snd (send n r w)) = Suc (k w))
     \<and> (\<forall>w. k (snd (shared_refresh n w)) = k w)
     \<and> (\<forall>p w w'. await_tracked n p w = Some w' \<longrightarrow> k w' = k w)"

text \<open>Any network with such a counter added to its world.\<close>

definition counting :: "'w net \<Rightarrow> (nat \<times> 'w) net" where
  "counting n = \<lparr>
     send = (\<lambda>r kw. (fst (send n r (snd kw)), (Suc (fst kw), snd (send n r (snd kw))))),
     shared_refresh = (\<lambda>kw. (fst (shared_refresh n (snd kw)), (fst kw, snd (shared_refresh n (snd kw))))),
     guard_at = (\<lambda>kw. guard_at n (snd kw)),
     now_at = (\<lambda>kw. now_at n (snd kw)),
     await_tracked = (\<lambda>p kw. map_option (Pair (fst kw)) (await_tracked n p (snd kw)))\<rparr>"

lemma counts_sends_counting: "counts_sends (counting n) fst"
  by (auto simp: counts_sends_def counting_def)

lemma counts_send: "counts_sends n k \<Longrightarrow> send n r w = (a, w') \<Longrightarrow> k w' = Suc (k w)"
  unfolding counts_sends_def by (metis snd_conv)

lemma counts_shared: "counts_sends n k \<Longrightarrow> shared_refresh n w = (b, w') \<Longrightarrow> k w' = k w"
  unfolding counts_sends_def by (metis snd_conv)

lemma counts_waited: "counts_sends n k \<Longrightarrow> rotation_wait n r w = Some w0 \<Longrightarrow> k w0 = k w"
  by (auto simp: counts_sends_def rotation_wait_def split: option.splits if_splits)

definition max_sends :: "api_request \<Rightarrow> nat" where
  "max_sends r =
     (if isEligibleForRefresh (req_path r) \<and> \<not> retriedAfterRefresh r
      then (if retriedAfterRotation r then 4 else 7)
      else (if retriedAfterRotation r then 1 else 2))"

definition rotation_sends :: "api_request \<Rightarrow> nat" where
  "rotation_sends r = (if retriedAfterRotation r then 0
     else max_sends (r\<lparr>retriedAfterRotation := True\<rparr>))"

lemma max_sends_budget:
  "1 + rotation_sends r \<le> max_sends r"
  "refreshable r e \<Longrightarrow> 3 + rotation_sends r \<le> max_sends r"
  "refreshable r e \<Longrightarrow> 3 + max_sends (r\<lparr>retriedAfterRefresh := True\<rparr>)
       + rotation_sends (r\<lparr>retriedAfterRefresh := True\<rparr>) \<le> max_sends r"
  "rotating n r e w \<Longrightarrow> max_sends (r\<lparr>retriedAfterRotation := True\<rparr>) = rotation_sends r"
  "max_sends (refresh_request t) = 2"
  by (auto simp: max_sends_def rotation_sends_def refreshable_def rotating_def refresh_request_def)

lemma sends_bounded:
  "calls n r w c a w' c' \<Longrightarrow> counts_sends n k \<Longrightarrow> k w' \<le> k w + max_sends r"
  "handles n r e w c a w' c' \<Longrightarrow> counts_sends n k \<Longrightarrow> k w' + 1 \<le> k w + max_sends r"
  "falls_through n r e w c a w' c' \<Longrightarrow> counts_sends n k \<Longrightarrow> k w' \<le> k w + rotation_sends r"
  "refreshes n t w c ok w' c' \<Longrightarrow> counts_sends n k \<Longrightarrow> k w' \<le> k w + 2"
proof (induction rule: calls_handles_falls_through_refreshes.inducts)
  case (call_ok r w d w1 c)
  with counts_send max_sends_budget(1) [of r] show ?case by fastforce
next
  case (call_err r w e w1 c a w' c')
  with counts_send show ?case by fastforce
next
  case (other_status e r w c)
  with max_sends_budget(1) [of r] show ?case by simp
next
  case (retry_ok e r w c w1 c1 d w' c')
  with max_sends_budget(3) [of r e] show ?case by simp
next
  case (call_waits r w w1 c)
  with counts_send max_sends_budget(1) [of r] show ?case by fastforce
next
  case (retry_waits e r w c w1 c1 w' c')
  with max_sends_budget(3) [of r e] show ?case by simp
next
  case (refresh_waits e r w c w' c')
  with max_sends_budget(2) [of r e] show ?case by simp
next
  case (retry_failed e r w c w1 c1 e' w2 c2 a w' c')
  with max_sends_budget(3) [of r e] show ?case by simp
next
  case (refresh_failed e r w c w1 c1 a w' c')
  with max_sends_budget(2) [of r e] show ?case by simp
next
  case (not_refreshable e r w c a w' c')
  with max_sends_budget(1) [of r] show ?case by simp
qed (auto simp: max_sends_budget dest: counts_shared counts_waited)

section \<open>What becomes of the session\<close>

lemma end_session_simps [simp]:
  "auth (end_session c) = setAuthenticated 0 False (auth c)"
  "issued (end_session c) = issued c @ end_of_session_commands"
  "shown (end_session c) = shown c @
     (if isAuthenticated (auth c) = Some True then [session_expired_toast] else [])"
  by (simp_all add: end_session_def Let_def)

lemma signed_out_simp [simp]: "isAuthenticated (setAuthenticated now False s) = Some False"
  by (simp add: setAuthenticated_def initialProfile_def)

definition session_ended :: "client \<Rightarrow> bool" where
  "session_ended c \<longleftrightarrow> (\<exists>c0. c = end_session c0)"

lemma rejected_outcome:
  "calls n r w c a w' c' \<Longrightarrow> \<forall>e. a = Rejected e \<longrightarrow>
     (if err_status e = Some 401 then session_ended c' else c' = c)"
  "handles n r e w c a w' c' \<Longrightarrow> \<forall>e'. a = Rejected e' \<longrightarrow>
     e' = e \<and> (if err_status e = Some 401 then session_ended c' else c' = c)"
  "falls_through n r e w c a w' c' \<Longrightarrow> \<forall>e'. a = Rejected e' \<longrightarrow> e' = e \<and> session_ended c'"
  "refreshes n t w c ok w' c' \<Longrightarrow> True"
  by (induction rule: calls_handles_falls_through_refreshes.inducts) (auto simp: session_ended_def)

text \<open>What any run does to the toasts: nothing, or it ends a live session and says so once.\<close>

definition one_notice :: "client \<Rightarrow> client \<Rightarrow> bool" where
  "one_notice c c' \<longleftrightarrow>
     (shown c' = shown c \<and> (auth c' = auth c \<or>
        (isAuthenticated (auth c) \<noteq> Some True \<and> isAuthenticated (auth c') = Some False)))
   \<or> (isAuthenticated (auth c) = Some True \<and> isAuthenticated (auth c') = Some False
       \<and> shown c' = shown c @ [session_expired_toast])"

lemma one_notice_refl [simp]: "one_notice c c"
  by (simp add: one_notice_def)

lemma one_notice_end: "one_notice c (end_session c)"
  by (simp add: one_notice_def)

lemma one_notice_trans: "one_notice a b \<Longrightarrow> one_notice b c \<Longrightarrow> one_notice a c"
  by (auto simp: one_notice_def)

lemma runs_notice_once:
  "calls n r w c a w' c' \<Longrightarrow> one_notice c c'"
  "handles n r e w c a w' c' \<Longrightarrow> one_notice c c'"
  "falls_through n r e w c a w' c' \<Longrightarrow> one_notice c c'"
  "refreshes n t w c ok w' c' \<Longrightarrow> one_notice c c'"
  by (induction rule: calls_handles_falls_through_refreshes.inducts)
    (auto intro: one_notice_trans one_notice_end)

section \<open>Properties\<close>

text \<open>Everything the handler waits for settles.\<close>

definition parts_settle :: "'w net \<Rightarrow> bool" where
  "parts_settle n \<longleftrightarrow> (\<forall>r w. fst (send n r w) \<noteq> Unsettled) \<and> (\<forall>w. fst (shared_refresh n w) \<noteq> NeverSettles)
     \<and> (\<forall>p w. await_tracked n p w \<noteq> None)"

lemma part_settles:
  "parts_settle n \<Longrightarrow> send n r w \<noteq> (Unsettled, w1)"
  "parts_settle n \<Longrightarrow> shared_refresh n w \<noteq> (NeverSettles, w1)"
  "parts_settle n \<Longrightarrow> tracked_as r = None \<Longrightarrow> rotation_wait n r w \<noteq> None"
  unfolding parts_settle_def rotation_wait_def by (metis fst_conv, metis fst_conv, auto split: option.split)

lemma runs_settle:
  "calls n r w c a w' c' \<Longrightarrow> parts_settle n \<Longrightarrow> tracked_as r = None \<Longrightarrow> a \<noteq> Unsettled"
  "handles n r e w c a w' c' \<Longrightarrow> parts_settle n \<Longrightarrow> tracked_as r = None \<Longrightarrow> a \<noteq> Unsettled"
  "falls_through n r e w c a w' c' \<Longrightarrow> parts_settle n \<Longrightarrow> tracked_as r = None \<Longrightarrow> a \<noteq> Unsettled"
  "refreshes n t w c ok w' c' \<Longrightarrow> parts_settle n \<Longrightarrow> t = None \<Longrightarrow> ok \<noteq> None"
  by (induction rule: calls_handles_falls_through_refreshes.inducts)
    (simp_all add: part_settles refresh_request_def)

text \<open>C4. The handler's retries end, and one call through it costs at most seven requests on the network, whatever the
  server answers, however rotations and refreshes of other tabs are timed, and whether or not it comes back: the
  request itself, the refresh and its retry after a rotation, and the retries the two one-shot flags allow. A
  request to an excluded endpoint costs at most two. And the call comes back, provided what it waits for settles
  (the requests, the shared refresh, rotations) and it is not itself, or waited for by, the rotation request it may wait for.\<close>

theorem interceptor_traffic_bounded:
  "fst (fst (snd (api_call (counting n) r (0, w) c))) \<le> 7
   \<and> (\<not> isEligibleForRefresh (req_path r) \<longrightarrow>
        fst (fst (snd (api_call (counting n) r (0, w) c))) \<le> 2)
   \<and> (parts_settle n \<and> tracked_as r = None \<longrightarrow> fst (api_call n r w c) \<noteq> Unsettled)"
proof -
  obtain a kw c' where run: "api_call (counting n) r (0, w) c = (a, kw, c')" by (metis prod_cases3)
  then have "calls (counting n) r (0, w) c a kw c'"
    using interceptor_runs(1) [of "counting n" r "(0, w)" c] by simp
  from sends_bounded(1) [OF this counts_sends_counting] have "fst kw \<le> max_sends r" by simp
  moreover have "fst (api_call n r w c) \<noteq> Unsettled" if "parts_settle n" "tracked_as r = None"
    using interceptor_runs(1) [of n r w c] runs_settle(1) [OF _ that] by (auto split: prod.splits)
  ultimately show ?thesis using run by (auto simp: max_sends_def split: if_splits)
qed

definition dead_net :: "unit net" where
  "dead_net = \<lparr>send = (\<lambda>r w. (Rejected \<lparr>err_status = Some 401, err_has_config = True\<rparr>, w)),
     shared_refresh = (\<lambda>w. (OwnTurn, w)), guard_at = (\<lambda>w. \<lparr>pendingRotation = None, rotationSettledAt = Some 0\<rparr>),
     now_at = (\<lambda>w. 1000), await_tracked = (\<lambda>p w. Some w)\<rparr>"

definition plain_request :: "string \<Rightarrow> api_request" where
  "plain_request u = \<lparr>req_path = u, retriedAfterRefresh = False, retriedAfterRotation = False, tracked_as = None\<rparr>"

theorem interceptor_traffic_bounded_witness:
  "fst (fst (snd (api_call (counting dead_net) (plain_request ''/auth/login'') (0, ()) client_initial))) \<le> 2
   \<and> fst (api_call dead_net (plain_request ''/auth/login'') () client_initial) \<noteq> Unsettled"
  using interceptor_traffic_bounded [of dead_net "plain_request ''/auth/login''" "()" client_initial]
  by (simp add: isEligibleForRefresh_def AUTH_ENDPOINTS_EXCLUDED_FROM_REFRESH_def plain_request_def
      parts_settle_def dead_net_def)

text \<open>A rotation request whose own session has died waits for itself. While its promise is the pending rotation and everything is
  answered with a 401, the call never settles: the user is not told, the session is not ended, and the
  guard stays pending, so that every later call that fails waits for it as well.\<close>

theorem tracked_call_waits_for_itself:
  assumes pending: "\<And>w. getPendingSessionRotation (guard_at n w) = Some p"
    and dead: "\<And>r w. \<exists>e w'. send n r w = (Rejected e, w') \<and> err_status e = Some 401 \<and> err_has_config e"
    and own: "\<And>w. \<exists>w'. shared_refresh n w = (OwnTurn, w')"
    and "tracked_as r = Some p" and "\<not> retriedAfterRotation r"
  shows "\<exists>w'. api_call n r w c = (Unsettled, w', c)"
proof -
  have near: "rotation_near n w" for w by (simp add: rotation_near_def pending)
  have "rotation_wait n r w = None" if "tracked_as r = Some p" for r w
    using that by (simp add: rotation_wait_def pending)
  then have waits: "after_refresh_failed n r e w c = (Unsettled, w, c)"
    if "tracked_as r = Some p" "\<not> retriedAfterRotation r" "err_has_config e" for r e w c
    using that near by (simp add: after_refresh_failed.simps)
  have refresh: "\<exists>w'. api_call n (refresh_request (Some p)) w c = (Unsettled, w', c)" for w c
  proof -
    obtain e w1 where "send n (refresh_request (Some p)) w = (Rejected e, w1)" "err_status e = Some 401" "err_has_config e"
      using dead by metis
    then show ?thesis
      using waits [of "refresh_request (Some p)" e w1 c] by (simp add: api_call.simps on_response_error.simps refresh_request_def)
  qed
  obtain e w1 where e: "send n r w = (Rejected e, w1)" "err_status e = Some 401" "err_has_config e" using dead by metis
  obtain w2 where w2: "shared_refresh n w1 = (OwnTurn, w2)" using own by metis
  obtain w3 where "api_call n (refresh_request (Some p)) w2 c = (Unsettled, w3, c)" using refresh by metis
  then have "refreshSession n (Some p) w1 c = (None, w3, c)" using w2 by (simp add: refreshSession.simps)
  then show ?thesis using e assms(4,5) waits by (simp add: api_call.simps on_response_error.simps)
qed

definition rotating_net :: "unit net" where
  "rotating_net = dead_net\<lparr>guard_at := (\<lambda>w. trackSessionRotatingRequest 7 rotation_initial)\<rparr>"

theorem tracked_call_waits_for_itself_witness:
  "fst (api_call rotating_net ((plain_request ''/users/me'')\<lparr>tracked_as := Some 7\<rparr>) () client_initial) = Unsettled"
proof -
  have "\<exists>w'. api_call rotating_net ((plain_request ''/users/me'')\<lparr>tracked_as := Some 7\<rparr>) () client_initial = (Unsettled, w', client_initial)"
    by (rule tracked_call_waits_for_itself [of rotating_net 7])
      (simp_all add: rotating_net_def dead_net_def plain_request_def trackSessionRotatingRequest_def getPendingSessionRotation_def)
  then show ?thesis by auto
qed

text \<open>C3. A call that comes back rejected with a 401 has ended the session in this tab: the store is
  signed out, no permission check succeeds, and the last commands issued are the removal of the
  caller's cached queries. A call that comes back rejected with any other status has left the tab
  exactly as it was.\<close>

theorem rejected_call_session:
  assumes "api_call n r w c = (Rejected e, w', c')"
  shows "(err_status e = Some 401 \<longrightarrow> isAuthenticated (auth c') = Some False \<and> \<not> can (auth c') p
            \<and> (\<exists>before. issued c' = before @ end_of_session_commands))
       \<and> (err_status e \<noteq> Some 401 \<longrightarrow> c' = c)"
proof -
  have "calls n r w c (Rejected e) w' c'"
    using interceptor_runs(1) [of n r w c] assms by simp
  from rejected_outcome(1) [OF this]
  have "if err_status e = Some 401 then session_ended c' else c' = c" by simp
  then show ?thesis
    by (cases "err_status e = Some 401")
      (auto simp: session_ended_def)
qed

definition forbidding_net :: "unit net" where
  "forbidding_net = dead_net\<lparr>send := (\<lambda>r w. (Rejected \<lparr>err_status = Some 403, err_has_config = True\<rparr>, w))\<rparr>"

theorem rejected_call_session_witness:
  "snd (snd (api_call forbidding_net (plain_request ''/users/'') () client_initial)) = client_initial"
  using rejected_call_session [of forbidding_net "plain_request ''/users/''" "()"
      client_initial "\<lparr>err_status = Some 403, err_has_config = True\<rparr>" "()" client_initial NoPermission]
  by (simp add: api_call.simps on_response_error.simps forbidding_net_def)



text \<open>C24. However many nested attempts a call makes, the user is told at most once that the session
  has expired, and only if a session was live when the call was made; a call that finds no live
  session shows nothing, and one that leaves the session live shows nothing.\<close>

theorem session_expiry_announced_once:
  "case api_call n r w c of (a, w', c') \<Rightarrow>
     (shown c' = shown c \<or> shown c' = shown c @ [session_expired_toast])
     \<and> (isAuthenticated (auth c) \<noteq> Some True \<longrightarrow> shown c' = shown c)
     \<and> (isAuthenticated (auth c') = Some True \<longrightarrow> shown c' = shown c \<and> auth c' = auth c)"
proof -
  have "one_notice c (snd (snd (api_call n r w c)))"
    using interceptor_runs(1) [of n r w c] by (auto intro: runs_notice_once split: prod.splits)
  then show ?thesis by (auto simp: one_notice_def split: prod.splits)
qed

theorem session_expiry_announced_once_witness:
  "shown (snd (snd (api_call dead_net (refresh_request None) () client_initial))) = []"
  using session_expiry_announced_once [where n = dead_net and r = "refresh_request None" and w = "()"
      and c = client_initial]
  by (auto simp: client_initial_def auth_initial_def split: prod.splits)

text \<open>When the silent refresh succeeds but the retried request then fails for another reason (a
  403, a server error, a lost connection) and no rotation is near, the handler still ends the
  session: the caller sees the original 401, the tab is signed out and the expiry notice is shown,
  although the session has just been refreshed.\<close>

theorem refreshed_session_ended_by_other_failure:
  assumes "send n r w = (Rejected e, w1)" and "err_status e = Some 401" and "err_has_config e"
    and "isEligibleForRefresh (req_path r)" and "\<not> retriedAfterRefresh r"
    and "shared_refresh n w1 = (SettledFor True, w2)"
    and "send n (r\<lparr>retriedAfterRefresh := True\<rparr>) w2 = (Rejected e2, w3)" and "err_status e2 \<noteq> Some 401"
    and "\<not> rotation_near n w3"
    and "isAuthenticated (auth c) = Some True"
  shows "api_call n r w c = (Rejected e, w3, end_session c)
     \<and> isAuthenticated (auth (end_session c)) = Some False
     \<and> shown (end_session c) = shown c @ [session_expired_toast]"
  using assms
  by (simp add: api_call.simps on_response_error.simps after_refresh_failed.simps refreshSession.simps)

definition refreshing_net :: "nat net" where
  "refreshing_net = \<lparr>
     send = (\<lambda>r w. (Rejected \<lparr>err_status = Some (if retriedAfterRefresh r then 403 else 401),
                               err_has_config = True\<rparr>, w)),
     shared_refresh = (\<lambda>w. (SettledFor True, w)), guard_at = (\<lambda>w. rotation_initial),
     now_at = int, await_tracked = (\<lambda>p w. Some w)\<rparr>"

theorem refreshed_session_ended_by_other_failure_witness:
  "isAuthenticated (auth (snd (snd (api_call refreshing_net (plain_request ''/users/'') 0
      (with_auth (setAuthenticated 5 True) client_initial))))) = Some False"
  using refreshed_session_ended_by_other_failure [of refreshing_net "plain_request ''/users/''" 0
      "\<lparr>err_status = Some 401, err_has_config = True\<rparr>" 0 0
      "\<lparr>err_status = Some 403, err_has_config = True\<rparr>" 0
      "with_auth (setAuthenticated 5 True) client_initial"]
  by (simp add: refreshing_net_def plain_request_def isEligibleForRefresh_def AUTH_ENDPOINTS_EXCLUDED_FROM_REFRESH_def
      setAuthenticated_def rotation_near_def rotation_initial_def getPendingSessionRotation_def wasSessionRecentlyRotated_def)

end
