(* ===== verification/CrossTab.thy ===== *)
theory CrossTab
  imports JsValues
begin

text \<open>
  Refresh-token rotation across the tabs of one browser, \<open>auth/session_lifecycle/crossTabRefresh.ts\<close>,
  and the single flight of one tab (\<open>refreshSession\<close> of \<open>setupAuthInterceptor.ts\<close>).

  The tabs share \<open>localStorage\<close>. Its two items are kept as JSON text, so that the readers parse them
  with the checks of the source; a storage that throws is the two flags. Every tab runs
  \<open>refreshWithStorageLease\<close> as a program counter over the accesses to the storage, which is the
  granularity at which tabs in different processes interleave. A second system runs whole turns of
  the event loop at once, which is what the lease is meant for. \<open>Date.now()\<close> is the shared clock.
\<close>

section \<open>The storage\<close>

record lease =
  owner :: string
  expiresAt :: int

record rotation_result =
  epoch :: int
  success :: bool

record tab_storage =
  readable :: bool
  writable :: bool
  lease_item :: "json_text option"
  rotation_item :: "json_text option"

definition LEASE_MS :: int where "LEASE_MS = 15000"

definition lease_text :: "lease \<Rightarrow> json_text" where
  "lease_text l = Document (JObj [(''owner'', JStr (owner l)), (''expiresAt'', JNum (expiresAt l))])"

fun parse_lease :: "json_text \<Rightarrow> lease option" where
  "parse_lease Malformed = None"
| "parse_lease (Document v) =
     (case (json_field ''owner'' (Some v), json_field ''expiresAt'' (Some v)) of
        (Some (JStr s), Some (JNum n)) \<Rightarrow> Some \<lparr>owner = s, expiresAt = n\<rparr>
      | _ \<Rightarrow> None)"

definition readLease :: "tab_storage \<Rightarrow> lease option" where
  "readLease st = (if readable st then Option.bind (lease_item st) parse_lease else None)"

definition set_lease :: "lease \<Rightarrow> tab_storage \<Rightarrow> tab_storage" where
  "set_lease l st = (if writable st then st\<lparr>lease_item := Some (lease_text l)\<rparr> else st)"

definition writeLease :: "lease \<Rightarrow> tab_storage \<Rightarrow> bool \<times> tab_storage" where
  "writeLease l st =
     (if writable st
      then let st' = set_lease l st in (map_option owner (readLease st') = Some (owner l), st')
      else (False, st))"

definition releaseLease :: "string \<Rightarrow> tab_storage \<Rightarrow> tab_storage" where
  "releaseLease tabId st =
     (if map_option owner (readLease st) = Some tabId \<and> writable st
      then st\<lparr>lease_item := None\<rparr> else st)"

definition rotation_text :: "rotation_result \<Rightarrow> json_text" where
  "rotation_text r = Document (JObj [(''epoch'', JNum (epoch r)), (''success'', JBool (success r))])"

fun parse_rotation :: "json_text \<Rightarrow> rotation_result option" where
  "parse_rotation Malformed = None"
| "parse_rotation (Document v) =
     (case (json_field ''epoch'' (Some v), json_field ''success'' (Some v)) of
        (Some (JNum n), Some (JBool b)) \<Rightarrow> Some \<lparr>epoch = n, success = b\<rparr>
      | _ \<Rightarrow> None)"

definition readRotationResult :: "tab_storage \<Rightarrow> rotation_result option" where
  "readRotationResult st =
     (if readable st then Option.bind (rotation_item st) parse_rotation else None)"

definition publishRotationResult :: "bool \<Rightarrow> tab_storage \<Rightarrow> tab_storage" where
  "publishRotationResult ok st =
     (let previous = readRotationResult st;
          e = (case previous of Some p \<Rightarrow> epoch p | None \<Rightarrow> 0) + 1
      in if writable st then st\<lparr>rotation_item := Some (rotation_text \<lparr>epoch = e, success = ok\<rparr>)\<rparr> else st)"

definition rotationCompletedAfter :: "rotation_result option \<Rightarrow> tab_storage \<Rightarrow> bool" where
  "rotationCompletedAfter before st =
     (case readRotationResult st of
        None \<Rightarrow> False
      | Some now \<Rightarrow> (case before of None \<Rightarrow> True | Some b \<Rightarrow> epoch now \<noteq> epoch b) \<and> success now)"

lemma parse_lease_text [simp]: "parse_lease (lease_text l) = Some l"
  by (simp add: lease_text_def)

lemma parse_rotation_text [simp]: "parse_rotation (rotation_text r) = Some r"
  by (simp add: rotation_text_def)

lemma set_lease_simps [simp]:
  "readable (set_lease l st) = readable st" "writable (set_lease l st) = writable st"
  "rotation_item (set_lease l st) = rotation_item st"
  by (simp_all add: set_lease_def)

lemma read_set_lease [simp]:
  "readable st \<Longrightarrow> writable st \<Longrightarrow> readLease (set_lease l st) = Some l"
  by (simp add: readLease_def set_lease_def)

lemma releaseLease_simps [simp]:
  "readable (releaseLease t st) = readable st" "writable (releaseLease t st) = writable st"
  "rotation_item (releaseLease t st) = rotation_item st"
  by (simp_all add: releaseLease_def)

lemma publish_simps [simp]:
  "readable (publishRotationResult ok st) = readable st"
  "writable (publishRotationResult ok st) = writable st"
  "lease_item (publishRotationResult ok st) = lease_item st"
  "readLease (publishRotationResult ok st) = readLease st"
  by (simp_all add: publishRotationResult_def readLease_def Let_def)

lemma read_after_publish:
  "readable st \<Longrightarrow> writable st \<Longrightarrow> readRotationResult (publishRotationResult ok st) =
     Some \<lparr>epoch = (case readRotationResult st of Some p \<Rightarrow> epoch p | None \<Rightarrow> 0) + 1, success = ok\<rparr>"
  by (simp add: publishRotationResult_def Let_def readRotationResult_def)

lemma read_after_release:
  "readable st \<Longrightarrow> writable st \<Longrightarrow>
   readLease (releaseLease t st) =
     (if map_option owner (readLease st) = Some t then None else readLease st)"
  by (cases "Option.bind (lease_item st) parse_lease") (auto simp: releaseLease_def readLease_def)

section \<open>A tab that refreshes under the lease\<close>

datatype refresh_outcome = AlreadyRotated | Responded | RequestFailed

datatype tab_pc =
    NotStarted | ReadLease | AwaitTab | CheckAwaited | SetLease | VerifyLease | RetryDelay
  | CheckRotated | Requesting | PublishResult bool | ReleaseLease refresh_outcome
  | Finished refresh_outcome

record tab =
  pc :: tab_pc
  rotation_before :: "rotation_result option"

record world =
  storage :: tab_storage
  clock :: int
  tabs :: "string \<Rightarrow> tab"

definition goto :: "string \<Rightarrow> tab_pc \<Rightarrow> world \<Rightarrow> world" where
  "goto t p w = w\<lparr>tabs := (tabs w)(t := (tabs w t)\<lparr>pc := p\<rparr>)\<rparr>"

definition store_with :: "(tab_storage \<Rightarrow> tab_storage) \<Rightarrow> world \<Rightarrow> world" where
  "store_with f w = w\<lparr>storage := f (storage w)\<rparr>"

definition lease_of :: "string \<Rightarrow> world \<Rightarrow> lease" where
  "lease_of t w = \<lparr>owner = t, expiresAt = clock w + LEASE_MS\<rparr>"

text \<open>The lease is another tab's and has not expired.\<close>

definition held_elsewhere :: "string \<Rightarrow> world \<Rightarrow> bool" where
  "held_elsewhere t w =
     (case readLease (storage w) of
        Some l \<Rightarrow> owner l \<noteq> t \<and> clock w < expiresAt l
      | None \<Rightarrow> False)"

definition owns_lease :: "string \<Rightarrow> world \<Rightarrow> bool" where
  "owns_lease t w \<longleftrightarrow> map_option owner (readLease (storage w)) = Some t"

text \<open>The next access of tab \<open>t\<close>. \<open>reply\<close> is the server's answer where one is awaited. A tab that
  waits for another one or for the retry delay goes on when it is scheduled again: the message, the
  storage event and the timeout all lead there.\<close>

definition tab_step :: "string \<Rightarrow> bool \<Rightarrow> world \<Rightarrow> world" where
  "tab_step t reply w =
     (case pc (tabs w t) of
        NotStarted \<Rightarrow> w\<lparr>tabs := (tabs w)(t :=
          \<lparr>pc = ReadLease, rotation_before = readRotationResult (storage w)\<rparr>)\<rparr>
      | ReadLease \<Rightarrow> goto t (if held_elsewhere t w then AwaitTab else SetLease) w
      | AwaitTab \<Rightarrow> goto t CheckAwaited w
      | CheckAwaited \<Rightarrow>
          goto t (if rotationCompletedAfter (rotation_before (tabs w t)) (storage w)
                  then Finished AlreadyRotated else ReadLease) w
      | SetLease \<Rightarrow>
          (if writable (storage w)
           then goto t VerifyLease (store_with (set_lease (lease_of t w)) w)
           else goto t RetryDelay w)
      | VerifyLease \<Rightarrow> goto t (if owns_lease t w then CheckRotated else RetryDelay) w
      | RetryDelay \<Rightarrow> goto t ReadLease w
      | CheckRotated \<Rightarrow>
          goto t (if rotationCompletedAfter (rotation_before (tabs w t)) (storage w)
                  then ReleaseLease AlreadyRotated else Requesting) w
      | Requesting \<Rightarrow> goto t (PublishResult reply) w
      | PublishResult ok \<Rightarrow>
          goto t (ReleaseLease (if ok then Responded else RequestFailed))
            (store_with (publishRotationResult ok) w)
      | ReleaseLease r \<Rightarrow> goto t (Finished r) (store_with (releaseLease t) w)
      | Finished r \<Rightarrow> w)"

text \<open>The interval that runs while the request is in flight.\<close>

definition heartbeat :: "string \<Rightarrow> world \<Rightarrow> world" where
  "heartbeat t w =
     (if pc (tabs w t) = Requesting \<and> owns_lease t w
      then store_with (\<lambda>st. snd (writeLease (lease_of t w) st)) w else w)"

inductive interleaved :: "world \<Rightarrow> world \<Rightarrow> bool" where
  access: "interleaved w (tab_step t reply w)"
| beat: "interleaved w (heartbeat t w)"
| tick: "0 \<le> d \<Longrightarrow> interleaved w (w\<lparr>clock := clock w + d\<rparr>)"

text \<open>All tabs about to start, over some storage.\<close>

definition all_tabs_start :: "tab_storage \<Rightarrow> int \<Rightarrow> world" where
  "all_tabs_start st now = \<lparr>storage = st, clock = now,
     tabs = (\<lambda>t. \<lparr>pc = NotStarted, rotation_before = None\<rparr>)\<rparr>"

definition fresh_storage :: tab_storage where
  "fresh_storage = \<lparr>readable = True, writable = True, lease_item = None, rotation_item = None\<rparr>"

text \<open>A schedule of single accesses, by tab.\<close>

fun run_schedule :: "string list \<Rightarrow> world \<Rightarrow> world" where
  "run_schedule [] w = w"
| "run_schedule (t # ts) w = run_schedule ts (tab_step t True w)"

lemma run_schedule_interleaved: "interleaved\<^sup>*\<^sup>* w (run_schedule ts w)"
  by (induction ts arbitrary: w) (auto intro: access converse_rtranclp_into_rtranclp)

lemma goto_simps [simp]:
  "storage (goto t p w) = storage w" "clock (goto t p w) = clock w"
  "tabs (goto t p w) = (tabs w)(t := (tabs w t)\<lparr>pc := p\<rparr>)"
  by (simp_all add: goto_def)

lemma store_with_simps [simp]:
  "storage (store_with f w) = f (storage w)" "clock (store_with f w) = clock w"
  "tabs (store_with f w) = tabs w"
  by (simp_all add: store_with_def)

section \<open>Whole turns\<close>

text \<open>An \<open>async\<close> function runs to its next \<open>await\<close> without being interrupted by another task of
  the same process. These are the points where it stops.\<close>

fun at_await :: "tab_pc \<Rightarrow> bool" where
  "at_await NotStarted = True"
| "at_await AwaitTab = True"
| "at_await RetryDelay = True"
| "at_await Requesting = True"
| "at_await (Finished r) = True"
| "at_await _ = False"

fun run_to_await :: "nat \<Rightarrow> string \<Rightarrow> world \<Rightarrow> world" where
  "run_to_await 0 t w = w"
| "run_to_await (Suc n) t w =
     (if at_await (pc (tabs w t)) then w else run_to_await n t (tab_step t True w))"

text \<open>Six accesses are the longest way from one await to the next.\<close>

definition tab_turn :: "string \<Rightarrow> bool \<Rightarrow> world \<Rightarrow> world" where
  "tab_turn t reply w = run_to_await 6 t (tab_step t reply w)"

definition timely :: "int \<Rightarrow> world \<Rightarrow> bool" where
  "timely d w \<longleftrightarrow> (\<forall>t l. pc (tabs w t) = Requesting \<longrightarrow> readLease (storage w) = Some l \<longrightarrow>
      owner l = t \<longrightarrow> clock w + d < expiresAt l)"

text \<open>Turns are not interleaved, and the heartbeat renews a lease before it lapses.\<close>

inductive turns :: "world \<Rightarrow> world \<Rightarrow> bool" where
  turn: "turns w (tab_turn t reply w)"
| renewal: "turns w (heartbeat t w)"
| passing: "0 \<le> d \<Longrightarrow> timely d w \<Longrightarrow> turns w (w\<lparr>clock := clock w + d\<rparr>)"

inductive_cases turnsE: "turns w w'"

definition lease_inv :: "world \<Rightarrow> bool" where
  "lease_inv w \<longleftrightarrow> readable (storage w) \<and> writable (storage w)
     \<and> (\<forall>t. at_await (pc (tabs w t)))
     \<and> (\<forall>t. pc (tabs w t) = Requesting \<longrightarrow>
          (\<exists>l. readLease (storage w) = Some l \<and> owner l = t \<and> clock w < expiresAt l))"

lemma lease_inv_unique:
  "lease_inv w \<Longrightarrow> pc (tabs w a) = Requesting \<Longrightarrow> pc (tabs w b) = Requesting \<Longrightarrow> a = b"
  unfolding lease_inv_def by (metis option.inject)

lemma lease_inv_readable: "lease_inv w \<Longrightarrow> readable (storage w) \<and> writable (storage w)"
  by (simp add: lease_inv_def)

lemma other_holder_blocks:
  assumes "lease_inv w" "pc (tabs w h) = Requesting" "h \<noteq> t"
  shows "held_elsewhere t w \<and> \<not> owns_lease t w"
proof -
  from assms obtain l where "readLease (storage w) = Some l" "owner l = h" "clock w < expiresAt l"
    unfolding lease_inv_def by blast
  with assms(3) show ?thesis by (auto simp: held_elsewhere_def owns_lease_def)
qed

text \<open>What one turn does to the program counter of its tab and to the storage.\<close>

lemma goto_goto [simp]: "goto t p (goto t q w) = goto t p w"
  by (simp add: goto_def)

lemma store_goto [simp]: "store_with f (goto t p w) = goto t p (store_with f w)"
  by (simp add: goto_def store_with_def)

lemma view_goto [simp]:
  "held_elsewhere t (goto u p w) = held_elsewhere t w" "owns_lease t (goto u p w) = owns_lease t w"
  "lease_of t (goto u p w) = lease_of t w"
  by (simp_all add: held_elsewhere_def owns_lease_def lease_of_def split: option.split)

lemma owns_written [simp]:
  "readable (storage w) \<Longrightarrow> writable (storage w) \<Longrightarrow>
   owns_lease t (store_with (set_lease (lease_of t v)) w)"
  by (simp add: owns_lease_def lease_of_def)

text \<open>The outcome of an acquisition that is not interrupted.\<close>

definition acquired :: "string \<Rightarrow> world \<Rightarrow> world" where
  "acquired t w =
     (if held_elsewhere t w then goto t AwaitTab w
      else if rotationCompletedAfter (rotation_before (tabs w t)) (storage w)
      then goto t (Finished AlreadyRotated)
             (store_with (releaseLease t) (store_with (set_lease (lease_of t w)) w))
      else goto t Requesting (store_with (set_lease (lease_of t w)) w))"

lemma completed_set_lease [simp]:
  "rotationCompletedAfter b (set_lease l st) = rotationCompletedAfter b st"
  by (simp add: rotationCompletedAfter_def readRotationResult_def)

lemma run_from_read:
  assumes "pc (tabs w t) = ReadLease" "readable (storage w)" "writable (storage w)"
  shows "run_to_await (Suc (Suc (Suc (Suc (Suc n))))) t w = acquired t w"
proof (cases "held_elsewhere t w")
  case True
  with assms show ?thesis by (cases n) (simp_all add: tab_step_def acquired_def)
next
  case False
  let ?s = "store_with (set_lease (lease_of t w)) w"
  have 1: "tab_step t True w = goto t SetLease w"
    using assms False by (simp add: tab_step_def)
  have 2: "tab_step t True (goto t SetLease w) = goto t VerifyLease ?s"
    using assms by (simp add: tab_step_def)
  have 3: "tab_step t True (goto t VerifyLease ?s) = goto t CheckRotated ?s"
    using assms by (simp add: tab_step_def)
  show ?thesis
  proof (cases "rotationCompletedAfter (rotation_before (tabs w t)) (storage w)")
    case True
    then have 4: "tab_step t True (goto t CheckRotated ?s) = goto t (ReleaseLease AlreadyRotated) ?s"
      by (simp add: tab_step_def)
    have 5: "tab_step t True (goto t (ReleaseLease AlreadyRotated) ?s)
        = goto t (Finished AlreadyRotated) (store_with (releaseLease t) ?s)"
      by (simp add: tab_step_def)
    have "acquired t w = goto t (Finished AlreadyRotated) (store_with (releaseLease t) ?s)"
      unfolding acquired_def using True False by simp
    then show ?thesis using assms(1) by (cases n) (simp_all add: 1 2 3 4 5)
  next
    case False
    then have 4: "tab_step t True (goto t CheckRotated ?s) = goto t Requesting ?s"
      by (simp add: tab_step_def)
    have "acquired t w = goto t Requesting ?s"
      unfolding acquired_def using False \<open>\<not> held_elsewhere t w\<close> by simp
    then show ?thesis using assms(1) by (simp add: 1 2 3 4)
  qed
qed

text \<open>What one turn does, by the await it starts from.\<close>

definition begin_refresh :: "string \<Rightarrow> world \<Rightarrow> world" where
  "begin_refresh t w = w\<lparr>tabs := (tabs w)(t :=
     \<lparr>pc = ReadLease, rotation_before = readRotationResult (storage w)\<rparr>)\<rparr>"

lemma begin_refresh_simps [simp]:
  "storage (begin_refresh t w) = storage w" "clock (begin_refresh t w) = clock w"
  "tabs (begin_refresh t w) t = \<lparr>pc = ReadLease, rotation_before = readRotationResult (storage w)\<rparr>"
  "u \<noteq> t \<Longrightarrow> tabs (begin_refresh t w) u = tabs w u"
  by (simp_all add: begin_refresh_def)

lemma tab_turn_cases:
  assumes "readable (storage w)" "writable (storage w)"
  shows "pc (tabs w t) = NotStarted \<Longrightarrow> tab_turn t reply w = acquired t (begin_refresh t w)"
    and "pc (tabs w t) = RetryDelay \<Longrightarrow> tab_turn t reply w = acquired t (goto t ReadLease w)"
    and "pc (tabs w t) = AwaitTab \<Longrightarrow> tab_turn t reply w =
           (if rotationCompletedAfter (rotation_before (tabs w t)) (storage w)
            then goto t (Finished AlreadyRotated) w else acquired t (goto t ReadLease w))"
    and "pc (tabs w t) = Requesting \<Longrightarrow> tab_turn t reply w =
           goto t (Finished (if reply then Responded else RequestFailed))
             (store_with (releaseLease t) (store_with (publishRotationResult reply) w))"
    and "pc (tabs w t) = Finished r \<Longrightarrow> tab_turn t reply w = w"
proof -
  have six: "6 = Suc (Suc (Suc (Suc (Suc (Suc 0)))))" by simp
  show "tab_turn t reply w = acquired t (begin_refresh t w)" if "pc (tabs w t) = NotStarted"
    using that assms run_from_read [of "begin_refresh t w" t "Suc 0"]
    unfolding tab_turn_def six by (simp add: tab_step_def begin_refresh_def del: run_to_await.simps)
  show "tab_turn t reply w = acquired t (goto t ReadLease w)" if "pc (tabs w t) = RetryDelay"
    using that assms run_from_read [of "goto t ReadLease w" t "Suc 0"]
    unfolding tab_turn_def six by (simp add: tab_step_def del: run_to_await.simps)
  show "tab_turn t reply w =
           (if rotationCompletedAfter (rotation_before (tabs w t)) (storage w)
            then goto t (Finished AlreadyRotated) w else acquired t (goto t ReadLease w))"
    if "pc (tabs w t) = AwaitTab"
  proof -
    have a: "tab_step t reply w = goto t CheckAwaited w"
      using that by (simp add: tab_step_def)
    have b: "tab_step t True (goto t CheckAwaited w) =
       (if rotationCompletedAfter (rotation_before (tabs w t)) (storage w)
        then goto t (Finished AlreadyRotated) w else goto t ReadLease w)"
      by (simp add: tab_step_def)
    show ?thesis using assms run_from_read [of "goto t ReadLease w" t 0]
      unfolding tab_turn_def six
      by (subst run_to_await.simps(2)) (simp add: a b del: run_to_await.simps(2), simp)
  qed
  show "tab_turn t reply w = goto t (Finished (if reply then Responded else RequestFailed))
             (store_with (releaseLease t) (store_with (publishRotationResult reply) w))"
    if "pc (tabs w t) = Requesting"
    using that by (simp add: tab_turn_def numeral_eq_Suc tab_step_def)
  show "tab_turn t reply w = w" if "pc (tabs w t) = Finished r"
    using that by (simp add: tab_turn_def numeral_eq_Suc tab_step_def)
qed

lemma tabs_acquired [simp]:
  "u \<noteq> t \<Longrightarrow> tabs (acquired t w) u = tabs w u" "clock (acquired t w) = clock w"
  by (simp_all add: acquired_def)

lemma acquired_inv:
  assumes rw: "readable (storage w)" "writable (storage w)"
    and others: "\<And>u. u \<noteq> t \<Longrightarrow> at_await (pc (tabs w u))"
    and held: "\<And>u. u \<noteq> t \<Longrightarrow> pc (tabs w u) = Requesting \<Longrightarrow>
          \<exists>l. readLease (storage w) = Some l \<and> owner l = u \<and> clock w < expiresAt l"
  shows "lease_inv (acquired t w)"
proof (cases "held_elsewhere t w")
  case True
  then have "acquired t w = goto t AwaitTab w" by (simp add: acquired_def)
  with rw others held show ?thesis by (auto simp: lease_inv_def)
next
  case False
  then have none: "pc (tabs w u) \<noteq> Requesting" if "u \<noteq> t" for u
    using held [OF that] that by (auto simp: held_elsewhere_def)
  from rw False others none show ?thesis
    by (auto simp: lease_inv_def acquired_def lease_of_def LEASE_MS_def)
qed

lemma tab_turn_inv:
  assumes inv: "lease_inv w"
  shows "lease_inv (tab_turn t reply w)"
proof -
  have rw: "readable (storage w)" "writable (storage w)" using inv by (simp_all add: lease_inv_def)
  have aw: "at_await (pc (tabs w u))" for u using inv by (simp add: lease_inv_def)
  have held: "\<exists>l. readLease (storage w) = Some l \<and> owner l = u \<and> clock w < expiresAt l"
    if "pc (tabs w u) = Requesting" for u
    using inv that by (simp add: lease_inv_def)
  have started: "lease_inv (acquired t (begin_refresh t w))"
    by (rule acquired_inv) (use rw aw held in auto)
  have again: "lease_inv (acquired t (goto t ReadLease w))"
    by (rule acquired_inv) (use rw aw held in auto)
  have idle: "lease_inv (goto t (Finished r) w)" for r
    using rw aw held by (auto simp: lease_inv_def)
  have released: "lease_inv (goto t (Finished r)
      (store_with (releaseLease t) (store_with (publishRotationResult reply) w)))"
    if "pc (tabs w t) = Requesting" for r
  proof -
    have "pc (tabs w u) \<noteq> Requesting" if "u \<noteq> t" for u
      using lease_inv_unique [OF inv \<open>pc (tabs w t) = Requesting\<close>] that by blast
    with rw aw show ?thesis by (auto simp: lease_inv_def)
  qed
  show ?thesis
    using aw [of t] by (cases "pc (tabs w t)")
      (simp_all add: tab_turn_cases [OF rw] started again idle released inv)
qed

lemma heartbeat_inv:
  assumes inv: "lease_inv w"
  shows "lease_inv (heartbeat t w)"
proof (cases "pc (tabs w t) = Requesting \<and> owns_lease t w")
  case True
  have rw: "readable (storage w)" "writable (storage w)" using inv by (simp_all add: lease_inv_def)
  have "u = t" if "pc (tabs w u) = Requesting" for u
    using lease_inv_unique [OF inv that] True by blast
  with True inv rw show ?thesis
    by (auto simp: heartbeat_def lease_inv_def writeLease_def Let_def lease_of_def LEASE_MS_def)
next
  case False
  then have "heartbeat t w = w" unfolding heartbeat_def by (rule if_not_P)
  with inv show ?thesis by simp
qed

lemma passing_inv: "lease_inv w \<Longrightarrow> timely d w \<Longrightarrow> lease_inv (w\<lparr>clock := clock w + d\<rparr>)"
  by (fastforce simp: lease_inv_def timely_def)

interpretation lease_turns: transition_system
  "\<lambda>w. \<exists>st now. w = all_tabs_start st now \<and> readable st \<and> writable st" turns lease_inv
proof unfold_locales
  show "lease_inv w" if "\<exists>st now. w = all_tabs_start st now \<and> readable st \<and> writable st" for w
    using that by (auto simp: lease_inv_def all_tabs_start_def)
  show "lease_inv w'" if "turns w w'" "lease_inv w" for w w'
    using that by (cases rule: turnsE) (auto intro: tab_turn_inv heartbeat_inv passing_inv)
qed

section \<open>Publishing a rotation\<close>

fun publish_all :: "bool list \<Rightarrow> tab_storage \<Rightarrow> tab_storage" where
  "publish_all [] st = st"
| "publish_all (b # bs) st = publish_all bs (publishRotationResult b st)"

definition epoch_of :: "tab_storage \<Rightarrow> int" where
  "epoch_of st = (case readRotationResult st of Some r \<Rightarrow> epoch r | None \<Rightarrow> 0)"

lemma publish_all_flags [simp]:
  "readable (publish_all bs st) = readable st" "writable (publish_all bs st) = writable st"
  by (induction bs arbitrary: st) simp_all

lemma read_after_publish_all:
  "readable st \<Longrightarrow> writable st \<Longrightarrow> bs \<noteq> [] \<Longrightarrow>
   readRotationResult (publish_all bs st) = Some \<lparr>epoch = epoch_of st + int (length bs), success = last bs\<rparr>"
proof (induction bs arbitrary: st)
  case (Cons b bs)
  then show ?case
    by (cases "bs = []") (simp_all add: read_after_publish epoch_of_def)
qed simp

section \<open>Web Locks\<close>

text \<open>The critical section that \<open>runCrossTabRefresh\<close> runs under the exclusive lock: the answer, and
  whether a request was sent. The lock manager runs the sections of the waiting tabs one after the
  other.\<close>

definition locked_section ::
  "rotation_result option \<Rightarrow> bool \<Rightarrow> tab_storage \<Rightarrow> refresh_outcome \<times> tab_storage" where
  "locked_section rotationBefore reply st =
     (if rotationCompletedAfter rotationBefore st then (AlreadyRotated, st)
      else (if reply then Responded else RequestFailed, publishRotationResult reply st))"

text \<open>A queue of tabs, each with what it read before asking for the lock and what the server would
  answer to its request.\<close>

fun lock_queue ::
  "(rotation_result option \<times> bool) list \<Rightarrow> tab_storage \<Rightarrow> refresh_outcome list \<times> tab_storage" where
  "lock_queue [] st = ([], st)"
| "lock_queue ((before, reply) # q) st =
     (let (r, st1) = locked_section before reply st; (rs, st2) = lock_queue q st1 in (r # rs, st2))"

lemma already_rotated_section:
  "rotationCompletedAfter before st \<Longrightarrow> locked_section before reply st = (AlreadyRotated, st)"
  by (simp add: locked_section_def)

lemma lock_queue_after_success:
  "\<forall>(before, reply) \<in> set q. rotationCompletedAfter before st \<Longrightarrow>
   lock_queue q st = (replicate (length q) AlreadyRotated, st)"
  by (induction q) (auto simp: already_rotated_section)

lemma completed_after_publish:
  assumes "readable st" "writable st" and "before = None \<or> (\<exists>b. before = Some b \<and> epoch b \<le> epoch_of st)"
  shows "rotationCompletedAfter before (publishRotationResult ok st) = ok"
  using assms by (auto simp: rotationCompletedAfter_def read_after_publish epoch_of_def split: option.splits)

lemma epoch_after_publish:
  "readable st \<Longrightarrow> writable st \<Longrightarrow> epoch_of (publishRotationResult ok st) = epoch_of st + 1"
  by (simp add: epoch_of_def read_after_publish split: option.split)

lemma lock_queue_failures:
  assumes "readable st" "writable st" and "\<not> rotationCompletedAfter before st"
    and "before = None \<or> (\<exists>b. before = Some b \<and> epoch b \<le> epoch_of st)"
  shows "fst (lock_queue (replicate n (before, False) @ (before, True) # map (Pair before) replies) st)
     = replicate n RequestFailed @ Responded # replicate (length replies) AlreadyRotated"
  using assms
proof (induction n arbitrary: st)
  case 0
  have rotated: "rotationCompletedAfter before (publishRotationResult True st)"
    using completed_after_publish [of st before True] 0 by simp
  with 0 lock_queue_after_success
      [of "map (Pair before) replies" "publishRotationResult True st"]
  show ?case by (auto simp: locked_section_def)
next
  case (Suc n)
  let ?st = "publishRotationResult False st"
  have "\<not> rotationCompletedAfter before ?st"
    using completed_after_publish [of st before False] Suc.prems by simp
  moreover have "before = None \<or> (\<exists>b. before = Some b \<and> epoch b \<le> epoch_of ?st)"
    using Suc.prems epoch_after_publish [of st False] by auto
  ultimately have "fst (lock_queue (replicate n (before, False) @ (before, True)
        # map (Pair before) replies) ?st)
     = replicate n RequestFailed @ Responded # replicate (length replies) AlreadyRotated"
    using Suc.IH [of ?st] Suc.prems by simp
  with Suc.prems show ?case by (auto simp: locked_section_def split: prod.splits)
qed

section \<open>One flight per tab\<close>

text \<open>\<open>refreshInFlight\<close>: the callers that await the promise of the refresh under way, how many
  refreshes were started, and what each settled caller got.\<close>

record flight =
  refreshInFlight :: "nat list option"
  started :: nat
  settled :: "(nat \<times> bool) list"

datatype flight_event = AskRefresh nat | RefreshSettles bool

definition no_flight :: flight where
  "no_flight = \<lparr>refreshInFlight = None, started = 0, settled = []\<rparr>"

fun flight_step :: "flight \<Rightarrow> flight_event \<Rightarrow> flight" where
  "flight_step f (AskRefresh caller) = (case refreshInFlight f of
      None \<Rightarrow> f\<lparr>refreshInFlight := Some [caller], started := started f + 1\<rparr>
    | Some waiting \<Rightarrow> f\<lparr>refreshInFlight := Some (waiting @ [caller])\<rparr>)"
| "flight_step f (RefreshSettles ok) = (case refreshInFlight f of
      None \<Rightarrow> f
    | Some waiting \<Rightarrow> f\<lparr>refreshInFlight := None,
        settled := settled f @ map (\<lambda>c. (c, ok)) waiting\<rparr>)"

fun asked_by :: "flight_event list \<Rightarrow> nat list" where
  "asked_by [] = []"
| "asked_by (AskRefresh c # es) = c # asked_by es"
| "asked_by (RefreshSettles ok # es) = asked_by es"

fun settlements :: "flight_event list \<Rightarrow> nat" where
  "settlements [] = 0"
| "settlements (AskRefresh c # es) = settlements es"
| "settlements (RefreshSettles ok # es) = Suc (settlements es)"

lemma flight_callers:
  "map fst (settled (foldl flight_step f es)) @ (case refreshInFlight (foldl flight_step f es) of
       None \<Rightarrow> [] | Some ws \<Rightarrow> ws)
   = map fst (settled f) @ (case refreshInFlight f of None \<Rightarrow> [] | Some ws \<Rightarrow> ws) @ asked_by es"
proof (induction es arbitrary: f)
  case (Cons e es)
  then show ?case by (cases e) (auto split: option.split simp: comp_def)
qed simp

lemma flight_started:
  "started (foldl flight_step f es) + (if refreshInFlight f = None then 0 else 1)
     \<le> started f + settlements es + (if refreshInFlight (foldl flight_step f es) = None then 0 else 1)"
proof (induction es arbitrary: f)
  case (Cons e es)
  show ?case
  proof (cases e)
    case (AskRefresh c)
    then show ?thesis using Cons [of "flight_step f e"] by (auto split: option.splits if_splits)
  next
    case (RefreshSettles ok)
    then show ?thesis using Cons [of "flight_step f e"] by (auto split: option.splits if_splits)
  qed
qed simp

section \<open>A restricted storage\<close>

fun seeking :: "tab_pc \<Rightarrow> bool" where
  "seeking NotStarted = True"
| "seeking ReadLease = True"
| "seeking AwaitTab = True"
| "seeking CheckAwaited = True"
| "seeking SetLease = True"
| "seeking VerifyLease = True"
| "seeking RetryDelay = True"
| "seeking _ = False"

definition restricted :: "tab_storage \<Rightarrow> bool" where
  "restricted st \<longleftrightarrow> \<not> (readable st \<and> writable st)"

definition restricted_inv :: "world \<Rightarrow> bool" where
  "restricted_inv w \<longleftrightarrow> restricted (storage w) \<and> (\<forall>t. seeking (pc (tabs w t))
     \<and> (pc (tabs w t) = VerifyLease \<longrightarrow> writable (storage w))
     \<and> (pc (tabs w t) \<noteq> NotStarted \<longrightarrow> rotation_before (tabs w t) = readRotationResult (storage w)))"

lemma not_completed_since_now: "\<not> rotationCompletedAfter (readRotationResult st) st"
  by (simp add: rotationCompletedAfter_def split: option.split)

lemma read_rotation_set_lease [simp]: "readRotationResult (set_lease l st) = readRotationResult st"
  by (simp add: readRotationResult_def)

lemma restricted_step: "restricted_inv (tab_step t reply w)" if inv: "restricted_inv w"
proof -
  have t: "seeking (pc (tabs w t))" "pc (tabs w t) = VerifyLease \<Longrightarrow> \<not> owns_lease t w"
    "pc (tabs w t) = CheckAwaited \<Longrightarrow> \<not> rotationCompletedAfter (rotation_before (tabs w t)) (storage w)"
    using inv not_completed_since_now by (auto simp: restricted_inv_def restricted_def owns_lease_def readLease_def)
  then show ?thesis using inv
    by (cases "pc (tabs w t)") (auto simp: tab_step_def restricted_inv_def restricted_def)
qed

interpretation restricted_tabs: transition_system
  "\<lambda>w. \<exists>st now. w = all_tabs_start st now \<and> restricted st" interleaved restricted_inv
proof
  fix w :: world assume "\<exists>st now. w = all_tabs_start st now \<and> restricted st"
  then show "restricted_inv w" by (auto simp: all_tabs_start_def restricted_inv_def)
next
  fix w w' assume "interleaved w w'" "restricted_inv w"
  then show "restricted_inv w'"
  proof (induction rule: interleaved.induct)
    case (access w t reply)
    then show ?case by (rule restricted_step)
  next
    case (beat w t)
    then have "seeking (pc (tabs w t))" by (simp add: restricted_inv_def)
    then have "pc (tabs w t) \<noteq> Requesting" by auto
    then show ?case using beat by (simp add: heartbeat_def)
  next
    case (tick d w)
    then show ?case by (simp add: restricted_inv_def)
  qed
qed

text \<open>Where the storage cannot be both read and written (a privacy-restricted context, a full quota), the lease
  fallback never gets anywhere: in whatever order the tabs of the browser take their accesses, none of them ever sends the
  refresh request or settles its callers; its loop goes on for ever.\<close>

theorem restricted_storage_never_refreshes:
  assumes "interleaved\<^sup>*\<^sup>* (all_tabs_start st now) w" and "\<not> (readable st \<and> writable st)"
  shows "pc (tabs w t) \<noteq> Requesting \<and> pc (tabs w t) \<noteq> Finished r"
proof -
  have "restricted_inv w"
    by (rule restricted_tabs.reach_inv [OF assms(1)]) (use assms(2) in \<open>auto simp: restricted_def\<close>)
  then have "seeking (pc (tabs w t))" by (simp add: restricted_inv_def)
  then show ?thesis by auto
qed

theorem restricted_storage_never_refreshes_witness:
  "pc (tabs (run_schedule (replicate 9 ''tab'') (all_tabs_start (fresh_storage\<lparr>writable := False\<rparr>) 0)) ''tab'') \<noteq> Requesting"
  using restricted_storage_never_refreshes [OF run_schedule_interleaved, of "fresh_storage\<lparr>writable := False\<rparr>"]
  by (simp add: fresh_storage_def)

section \<open>Properties\<close>

lemma both_reading_schedule:
  assumes "a \<noteq> b"
    and w: "w = run_schedule [a, b, a, b, a, a, b, b, a, b] (all_tabs_start fresh_storage now)"
  shows "pc (tabs w a) = Requesting" "pc (tabs w b) = Requesting" "clock w = now"
  using assms
  by (simp_all add: w all_tabs_start_def fresh_storage_def tab_step_def held_elsewhere_def
      readLease_def owns_lease_def set_lease_def lease_of_def rotationCompletedAfter_def
      readRotationResult_def)

text \<open>C37. The write-then-read check of the lease does not by itself keep two tabs apart: when the
  accesses of two tabs to the storage interleave, both pass the check without any time passing, and
  both have their refresh request in flight.\<close>

theorem two_tabs_can_both_refresh:
  assumes "a \<noteq> b"
  shows "\<exists>w. interleaved\<^sup>*\<^sup>* (all_tabs_start fresh_storage now) w \<and> clock w = now
     \<and> pc (tabs w a) = Requesting \<and> pc (tabs w b) = Requesting"
  using run_schedule_interleaved both_reading_schedule [OF assms refl] by metis

theorem two_tabs_can_both_refresh_witness:
  "\<exists>w. interleaved\<^sup>*\<^sup>* (all_tabs_start fresh_storage 0) w \<and> clock w = 0
     \<and> pc (tabs w ''tab-1'') = Requesting \<and> pc (tabs w ''tab-2'') = Requesting"
  using two_tabs_can_both_refresh [of "''tab-1''" "''tab-2''" 0] by simp

text \<open>C1. When the tabs take whole turns and a heartbeat renews the lease before it lapses, at most one
  tab at a time has a refresh request in flight, whatever the storage held at the start (another
  tab's lease, an expired one, text that does not parse), in any order of turns and with any answers
  of the server; and that tab's unexpired lease is what the storage holds.\<close>

theorem lease_mutual_exclusion:
  assumes "turns\<^sup>*\<^sup>* (all_tabs_start st now) w" and "readable st" and "writable st"
    and "pc (tabs w a) = Requesting"
  shows "(pc (tabs w b) = Requesting \<longrightarrow> b = a)
     \<and> (\<exists>l. readLease (storage w) = Some l \<and> owner l = a \<and> clock w < expiresAt l)"
proof -
  have inv: "lease_inv w"
    by (rule lease_turns.reach_inv [OF assms(1)]) (use assms in blast)
  with assms(4) have "b = a" if "pc (tabs w b) = Requesting"
    using lease_inv_unique [OF inv that] by blast
  with inv assms(4) show ?thesis by (auto simp: lease_inv_def)
qed

lemma first_turn_requests:
  "pc (tabs (tab_turn a True (all_tabs_start fresh_storage 0)) a) = Requesting"
  by (simp add: tab_turn_cases all_tabs_start_def fresh_storage_def acquired_def held_elsewhere_def
      readLease_def rotationCompletedAfter_def readRotationResult_def)

theorem lease_mutual_exclusion_witness:
  "\<exists>l. readLease (storage (tab_turn ''tab-1'' True (all_tabs_start fresh_storage 0))) = Some l
     \<and> owner l = ''tab-1''
     \<and> clock (tab_turn ''tab-1'' True (all_tabs_start fresh_storage 0)) < expiresAt l"
proof -
  have "turns\<^sup>*\<^sup>* (all_tabs_start fresh_storage 0)
      (tab_turn ''tab-1'' True (all_tabs_start fresh_storage 0))"
    by (rule r_into_rtranclp) (rule turn)
  from lease_mutual_exclusion [OF this _ _ first_turn_requests, of "''tab-1''"]
  show ?thesis by (simp add: fresh_storage_def)
qed

text \<open>A tab that noted the rotation result before it started waiting takes the refresh as done
  exactly when rotations have been published since then and the last of them succeeded, however
  many other tabs published in between and whatever the item held before.\<close>

theorem rotation_seen_after_publishing:
  assumes "readable st" and "writable st"
  shows "rotationCompletedAfter (readRotationResult st) (publish_all bs st)
     \<longleftrightarrow> bs \<noteq> [] \<and> last bs"
proof (cases "bs = []")
  case True
  then show ?thesis by (auto simp: rotationCompletedAfter_def split: option.split)
next
  case False
  with assms show ?thesis
    by (auto simp: rotationCompletedAfter_def read_after_publish_all epoch_of_def split: option.split)
qed

theorem rotation_seen_after_publishing_witness:
  "rotationCompletedAfter (readRotationResult fresh_storage)
     (publish_all [False, True] fresh_storage)"
  using rotation_seen_after_publishing [of fresh_storage "[False, True]"]
  by (simp add: fresh_storage_def)



text \<open>C2. Within one tab every request that finds its access token expired joins the refresh under
  way: for any sequence of such requests and settlements, the callers are answered in the order they
  asked and each exactly once, and no more refreshes are started than have settled, plus the one in
  flight.\<close>

theorem one_refresh_in_flight:
  "let f = foldl flight_step no_flight es
   in map fst (settled f) @ (case refreshInFlight f of None \<Rightarrow> [] | Some ws \<Rightarrow> ws) = asked_by es
      \<and> started f \<le> settlements es + (if refreshInFlight f = None then 0 else 1)"
  using flight_callers [of no_flight es] flight_started [of no_flight es]
  by (simp add: Let_def no_flight_def)

end
