(* ===== verification/EffectiveGrants.thy ===== *)
theory EffectiveGrants
  imports JsValues Authorization
begin

text \<open>
  What a user effectively holds, \<open>policies/logic/effectiveGrants.ts\<close>: the grants of the assigned
  policies, fanned out over their actions, together with the direct grants, under keys
  \<open>action::resource_type\<close>. The abstract view is the set of (action, resource type) pairs
  (\<open>granted_pairs\<close>); the key set of the code refines it on actions that do not blur the separator
  (\<open>plain_action\<close>), which every action of the catalogue satisfies.
\<close>

record policy_read =
  pol_id :: int
  pol_name :: string
  pol_description :: "string option"
  pol_actions :: "string list"
  pol_resource_type :: string
  pol_conditions :: "json option"
  pol_is_active :: bool

record grant =
  g_action :: string
  g_resource_type :: string

definition WILDCARD_RESOURCE_TYPE :: string where
  "WILDCARD_RESOURCE_TYPE = ''*''"

definition grantKey :: "string \<Rightarrow> string \<Rightarrow> string" where
  "grantKey action resourceType = action @ ''::'' @ resourceType"

definition add_policy_keys :: "string list \<Rightarrow> policy_read \<Rightarrow> string list" where
  "add_policy_keys keys p =
     foldl set_add keys (map (\<lambda>a. grantKey a (pol_resource_type p)) (pol_actions p))"

definition add_direct_key :: "string list \<Rightarrow> grant \<Rightarrow> string list" where
  "add_direct_key keys d = set_add keys (grantKey (g_action d) (g_resource_type d))"

definition buildEffectiveGrantKeySet :: "policy_read list \<Rightarrow> grant list \<Rightarrow> string list" where
  "buildEffectiveGrantKeySet ps ds = foldl add_direct_key (foldl add_policy_keys [] ps) ds"

definition hasEffectiveGrant :: "string list \<Rightarrow> string \<Rightarrow> string \<Rightarrow> bool" where
  "hasEffectiveGrant keys action resourceType \<longleftrightarrow>
     grantKey action resourceType \<in> set keys \<or> grantKey action WILDCARD_RESOURCE_TYPE \<in> set keys"

definition policyAddsNothingNew :: "policy_read \<Rightarrow> string list \<Rightarrow> bool" where
  "policyAddsNothingNew candidate keys \<longleftrightarrow>
     (\<forall>a \<in> set (pol_actions candidate). hasEffectiveGrant keys a (pol_resource_type candidate))"

definition isAlreadyEffectivelyGranted :: "string list \<Rightarrow> string \<Rightarrow> string \<Rightarrow> bool" where
  "isAlreadyEffectivelyGranted keys action resourceType = hasEffectiveGrant keys action resourceType"

text \<open>\<open>pairOf\<close> reads the two fields the generic parameter requires.\<close>

definition dedupeAgainstWildcards ::
  "('a \<Rightarrow> string \<times> string) \<Rightarrow> 'a list \<Rightarrow> (string \<times> string) list \<Rightarrow> 'a list" where
  "dedupeAgainstWildcards pairOf grants wildcardSource =
     (let wildcardActions = map fst (filter (\<lambda>(a, r). r = WILDCARD_RESOURCE_TYPE) wildcardSource)
      in filter (\<lambda>g. snd (pairOf g) = WILDCARD_RESOURCE_TYPE \<or> fst (pairOf g) \<notin> set wildcardActions) grants)"

definition isSubsumedByWildcard :: "string \<times> string \<Rightarrow> (string \<times> string) list \<Rightarrow> bool" where
  "isSubsumedByWildcard target source =
     (if snd target = WILDCARD_RESOURCE_TYPE then False
      else (\<exists>(a, r) \<in> set source. a = fst target \<and> r = WILDCARD_RESOURCE_TYPE))"

record effective_grant = grant +
  policyNames :: "string list"
  direct :: bool

definition note_policy :: "string \<Rightarrow> string \<Rightarrow> string \<Rightarrow> (string \<times> effective_grant) list \<Rightarrow>
    (string \<times> effective_grant) list" where
  "note_policy name a r m = (case map_of m (grantKey a r) of
      Some e \<Rightarrow> AList.update (grantKey a r) (e\<lparr>policyNames := policyNames e @ [name]\<rparr>) m
    | None \<Rightarrow> AList.update (grantKey a r)
        \<lparr>g_action = a, g_resource_type = r, policyNames = [name], direct = False\<rparr> m)"

definition note_direct :: "grant \<Rightarrow> (string \<times> effective_grant) list \<Rightarrow>
    (string \<times> effective_grant) list" where
  "note_direct d m = (let k = grantKey (g_action d) (g_resource_type d) in case map_of m k of
      Some e \<Rightarrow> AList.update k (e\<lparr>direct := True\<rparr>) m
    | None \<Rightarrow> AList.update k
        \<lparr>g_action = g_action d, g_resource_type = g_resource_type d, policyNames = [], direct = True\<rparr> m)"

definition note_policy_actions ::
  "(string \<times> effective_grant) list \<Rightarrow> policy_read \<Rightarrow> (string \<times> effective_grant) list" where
  "note_policy_actions m p =
     foldl (\<lambda>m a. note_policy (pol_name p) a (pol_resource_type p) m) m (pol_actions p)"

definition buildEffectiveGrantsWithSource :: "policy_read list \<Rightarrow> grant list \<Rightarrow> effective_grant list" where
  "buildEffectiveGrantsWithSource ps ds =
     map snd (foldl (\<lambda>m d. note_direct d m) (foldl note_policy_actions [] ps) ds)"

definition groupByResourceType :: "('a \<Rightarrow> string) \<Rightarrow> 'a list \<Rightarrow> (string \<times> 'a list) list" where
  "groupByResourceType resourceTypeOf items = group_by resourceTypeOf items"

interpretation resource_groups: grouping "groupByResourceType resourceTypeOf" resourceTypeOf
  for resourceTypeOf :: "'a \<Rightarrow> string"
  unfolding groupByResourceType_def by (rule group_by_grouping)

section \<open>The pairs a user holds\<close>

definition granted_pairs :: "policy_read list \<Rightarrow> grant list \<Rightarrow> (string \<times> string) set" where
  "granted_pairs ps ds =
     (\<Union>p \<in> set ps. (\<lambda>a. (a, pol_resource_type p)) ` set (pol_actions p))
     \<union> (\<lambda>d. (g_action d, g_resource_type d)) ` set ds"

text \<open>Holding an action on a resource type, or on every one.\<close>

definition holds_on :: "(string \<times> string) set \<Rightarrow> string \<Rightarrow> string \<Rightarrow> bool" where
  "holds_on G a r \<longleftrightarrow> (a, r) \<in> G \<or> (a, WILDCARD_RESOURCE_TYPE) \<in> G"

text \<open>No separator inside the action or across its end.\<close>

definition plain_action :: "string \<Rightarrow> bool" where
  "plain_action a \<longleftrightarrow> \<not> js_includes (a @ '':'') ''::''"

lemma grantKey_inj:
  assumes "plain_action a" "plain_action b" "grantKey a r = grantKey b s"
  shows "a = b \<and> r = s"
proof -
  have strict: "False" if eq: "grantKey a r = grantKey b s" and pl: "plain_action b" and len: "length a < length b"
    for a b r s
  proof -
    have "take (length a) b = a"
      using eq len unfolding grantKey_def by (metis append_eq_append_conv_if less_imp_le_nat)
    then obtain x where x: "b = a @ x" "x \<noteq> []"
      using len by (metis append_take_drop_id append_Nil2 less_irrefl)
    with that(1) have "''::'' @ r = x @ ''::'' @ s" by (simp add: grantKey_def)
    then have "x = '':'' \<or> (\<exists>y. x = ''::'' @ y)"
      using x(2) by (cases x; cases "tl x") (auto simp: Cons_eq_append_conv)
    then have "(\<exists>u v. b @ '':'' = u @ ''::'' @ v)"
    proof
      assume "x = '':''"
      with x(1) have "b @ '':'' = a @ ''::'' @ []" by simp
      then show ?thesis by blast
    next
      assume "\<exists>y. x = ''::'' @ y"
      then obtain y where "b @ '':'' = a @ ''::'' @ (y @ '':'')" using x(1) by auto
      then show ?thesis by blast
    qed
    then have "js_includes (b @ '':'') ''::''" by (simp only: js_includes_iff)
    with pl show False by (simp add: plain_action_def)
  qed
  have "length a = length b"
    using strict [of a r b s] strict [of b s a r] assms by (metis linorder_neqE_nat)
  with assms(3) show ?thesis by (simp add: grantKey_def)
qed

lemma set_foldl_set_add: "set (foldl set_add ks xs) = set ks \<union> set xs"
  by (induction xs arbitrary: ks) auto

lemma set_add_policies:
  "set (foldl add_policy_keys ks ps)
     = set ks \<union> (\<Union>p \<in> set ps. (\<lambda>a. grantKey a (pol_resource_type p)) ` set (pol_actions p))"
  by (induction ps arbitrary: ks) (auto simp: add_policy_keys_def set_foldl_set_add)

lemma set_add_directs:
  "set (foldl add_direct_key ks ds)
     = set ks \<union> (\<lambda>d. grantKey (g_action d) (g_resource_type d)) ` set ds"
  by (induction ds arbitrary: ks) (auto simp: add_direct_key_def)

lemma set_keys:
  "set (buildEffectiveGrantKeySet ps ds) = (\<lambda>(a, r). grantKey a r) ` granted_pairs ps ds"
  unfolding buildEffectiveGrantKeySet_def set_add_directs set_add_policies
  by (simp add: granted_pairs_def image_Un image_UN image_image)

lemma hasEffectiveGrant_iff:
  assumes "plain_action a" "\<forall>(b, s) \<in> granted_pairs ps ds. plain_action b"
  shows "hasEffectiveGrant (buildEffectiveGrantKeySet ps ds) a r \<longleftrightarrow> holds_on (granted_pairs ps ds) a r"
proof -
  have "grantKey a s \<in> (\<lambda>(a, r). grantKey a r) ` granted_pairs ps ds \<longleftrightarrow> (a, s) \<in> granted_pairs ps ds"
    for s
  proof
    assume "grantKey a s \<in> (\<lambda>(a, r). grantKey a r) ` granted_pairs ps ds"
    then obtain b u where bu: "(b, u) \<in> granted_pairs ps ds" "grantKey a s = grantKey b u" by auto
    from assms(2) bu(1) have "plain_action b" by auto
    from grantKey_inj [OF assms(1) this bu(2)] bu(1) show "(a, s) \<in> granted_pairs ps ds" by simp
  qed (force simp: image_iff)
  then show ?thesis by (simp add: hasEffectiveGrant_def holds_on_def set_keys)
qed

section \<open>Where every pair comes from\<close>

text \<open>One contribution: the pair, and the policy's name or a direct grant.\<close>

type_synonym contribution = "string \<times> string \<times> string option"

definition contributions :: "policy_read list \<Rightarrow> grant list \<Rightarrow> contribution list" where
  "contributions ps ds =
     concat (map (\<lambda>p. map (\<lambda>a. (a, pol_resource_type p, Some (pol_name p))) (pol_actions p)) ps)
     @ map (\<lambda>d. (g_action d, g_resource_type d, None)) ds"

fun contribution_key :: "contribution \<Rightarrow> string" where
  "contribution_key (a, r, n) = grantKey a r"

fun note_grant :: "(string \<times> effective_grant) list \<Rightarrow> contribution \<Rightarrow> (string \<times> effective_grant) list" where
  "note_grant m (a, r, Some n) = note_policy n a r m"
| "note_grant m (a, r, None) = note_direct \<lparr>g_action = a, g_resource_type = r\<rparr> m"

lemma grant_eta: "\<lparr>g_action = g_action d, g_resource_type = g_resource_type d\<rparr> = d"
  by simp

lemma foldl_note_policies:
  "foldl note_policy_actions m ps =
   foldl note_grant m (concat (map (\<lambda>p. map (\<lambda>a. (a, pol_resource_type p, Some (pol_name p))) (pol_actions p)) ps))"
proof (induction ps arbitrary: m)
  case (Cons p ps)
  have "note_policy_actions m p
      = foldl note_grant m (map (\<lambda>a. (a, pol_resource_type p, Some (pol_name p))) (pol_actions p))" for m
    by (simp add: note_policy_actions_def foldl_map)
  with Cons show ?case by simp
qed simp

lemma build_as_contributions:
  "buildEffectiveGrantsWithSource ps ds = map snd (foldl note_grant [] (contributions ps ds))"
  by (simp add: buildEffectiveGrantsWithSource_def contributions_def foldl_note_policies foldl_map grant_eta)

definition names_of :: "contribution list \<Rightarrow> string list" where
  "names_of cs = List.map_filter (\<lambda>(a, r, n). n) cs"

definition is_direct :: "contribution list \<Rightarrow> bool" where
  "is_direct cs \<longleftrightarrow> (\<exists>(a, r, n) \<in> set cs. n = None)"

definition entry_of :: "contribution list \<Rightarrow> effective_grant option" where
  "entry_of cs = (case cs of [] \<Rightarrow> None
     | (a, r, n) # _ \<Rightarrow> Some \<lparr>g_action = a, g_resource_type = r, policyNames = names_of cs, direct = is_direct cs\<rparr>)"

lemma entry_of_snoc:
  "entry_of (cs @ [(a, r, n)]) = Some (case entry_of cs of
     None \<Rightarrow> \<lparr>g_action = a, g_resource_type = r, policyNames = (case n of None \<Rightarrow> [] | Some x \<Rightarrow> [x]), direct = (n = None)\<rparr>
   | Some e \<Rightarrow> (case n of None \<Rightarrow> e\<lparr>direct := True\<rparr> | Some x \<Rightarrow> e\<lparr>policyNames := policyNames e @ [x]\<rparr>))"
  by (cases cs) (auto simp: entry_of_def names_of_def is_direct_def List.map_filter_def split: option.splits)

lemma note_lookup:
  "map_of (note_grant m (a, r, n)) k =
     (if k = grantKey a r then Some (case map_of m k of
        None \<Rightarrow> \<lparr>g_action = a, g_resource_type = r, policyNames = (case n of None \<Rightarrow> [] | Some x \<Rightarrow> [x]), direct = (n = None)\<rparr>
      | Some e \<Rightarrow> (case n of None \<Rightarrow> e\<lparr>direct := True\<rparr> | Some x \<Rightarrow> e\<lparr>policyNames := policyNames e @ [x]\<rparr>))
      else map_of m k)"
  by (cases n) (auto simp: note_policy_def note_direct_def Let_def update_conv' split: option.split)

lemma note_keys:
  "map fst (note_grant m c) =
     (if contribution_key c \<in> fst ` set m then map fst m else map fst m @ [contribution_key c])"
  by (cases c; cases "snd (snd c)")
    (auto simp: note_policy_def note_direct_def Let_def update_keys split: option.split)

lemma notes_keys: "map fst (foldl note_grant [] cs) = js_distinct (map contribution_key cs)"
proof (induction cs rule: rev_induct)
  case (snoc c cs)
  then have "fst ` set (foldl note_grant [] cs) = contribution_key ` set cs"
    by (metis list.set_map set_js_distinct)
  with snoc show ?case by (simp add: note_keys js_distinct_snoc)
qed simp

lemma notes_lookup:
  "map_of (foldl note_grant [] cs) k = entry_of (filter (\<lambda>c. contribution_key c = k) cs)"
proof (induction cs rule: rev_induct)
  case Nil
  then show ?case by (simp add: entry_of_def)
next
  case (snoc c cs)
  obtain a r n where "c = (a, r, n)" by (cases c)
  with snoc show ?case by (cases "k = grantKey a r") (auto simp: note_lookup entry_of_snoc)
qed

lemma entry_of_Some:
  "entry_of cs = Some e \<Longrightarrow> policyNames e = names_of cs \<and> direct e = is_direct cs
     \<and> (\<exists>n. (g_action e, g_resource_type e, n) \<in> set cs)"
  by (cases cs) (auto simp: entry_of_def)

definition pair_of :: "effective_grant \<Rightarrow> string \<times> string" where
  "pair_of e = (g_action e, g_resource_type e)"

definition granting_policies :: "policy_read list \<Rightarrow> string \<Rightarrow> string \<Rightarrow> string list" where
  "granting_policies ps a r =
     concat (map (\<lambda>p. map (\<lambda>b. pol_name p) (filter (\<lambda>b. b = a \<and> pol_resource_type p = r) (pol_actions p))) ps)"

lemma contributions_pairs:
  "(a, r) \<in> granted_pairs ps ds \<longleftrightarrow> (\<exists>n. (a, r, n) \<in> set (contributions ps ds))"
  by (auto simp: granted_pairs_def contributions_def)

lemma names_of_append [simp]: "names_of (xs @ ys) = names_of xs @ names_of ys"
  by (simp add: names_of_def List.map_filter_def)

fun for_pair :: "string \<Rightarrow> string \<Rightarrow> contribution \<Rightarrow> bool" where
  "for_pair a r (b, s, n) \<longleftrightarrow> b = a \<and> s = r"

lemma names_of_policy:
  "names_of (filter (for_pair a r) (map (\<lambda>x. (x, rt, Some nm)) as))
     = map (\<lambda>b. nm) (filter (\<lambda>b. b = a \<and> rt = r) as)"
  by (induction as) (auto simp: names_of_def List.map_filter_def)

lemma names_of_directs:
  "names_of (filter P (map (\<lambda>d. (g_action d, g_resource_type d, None)) ds)) = []"
  by (induction ds) (auto simp: names_of_def List.map_filter_def)

lemma names_of_contributions:
  "names_of (filter (for_pair a r) (contributions ps ds)) = granting_policies ps a r"
proof -
  have "names_of (filter (for_pair a r) (concat (map (\<lambda>p.
      map (\<lambda>x. (x, pol_resource_type p, Some (pol_name p))) (pol_actions p)) ps))) = granting_policies ps a r"
    by (induction ps) (simp_all add: granting_policies_def names_of_policy, simp add: names_of_def List.map_filter_def)
  then show ?thesis by (simp add: contributions_def names_of_directs)
qed

lemma is_direct_filter: "is_direct (filter (for_pair a r) cs) \<longleftrightarrow> (a, r, None) \<in> set cs"
  by (induction cs) (auto simp: is_direct_def)

lemma is_direct_contributions:
  "is_direct (filter (for_pair a r) (contributions ps ds))
     \<longleftrightarrow> (\<exists>d \<in> set ds. g_action d = a \<and> g_resource_type d = r)"
  unfolding is_direct_filter by (auto simp: contributions_def image_iff)

lemma same_key_same_pair:
  assumes "\<forall>(a, r, n) \<in> set cs. plain_action a" and "plain_action a"
  shows "filter (\<lambda>c. contribution_key c = grantKey a r) cs = filter (for_pair a r) cs"
proof (rule filter_cong [OF refl])
  fix c assume c: "c \<in> set cs"
  obtain b s n where c': "c = (b, s, n)" by (cases c)
  with c assms have "plain_action b" by auto
  with c' grantKey_inj [OF this assms(2), of s r]
  show "(contribution_key c = grantKey a r) = for_pair a r c" by auto
qed

lemma effective_entry:
  assumes plain: "\<forall>(a, r) \<in> granted_pairs ps ds. plain_action a"
    and e: "(k, e) \<in> set (foldl note_grant [] (contributions ps ds))"
  shows "k = grantKey (g_action e) (g_resource_type e)" "pair_of e \<in> granted_pairs ps ds"
    "policyNames e = granting_policies ps (g_action e) (g_resource_type e)"
    "direct e \<longleftrightarrow> (\<exists>d \<in> set ds. g_action d = g_action e \<and> g_resource_type d = g_resource_type e)"
proof -
  let ?cs = "contributions ps ds" and ?a = "g_action e" and ?r = "g_resource_type e"
  have "distinct (map fst (foldl note_grant [] ?cs))" by (simp add: notes_keys)
  with e have "entry_of (filter (\<lambda>c. contribution_key c = k) ?cs) = Some e"
    by (simp flip: notes_lookup)
  from entry_of_Some [OF this] obtain n
    where E: "policyNames e = names_of (filter (\<lambda>c. contribution_key c = k) ?cs)"
      "direct e = is_direct (filter (\<lambda>c. contribution_key c = k) ?cs)"
      "(?a, ?r, n) \<in> set ?cs" "grantKey ?a ?r = k" by auto
  have all: "\<forall>(a, r, n) \<in> set ?cs. plain_action a" using plain contributions_pairs by fast
  with E(3) have "plain_action ?a" by auto
  from same_key_same_pair [OF all this, of ?r] E(4)
  have F: "filter (\<lambda>c. contribution_key c = k) ?cs = filter (for_pair ?a ?r) ?cs" by simp
  show "k = grantKey ?a ?r" using E(4) by simp
  show "pair_of e \<in> granted_pairs ps ds" using E(3) by (auto simp: pair_of_def contributions_pairs)
  show "policyNames e = granting_policies ps ?a ?r" by (simp add: E(1) F names_of_contributions)
  show "direct e \<longleftrightarrow> (\<exists>d \<in> set ds. g_action d = ?a \<and> g_resource_type d = ?r)"
    by (simp add: E(2) F is_direct_contributions)
qed

section \<open>Wildcards\<close>

lemma dedupe_keeps:
  "g \<in> set (dedupeAgainstWildcards pairOf grants source) \<longleftrightarrow>
     g \<in> set grants \<and> \<not> isSubsumedByWildcard (pairOf g) source"
  by (cases "pairOf g") (force simp: dedupeAgainstWildcards_def isSubsumedByWildcard_def Let_def)

lemma holds_on_dedupe:
  "holds_on (set (dedupeAgainstWildcards (\<lambda>p. p) grants grants)) a r \<longleftrightarrow> holds_on (set grants) a r"
  unfolding holds_on_def by (auto simp: dedupe_keeps isSubsumedByWildcard_def)

section \<open>Properties\<close>

text \<open>C9. On actions that do not blur the separator of the keys (every catalogue action is one), the
  key set decides exactly what the pairs say: a single grant is reported as already held when the
  pair, or its action on every resource type, comes from some assigned policy or direct grant; and a
  policy is dropped from the offer exactly when all of its pairs are held in that sense.\<close>

theorem effective_grant_check:
  assumes "\<forall>(b, s) \<in> granted_pairs ps ds. plain_action b"
    and "\<forall>b \<in> set (pol_actions candidate). plain_action b"
  shows "(policyAddsNothingNew candidate (buildEffectiveGrantKeySet ps ds)
      \<longleftrightarrow> (\<forall>b \<in> set (pol_actions candidate). holds_on (granted_pairs ps ds) b (pol_resource_type candidate)))
    \<and> (\<forall>b \<in> set (pol_actions candidate). \<forall>r.
         isAlreadyEffectivelyGranted (buildEffectiveGrantKeySet ps ds) b r
           \<longleftrightarrow> holds_on (granted_pairs ps ds) b r)"
  using assms hasEffectiveGrant_iff [OF _ assms(1)]
  by (auto simp: policyAddsNothingNew_def isAlreadyEffectivelyGranted_def)

lemma catalogue_plain: "\<forall>a \<in> set permission_values. plain_action a"
  by (simp add: permission_values_def PERMISSIONS_def plain_action_def)

definition reader_policy :: policy_read where
  "reader_policy = \<lparr>pol_id = 7, pol_name = ''reader'', pol_description = None,
     pol_actions = [''users:list_all'', ''policies:read''], pol_resource_type = ''*'',
     pol_conditions = None, pol_is_active = True\<rparr>"

theorem effective_grant_check_witness:
  "policyAddsNothingNew
     (reader_policy\<lparr>pol_actions := [''policies:read''], pol_resource_type := ''policies''\<rparr>)
     (buildEffectiveGrantKeySet [reader_policy] [])"
  using effective_grant_check [of "[reader_policy]" "[]"
      "reader_policy\<lparr>pol_actions := [''policies:read''], pol_resource_type := ''policies''\<rparr>"]
  by (simp add: granted_pairs_def reader_policy_def plain_action_def holds_on_def
      WILDCARD_RESOURCE_TYPE_def)

text \<open>The list with sources has one entry per held pair and no other: every assigned policy's action
  on its resource type and every direct grant appears exactly once, with the names of exactly the
  policies that contribute it, in their order and as often as they do, and flagged as direct exactly
  when some direct grant is that pair.\<close>

theorem effective_grants_with_source:
  assumes "\<forall>(a, r) \<in> granted_pairs ps ds. plain_action a"
  shows "let es = buildEffectiveGrantsWithSource ps ds in
      distinct (map pair_of es) \<and> pair_of ` set es = granted_pairs ps ds
    \<and> (\<forall>e \<in> set es. policyNames e = granting_policies ps (g_action e) (g_resource_type e)
         \<and> (direct e \<longleftrightarrow> pair_of e \<in> (\<lambda>d. (g_action d, g_resource_type d)) ` set ds))"
proof -
  let ?m = "foldl note_grant [] (contributions ps ds)"
  let ?es = "buildEffectiveGrantsWithSource ps ds"
  have es: "?es = map snd ?m" by (rule build_as_contributions)
  note entry = effective_entry [OF assms]
  have keys: "map fst ?m = map (\<lambda>e. grantKey (g_action e) (g_resource_type e)) ?es"
    unfolding es by (auto simp: entry(1))
  have "distinct (map fst ?m)" by (simp add: notes_keys)
  then have dist: "distinct (map pair_of ?es)"
    unfolding keys by (auto simp: distinct_map inj_on_def pair_of_def)
  have sub: "pair_of ` set ?es \<subseteq> granted_pairs ps ds"
    unfolding es using entry(2) by auto
  have sup: "granted_pairs ps ds \<subseteq> pair_of ` set ?es"
  proof
    fix x assume "x \<in> granted_pairs ps ds"
    then obtain a r n where x: "x = (a, r)" "(a, r) \<in> granted_pairs ps ds"
      "(a, r, n) \<in> set (contributions ps ds)"
      by (cases x) (auto simp: contributions_pairs)
    then have "grantKey a r \<in> set (map fst ?m)"
      unfolding notes_keys by (force simp: image_iff)
    then obtain e where e: "(grantKey a r, e) \<in> set ?m" by auto
    have "plain_action a" using x(2) assms by auto
    moreover have "plain_action (g_action e)" using entry(2) [OF e] assms by (auto simp: pair_of_def)
    ultimately have "a = g_action e \<and> r = g_resource_type e"
      using entry(1) [OF e] grantKey_inj by blast
    with e x(1) show "x \<in> pair_of ` set ?es" unfolding es by (force simp: pair_of_def)
  qed
  have "policyNames e = granting_policies ps (g_action e) (g_resource_type e)
      \<and> (direct e \<longleftrightarrow> pair_of e \<in> (\<lambda>d. (g_action d, g_resource_type d)) ` set ds)" if "e \<in> set ?es" for e
  proof -
    from that obtain k where "(k, e) \<in> set ?m" unfolding es by auto
    from entry(3,4) [OF this] show ?thesis by (simp add: pair_of_def image_iff) metis
  qed
  with dist sub sup show ?thesis unfolding Let_def by blast
qed

theorem effective_grants_with_source_witness:
  "pair_of ` set (buildEffectiveGrantsWithSource [reader_policy] [\<lparr>g_action = ''users:read_own'', g_resource_type = ''users''\<rparr>])
   = {(''users:list_all'', ''*''), (''policies:read'', ''*''), (''users:read_own'', ''users'')}"
  using effective_grants_with_source [of "[reader_policy]"
      "[\<lparr>g_action = ''users:read_own'', g_resource_type = ''users''\<rparr>]"]
  by (auto simp: granted_pairs_def reader_policy_def plain_action_def Let_def)

text \<open>Hiding the badges a wildcard already covers loses nothing: exactly the entries whose action has
  a wildcard entry in the source are dropped, wildcard entries themselves always stay, and what the
  list says is held on any resource type is unchanged.\<close>

theorem wildcard_dedupe_sound:
  "set (dedupeAgainstWildcards pairOf grants source)
     = {g \<in> set grants. \<not> isSubsumedByWildcard (pairOf g) source}
   \<and> (snd (pairOf g) = WILDCARD_RESOURCE_TYPE \<longrightarrow> \<not> isSubsumedByWildcard (pairOf g) source)
   \<and> (holds_on (set (dedupeAgainstWildcards (\<lambda>p. p) pairs pairs)) a r \<longleftrightarrow> holds_on (set pairs) a r)"
proof (intro conjI)
  show "set (dedupeAgainstWildcards pairOf grants source)
     = {g \<in> set grants. \<not> isSubsumedByWildcard (pairOf g) source}"
    by (simp add: set_eq_iff dedupe_keeps)
  show "snd (pairOf g) = WILDCARD_RESOURCE_TYPE \<longrightarrow> \<not> isSubsumedByWildcard (pairOf g) source"
    by (simp add: isSubsumedByWildcard_def)
qed (rule holds_on_dedupe)

theorem wildcard_dedupe_sound_witness:
  "\<not> isSubsumedByWildcard (''users:list_all'', ''*'') [(''users:list_all'', ''*'')]"
  using wildcard_dedupe_sound [of "\<lambda>p. p" "[]" "[(''users:list_all'', ''*'')]" "(''users:list_all'', ''*'')"
      "[]" "[]" "[]"]
  by (simp add: WILDCARD_RESOURCE_TYPE_def)

end
