(* ===== verification/PolicyHelpers.thy ===== *)
theory PolicyHelpers
  imports EffectiveGrants
begin

text \<open>
  The pure helpers behind the policy pages: \<open>policyListHelpers.ts\<close> (the client-side filter for
  destructive policies, paging, the resource-type buckets) and \<open>policyCardHelpers.ts\<close> (verb groups,
  labels, descriptions). \<open>localeCompare\<close> is the library's collation and enters as a comparator \<open>le\<close>;
  a theorem that needs its order assumes it total and transitive. The one-character ellipsis is a
  parameter because it lies outside the modelled character range.
\<close>

section \<open>Lists of policies\<close>

record client_policy_filters =
  cpf_search :: "string option"
  cpf_resourceType :: "string option"
  cpf_isActive :: "bool option"
  cpf_containsAction :: "string option"

definition opt_truthy :: "string option \<Rightarrow> bool" where
  "opt_truthy v = (case v of None \<Rightarrow> False | Some s \<Rightarrow> truthy s)"

definition policy_haystack :: "policy_read \<Rightarrow> string" where
  "policy_haystack p =
     js_lower (pol_name p @ '' '' @ (case pol_description p of None \<Rightarrow> [] | Some d \<Rightarrow> d))"

definition destructive_filter :: "client_policy_filters \<Rightarrow> policy_read \<Rightarrow> bool" where
  "destructive_filter f p =
     (let search = (case cpf_search f of None \<Rightarrow> [] | Some s \<Rightarrow> js_lower (js_trim s)) in
      if truthy search \<and> \<not> js_includes (policy_haystack p) search then False
      else if opt_truthy (cpf_resourceType f) \<and> Some (pol_resource_type p) \<noteq> cpf_resourceType f then False
      else if cpf_isActive f \<noteq> None \<and> Some (pol_is_active p) \<noteq> cpf_isActive f then False
      else if opt_truthy (cpf_containsAction f) \<and> the (cpf_containsAction f) \<notin> set (pol_actions p) then False
      else (\<exists>a \<in> set (pol_actions p). isDestructiveAction a))"

definition filterDestructivePolicies ::
  "(string \<Rightarrow> string \<Rightarrow> bool) \<Rightarrow> policy_read list \<Rightarrow> client_policy_filters \<Rightarrow> policy_read list" where
  "filterDestructivePolicies le ps f =
     js_sort (\<lambda>a b. le (pol_name a) (pol_name b)) (filter (destructive_filter f) ps)"

definition paginatePolicies :: "'a list \<Rightarrow> int \<Rightarrow> nat \<Rightarrow> 'a list" where
  "paginatePolicies ps page pageSize =
     (let start = nat (max 0 (page - 1)) * pageSize in take pageSize (drop start ps))"

definition groupPoliciesByResourceType ::
  "(string \<Rightarrow> string \<Rightarrow> bool) \<Rightarrow> policy_read list \<Rightarrow> (string \<times> policy_read list) list" where
  "groupPoliciesByResourceType le ps =
     map (\<lambda>(r, g). (r, js_sort (\<lambda>a b. le (pol_name a) (pol_name b)) g))
       (js_sort (\<lambda>a b. le (fst a) (fst b)) (group_by pol_resource_type ps))"

section \<open>Labels\<close>

definition PROTECTED_POLICY_NAMES :: "string list" where
  "PROTECTED_POLICY_NAMES = [''self_service'', ''user_management'', ''system_superuser'']"

definition resourceTypeIconTone :: "string \<Rightarrow> string" where
  "resourceTypeIconTone r =
     (if r = ''users'' then ''text-sky-600 dark:text-sky-400''
      else if r = ''policies'' then ''text-violet-600 dark:text-violet-400''
      else if r = ''permissions'' then ''text-amber-600 dark:text-amber-400''
      else if r = ''security_audit'' then ''text-rose-600 dark:text-rose-400''
      else if r = ''rate_limits'' then ''text-cyan-600 dark:text-cyan-400''
      else ''text-fg-muted'')"

definition action_verb :: "string \<Rightarrow> string" where
  "action_verb action =
     (let afterColon = (if CHR '':'' \<in> set action then js_split CHR '':'' action ! 1 else action);
          v = hd (js_split CHR ''_'' afterColon)
      in if truthy v then v else afterColon)"

definition groupActionsByVerb ::
  "(string \<Rightarrow> string \<Rightarrow> bool) \<Rightarrow> string list \<Rightarrow> (string \<times> string list) list" where
  "groupActionsByVerb le actions =
     js_sort (\<lambda>a b. le (fst a) (fst b)) (group_by action_verb actions)"

definition AUTHORIZATION_DESCRIPTION_MAX_LENGTH :: nat where
  "AUTHORIZATION_DESCRIPTION_MAX_LENGTH = 160"

definition POLICY_DESCRIPTION_MAX_LENGTH :: nat where "POLICY_DESCRIPTION_MAX_LENGTH = 160"
definition POLICY_NAME_MAX_LENGTH :: nat where "POLICY_NAME_MAX_LENGTH = 100"

definition displayAuthorizationDescription :: "string \<Rightarrow> string option \<Rightarrow> string \<Rightarrow> string" where
  "displayAuthorizationDescription ellipsis description fallback =
     (let trimmed = (case description of None \<Rightarrow> [] | Some d \<Rightarrow> js_trim d);
          value = (if truthy trimmed then trimmed else fallback)
      in if length value \<le> AUTHORIZATION_DESCRIPTION_MAX_LENGTH then value
         else js_trim_end (take (AUTHORIZATION_DESCRIPTION_MAX_LENGTH - 1) value) @ ellipsis)"

text \<open>\<open>s.replace(/[_-]+/g, " ")\<close>: every run of the two characters becomes one space.\<close>

definition is_joiner :: "char \<Rightarrow> bool" where
  "is_joiner c \<longleftrightarrow> c = CHR ''_'' \<or> c = CHR ''-''"

fun spaces_for_joiners :: "string \<Rightarrow> string" where
  "spaces_for_joiners [] = []"
| "spaces_for_joiners (c # cs) =
     (if is_joiner c
      then (case cs of d # _ \<Rightarrow> if is_joiner d then spaces_for_joiners cs else CHR '' '' # spaces_for_joiners cs
                     | [] \<Rightarrow> '' '')
      else c # spaces_for_joiners cs)"

definition capitalize :: "string \<Rightarrow> string" where
  "capitalize s = (case s of [] \<Rightarrow> [] | c # cs \<Rightarrow> char_upper c # cs)"

definition formatPolicyActionLabel :: "string \<Rightarrow> string" where
  "formatPolicyActionLabel action =
     (case take 2 (js_split CHR '':'' action) of
        resource # rawVerb # _ \<Rightarrow>
          if truthy rawVerb
          then capitalize (js_trim (spaces_for_joiners rawVerb)) @ '' ''
                 @ js_trim (spaces_for_joiners resource)
          else spaces_for_joiners action
      | _ \<Rightarrow> spaces_for_joiners action)"

text \<open>\<open>words.split(/\s+/)\<close>.\<close>

fun split_spaces :: "string \<Rightarrow> string list" where
  "split_spaces [] = [[]]"
| "split_spaces (c # cs) =
     (if is_space c
      then (case cs of d # _ \<Rightarrow> if is_space d then split_spaces cs else [] # split_spaces cs
                     | [] \<Rightarrow> [[], []])
      else (case split_spaces cs of w # ws \<Rightarrow> (c # w) # ws | [] \<Rightarrow> [[c]]))"

definition formatResourceTypeLabel :: "string \<Rightarrow> string" where
  "formatResourceTypeLabel resourceType =
     (if resourceType = ''*'' then ''All resource types''
      else js_join '' '' (map capitalize (split_spaces (js_trim (spaces_for_joiners resourceType)))))"

section \<open>The buckets keep every policy\<close>

lemma sorted_groups_grouping:
  "grouping (\<lambda>xs. map (\<lambda>(k, g). (k, js_sort cmp g)) (js_sort ord (group_by key xs))) key"
proof
  fix xs :: "'a list"
  let ?gs = "map (\<lambda>(k, g). (k, js_sort cmp g)) (js_sort ord (group_by key xs))"
  have fst: "map fst ?gs = map fst (js_sort ord (group_by key xs))" by (simp add: case_prod_beta)
  have "mset (map fst ?gs) = mset (map fst (group_by key xs))"
    unfolding fst by (simp only: mset_map mset_js_sort)
  then show "distinct (map fst ?gs)" using group_by_distinct mset_eq_imp_distinct_iff by blast
  have "set (map fst ?gs) = key ` set xs" unfolding fst by (simp add: group_by_entries image_image)
  then show "fst ` set ?gs = key ` set xs" by (simp only: list.set_map)
  fix k g assume "(k, g) \<in> set ?gs"
  then obtain h where "(k, h) \<in> set (group_by key xs)" "g = js_sort cmp h" by auto
  then show "mset g = mset (filter (\<lambda>x. key x = k) xs)" by (auto simp: group_by_entries)
qed

interpretation policy_groups: grouping "groupPoliciesByResourceType le" pol_resource_type
  for le :: "string \<Rightarrow> string \<Rightarrow> bool"
  unfolding groupPoliciesByResourceType_def by (rule sorted_groups_grouping)

lemma js_sort_unordered: "js_sort (\<lambda>a b. True) g = g"
proof (induction g)
  case (Cons x g)
  then show ?case by (cases g) simp_all
qed simp

interpretation verb_groups: grouping "groupActionsByVerb le" action_verb
  for le :: "string \<Rightarrow> string \<Rightarrow> bool"
  using sorted_groups_grouping [of "\<lambda>a b. True" "\<lambda>a b. le (fst a) (fst b)" action_verb]
  by (simp add: groupActionsByVerb_def [abs_def] js_sort_unordered)

lemma total_preorder_on: "total_preorder le \<Longrightarrow> total_preorder (\<lambda>a b. le (f a) (f b))"
  unfolding total_preorder_def by blast

lemma description_bounded:
  "length ellipsis = 1 \<Longrightarrow>
   length (displayAuthorizationDescription ellipsis d fallback) \<le> AUTHORIZATION_DESCRIPTION_MAX_LENGTH"
proof -
  have "length (js_trim_end s) \<le> length s" for s
    unfolding js_trim_end_def by (metis length_dropWhile_le length_rev)
  from this [of "take 159 v" for v] show "length ellipsis = 1 \<Longrightarrow> ?thesis"
    by (auto simp: displayAuthorizationDescription_def AUTHORIZATION_DESCRIPTION_MAX_LENGTH_def Let_def
        intro: order_trans)
qed

section \<open>Properties\<close>

text \<open>The policy page shows every policy it was given exactly once: the buckets are keyed by the
  distinct resource types, none is empty, a policy is in the bucket of its own type, and the buckets
  put together are the list itself. With a total collation the buckets come out ordered by type and
  each of them by policy name.\<close>

theorem policy_groups_complete:
  "let gs = groupPoliciesByResourceType le ps in
     distinct (map fst gs) \<and> (\<forall>(r, g) \<in> set gs. g \<noteq> [] \<and> (\<forall>p \<in> set g. pol_resource_type p = r))
   \<and> mset (concat (map snd gs)) = mset ps
   \<and> (total_preorder le \<longrightarrow> sorted_wrt le (map fst gs)
        \<and> (\<forall>(r, g) \<in> set gs. sorted_wrt le (map pol_name g)))"
proof -
  let ?gs = "groupPoliciesByResourceType le ps"
  have own: "pol_resource_type p = r" if "(r, g) \<in> set ?gs" "p \<in> set g" for r g p
    using mset_eq_setD [OF policy_groups.groups_bucket [OF that(1)]] that(2) by auto
  have keys: "map fst ?gs = map fst (js_sort (\<lambda>a b. le (fst a) (fst b)) (group_by pol_resource_type ps))"
    by (simp add: groupPoliciesByResourceType_def case_prod_beta)
  have outer: "sorted_wrt le (map fst ?gs)" if "total_preorder le"
    unfolding keys sorted_wrt_map by (rule sorted_js_sort [OF total_preorder_on [OF that]])
  have inner: "sorted_wrt le (map pol_name g)" if "total_preorder le" "(r, g) \<in> set ?gs" for r g
    using that(2) sorted_js_sort [OF total_preorder_on [OF that(1), of pol_name]]
    by (auto simp: groupPoliciesByResourceType_def sorted_wrt_map)
  show ?thesis unfolding Let_def
    using policy_groups.groups_keys(1) policy_groups.bucket_nonempty policy_groups.nothing_lost
      own outer inner by blast
qed

definition string_le :: "string \<Rightarrow> string \<Rightarrow> bool" where
  "string_le a b \<longleftrightarrow> length a \<le> length b"

lemma string_le_total: "total_preorder string_le"
  by (auto simp: total_preorder_def string_le_def)

theorem policy_groups_complete_witness:
  "mset (concat (map snd (groupPoliciesByResourceType string_le [reader_policy, reader_policy\<lparr>pol_name := ''r2''\<rparr>])))
     = mset [reader_policy, reader_policy\<lparr>pol_name := ''r2''\<rparr>]
   \<and> sorted_wrt string_le (map fst (groupPoliciesByResourceType string_le [reader_policy]))"
  using policy_groups_complete [of string_le "[reader_policy, reader_policy\<lparr>pol_name := ''r2''\<rparr>]"]
    policy_groups_complete [of string_le "[reader_policy]"] string_le_total
  by (simp add: Let_def)

lemma paginate_append:
  "concat (map (\<lambda>p. paginatePolicies xs (int p) n) [1..<Suc k]) = take (k * n) xs"
proof (induction k)
  case (Suc k)
  have "paginatePolicies xs (int (Suc k)) n = take n (drop (k * n) xs)"
    by (simp add: paginatePolicies_def Let_def)
  with Suc show ?case by (simp add: take_add add.commute [of n])
qed simp

text \<open>The client-side list of destructive policies holds exactly the policies that pass every active
  filter and grant some destructive action, each as often as the full list has it, in name order when
  the collation is total; and its pages, one after the other, are that list from its start, with
  nothing repeated or skipped between pages.\<close>

theorem destructive_pages:
  "let l = filterDestructivePolicies le ps f in
     mset l = mset (filter (destructive_filter f) ps)
   \<and> (\<forall>p \<in> set l. \<exists>a \<in> set (pol_actions p). a \<in> set DESTRUCTIVE_ACTIONS)
   \<and> (total_preorder le \<longrightarrow> sorted_wrt le (map pol_name l))
   \<and> concat (map (\<lambda>i. paginatePolicies l (int i) n) [1..<Suc k]) = take (k * n) l"
proof -
  have "\<exists>a \<in> set (pol_actions p). a \<in> set DESTRUCTIVE_ACTIONS" if "destructive_filter f p" for p
    using that by (auto simp: destructive_filter_def isDestructiveAction_def Let_def split: if_splits)
  moreover have "sorted_wrt le (map pol_name (filterDestructivePolicies le ps f))" if "total_preorder le"
    unfolding filterDestructivePolicies_def sorted_wrt_map
    by (rule sorted_js_sort [OF total_preorder_on [OF that]])
  ultimately show ?thesis
    unfolding Let_def using paginate_append [of "filterDestructivePolicies le ps f" n k]
    by (auto simp: filterDestructivePolicies_def)
qed

theorem destructive_pages_witness:
  "\<exists>a \<in> set (pol_actions (reader_policy\<lparr>pol_actions := [''policies:delete'']\<rparr>)). a \<in> set DESTRUCTIVE_ACTIONS"
  using destructive_pages [of string_le "[reader_policy\<lparr>pol_actions := [''policies:delete'']\<rparr>]"
      "\<lparr>cpf_search = Some '' READER'', cpf_resourceType = None, cpf_isActive = None, cpf_containsAction = None\<rparr>"
      1 1]
  by (auto simp: Let_def filterDestructivePolicies_def destructive_filter_def reader_policy_def
      policy_haystack_def isDestructiveAction_def DESTRUCTIVE_ACTIONS_def js_trim_def js_trim_start_def
      js_trim_end_def is_space_def js_lower_def char_lower_def truthy_def opt_truthy_def)

end
