(* ===== verification/PolicyForm.thy ===== *)
theory PolicyForm
  imports PolicyHelpers
begin

text \<open>
  The policy editor, \<open>policies/dialogs/usePolicyFormState.ts\<close> with the discard dialog of
  \<open>PolicyFormDialog.tsx\<close>: the fields, the options derived from the permission catalogue, the
  unsaved-changes check, the change of resource type with its undo, and submit. \<open>JSON.parse\<close> and
  \<open>JSON.stringify(_, null, 2)\<close> of the conditions are the parameters \<open>parse\<close> and \<open>pretty\<close>. The snapshot
  the dirty check compares is \<open>JSON.stringify\<close> of five plain fields, which tells two field lists apart
  exactly when they differ, so it is kept as the fields themselves (\<open>None\<close> for the initial empty
  string).
\<close>

record catalog_entry =
  ce_action :: string
  ce_resource_type :: string
  ce_description :: "string option"

datatype form_tab = Basics | Actions

type_synonym form_fields = "string \<times> string \<times> string list \<times> string \<times> string"

datatype form_exit = ExitClose | ExitDetails

record policy_form =
  pf_tab :: form_tab
  pf_name :: string
  pf_description :: string
  pf_actions :: "string list"
  pf_resourceType :: string
  pf_conditionsEnabled :: bool
  pf_conditionsText :: string
  pf_initialSnapshot :: "form_fields option"
  pf_prevIsOpen :: bool
  pf_showDiscardConfirm :: bool
  pf_pendingExit :: "form_exit option"

record policy_form_values =
  fv_name :: string
  fv_description :: string
  fv_actions :: "string list"
  fv_resource_type :: string
  fv_conditions :: "json option"

definition ALL_RESOURCE_TYPES_VALUE :: string where
  "ALL_RESOURCE_TYPES_VALUE = ''*''"

definition blank_form :: policy_form where
  "blank_form = \<lparr>pf_tab = Basics, pf_name = [], pf_description = [], pf_actions = [],
     pf_resourceType = [], pf_conditionsEnabled = False, pf_conditionsText = [],
     pf_initialSnapshot = None, pf_prevIsOpen = False, pf_showDiscardConfirm = False,
     pf_pendingExit = None\<rparr>"

section \<open>Derived values\<close>

text \<open>\<open>True\<close> when the invalid-JSON message is shown.\<close>

definition conditionsError :: "(string \<Rightarrow> json_text) \<Rightarrow> policy_form \<Rightarrow> bool" where
  "conditionsError parse f =
     (if \<not> pf_conditionsEnabled f \<or> \<not> truthy (js_trim (pf_conditionsText f)) then False
      else (case parse (pf_conditionsText f) of
              Malformed \<Rightarrow> True
            | Document j \<Rightarrow> \<not> is_plain_object j))"

definition resourceTypeOptions ::
  "string \<Rightarrow> catalog_entry list \<Rightarrow> policy_read option \<Rightarrow> (string \<times> string) list" where
  "resourceTypeOptions allTypesTag catalog policy =
     (let options = map (\<lambda>r. (r, formatResourceTypeLabel r)) (js_distinct (map ce_resource_type catalog))
      in if map_option pol_resource_type policy = Some ALL_RESOURCE_TYPES_VALUE
         then (ALL_RESOURCE_TYPES_VALUE, allTypesTag) # options else options)"

definition scoped_entries :: "catalog_entry list \<Rightarrow> string \<Rightarrow> catalog_entry list" where
  "scoped_entries catalog resourceType =
     (if resourceType = ALL_RESOURCE_TYPES_VALUE then catalog
      else filter (\<lambda>e. ce_resource_type e = resourceType) catalog)"

definition action_label :: "catalog_entry \<Rightarrow> string" where
  "action_label e =
     (let d = (case ce_description e of None \<Rightarrow> [] | Some s \<Rightarrow> js_trim s)
      in if truthy d then d else formatPolicyActionLabel (ce_action e))"

definition actionOptions ::
  "catalog_entry list \<Rightarrow> (permission_arg \<Rightarrow> bool) \<Rightarrow> policy_form \<Rightarrow> (string \<times> string) list" where
  "actionOptions catalog allowed f =
     (let entries = scoped_entries catalog (pf_resourceType f);
          grantable = filter (\<lambda>e. canGrantAction (ce_action e) allowed) entries;
          visible = grantable @ filter (\<lambda>e. ce_action e \<in> set (pf_actions f)
                                          \<and> \<not> canGrantAction (ce_action e) allowed) entries
      in map (\<lambda>e. (ce_action e, action_label e)) visible)"

definition form_fields_of :: "policy_form \<Rightarrow> form_fields" where
  "form_fields_of f = (pf_name f, pf_description f, pf_actions f, pf_resourceType f, pf_conditionsText f)"

definition isDirty :: "policy_form \<Rightarrow> bool" where
  "isDirty f \<longleftrightarrow> Some (form_fields_of f) \<noteq> pf_initialSnapshot f"

definition destructiveSelectedCount :: "policy_form \<Rightarrow> nat" where
  "destructiveSelectedCount f = length (filter isDestructiveAction (pf_actions f))"

definition canSave :: "(string \<Rightarrow> json_text) \<Rightarrow> policy_form \<Rightarrow> bool" where
  "canSave parse f \<longleftrightarrow> truthy (js_trim (pf_name f)) \<and> truthy (pf_resourceType f)
     \<and> length (pf_actions f) > 0 \<and> \<not> conditionsError parse f"

datatype save_summary = SummaryIncomplete | SummaryWithDestructive nat nat | Summary nat

definition saveSummary :: "policy_form \<Rightarrow> save_summary" where
  "saveSummary f =
     (if \<not> truthy (pf_resourceType f) \<or> length (pf_actions f) = 0 then SummaryIncomplete
      else if destructiveSelectedCount f > 0
      then SummaryWithDestructive (length (pf_actions f)) (destructiveSelectedCount f)
      else Summary (length (pf_actions f)))"

section \<open>Opening\<close>

definition reset_form :: "(json \<Rightarrow> string) \<Rightarrow> policy_read option \<Rightarrow> policy_form \<Rightarrow> policy_form" where
  "reset_form pretty policy f =
     (let n = (case policy of None \<Rightarrow> [] | Some p \<Rightarrow> pol_name p);
          d = (case policy of None \<Rightarrow> [] | Some p \<Rightarrow> (case pol_description p of None \<Rightarrow> [] | Some s \<Rightarrow> s));
          a = (case policy of None \<Rightarrow> [] | Some p \<Rightarrow> pol_actions p);
          r = (case policy of None \<Rightarrow> [] | Some p \<Rightarrow> pol_resource_type p);
          conds = Option.bind policy pol_conditions;
          ct = (if json_truthy conds then pretty (the conds) else [])
      in f\<lparr>pf_tab := Basics, pf_name := n, pf_description := d, pf_actions := a, pf_resourceType := r,
            pf_conditionsEnabled := json_truthy conds, pf_conditionsText := ct,
            pf_initialSnapshot := Some (n, d, a, r, ct)\<rparr>)"

text \<open>The state update during render.\<close>

definition render_form :: "(json \<Rightarrow> string) \<Rightarrow> bool \<Rightarrow> policy_read option \<Rightarrow> policy_form \<Rightarrow> policy_form" where
  "render_form pretty isOpen policy f =
     (if isOpen \<and> \<not> pf_prevIsOpen f then reset_form pretty policy (f\<lparr>pf_prevIsOpen := isOpen\<rparr>)
      else if isOpen \<noteq> pf_prevIsOpen f then f\<lparr>pf_prevIsOpen := isOpen\<rparr> else f)"

section \<open>Editing\<close>

definition setName :: "string \<Rightarrow> policy_form \<Rightarrow> policy_form" where
  "setName s f = f\<lparr>pf_name := s\<rparr>"

definition setDescription :: "string \<Rightarrow> policy_form \<Rightarrow> policy_form" where
  "setDescription s f = f\<lparr>pf_description := s\<rparr>"

definition setConditionsEnabled :: "bool \<Rightarrow> policy_form \<Rightarrow> policy_form" where
  "setConditionsEnabled b f = f\<lparr>pf_conditionsEnabled := b\<rparr>"

definition setConditionsText :: "string \<Rightarrow> policy_form \<Rightarrow> policy_form" where
  "setConditionsText s f = f\<lparr>pf_conditionsText := s\<rparr>"

definition set_actions_and_snapshot ::
  "string list \<Rightarrow> form_fields option \<Rightarrow> policy_form \<Rightarrow> policy_form" where
  "set_actions_and_snapshot as snap f = f\<lparr>pf_actions := as, pf_initialSnapshot := snap\<rparr>"

text \<open>The new state, and the \<open>rollback\<close> and \<open>apply\<close> closures handed to the page.\<close>

definition handleActionsChange ::
  "string list \<Rightarrow> policy_form \<Rightarrow> policy_form \<times> (policy_form \<Rightarrow> policy_form) \<times> (policy_form \<Rightarrow> policy_form)" where
  "handleActionsChange nextActions f =
     (let previousActions = pf_actions f;
          previousSnapshot = pf_initialSnapshot f;
          nextSnapshot = Some (pf_name f, pf_description f, nextActions, pf_resourceType f, pf_conditionsText f)
      in (set_actions_and_snapshot nextActions nextSnapshot f,
          set_actions_and_snapshot previousActions previousSnapshot,
          set_actions_and_snapshot nextActions nextSnapshot))"

text \<open>The new state, and the undo of the toast when some action was cleared.\<close>

definition handleResourceTypeChange ::
  "catalog_entry list \<Rightarrow> string \<Rightarrow> policy_form \<Rightarrow>
     policy_form \<times> (nat \<times> (policy_form \<Rightarrow> policy_form)) option" where
  "handleResourceTypeChange catalog v f =
     (let validForNewType = map ce_action
            (filter (\<lambda>e. v = ALL_RESOURCE_TYPES_VALUE \<or> ce_resource_type e = v) catalog);
          kept = filter (\<lambda>a. a \<in> set validForNewType) (pf_actions f);
          clearedCount = length (pf_actions f) - length kept;
          previousActions = pf_actions f;
          previousResourceType = pf_resourceType f
      in (f\<lparr>pf_resourceType := v, pf_actions := kept\<rparr>,
          if clearedCount > 0
          then Some (clearedCount, \<lambda>g. g\<lparr>pf_resourceType := previousResourceType, pf_actions := previousActions\<rparr>)
          else None))"

section \<open>Leaving and saving\<close>

text \<open>The second component is the exit that is taken at once.\<close>

definition requestExit :: "form_exit \<Rightarrow> policy_form \<Rightarrow> policy_form \<times> form_exit option" where
  "requestExit exit f =
     (if isDirty f then (f\<lparr>pf_pendingExit := Some exit, pf_showDiscardConfirm := True\<rparr>, None)
      else (f, Some exit))"

definition requestClose :: "policy_form \<Rightarrow> policy_form \<times> form_exit option" where
  "requestClose f = requestExit ExitClose f"

text \<open>\<open>onDetails ?? onClose\<close>.\<close>

definition requestDetails :: "bool \<Rightarrow> policy_form \<Rightarrow> policy_form \<times> form_exit option" where
  "requestDetails hasDetails f = requestExit (if hasDetails then ExitDetails else ExitClose) f"

definition confirmDiscard :: "policy_form \<Rightarrow> policy_form \<times> form_exit option" where
  "confirmDiscard f =
     (f\<lparr>pf_showDiscardConfirm := False, pf_pendingExit := None\<rparr>,
      Some (case pf_pendingExit f of None \<Rightarrow> ExitClose | Some e \<Rightarrow> e))"

definition cancelDiscard :: "policy_form \<Rightarrow> policy_form" where
  "cancelDiscard f = f\<lparr>pf_pendingExit := None, pf_showDiscardConfirm := False\<rparr>"

definition submitted_conditions :: "(string \<Rightarrow> json_text) \<Rightarrow> policy_form \<Rightarrow> json option" where
  "submitted_conditions parse f =
     (if pf_conditionsEnabled f \<and> truthy (js_trim (pf_conditionsText f))
      then (case parse (pf_conditionsText f) of Document j \<Rightarrow> Some j | Malformed \<Rightarrow> None)
      else None)"

definition handleSubmit ::
  "(string \<Rightarrow> json_text) \<Rightarrow> policy_form \<Rightarrow> policy_form \<times> policy_form_values option" where
  "handleSubmit parse f =
     (if conditionsError parse f then (f\<lparr>pf_tab := Basics\<rparr>, None)
      else (f, Some \<lparr>fv_name = pf_name f, fv_description = pf_description f, fv_actions = pf_actions f,
                     fv_resource_type = pf_resourceType f, fv_conditions = submitted_conditions parse f\<rparr>))"

lemmas policy_form_defs =
  form_fields_of_def isDirty_def render_form_def reset_form_def handleActionsChange_def
  set_actions_and_snapshot_def handleResourceTypeChange_def requestExit_def requestClose_def
  requestDetails_def confirmDiscard_def cancelDiscard_def handleSubmit_def Let_def

section \<open>Properties\<close>

text \<open>C38. Opening an existing policy in the editor and saving it without touching anything submits the
  policy's own name, description, actions, resource type and conditions, and the untouched form is not
  dirty, so it closes without a question. The parser must read the conditions back from what the
  printer wrote.\<close>

theorem open_submit_roundtrip:
  assumes "\<forall>j. pol_conditions p = Some j \<longrightarrow>
      is_plain_object j \<and> parse (pretty j) = Document j \<and> truthy (js_trim (pretty j))"
    and "\<not> pf_prevIsOpen f"
  shows "let g = render_form pretty True (Some p) f in
     \<not> isDirty g \<and> requestClose g = (g, Some ExitClose)
   \<and> handleSubmit parse g = (g, Some \<lparr>fv_name = pol_name p,
        fv_description = (case pol_description p of None \<Rightarrow> [] | Some d \<Rightarrow> d),
        fv_actions = pol_actions p, fv_resource_type = pol_resource_type p,
        fv_conditions = pol_conditions p\<rparr>)"
proof (cases "pol_conditions p")
  case None
  with assms(2) show ?thesis
    by (simp add: policy_form_defs conditionsError_def submitted_conditions_def)
next
  case (Some j)
  with assms(1) obtain kvs where "j = JObj kvs" by (cases j) auto
  with Some assms show ?thesis
    by (simp add: policy_form_defs conditionsError_def submitted_conditions_def)
qed

theorem open_submit_roundtrip_witness:
  "snd (handleSubmit (\<lambda>s. Document (JObj [])) (render_form (\<lambda>j. ''{}'') True
      (Some (reader_policy\<lparr>pol_conditions := Some (JObj [])\<rparr>)) blank_form))
   = Some \<lparr>fv_name = ''reader'', fv_description = [], fv_actions = [''users:list_all'', ''policies:read''],
       fv_resource_type = ''*'', fv_conditions = Some (JObj [])\<rparr>"
proof -
  have "truthy (js_trim ''{}'')"
    by (simp add: js_trim_def js_trim_start_def js_trim_end_def is_space_def Let_def)
  then show ?thesis
    using open_submit_roundtrip [where p = "reader_policy\<lparr>pol_conditions := Some (JObj [])\<rparr>"
        and f = blank_form and pretty = "\<lambda>j. ''{}''" and parse = "\<lambda>s. Document (JObj [])"]
    by (simp add: reader_policy_def blank_form_def Let_def)
qed

lemma filter_same_length: "length (filter P xs) = length xs \<Longrightarrow> filter P xs = xs"
proof (induction xs)
  case (Cons x xs)
  then show ?case using length_filter_le [of P xs] by (cases "P x") simp_all
qed simp

text \<open>Changing the resource type keeps exactly the selected actions that some catalogue entry offers
  for the new type (all types for the wildcard), in their order, touches no other field, offers an
  undo exactly when an action was cleared, with the number cleared, and the undo, applied at once,
  restores the form as it was.\<close>

theorem resource_type_change:
  "let (g, undo) = handleResourceTypeChange catalog v f in
     g = f\<lparr>pf_resourceType := v, pf_actions := pf_actions g\<rparr>
   \<and> pf_actions g = filter (\<lambda>a. a \<in> ce_action ` set (scoped_entries catalog v)) (pf_actions f)
   \<and> (undo = None \<longleftrightarrow> pf_actions g = pf_actions f)
   \<and> (\<forall>n u. undo = Some (n, u) \<longrightarrow> u g = f \<and> n + length (pf_actions g) = length (pf_actions f) \<and> 0 < n)"
proof -
  have scoped: "set (map ce_action (filter (\<lambda>e. v = ALL_RESOURCE_TYPES_VALUE \<or> ce_resource_type e = v) catalog))
      = ce_action ` set (scoped_entries catalog v)"
    by (auto simp: scoped_entries_def)
  let ?kept = "filter (\<lambda>a. a \<in> ce_action ` set (scoped_entries catalog v)) (pf_actions f)"
  have le: "length ?kept \<le> length (pf_actions f)" by (rule length_filter_le)
  then have cleared: "0 < length (pf_actions f) - length ?kept \<longleftrightarrow> ?kept \<noteq> pf_actions f"
    using filter_same_length [of _ "pf_actions f"] by (metis diff_is_0_eq le_antisym not_gr_zero order_refl)
  show ?thesis
  proof (cases "?kept = pf_actions f")
    case True
    then show ?thesis unfolding handleResourceTypeChange_def Let_def scoped by simp
  next
    case False
    with cleared le show ?thesis
      unfolding handleResourceTypeChange_def Let_def scoped by simp
  qed
qed

theorem resource_type_change_witness:
  "pf_actions (fst (handleResourceTypeChange
      [\<lparr>ce_action = ''users:list_all'', ce_resource_type = ''users'', ce_description = None\<rparr>] ''users''
      (blank_form\<lparr>pf_actions := [''users:list_all'', ''policies:read'']\<rparr>))) = [''users:list_all'']"
  using resource_type_change
    [of "[\<lparr>ce_action = ''users:list_all'', ce_resource_type = ''users'', ce_description = None\<rparr>]" "''users''"
        "blank_form\<lparr>pf_actions := [''users:list_all'', ''policies:read'']\<rparr>"]
  by (simp add: scoped_entries_def ALL_RESOURCE_TYPES_VALUE_def case_prod_beta Let_def)

text \<open>Every option of the action list belongs to the selected resource type, every action offered that
  the caller may not grant is one the policy already has, and every selected action the catalogue
  knows for that type is shown; so a new policy is never offered an action the backend's grant guard
  would refuse, and an existing one never loses an action by being displayed.\<close>

theorem action_options_grantable:
  "set (map fst (actionOptions catalog allowed f)) =
     {a \<in> ce_action ` set (scoped_entries catalog (pf_resourceType f)).
        canGrantAction a allowed \<or> a \<in> set (pf_actions f)}
   \<and> length (actionOptions catalog allowed f) \<le> length catalog"
proof -
  have "length (filter P xs) + length (filter (\<lambda>e. Q e \<and> \<not> P e) xs) \<le> length xs" for P Q
    and xs :: "catalog_entry list"
    by (induction xs) auto
  moreover have "length (scoped_entries catalog r) \<le> length catalog" for r
    by (simp add: scoped_entries_def)
  ultimately have "length (actionOptions catalog allowed f) \<le> length catalog"
    unfolding actionOptions_def Let_def by (simp, meson order_trans)
  moreover have "set (map fst (actionOptions catalog allowed f)) =
     {a \<in> ce_action ` set (scoped_entries catalog (pf_resourceType f)).
        canGrantAction a allowed \<or> a \<in> set (pf_actions f)}"
    by (auto simp: actionOptions_def Let_def)
  ultimately show ?thesis by simp
qed

text \<open>Selecting or clearing an action takes the whole form, with any unsaved edit of the other fields,
  as the new reference of the unsaved-changes check: right after it the form is never dirty and every
  way out leaves at once, without the discard question, in the create dialog too, where nothing has
  been sent to the server. Switching the conditions off or on is never an unsaved change either.\<close>

theorem action_change_hides_unsaved_edits:
  "let g = fst (handleActionsChange nextActions (setName n (setDescription d f))) in
     pf_name g = n \<and> pf_description g = d \<and> pf_actions g = nextActions
   \<and> \<not> isDirty g \<and> requestClose g = (g, Some ExitClose)
   \<and> isDirty (setConditionsEnabled b f) = isDirty f"
  by (simp add: policy_form_defs setName_def setDescription_def setConditionsEnabled_def)

end
