(* ===== verification/ApiClient.thy ===== *)
theory ApiClient
  imports JsValues
begin

text \<open>
  The request builders of \<open>api/*.ts\<close>, \<open>authorization/authorizationService.ts\<close> and \<open>app/api/*.ts\<close>:
  each returns the request it hands to the shared axios instance (method, path, query parameters,
  body). Optional parameters are options; a default value of the source is written where the source
  applies it. A parameter or property that is \<open>undefined\<close> is kept as \<open>None\<close> and never sent.
\<close>

section \<open>auth\_api.ts\<close>

definition signupApi :: "string \<Rightarrow> string \<Rightarrow> string \<Rightarrow> http_request" where
  "signupApi name email password = http_send POST ''/auth/signup''
     (Some (json_object [(''name'', Some (JStr name)), (''email'', Some (JStr email)),
        (''password'', Some (JStr password))]))"

definition loginApi :: "string \<Rightarrow> string \<Rightarrow> http_request" where
  "loginApi email password = http_send POST ''/auth/login''
     (Some (json_object [(''email'', Some (JStr email)), (''password'', Some (JStr password))]))"

definition getCurrentUserApi :: "string option \<Rightarrow> http_request" where
  "getCurrentUserApi src = http_get ''/auth/me''
     [(''src'', Some (JStr (case src of None \<Rightarrow> ''unknown'' | Some s \<Rightarrow> s)))]"

definition oauth2LoginGoogleApi :: http_request where
  "oauth2LoginGoogleApi = http_get ''/auth/oauth2/login/google'' []"

definition oauth2CallbackGoogleApi :: "string \<Rightarrow> http_request" where
  "oauth2CallbackGoogleApi c = http_get ''/auth/oauth2/callback/google'' [(''code'', Some (JStr c))]"

definition refreshTokenApi :: http_request where
  "refreshTokenApi = http_send POST ''/auth/refresh/'' None"

definition logoutApi :: http_request where
  "logoutApi = http_send POST ''/auth/logout'' None"

definition logoutAllApi :: http_request where
  "logoutAllApi = http_send POST ''/auth/logout/all'' None"

definition getMySessionsApi :: http_request where
  "getMySessionsApi = http_get ''/auth/sessions'' []"

definition revokeSessionApi :: "int \<Rightarrow> http_request" where
  "revokeSessionApi sessionId = http_send DELETE (''/auth/sessions/'' @ int_text sessionId) None"

definition passwordResetRequestApi :: "string \<Rightarrow> http_request" where
  "passwordResetRequestApi email = http_send POST ''/auth/password-reset/request''
     (Some (json_object [(''email'', Some (JStr email))]))"

definition passwordResetConfirmApi :: "string \<Rightarrow> string \<Rightarrow> http_request" where
  "passwordResetConfirmApi token newPassword = http_send POST ''/auth/password-reset/confirm''
     (Some (json_object [(''token'', Some (JStr token)), (''new_password'', Some (JStr newPassword))]))"

definition verificationEmailRequestApi :: "string \<Rightarrow> http_request" where
  "verificationEmailRequestApi email = http_send POST ''/auth/verify-account/request''
     (Some (json_object [(''email'', Some (JStr email))]))"

definition verifyAccountApi :: "string \<Rightarrow> string \<Rightarrow> http_request" where
  "verifyAccountApi token email = http_send POST ''/auth/verify-account''
     (Some (json_object [(''token'', Some (JStr token))]))"

section \<open>users\_api.ts\<close>

text \<open>\<open>brand_color\<close> distinguishes an omitted value from \<open>null\<close>.\<close>

record user_update_payload =
  up_name :: "string option"
  up_password :: "string option"
  up_current_password :: "string option"
  up_brand_color :: "string option option"

definition user_update_body :: "user_update_payload \<Rightarrow> json" where
  "user_update_body p = json_object
     [(''name'', opt_str (up_name p)), (''password'', opt_str (up_password p)),
      (''current_password'', opt_str (up_current_password p)),
      (''brand_color'', map_option (\<lambda>b. case b of None \<Rightarrow> JNull | Some s \<Rightarrow> JStr s) (up_brand_color p))]"

record list_users_params =
  lu_limit :: "int option"
  lu_offset :: "int option"
  lu_search :: "string option"
  lu_role :: "string option"
  lu_isVerified :: "bool option"
  lu_status :: "string option"
  lu_policy :: "string option"
  lu_permission :: "string option"
  lu_permissionSource :: "string option"
  lu_sortBy :: "string option"
  lu_sortDir :: "string option"
  lu_lastLogin :: "string option"
  lu_lastLoginFrom :: "string option"
  lu_lastLoginTo :: "string option"

definition or_default :: "int \<Rightarrow> int option \<Rightarrow> json option" where
  "or_default d n = Some (JNum (case n of None \<Rightarrow> d | Some k \<Rightarrow> k))"

definition toApiParams :: "list_users_params \<Rightarrow> (string \<times> json option) list" where
  "toApiParams p = [
     (''limit'', or_default 1000 (lu_limit p)), (''offset'', or_default 0 (lu_offset p)),
     (''search'', opt_str (lu_search p)), (''role'', opt_str (lu_role p)),
     (''is_verified'', opt_bool (lu_isVerified p)), (''status'', opt_str (lu_status p)),
     (''policy'', opt_str (lu_policy p)), (''permission'', opt_str (lu_permission p)),
     (''permission_source'', opt_str (lu_permissionSource p)),
     (''sort_by'', opt_str (lu_sortBy p)), (''sort_dir'', opt_str (lu_sortDir p)),
     (''last_login'', opt_str (lu_lastLogin p)), (''last_login_from'', opt_str (lu_lastLoginFrom p)),
     (''last_login_to'', opt_str (lu_lastLoginTo p))]"

definition listUsersApi :: "list_users_params \<Rightarrow> http_request" where
  "listUsersApi p = http_get ''/users/'' (toApiParams p)"

definition getUserStatsApi :: http_request where
  "getUserStatsApi = http_get ''/users/stats'' []"

definition user_url :: "string \<Rightarrow> string" where
  "user_url email = ''/users/'' @ encodeURIComponent email"

definition updateUserApi :: "string \<Rightarrow> user_update_payload \<Rightarrow> http_request" where
  "updateUserApi email p = http_send PUT (user_url email) (Some (user_update_body p))"

definition deleteUserApi :: "string \<Rightarrow> http_request" where
  "deleteUserApi email = http_send DELETE (user_url email) None"

definition purgeUserApi :: "string \<Rightarrow> http_request" where
  "purgeUserApi email = http_send DELETE (user_url email @ ''/purge'') None"

definition reactivateUserApi :: "string \<Rightarrow> http_request" where
  "reactivateUserApi email = http_send PATCH (user_url email @ ''/reactivate'') None"

definition updateUserRoleApi :: "string \<Rightarrow> string \<Rightarrow> http_request" where
  "updateUserRoleApi email role = http_send PATCH (user_url email @ ''/role'')
     (Some (json_object [(''role'', Some (JStr role))]))"

definition exportUsersApi :: "list_users_params \<Rightarrow> http_request" where
  "exportUsersApi p = http_get ''/users/export'' (toApiParams p)"

section \<open>account\_settings\_api.ts\<close>

definition updateMyAccountApi :: "user_update_payload \<Rightarrow> http_request" where
  "updateMyAccountApi p = http_send PUT ''/users/me'' (Some (user_update_body p))"

definition deleteMyAccountApi :: "string option \<Rightarrow> http_request" where
  "deleteMyAccountApi currentPassword = http_send DELETE ''/users/me''
     (Some (json_object [(''current_password'', opt_str currentPassword)]))"

definition confirmDeleteMyAccountApi :: "string \<Rightarrow> http_request" where
  "confirmDeleteMyAccountApi token = http_send POST ''/users/me/confirm-delete''
     (Some (json_object [(''token'', Some (JStr token))]))"

section \<open>policies\_api.ts\<close>

record policy_create_payload =
  pc_name :: string
  pc_description :: "string option"
  pc_actions :: "string list"
  pc_resource_type :: string
  pc_conditions :: "json option"

record policy_update_payload =
  pu_name :: "string option"
  pu_description :: "string option"
  pu_actions :: "string list option"
  pu_resource_type :: "string option"
  pu_conditions :: "json option"
  pu_is_active :: "bool option"
  pu_change_reason :: "string option"

abbreviation json_strings :: "string list \<Rightarrow> json" where
  "json_strings ss \<equiv> JArr (map JStr ss)"

definition policy_create_body :: "policy_create_payload \<Rightarrow> json" where
  "policy_create_body p = json_object
     [(''name'', Some (JStr (pc_name p))), (''description'', opt_str (pc_description p)),
      (''actions'', Some (json_strings (pc_actions p))),
      (''resource_type'', Some (JStr (pc_resource_type p))), (''conditions'', pc_conditions p)]"

definition policy_update_body :: "policy_update_payload \<Rightarrow> json" where
  "policy_update_body p = json_object
     [(''name'', opt_str (pu_name p)), (''description'', opt_str (pu_description p)),
      (''actions'', map_option json_strings (pu_actions p)),
      (''resource_type'', opt_str (pu_resource_type p)), (''conditions'', pu_conditions p),
      (''is_active'', opt_bool (pu_is_active p)), (''change_reason'', opt_str (pu_change_reason p))]"

record list_policies_params =
  lp_limit :: "int option"
  lp_offset :: "int option"
  lp_search :: "string option"
  lp_resourceType :: "string option"
  lp_isActive :: "bool option"
  lp_containsAction :: "string option"
  lp_destructiveOnly :: "bool option"
  lp_sortBy :: "string option"
  lp_sortDir :: "string option"

definition toListPoliciesApiParams :: "list_policies_params \<Rightarrow> (string \<times> json option) list" where
  "toListPoliciesApiParams p = [
     (''limit'', or_default 1000 (lp_limit p)), (''offset'', or_default 0 (lp_offset p)),
     (''search'', opt_str (lp_search p)), (''resource_type'', opt_str (lp_resourceType p)),
     (''is_active'', opt_bool (lp_isActive p)), (''contains_action'', opt_str (lp_containsAction p)),
     (''destructive_only'', opt_bool (lp_destructiveOnly p)), (''sort_by'', opt_str (lp_sortBy p)),
     (''sort_dir'', opt_str (lp_sortDir p))]"

definition listPoliciesApi :: "list_policies_params \<Rightarrow> http_request" where
  "listPoliciesApi p = http_get ''/authorization/policies'' (toListPoliciesApiParams p)"

definition policy_url :: "string \<Rightarrow> string" where
  "policy_url name = ''/authorization/policies/'' @ encodeURIComponent name"

definition authz_user_url :: "string \<Rightarrow> string" where
  "authz_user_url email = ''/authorization/users/'' @ encodeURIComponent email"

definition getPolicyApi :: "string \<Rightarrow> http_request" where
  "getPolicyApi name = http_get (policy_url name) []"

definition createPolicyApi :: "policy_create_payload \<Rightarrow> http_request" where
  "createPolicyApi p = http_send POST ''/authorization/policies'' (Some (policy_create_body p))"

definition updatePolicyApi :: "string \<Rightarrow> policy_update_payload \<Rightarrow> http_request" where
  "updatePolicyApi name p = http_send PUT (policy_url name) (Some (policy_update_body p))"

definition deletePolicyApi :: "string \<Rightarrow> string option \<Rightarrow> http_request" where
  "deletePolicyApi name reason =
     (http_send DELETE (policy_url name) None)\<lparr>req_params := [(''reason'', opt_str reason)]\<rparr>"

definition getPolicyHistoryApi :: "string \<Rightarrow> int option \<Rightarrow> int option \<Rightarrow> http_request" where
  "getPolicyHistoryApi name limit offset = http_get (policy_url name @ ''/history'')
     [(''limit'', or_default 50 limit), (''offset'', or_default 0 offset)]"

definition rollbackPolicyApi :: "string \<Rightarrow> int \<Rightarrow> string option \<Rightarrow> http_request" where
  "rollbackPolicyApi name historyId reason =
     http_send POST (policy_url name @ ''/history/'' @ int_text historyId @ ''/rollback'')
       (Some (json_object (case reason of
          Some r \<Rightarrow> if truthy r then [(''reason'', Some (JStr r))] else []
        | None \<Rightarrow> [])))"

definition assignPolicyApi :: "string \<Rightarrow> string \<Rightarrow> http_request" where
  "assignPolicyApi email name = http_send POST (authz_user_url email @ ''/policies'')
     (Some (json_object [(''policy_name'', Some (JStr name))]))"

definition revokePolicyApi :: "string \<Rightarrow> string \<Rightarrow> http_request" where
  "revokePolicyApi email name =
     http_send DELETE (authz_user_url email @ ''/policies/'' @ encodeURIComponent name) None"

definition revokePolicyActionApi :: "string \<Rightarrow> string \<Rightarrow> string \<Rightarrow> http_request" where
  "revokePolicyActionApi email name action =
     http_send POST (authz_user_url email @ ''/policies/'' @ encodeURIComponent name @ ''/revoke-action'')
       (Some (json_object [(''action'', Some (JStr action))]))"

definition getPolicyHoldersApi :: "string \<Rightarrow> http_request" where
  "getPolicyHoldersApi name = http_get (policy_url name @ ''/holders'') []"

definition getMyPoliciesApi :: http_request where
  "getMyPoliciesApi = http_get ''/authorization/users/me/policies'' []"

definition getUserPoliciesApi :: "string \<Rightarrow> http_request" where
  "getUserPoliciesApi email = http_get (authz_user_url email @ ''/policies'') []"

section \<open>permissions\_api.ts\<close>

record permission_assignment_payload =
  pa_action :: string
  pa_resource_type :: string
  pa_conditions :: "json option"

definition grantPermissionApi :: "string \<Rightarrow> permission_assignment_payload \<Rightarrow> http_request" where
  "grantPermissionApi email p = http_send POST (authz_user_url email @ ''/permissions'')
     (Some (json_object [(''action'', Some (JStr (pa_action p))),
        (''resource_type'', Some (JStr (pa_resource_type p))), (''conditions'', pa_conditions p)]))"

definition revokePermissionApi :: "string \<Rightarrow> string \<Rightarrow> string \<Rightarrow> http_request" where
  "revokePermissionApi email action resourceType =
     (http_send DELETE (authz_user_url email @ ''/permissions/'' @ encodeURIComponent action) None)
       \<lparr>req_params := [(''resource_type'', Some (JStr resourceType))]\<rparr>"

definition getMyPermissionsApi :: http_request where
  "getMyPermissionsApi = http_get ''/authorization/users/me/permissions'' []"

definition getUserPermissionsApi :: "string \<Rightarrow> http_request" where
  "getUserPermissionsApi email = http_get (authz_user_url email @ ''/permissions'') []"

definition getPermissionCatalogApi :: http_request where
  "getPermissionCatalogApi = http_get ''/authorization/permissions/catalog'' []"

definition getPermissionCatalogUsageApi :: http_request where
  "getPermissionCatalogUsageApi = http_get ''/authorization/permissions/catalog/usage'' []"

section \<open>bulk\_assignment\_api.ts\<close>

definition bulk_items :: "(string \<Rightarrow> (string \<times> json option) list) \<Rightarrow> string list \<Rightarrow> json option" where
  "bulk_items item emails =
     Some (json_object [(''items'', Some (JArr (map (\<lambda>e. json_object (item e)) emails)))])"

definition bulkAssignPoliciesApi :: "string list \<Rightarrow> string \<Rightarrow> http_request" where
  "bulkAssignPoliciesApi emails name = http_send POST ''/authorization/bulk/policies/assign''
     (bulk_items (\<lambda>e. [(''user_email'', Some (JStr e)), (''policy_name'', Some (JStr name))]) emails)"

definition bulkRemovePoliciesApi :: "string list \<Rightarrow> string \<Rightarrow> http_request" where
  "bulkRemovePoliciesApi emails name = http_send POST ''/authorization/bulk/policies/remove''
     (bulk_items (\<lambda>e. [(''user_email'', Some (JStr e)), (''policy_name'', Some (JStr name))]) emails)"

definition bulkAssignPermissionsApi ::
  "string list \<Rightarrow> string \<Rightarrow> string \<Rightarrow> json option \<Rightarrow> http_request" where
  "bulkAssignPermissionsApi emails action resourceType conditions =
     http_send POST ''/authorization/bulk/permissions/assign''
       (bulk_items (\<lambda>e. [(''user_email'', Some (JStr e)), (''action'', Some (JStr action)),
          (''resource_type'', Some (JStr resourceType)), (''conditions'', conditions)]) emails)"

definition bulkRemovePermissionsApi :: "string list \<Rightarrow> string \<Rightarrow> string \<Rightarrow> http_request" where
  "bulkRemovePermissionsApi emails action resourceType =
     http_send POST ''/authorization/bulk/permissions/remove''
       (bulk_items (\<lambda>e. [(''user_email'', Some (JStr e)), (''action'', Some (JStr action)),
          (''resource_type'', Some (JStr resourceType))]) emails)"

definition bulkUpdateRoleApi :: "string list \<Rightarrow> string \<Rightarrow> http_request" where
  "bulkUpdateRoleApi emails role = http_send POST ''/authorization/bulk/users/role''
     (bulk_items (\<lambda>e. [(''user_email'', Some (JStr e)), (''role'', Some (JStr role))]) emails)"

section \<open>audit\_api.ts\<close>

record audit_list_params =
  al_limit :: "int option"
  al_offset :: "int option"
  al_search :: "string option"
  al_sortBy :: "string option"
  al_sortDir :: "string option"
  al_from :: "string option"
  al_to :: "string option"

record authorization_log_params = audit_list_params +
  al_action :: "string option"
  al_resourceType :: "string option"
  al_allowed :: "bool option"

record security_log_params = audit_list_params +
  al_eventType :: "string option"
  al_ipAddress :: "string option"
  al_success :: "bool option"

definition toAuthorizationParams :: "authorization_log_params \<Rightarrow> (string \<times> json option) list" where
  "toAuthorizationParams p = [
     (''limit'', or_default 50 (al_limit p)), (''offset'', or_default 0 (al_offset p)),
     (''search'', opt_str (al_search p)), (''action'', opt_str (al_action p)),
     (''resource_type'', opt_str (al_resourceType p)), (''allowed'', opt_bool (al_allowed p)),
     (''sort_by'', opt_str (al_sortBy p)), (''sort_dir'', opt_str (al_sortDir p)),
     (''from'', opt_str (al_from p)), (''to'', opt_str (al_to p))]"

definition toSecurityParams :: "security_log_params \<Rightarrow> (string \<times> json option) list" where
  "toSecurityParams p = [
     (''limit'', or_default 50 (al_limit p)), (''offset'', or_default 0 (al_offset p)),
     (''search'', opt_str (al_search p)), (''event_type'', opt_str (al_eventType p)),
     (''ip_address'', opt_str (al_ipAddress p)), (''success'', opt_bool (al_success p)),
     (''sort_by'', opt_str (al_sortBy p)), (''sort_dir'', opt_str (al_sortDir p)),
     (''from'', opt_str (al_from p)), (''to'', opt_str (al_to p))]"

definition getAuthorizationAuditLogApi :: "authorization_log_params \<Rightarrow> http_request" where
  "getAuthorizationAuditLogApi p = http_get ''/authorization/audit-log'' (toAuthorizationParams p)"

definition getMyAuthorizationAuditLogApi :: "authorization_log_params \<Rightarrow> http_request" where
  "getMyAuthorizationAuditLogApi p = http_get ''/authorization/audit-log/me'' (toAuthorizationParams p)"

definition getUserAuthorizationAuditLogApi :: "string \<Rightarrow> authorization_log_params \<Rightarrow> http_request" where
  "getUserAuthorizationAuditLogApi email p =
     http_get (''/authorization/audit-log/users/'' @ encodeURIComponent email) (toAuthorizationParams p)"

definition getSecurityAuditLogApi :: "security_log_params \<Rightarrow> http_request" where
  "getSecurityAuditLogApi p = http_get ''/audit/security-log'' (toSecurityParams p)"

definition getMySecurityAuditLogApi :: "security_log_params \<Rightarrow> http_request" where
  "getMySecurityAuditLogApi p = http_get ''/audit/security-log/me'' (toSecurityParams p)"

definition getUserSecurityAuditLogApi :: "string \<Rightarrow> security_log_params \<Rightarrow> http_request" where
  "getUserSecurityAuditLogApi email p =
     http_get (''/audit/security-log/users/'' @ encodeURIComponent email) (toSecurityParams p)"

text \<open>\<open>if (from) params.from = from\<close>.\<close>

definition if_truthy :: "string \<Rightarrow> string option \<Rightarrow> (string \<times> json option) list" where
  "if_truthy k v = (case v of Some s \<Rightarrow> if truthy s then [(k, Some (JStr s))] else [] | None \<Rightarrow> [])"

definition getLoginTrendApi ::
  "int option \<Rightarrow> string option \<Rightarrow> string option \<Rightarrow> string option \<Rightarrow> http_request" where
  "getLoginTrendApi days search lo hi = http_get ''/audit/security-log/login-trend''
     ([(''days'', or_default 14 days), (''search'', opt_str search)]
      @ if_truthy ''from'' lo @ if_truthy ''to'' hi)"

definition getMyLoginTrendApi :: "int option \<Rightarrow> string option \<Rightarrow> string option \<Rightarrow> http_request" where
  "getMyLoginTrendApi days lo hi = http_get ''/audit/security-log/me/login-trend''
     ([(''days'', or_default 14 days)] @ if_truthy ''from'' lo @ if_truthy ''to'' hi)"

section \<open>rate\_limits\_api.ts\<close>

record list_rate_limits_params =
  rl_page :: "int option"
  rl_scope :: "string option"
  rl_endpoint :: "string option"
  rl_identifier :: "string option"
  rl_pageSize :: "int option"
  rl_kind :: "string option"
  rl_sortBy :: "string option"
  rl_sortDir :: "string option"

definition falsy_undefined :: "string option \<Rightarrow> string option" where
  "falsy_undefined v = Option.bind v or_undefined"

definition listRateLimitsApi :: "list_rate_limits_params \<Rightarrow> http_request" where
  "listRateLimitsApi p = http_get ''/rate-limits/''
     [(''page'', or_default 1 (rl_page p)), (''scope'', opt_str (rl_scope p)),
      (''endpoint'', opt_str (falsy_undefined (rl_endpoint p))),
      (''identifier'', opt_str (falsy_undefined (rl_identifier p))),
      (''page_size'', map_option JNum (rl_pageSize p)), (''kind'', opt_str (rl_kind p)),
      (''sort_by'', opt_str (rl_sortBy p)), (''sort_dir'', opt_str (rl_sortDir p))]"

definition getRateLimitsSummaryApi :: http_request where
  "getRateLimitsSummaryApi = http_get ''/rate-limits/summary'' []"

definition resetRateLimitApi :: "string \<Rightarrow> http_request" where
  "resetRateLimitApi key = http_send DELETE (''/rate-limits/'' @ encodeURIComponent key) None"

section \<open>authorizationService.ts\<close>

record authorization_check =
  ac_action :: string
  ac_resourceType :: string
  ac_resource :: "json option"

definition check_item :: "authorization_check \<Rightarrow> json" where
  "check_item c = json_object [(''action'', Some (JStr (ac_action c))),
     (''resource_type'', Some (JStr (ac_resourceType c))), (''resource'', ac_resource c)]"

definition checkBatch :: "authorization_check list \<Rightarrow> http_request" where
  "checkBatch checks = http_send POST ''/authorization/batch-check''
     (Some (json_object [(''checks'', Some (JArr (map check_item checks)))]))"

definition checkPermission :: "string \<Rightarrow> string \<Rightarrow> json option \<Rightarrow> http_request" where
  "checkPermission action resourceType resource = http_send POST ''/authorization/batch-check''
     (Some (json_object [(''checks'', Some (JArr [json_object
        [(''action'', Some (JStr action)), (''resource_type'', Some (JStr resourceType)),
         (''resource'', resource)]]))]))"

definition getUserPolicies :: http_request where
  "getUserPolicies = http_get ''/authorization/users/me/policies'' []"

definition getAuditLog :: http_request where
  "getAuditLog = http_get ''/authorization/audit-log/me'' []"

section \<open>The application's own endpoints\<close>

definition listApplicationsApi :: "int option \<Rightarrow> int option \<Rightarrow> http_request" where
  "listApplicationsApi limit offset =
     http_get ''/applications/'' [(''limit'', or_default 20 limit), (''offset'', or_default 0 offset)]"

definition application_url :: "int \<Rightarrow> string" where
  "application_url i = ''/applications/'' @ int_text i"

definition getApplicationApi :: "int \<Rightarrow> http_request" where
  "getApplicationApi i = http_get (application_url i) []"

record application_create_payload =
  ap_workspace_id :: int
  ap_company_name :: string
  ap_role :: "string option"
  ap_application_date :: string
  ap_application_time :: "string option option"
  ap_status :: string

definition nullable :: "string option option \<Rightarrow> json option" where
  "nullable = map_option (\<lambda>v. case v of None \<Rightarrow> JNull | Some s \<Rightarrow> JStr s)"

definition createApplicationApi :: "application_create_payload \<Rightarrow> http_request" where
  "createApplicationApi p = http_send POST ''/applications/'' (Some (json_object
     [(''workspace_id'', Some (JNum (ap_workspace_id p))),
      (''company_name'', Some (JStr (ap_company_name p))), (''role'', opt_str (ap_role p)),
      (''application_date'', Some (JStr (ap_application_date p))),
      (''application_time'', nullable (ap_application_time p)),
      (''status'', Some (JStr (ap_status p)))]))"

record application_update_payload =
  au_company_name :: "string option"
  au_application_date :: "string option"
  au_application_time :: "string option option"
  au_status :: "string option"

definition updateApplicationApi :: "int \<Rightarrow> application_update_payload \<Rightarrow> http_request" where
  "updateApplicationApi i p = http_send PATCH (application_url i) (Some (json_object
     [(''company_name'', opt_str (au_company_name p)),
      (''application_date'', opt_str (au_application_date p)),
      (''application_time'', nullable (au_application_time p)), (''status'', opt_str (au_status p))]))"

definition deleteApplicationApi :: "int \<Rightarrow> http_request" where
  "deleteApplicationApi i = http_send DELETE (application_url i) None"

text \<open>\<open>Inl\<close> is the thrown configuration error.\<close>

definition applicationPdfDownloadUrl :: "int \<Rightarrow> string \<Rightarrow> string + string" where
  "applicationPdfDownloadUrl i apiBaseUrl =
     (if \<not> truthy apiBaseUrl
      then Inl ''VITE_API_BASE_URL is not configured. Set it before building the frontend.''
      else Inr (apiBaseUrl @ ''/applications/'' @ int_text i @ ''/pdf''))"

definition getMyCareerKnowledgeBaseApi :: http_request where
  "getMyCareerKnowledgeBaseApi = http_get ''/career-knowledge/'' []"

definition createCareerKnowledgeBaseApi :: "string \<Rightarrow> http_request" where
  "createCareerKnowledgeBaseApi raw = http_send POST ''/career-knowledge/''
     (Some (json_object [(''raw_input'', Some (JStr raw))]))"

definition updateCareerKnowledgeBaseApi :: "string option \<Rightarrow> string option \<Rightarrow> http_request" where
  "updateCareerKnowledgeBaseApi raw content = http_send PUT ''/career-knowledge/''
     (Some (json_object [(''raw_input'', opt_str raw), (''content'', opt_str content)]))"

definition deleteCareerKnowledgeBaseApi :: http_request where
  "deleteCareerKnowledgeBaseApi = http_send DELETE ''/career-knowledge/'' None"

definition workspace_url :: "int \<Rightarrow> string" where
  "workspace_url i = ''/resume-workspaces/'' @ int_text i"

definition listBuilderTemplatesApi :: http_request where
  "listBuilderTemplatesApi = http_get ''/resume-workspaces/templates'' []"

text \<open>The template key is put into the path as it is.\<close>

definition getBuilderTemplateApi :: "string \<Rightarrow> http_request" where
  "getBuilderTemplateApi key = http_get (''/resume-workspaces/templates/'' @ key) []"

definition createBuilderWorkspaceApi :: "string \<Rightarrow> string \<Rightarrow> string \<Rightarrow> http_request" where
  "createBuilderWorkspaceApi title job_description template_key = http_send POST ''/resume-workspaces''
     (Some (json_object [(''title'', Some (JStr title)), (''job_description'', Some (JStr job_description)),
        (''template_key'', Some (JStr template_key))]))"

definition getBuilderWorkspaceApi :: "int \<Rightarrow> http_request" where
  "getBuilderWorkspaceApi i = http_get (workspace_url i) []"

definition listBuilderWorkspacesApi :: "int option \<Rightarrow> http_request" where
  "listBuilderWorkspacesApi limit = http_get ''/resume-workspaces'' [(''limit'', or_default 50 limit)]"

definition deleteBuilderWorkspaceApi :: "int \<Rightarrow> http_request" where
  "deleteBuilderWorkspaceApi i = http_send DELETE (workspace_url i) None"

definition saveBuilderDocumentApi :: "int \<Rightarrow> json \<Rightarrow> int option \<Rightarrow> string option \<Rightarrow> http_request" where
  "saveBuilderDocumentApi i doc expected change_kind =
     http_send PUT (workspace_url i @ ''/document'') (Some (json_object
       [(''document'', Some doc),
        (''expected_revision_id'', Some (case expected of None \<Rightarrow> JNull | Some n \<Rightarrow> JNum n)),
        (''change_kind'', Some (JStr (case change_kind of None \<Rightarrow> ''manual_edit'' | Some k \<Rightarrow> k)))]))"

definition generateBuilderDocumentApi :: "int \<Rightarrow> http_request" where
  "generateBuilderDocumentApi i = http_send POST (workspace_url i @ ''/generate'') None"

definition queueBuilderGenerationApi :: "int \<Rightarrow> http_request" where
  "queueBuilderGenerationApi i = http_send POST (workspace_url i @ ''/generate-job'') None"

definition queueBuilderExportApi :: "int \<Rightarrow> http_request" where
  "queueBuilderExportApi i = http_send POST (workspace_url i @ ''/export-job'') None"

definition getBuilderJobApi :: "int \<Rightarrow> http_request" where
  "getBuilderJobApi i = http_get (''/resume-jobs/'' @ int_text i) []"

definition downloadBuilderJobApi :: "int \<Rightarrow> http_request" where
  "downloadBuilderJobApi i = http_get (''/resume-jobs/'' @ int_text i @ ''/download'') []"

definition refineBuilderDocumentApi :: "int \<Rightarrow> string \<Rightarrow> http_request" where
  "refineBuilderDocumentApi i prompt = http_send POST (workspace_url i @ ''/refine'')
     (Some (json_object [(''prompt'', Some (JStr prompt))]))"

definition previewBuilderRefinementApi :: "int \<Rightarrow> string \<Rightarrow> http_request" where
  "previewBuilderRefinementApi i prompt = http_send POST (workspace_url i @ ''/refine/preview'')
     (Some (json_object [(''prompt'', Some (JStr prompt))]))"

definition listBuilderRevisionsApi :: "int \<Rightarrow> http_request" where
  "listBuilderRevisionsApi i = http_get (workspace_url i @ ''/revisions'') []"

definition restoreBuilderRevisionApi :: "int \<Rightarrow> int \<Rightarrow> http_request" where
  "restoreBuilderRevisionApi i revisionId =
     http_send POST (workspace_url i @ ''/revisions/'' @ int_text revisionId @ ''/restore'') None"

definition approveBuilderWorkspaceApi :: "int \<Rightarrow> http_request" where
  "approveBuilderWorkspaceApi i = http_send POST (workspace_url i @ ''/approve'') None"

definition exportBuilderWorkspaceApi :: "int \<Rightarrow> http_request" where
  "exportBuilderWorkspaceApi i = http_get (workspace_url i @ ''/export'') []"

section \<open>What the server reads from the path\<close>

definition path_segments :: "http_request \<Rightarrow> string list" where
  "path_segments r = map decodeURIComponent (js_split CHR ''/'' (req_url r))"

lemma js_split_no_delimiter: "c \<notin> set s \<Longrightarrow> js_split c s = [s]"
  by (induction s) auto

lemma js_split_append:
  "c \<notin> set a \<Longrightarrow> js_split c (a @ c # b) = a # js_split c b"
  by (induction a) (auto split: list.split)

lemma slash_free [simp]:
  "CHR ''/'' \<notin> set (encodeURIComponent s)" "CHR ''/'' \<notin> set (int_text i)"
  using encodeURIComponent_no_delimiter int_text_no_delimiter by (auto simp: url_delimiter_def)

lemma split_encoded [simp]:
  "js_split CHR ''/'' (encodeURIComponent s) = [encodeURIComponent s]"
  "js_split CHR ''/'' (encodeURIComponent s @ CHR ''/'' # b)
     = encodeURIComponent s # js_split CHR ''/'' b"
  "js_split CHR ''/'' (int_text i @ CHR ''/'' # b) = int_text i # js_split CHR ''/'' b"
  by (simp_all add: js_split_no_delimiter js_split_append)

lemma decode_plain:
  "\<forall>c \<in> set s. uri_unreserved c \<Longrightarrow> decodeURIComponent s = s"
proof -
  assume "\<forall>c \<in> set s. uri_unreserved c"
  then have "encodeURIComponent s = s"
    by (induction s) (auto simp: encode_char_def Let_def)
  then show ?thesis by (metis decode_encode)
qed

lemma uri_unreserved_int_text: "\<forall>c \<in> set (int_text i). uri_unreserved c"
proof
  fix c assume "c \<in> set (int_text i)"
  then have "c = CHR ''-'' \<or> (48 \<le> (of_char c :: nat) \<and> (of_char c :: nat) \<le> 57)"
    by (auto simp: int_text_def dest: nat_text_digits split: if_splits)
  then show "uri_unreserved c" by (auto simp: uri_unreserved_def Let_def)
qed

lemma decode_int_text [simp]: "decodeURIComponent (int_text i) = int_text i"
  by (rule decode_plain [OF uri_unreserved_int_text])

text \<open>Whatever characters (of the modelled range) an email, a policy name, an action or a rate-limit
  key contains, slashes, question marks, percent signs and spaces included, the receiver that splits
  the path and decodes its segments reads back exactly the values the caller passed, in the
  endpoint's own positions. (Resolving the dot segments of a value that is exactly one or two dots is
  the browser's URL parser, which is not modelled.)\<close>

theorem path_segments_roundtrip:
  "path_segments (revokePolicyActionApi email name action)
     = [[], ''authorization'', ''users'', email, ''policies'', name, ''revoke-action'']
   \<and> path_segments (revokePermissionApi email action resourceType)
     = [[], ''authorization'', ''users'', email, ''permissions'', action]
   \<and> path_segments (rollbackPolicyApi name h reason)
     = [[], ''authorization'', ''policies'', name, ''history'', int_text h, ''rollback'']
   \<and> path_segments (updatePolicyApi name upd) = [[], ''authorization'', ''policies'', name]
   \<and> path_segments (purgeUserApi email) = [[], ''users'', email, ''purge'']
   \<and> path_segments (updateUserRoleApi email role) = [[], ''users'', email, ''role'']
   \<and> path_segments (resetRateLimitApi key) = [[], ''rate-limits'', key]"
  by (simp add: path_segments_def revokePolicyActionApi_def revokePermissionApi_def
      rollbackPolicyApi_def updatePolicyApi_def purgeUserApi_def updateUserRoleApi_def
      resetRateLimitApi_def http_send_def authz_user_url_def policy_url_def user_url_def
      decode_plain uri_unreserved_def Let_def)

end
