(* ===== verification/Mutations.thy ===== *)
theory Mutations
  imports SessionLifecycle ApiClient
begin

text \<open>
  The mutation hooks of \<open>policies/queries\<close>, \<open>users/queries\<close>, \<open>active_sessions\<close>, \<open>rate_limits\<close>,
  \<open>app/applications\<close> and \<open>app/career_knowledge\<close>. A mutation sends the request its API function
  builds; the server is a parameter that answers it. A failure is reported through
  \<open>extractApiErrorMessage\<close> with the hook's own fallback and leaves the tab as it was; a success runs
  the hook's \<open>onSuccess\<close>, which decides which cached queries are invalidated and, when the caller
  changed their own account, refreshes the session and arms the self-mutation flag.

  The bulk mutations send several requests one after the other, so there the server carries a state.
\<close>

type_synonym 'd outcome = "js_error + 'd"

definition mutate ::
  "i18n \<Rightarrow> string \<Rightarrow> 'd outcome \<Rightarrow> ('d \<Rightarrow> client \<Rightarrow> client) \<Rightarrow> client \<Rightarrow> (string + 'd) \<times> client" where
  "mutate i fallback r onSuccess c = (case r of
      Inl e \<Rightarrow> (Inl (extractApiErrorMessage i e fallback), c)
    | Inr d \<Rightarrow> (Inr d, onSuccess d c))"

abbreviation invalidate :: "qkey list \<Rightarrow> client \<Rightarrow> client" where
  "invalidate ks \<equiv> issue (map InvalidateQueries ks)"

text \<open>\<open>if (userEmail === useAuthStore.getState().email)\<close>.\<close>

definition is_self :: "string \<Rightarrow> client \<Rightarrow> bool" where
  "is_self email c \<longleftrightarrow> Some email = profile_email (auth c)"

definition refresh_self :: "int \<Rightarrow> string \<Rightarrow> client \<Rightarrow> client" where
  "refresh_self now email c =
     (if is_self email c
      then markSelfPermissionMutation now (invalidate [CURRENT_USER_QUERY_KEY] c) else c)"

section \<open>policyMutations.ts\<close>

definition policies_changed :: "client \<Rightarrow> client" where
  "policies_changed = invalidate [PERMISSION_CATALOG_USAGE_QUERY_KEY, POLICIES_QUERY_KEY]"

definition useCreatePolicyMutation where
  "useCreatePolicyMutation i srv payload c =
     mutate i ''Failed to create policy'' (srv (createPolicyApi payload)) (\<lambda>d. policies_changed) c"

definition useUpdatePolicyMutation where
  "useUpdatePolicyMutation i srv policyName payload c =
     mutate i ''Failed to update policy'' (srv (updatePolicyApi policyName payload)) (\<lambda>d. policies_changed) c"

definition useDeletePolicyMutation where
  "useDeletePolicyMutation i srv policyName reason c =
     mutate i ''Failed to delete policy'' (srv (deletePolicyApi policyName reason)) (\<lambda>d. policies_changed) c"

definition useRollbackPolicyMutation where
  "useRollbackPolicyMutation i srv policyName historyId reason c =
     mutate i ''Failed to roll back policy'' (srv (rollbackPolicyApi policyName historyId reason))
       (\<lambda>d. invalidate [PERMISSION_CATALOG_USAGE_QUERY_KEY, POLICIES_QUERY_KEY,
          [KStr ''policies'', KStr policyName, KStr ''history'']]) c"

definition user_policies_changed :: "int \<Rightarrow> string \<Rightarrow> client \<Rightarrow> client" where
  "user_policies_changed now email c =
     refresh_self now email (invalidate [PERMISSION_CATALOG_USAGE_QUERY_KEY,
       userPoliciesQueryKey email, MY_POLICIES_QUERY_KEY] c)"

definition useAssignPolicyMutation where
  "useAssignPolicyMutation i srv now userEmail policyName c =
     mutate i ''Failed to assign policy'' (srv (assignPolicyApi userEmail policyName))
       (\<lambda>d. user_policies_changed now userEmail) c"

definition useRevokePolicyMutation where
  "useRevokePolicyMutation i srv now userEmail policyName c =
     mutate i ''Failed to revoke policy'' (srv (revokePolicyApi userEmail policyName))
       (\<lambda>d. user_policies_changed now userEmail) c"

definition useRevokePolicyActionMutation where
  "useRevokePolicyActionMutation i srv now userEmail policyName action c =
     mutate i ''Failed to revoke action'' (srv (revokePolicyActionApi userEmail policyName action))
       (\<lambda>d c. refresh_self now userEmail (invalidate [PERMISSION_CATALOG_USAGE_QUERY_KEY,
          userPoliciesQueryKey userEmail, MY_POLICIES_QUERY_KEY,
          userPermissionsQueryKey userEmail, MY_PERMISSIONS_QUERY_KEY] c)) c"

section \<open>permissionMutations.ts\<close>

definition user_permissions_changed :: "int \<Rightarrow> string \<Rightarrow> client \<Rightarrow> client" where
  "user_permissions_changed now email c =
     refresh_self now email (invalidate [PERMISSION_CATALOG_USAGE_QUERY_KEY,
       userPermissionsQueryKey email, MY_PERMISSIONS_QUERY_KEY] c)"

definition useGrantPermissionMutation where
  "useGrantPermissionMutation i srv now userEmail payload c =
     mutate i ''Failed to grant permission'' (srv (grantPermissionApi userEmail payload))
       (\<lambda>d. user_permissions_changed now userEmail) c"

definition useRevokePermissionMutation where
  "useRevokePermissionMutation i srv now userEmail action resourceType c =
     mutate i ''Failed to revoke permission'' (srv (revokePermissionApi userEmail action resourceType))
       (\<lambda>d. user_permissions_changed now userEmail) c"

section \<open>userMutations.ts\<close>

definition useDeleteUserMutation where
  "useDeleteUserMutation i srv userEmail c =
     mutate i ''Failed to delete user'' (srv (deleteUserApi userEmail)) (\<lambda>d. invalidate [USERS_QUERY_KEY]) c"

definition usePurgeUserMutation where
  "usePurgeUserMutation i srv userEmail c =
     mutate i ''Failed to permanently remove user'' (srv (purgeUserApi userEmail))
       (\<lambda>d. invalidate [USERS_QUERY_KEY]) c"

definition useReactivateUserMutation where
  "useReactivateUserMutation i srv userEmail c =
     mutate i ''Failed to reactivate user'' (srv (reactivateUserApi userEmail))
       (\<lambda>d. invalidate [USERS_QUERY_KEY]) c"

definition useUpdateUserRoleMutation where
  "useUpdateUserRoleMutation i srv userEmail role c =
     mutate i ''Failed to update role'' (srv (updateUserRoleApi userEmail role))
       (\<lambda>d. invalidate [USERS_QUERY_KEY]) c"

text \<open>\<open>match(/filename="([^"]+)"/)\<close>: the first occurrence of the opening text that is followed by at
  least one character other than a quote and then by a quote.\<close>

definition quoted_name :: "string \<Rightarrow> string option" where
  "quoted_name s = (let w = takeWhile (\<lambda>c. c \<noteq> CHR 0x22) s in
     if w \<noteq> [] \<and> length w < length s then Some w else None)"

fun find_filename :: "string \<Rightarrow> string option" where
  "find_filename [] = None"
| "find_filename (c # cs) =
     (let opening_text = ''filename='' @ [CHR 0x22] in
      if js_starts_with (c # cs) opening_text \<and> quoted_name (drop 10 (c # cs)) \<noteq> None
      then quoted_name (drop 10 (c # cs)) else find_filename cs)"

definition filenameFromContentDisposition :: "string option \<Rightarrow> string" where
  "filenameFromContentDisposition h = (case Option.bind h find_filename of
      Some name \<Rightarrow> name | None \<Rightarrow> ''users_export.csv'')"

text \<open>The export: the name of the file that is downloaded, or the failure.\<close>

definition useExportUsersMutation where
  "useExportUsersMutation i srv params c =
     mutate i ''Failed to export users'' (map_sum id filenameFromContentDisposition (srv (exportUsersApi params)))
       (\<lambda>d c. c) c"

section \<open>useRevokeSessionMutation.ts\<close>

datatype item_status = ItemSuccess | AlreadyHeld | ItemError

record session_revoke_result =
  sr_sessionId :: int
  sr_status :: item_status
  sr_error :: "string option"

definition failed_end_session :: "i18n \<Rightarrow> string" where
  "failed_end_session i = i18n_t i ''dashboard:activeSessionsCard.failedEndSession'' (JObj [])"

definition sessions_changed :: "client \<Rightarrow> client" where
  "sessions_changed = invalidate [SESSIONS_QUERY_KEY, CURRENT_USER_QUERY_KEY]"

definition useRevokeSessionMutation where
  "useRevokeSessionMutation i srv sessionId c =
     mutate i (failed_end_session i) (srv (revokeSessionApi sessionId)) (\<lambda>d. sessions_changed) c"

definition session_result :: "i18n \<Rightarrow> int \<Rightarrow> 'd outcome \<Rightarrow> session_revoke_result" where
  "session_result i sid r = (case r of
      Inr d \<Rightarrow> \<lparr>sr_sessionId = sid, sr_status = ItemSuccess, sr_error = None\<rparr>
    | Inl e \<Rightarrow> \<lparr>sr_sessionId = sid, sr_status = ItemError,
                 sr_error = Some (extractApiErrorMessage i e (failed_end_session i))\<rparr>)"

definition useBulkRevokeSessionsMutation where
  "useBulkRevokeSessionsMutation i srv sessionIds c =
     (map (\<lambda>sid. session_result i sid (srv (revokeSessionApi sid))) sessionIds, sessions_changed c)"

section \<open>rateLimitsMutations.ts, applicationMutations.ts, careerKnowledgeMutations.ts\<close>

definition useResetRateLimitMutation where
  "useResetRateLimitMutation i srv key c =
     mutate i ''Failed to reset rate limit'' (srv (resetRateLimitApi key))
       (\<lambda>d. invalidate [RATE_LIMITS_QUERY_KEY]) c"

record application_detail =
  ad_id :: int
  ad_body :: json

definition useCreateApplicationMutation where
  "useCreateApplicationMutation i srv payload c =
     mutate i ''Failed to save application'' (srv (createApplicationApi payload))
       (\<lambda>d. issue [InvalidateQueries APPLICATIONS_QUERY_KEY,
          SetQueryData (applicationQueryKey (ad_id d)) (DJson (ad_body d))]) c"

definition useUpdateApplicationMutation where
  "useUpdateApplicationMutation i srv applicationId payload c =
     mutate i ''Failed to update application'' (srv (updateApplicationApi applicationId payload))
       (\<lambda>d. issue [InvalidateQueries APPLICATIONS_QUERY_KEY,
          SetQueryData (applicationQueryKey applicationId) (DJson (ad_body d))]) c"

definition useDeleteApplicationMutation where
  "useDeleteApplicationMutation i srv applicationId c =
     mutate i ''Failed to delete application'' (srv (deleteApplicationApi applicationId))
       (\<lambda>d. invalidate [APPLICATIONS_QUERY_KEY]) c"

definition useCreateCareerKnowledgeBaseMutation where
  "useCreateCareerKnowledgeBaseMutation i srv raw c =
     mutate i ''Failed to create knowledge base'' (srv (createCareerKnowledgeBaseApi raw))
       (\<lambda>d. issue [SetQueryData CAREER_KNOWLEDGE_QUERY_KEY (DJson d)]) c"

definition useUpdateCareerKnowledgeBaseMutation where
  "useUpdateCareerKnowledgeBaseMutation i srv raw content c =
     mutate i ''Failed to save knowledge base'' (srv (updateCareerKnowledgeBaseApi raw content))
       (\<lambda>d. issue [SetQueryData CAREER_KNOWLEDGE_QUERY_KEY (DJson d)]) c"

definition useDeleteCareerKnowledgeBaseMutation where
  "useDeleteCareerKnowledgeBaseMutation i srv c =
     mutate i ''Failed to delete knowledge base'' (srv deleteCareerKnowledgeBaseApi)
       (\<lambda>d. issue [SetQueryData CAREER_KNOWLEDGE_QUERY_KEY DNull]) c"

end
