(* ===== verification/PoliciesPage.thy ===== *)
theory PoliciesPage
  imports PolicyForm Mutations
begin

text \<open>
  The policies page: its view state (\<open>PoliciesPage.tsx\<close>, \<open>policiesUiStore.ts\<close>), the optimistic status
  switch (\<open>useOptimisticPolicyActivity.ts\<close>) and the two handlers that offer an undo
  (\<open>policiesPageHandlers.ts\<close>). A handler sends a request and continues when it settles, so each is a
  request and a function of the outcome (\<open>Inl\<close> the error's message); the \<open>onClick\<close> of a toast is the
  datatype \<open>policy_undo\<close>, with its own request and continuation. Toast titles are translation keys.
\<close>

section \<open>Optimistic status\<close>

type_synonym optimistic = "(string \<times> bool) list"

definition optimistic_policies :: "policy_read list option \<Rightarrow> optimistic \<Rightarrow> policy_read list option" where
  "optimistic_policies serverPolicies ov = map_option (map (\<lambda>p. case map_of ov (pol_name p) of
      None \<Rightarrow> p | Some b \<Rightarrow> p\<lparr>pol_is_active := b\<rparr>)) serverPolicies"

definition setOptimisticActive :: "policy_read \<Rightarrow> bool \<Rightarrow> optimistic \<Rightarrow> optimistic" where
  "setOptimisticActive p b ov = AList.update (pol_name p) b ov"

definition rollbackOptimisticActive :: "string \<Rightarrow> optimistic \<Rightarrow> optimistic" where
  "rollbackOptimisticActive policyName ov = AList.delete policyName ov"

section \<open>Toasts with an undo\<close>

datatype policy_undo =
    UndoToggle policy_read
  | UndoActions string "string list" bool "string option"

record page_toast =
  pt_title :: string
  pt_params :: "(string \<times> string) list"
  pt_type :: toast_type
  pt_duration :: "int option"
  pt_undo :: "policy_undo option"

definition plain_toast :: "toast_type \<Rightarrow> string \<Rightarrow> page_toast" where
  "plain_toast ty title =
     \<lparr>pt_title = title, pt_params = [], pt_type = ty, pt_duration = None, pt_undo = None\<rparr>"

record policies_page =
  optimistic_states :: optimistic
  page_form :: policy_form
  page_toasts :: "page_toast list"

definition show_toast :: "page_toast \<Rightarrow> policies_page \<Rightarrow> policies_page" where
  "show_toast t s = s\<lparr>page_toasts := page_toasts s @ [t]\<rparr>"

section \<open>The status switch\<close>

definition no_policy_update :: policy_update_payload where
  "no_policy_update = \<lparr>pu_name = None, pu_description = None, pu_actions = None, pu_resource_type = None,
     pu_conditions = None, pu_is_active = None, pu_change_reason = None\<rparr>"

definition status_request :: "policy_read \<Rightarrow> bool \<Rightarrow> http_request" where
  "status_request p b = updatePolicyApi (pol_name p) (no_policy_update\<lparr>pu_is_active := Some b\<rparr>)"

text \<open>The click: the page's own \<open>handleToggleActive\<close> sets the optimistic state and sends the request.\<close>

definition handleToggleActive :: "policy_read \<Rightarrow> policies_page \<Rightarrow> http_request \<times> policies_page" where
  "handleToggleActive p s =
     (let nextActive = \<not> pol_is_active p in
      (status_request p nextActive,
       s\<lparr>optimistic_states := setOptimisticActive p nextActive (optimistic_states s)\<rparr>))"

definition toggle_settled :: "policy_read \<Rightarrow> string + unit \<Rightarrow> policies_page \<Rightarrow> policies_page" where
  "toggle_settled p r s =
     (let nextActive = \<not> pol_is_active p in case r of
        Inr _ \<Rightarrow> show_toast \<lparr>pt_title = (if nextActive then ''policies:page.policyReactivatedToast''
                                         else ''policies:page.policyDeactivatedToast''),
                   pt_params = [], pt_type = ToastSuccess, pt_duration = Some 6000,
                   pt_undo = Some (UndoToggle p)\<rparr> s
      | Inl m \<Rightarrow> show_toast (plain_toast ToastError m)
                  (s\<lparr>optimistic_states := rollbackOptimisticActive (pol_name p) (optimistic_states s)\<rparr>))"

text \<open>The undo of the switch: a request for the old value, and a toast when it settles.\<close>

definition undo_toggle_settled :: "policy_read \<Rightarrow> string + unit \<Rightarrow> policies_page \<Rightarrow> policies_page" where
  "undo_toggle_settled p r s =
     (let nextActive = \<not> pol_is_active p in case r of
        Inr _ \<Rightarrow> show_toast (plain_toast ToastSuccess
                   (if nextActive then ''policies:page.policyDeactivatedToast''
                    else ''policies:page.policyReactivatedToast'')) s
      | Inl m \<Rightarrow> show_toast (plain_toast ToastError m) s)"

section \<open>The action grid\<close>

definition find_first :: "('a \<Rightarrow> bool) \<Rightarrow> 'a list \<Rightarrow> 'a option" where
  "find_first P xs = List.find P xs"

definition grantedAction :: "string list \<Rightarrow> string list \<Rightarrow> string option" where
  "grantedAction actions previousActions = find_first (\<lambda>a. a \<notin> set previousActions) actions"

definition changedAction :: "string list \<Rightarrow> string list \<Rightarrow> string option" where
  "changedAction actions previousActions =
     (case grantedAction actions previousActions of
        Some a \<Rightarrow> Some a
      | None \<Rightarrow> find_first (\<lambda>a. a \<notin> set actions) previousActions)"

definition isGrant :: "string list \<Rightarrow> string list \<Rightarrow> bool" where
  "isGrant actions previousActions = opt_truthy (grantedAction actions previousActions)"

definition changed_label :: "string list \<Rightarrow> string list \<Rightarrow> string option" where
  "changed_label actions previousActions = (case changedAction actions previousActions of
      Some a \<Rightarrow> if truthy a then Some (formatPolicyActionLabel a) else None
    | None \<Rightarrow> None)"

definition action_toast :: "bool \<Rightarrow> string option \<Rightarrow> string \<Rightarrow> page_toast" where
  "action_toast granted label policyName =
     \<lparr>pt_title = (if granted then ''policies:page.policyActionGrantedToast''
                  else ''policies:page.policyActionRevokedToast''),
      pt_params = [(''action'', case label of Some l \<Rightarrow> l | None \<Rightarrow> ''policies:page.policyActions''),
                   (''policyName'', policyName)],
      pt_type = ToastSuccess, pt_duration = None, pt_undo = None\<rparr>"

definition actions_request :: "string \<Rightarrow> string list \<Rightarrow> http_request" where
  "actions_request policyName actions =
     updatePolicyApi policyName (no_policy_update\<lparr>pu_actions := Some actions\<rparr>)"

text \<open>The grid changes the form at once and calls the page with the closures; without a policy under
  edit the page does nothing.\<close>

definition change_actions ::
  "string option \<Rightarrow> string list \<Rightarrow> policies_page \<Rightarrow> http_request option \<times> policies_page" where
  "change_actions editing nextActions s =
     (map_option (\<lambda>n. actions_request n nextActions) editing,
      s\<lparr>page_form := fst (handleActionsChange nextActions (page_form s))\<rparr>)"

text \<open>The settlement of that request, with \<open>f0\<close> the form the click found.\<close>

definition actions_settled ::
  "string \<Rightarrow> string list \<Rightarrow> policy_form \<Rightarrow> string + unit \<Rightarrow> policies_page \<Rightarrow> policies_page" where
  "actions_settled policyName nextActions f0 r s =
     (let previousActions = pf_actions f0;
          (g, rollback, apply_again) = handleActionsChange nextActions f0;
          granted = isGrant nextActions previousActions;
          label = changed_label nextActions previousActions
      in case r of
        Inr _ \<Rightarrow> show_toast ((action_toast granted label policyName)
                   \<lparr>pt_duration := Some 6000,
                    pt_undo := Some (UndoActions policyName previousActions granted label)\<rparr>) s
      | Inl m \<Rightarrow> show_toast (plain_toast ToastError m) (s\<lparr>page_form := rollback (page_form s)\<rparr>))"

definition undo_actions ::
  "string \<Rightarrow> string list \<Rightarrow> policy_form \<Rightarrow> policies_page \<Rightarrow> http_request \<times> policies_page" where
  "undo_actions policyName nextActions f0 s =
     (let (g, rollback, apply_again) = handleActionsChange nextActions f0 in
      (actions_request policyName (pf_actions f0), s\<lparr>page_form := rollback (page_form s)\<rparr>))"

definition undo_actions_settled ::
  "string \<Rightarrow> string list \<Rightarrow> policy_form \<Rightarrow> string + unit \<Rightarrow> policies_page \<Rightarrow> policies_page" where
  "undo_actions_settled policyName nextActions f0 r s =
     (let previousActions = pf_actions f0;
          (g, rollback, apply_again) = handleActionsChange nextActions f0
      in case r of
        Inr _ \<Rightarrow> show_toast (action_toast (\<not> isGrant nextActions previousActions)
                   (changed_label nextActions previousActions) policyName) s
      | Inl m \<Rightarrow> show_toast (plain_toast ToastError m) (s\<lparr>page_form := apply_again (page_form s)\<rparr>))"

lemmas policies_page_defs =
  handleToggleActive_def toggle_settled_def undo_toggle_settled_def show_toast_def plain_toast_def
  change_actions_def actions_settled_def undo_actions_def undo_actions_settled_def Let_def

section \<open>Filters and cards\<close>

definition ALL_VALUE :: string where "ALL_VALUE = []"

definition PAGE_SIZE :: int where "PAGE_SIZE = 25"

definition toBoolFilter :: "string \<Rightarrow> bool option" where
  "toBoolFilter v = (if v = ALL_VALUE then None else Some (v = ''true''))"

record policies_ui =
  pu_search :: string
  pu_resourceType :: string
  pu_status :: string
  pu_containsAction :: string
  pu_destructiveOnly :: bool

definition policies_ui_initial :: policies_ui where
  "policies_ui_initial = \<lparr>pu_search = [], pu_resourceType = ALL_VALUE, pu_status = ALL_VALUE,
     pu_containsAction = ALL_VALUE, pu_destructiveOnly = False\<rparr>"

definition hasSearchOrFilters :: "policies_ui \<Rightarrow> bool" where
  "hasSearchOrFilters u \<longleftrightarrow> truthy (pu_search u) \<or> pu_resourceType u \<noteq> ALL_VALUE
     \<or> pu_status u \<noteq> ALL_VALUE \<or> pu_containsAction u \<noteq> ALL_VALUE \<or> pu_destructiveOnly u"

definition clearAllFilters :: "policies_ui \<Rightarrow> policies_ui" where
  "clearAllFilters u = u\<lparr>pu_search := [], pu_resourceType := ALL_VALUE, pu_status := ALL_VALUE,
     pu_containsAction := ALL_VALUE, pu_destructiveOnly := False\<rparr>"

definition activeTile :: "policies_ui \<Rightarrow> string option" where
  "activeTile u =
     (if pu_destructiveOnly u then Some ''destructive''
      else if pu_status u = ''true'' \<and> pu_resourceType u = ALL_VALUE \<and> \<not> truthy (pu_search u) then Some ''active''
      else if pu_status u = ''false'' \<and> pu_resourceType u = ALL_VALUE \<and> \<not> truthy (pu_search u) then Some ''inactive''
      else if \<not> hasSearchOrFilters u then Some ''total'' else None)"

definition policies_list_params :: "int \<Rightarrow> string \<Rightarrow> policies_ui \<Rightarrow> list_policies_params" where
  "policies_list_params page debouncedSearch u =
     \<lparr>lp_limit = Some PAGE_SIZE, lp_offset = Some ((page - 1) * PAGE_SIZE),
      lp_search = Some debouncedSearch, lp_resourceType = or_undefined (pu_resourceType u),
      lp_isActive = toBoolFilter (pu_status u), lp_containsAction = or_undefined (pu_containsAction u),
      lp_destructiveOnly = Some (pu_destructiveOnly u), lp_sortBy = Some ''name'', lp_sortDir = Some ''asc''\<rparr>"

definition totalPages :: "int option \<Rightarrow> int" where
  "totalPages rows = (case rows of None \<Rightarrow> 1 | Some n \<Rightarrow> max 1 (- ((- n) div PAGE_SIZE)))"

definition toggleOpen :: "string \<Rightarrow> string set \<Rightarrow> string set" where
  "toggleOpen n shown_names = (if n \<in> shown_names then shown_names - {n} else insert n shown_names)"

definition expandAll :: "policy_read list option \<Rightarrow> string set" where
  "expandAll ps = (case ps of None \<Rightarrow> {} | Some l \<Rightarrow> set (map pol_name l))"

definition allOpen :: "policy_read list option \<Rightarrow> string set \<Rightarrow> bool" where
  "allOpen ps shown_names = (case ps of None \<Rightarrow> False
     | Some l \<Rightarrow> length l > 0 \<and> (\<forall>p \<in> set l. pol_name p \<in> shown_names))"

section \<open>Properties\<close>

definition shown_cards :: "policy_read list \<Rightarrow> policies_page \<Rightarrow> policy_read list" where
  "shown_cards ps s = the (optimistic_policies (Some ps) (optimistic_states s))"

lemma shown_cards_map:
  "shown_cards ps s = map (\<lambda>p. case map_of (optimistic_states s) (pol_name p) of
      None \<Rightarrow> p | Some b \<Rightarrow> p\<lparr>pol_is_active := b\<rparr>) ps"
  by (simp add: shown_cards_def optimistic_policies_def)

text \<open>A click on the status switch shows the new status at once, whatever the server's list still says,
  and asks the server for exactly that; if the request fails, the cards of that policy show the
  server's own status again, with an error toast and no undo, and the cards of all other policies are
  as they were throughout.\<close>

theorem status_switch_rolls_back:
  "let (r, s1) = handleToggleActive p s; s2 = toggle_settled p (Inl m) s1 in
     r = status_request p (\<not> pol_is_active p)
   \<and> (\<forall>q \<in> set (shown_cards ps s1). pol_name q = pol_name p \<longrightarrow> pol_is_active q = (\<not> pol_is_active p))
   \<and> (\<forall>q \<in> set (shown_cards ps s2). pol_name q = pol_name p \<longrightarrow> q \<in> set ps)
   \<and> filter (\<lambda>q. pol_name q \<noteq> pol_name p) (shown_cards ps s2)
       = filter (\<lambda>q. pol_name q \<noteq> pol_name p) (shown_cards ps s)
   \<and> page_toasts s2 = page_toasts s @ [plain_toast ToastError m]"
proof -
  have update: "map_of (AList.update k b ov) j = (if j = k then Some b else map_of ov j)"
    for k j :: string and b and ov :: optimistic by (simp add: update_conv')
  have delete: "map_of (AList.delete k ov) j = (if j = k then None else map_of ov j)"
    for k j :: string and ov :: optimistic by (simp add: delete_conv')
  have rest: "filter (\<lambda>q. pol_name q \<noteq> k) (map (\<lambda>p. case ov (pol_name p) of None \<Rightarrow> p
        | Some b \<Rightarrow> p\<lparr>pol_is_active := b\<rparr>) ps)
      = filter (\<lambda>q. pol_name q \<noteq> k) (map (\<lambda>p. case ov' (pol_name p) of None \<Rightarrow> p
        | Some b \<Rightarrow> p\<lparr>pol_is_active := b\<rparr>) ps)"
    if "\<And>j. j \<noteq> k \<Longrightarrow> ov j = ov' j" for ov ov' and k :: string
    using that by (induction ps) (auto split: option.split)
  show ?thesis
    unfolding shown_cards_map
    by (auto simp: policies_page_defs setOptimisticActive_def rollbackOptimisticActive_def update delete
        split: option.splits intro!: rest)
qed

theorem status_switch_rolls_back_witness:
  "shown_cards [reader_policy] (toggle_settled reader_policy (Inl ''down'')
      (snd (handleToggleActive reader_policy \<lparr>optimistic_states = [], page_form = blank_form, page_toasts = []\<rparr>)))
   = [reader_policy]"
proof -
  let ?s = "\<lparr>optimistic_states = [], page_form = blank_form, page_toasts = []\<rparr>"
  let ?s2 = "toggle_settled reader_policy (Inl ''down'') (snd (handleToggleActive reader_policy ?s))"
  have "\<forall>q \<in> set (shown_cards [reader_policy] ?s2). pol_name q = pol_name reader_policy \<longrightarrow> q \<in> set [reader_policy]"
    using status_switch_rolls_back [of reader_policy ?s "''down''" "[reader_policy]"]
    by (simp add: Let_def case_prod_beta)
  moreover have "\<exists>q. shown_cards [reader_policy] ?s2 = [q] \<and> pol_name q = pol_name reader_policy"
    by (auto simp: shown_cards_map split: option.split)
  ultimately show ?thesis by auto
qed

text \<open>The undo of the status switch sends the old status but never takes the optimistic value back:
  after the switch and its undo have both succeeded, the page goes on showing the undone status for
  that policy whatever the server returns, until the page is left.\<close>

theorem undo_leaves_switch_wrong:
  "let s1 = snd (handleToggleActive p s); s2 = toggle_settled p (Inr ()) s1;
       s3 = undo_toggle_settled p (Inr ()) s2
   in \<forall>q \<in> set (shown_cards ps s3). pol_name q = pol_name p \<longrightarrow> pol_is_active q \<noteq> pol_is_active p"
  unfolding shown_cards_map
  by (auto simp: policies_page_defs setOptimisticActive_def update_conv' split: option.splits if_splits)

theorem undo_leaves_switch_wrong_witness:
  "\<not> pol_is_active (hd (shown_cards [reader_policy] (undo_toggle_settled reader_policy (Inr ())
      (toggle_settled reader_policy (Inr ()) (snd (handleToggleActive reader_policy
        \<lparr>optimistic_states = [], page_form = blank_form, page_toasts = []\<rparr>))))))"
proof -
  let ?s = "\<lparr>optimistic_states = [], page_form = blank_form, page_toasts = []\<rparr>"
  let ?s3 = "undo_toggle_settled reader_policy (Inr ())
      (toggle_settled reader_policy (Inr ()) (snd (handleToggleActive reader_policy ?s)))"
  obtain q where "shown_cards [reader_policy] ?s3 = [q]" "pol_name q = pol_name reader_policy"
    by (auto simp: shown_cards_map split: option.split)
  moreover have "pol_is_active reader_policy" by (simp add: reader_policy_def)
  ultimately show ?thesis
    using undo_leaves_switch_wrong [of reader_policy ?s "[reader_policy]"] by (simp add: Let_def)
qed

text \<open>A change in the action grid is all or nothing: if saving it fails, the form is exactly what it
  was before the click; if it succeeds, the toast offers an undo whose request carries exactly the
  previous actions and which puts the form back as it was, and if that undo fails the changed actions
  are back in the form. The toast of the undo says the opposite of the first one.\<close>

theorem action_change_undo:
  assumes "page_form s = f0"
  shows "let (r, s1) = change_actions (Some n) nextActions s;
             s2 = actions_settled n nextActions f0 (Inr ()) s1;
             (ur, s3) = undo_actions n nextActions f0 s2
    in r = Some (actions_request n nextActions) \<and> pf_actions (page_form s1) = nextActions
     \<and> page_form (actions_settled n nextActions f0 (Inl m) s1) = f0
     \<and> ur = actions_request n (pf_actions f0) \<and> page_form s3 = f0
     \<and> page_form (undo_actions_settled n nextActions f0 (Inr ()) s3) = f0
     \<and> page_form (undo_actions_settled n nextActions f0 (Inl m) s3) = page_form s1
     \<and> (pt_title (last (page_toasts s2)) = ''policies:page.policyActionGrantedToast'' \<longleftrightarrow>
        pt_title (last (page_toasts (undo_actions_settled n nextActions f0 (Inr ()) s3)))
          = ''policies:page.policyActionRevokedToast'')"
  using assms
  by (simp add: policies_page_defs handleActionsChange_def set_actions_and_snapshot_def action_toast_def)

theorem action_change_undo_witness:
  "page_form (snd (undo_actions ''reader'' [''policies:read''] blank_form
      (actions_settled ''reader'' [''policies:read''] blank_form (Inr ())
        (snd (change_actions (Some ''reader'') [''policies:read'']
          \<lparr>optimistic_states = [], page_form = blank_form, page_toasts = []\<rparr>))))) = blank_form"
  using action_change_undo [of "\<lparr>optimistic_states = [], page_form = blank_form, page_toasts = []\<rparr>"
      blank_form "''reader''" "[''policies:read'']" "[]"]
  by (simp add: Let_def case_prod_beta)

end
