(* ===== verification/BulkMutations.thy ===== *)
theory BulkMutations
  imports Mutations
begin

text \<open>
  \<open>policies/queries/bulkAssignmentMutations.ts\<close>: a selection of any size is sent in requests of at
  most 200 users, one after the other, and the answers are merged. The server is a function of the
  request and of its own state, so that a failure in the middle leaves the state the earlier requests
  have produced.
\<close>

record bulk_item_result =
  bi_user_email :: string
  bi_identifier :: string
  bi_status :: item_status
  bi_error :: "string option"

record bulk_response =
  results :: "bulk_item_result list"
  success_count :: int
  error_count :: int

type_synonym 'w bulk_server = "http_request \<Rightarrow> 'w \<Rightarrow> bulk_response outcome \<times> 'w"

definition distinctEmails :: "bulk_response \<Rightarrow> string list" where
  "distinctEmails d = js_distinct (map bi_user_email (results d))"

text \<open>\<open>emails.includes(useAuthStore.getState().email ?? "")\<close>.\<close>

definition invalidateSelfIfIncluded :: "int \<Rightarrow> string list \<Rightarrow> bool \<Rightarrow> client \<Rightarrow> client" where
  "invalidateSelfIfIncluded now emails marksPermissionChange c =
     (if (case profile_email (auth c) of None \<Rightarrow> [] | Some e \<Rightarrow> e) \<notin> set emails then c
      else (let c1 = invalidate [CURRENT_USER_QUERY_KEY] c in
            if marksPermissionChange then markSelfPermissionMutation now c1 else c1))"

definition BULK_REQUEST_CHUNK_SIZE :: nat where
  "BULK_REQUEST_CHUNK_SIZE = 200"

function chunk :: "'a list \<Rightarrow> nat \<Rightarrow> 'a list list" where
  "chunk items n = (if items = [] \<or> n = 0 then [] else take n items # chunk (drop n items) n)"
  by pat_completeness auto
termination by (relation "measure (\<lambda>(items, n). length items)") auto

declare chunk.simps [simp del]

definition no_results :: bulk_response where
  "no_results = \<lparr>results = [], success_count = 0, error_count = 0\<rparr>"

definition merge_response :: "bulk_response \<Rightarrow> bulk_response \<Rightarrow> bulk_response" where
  "merge_response m d = \<lparr>results = results m @ results d,
     success_count = success_count m + success_count d, error_count = error_count m + error_count d\<rparr>"

text \<open>The loop over requests; the first failure ends it.\<close>

fun run_requests ::
  "'w bulk_server \<Rightarrow> http_request list \<Rightarrow> bulk_response \<Rightarrow> 'w \<Rightarrow> bulk_response outcome \<times> 'w" where
  "run_requests srv [] m w = (Inr m, w)"
| "run_requests srv (r # rs) m w = (case srv r w of
      (Inr d, w1) \<Rightarrow> run_requests srv rs (merge_response m d) w1
    | (Inl e, w1) \<Rightarrow> (Inl e, w1))"

definition runChunkedBulk ::
  "'w bulk_server \<Rightarrow> string list \<Rightarrow> (string list \<Rightarrow> http_request) \<Rightarrow> 'w \<Rightarrow> bulk_response outcome \<times> 'w"
where
  "runChunkedBulk srv userEmails call w =
     run_requests srv (map call (chunk userEmails BULK_REQUEST_CHUNK_SIZE)) no_results w"

text \<open>The loop over the selected policies or actions, each a chunked run of its own.\<close>

fun run_selected ::
  "'w bulk_server \<Rightarrow> string list \<Rightarrow> (string list \<Rightarrow> http_request) list \<Rightarrow> bulk_response \<Rightarrow> 'w
     \<Rightarrow> bulk_response outcome \<times> 'w" where
  "run_selected srv emails [] m w = (Inr m, w)"
| "run_selected srv emails (call # calls) m w = (case runChunkedBulk srv emails call w of
      (Inr d, w1) \<Rightarrow> run_selected srv emails calls (merge_response m d) w1
    | (Inl e, w1) \<Rightarrow> (Inl e, w1))"

definition bulk_mutate ::
  "i18n \<Rightarrow> string \<Rightarrow> bulk_response outcome \<times> 'w \<Rightarrow> (bulk_response \<Rightarrow> client \<Rightarrow> client) \<Rightarrow> client
     \<Rightarrow> (string + bulk_response) \<times> client \<times> 'w" where
  "bulk_mutate i fallback rw onSuccess c =
     (let (res, c') = mutate i fallback (fst rw) onSuccess c in (res, c', snd rw))"

definition bulk_policies_changed :: "int \<Rightarrow> bulk_response \<Rightarrow> client \<Rightarrow> client" where
  "bulk_policies_changed now d c =
     (let emails = distinctEmails d in
      invalidateSelfIfIncluded now emails True
        (invalidate [MY_POLICIES_QUERY_KEY]
          (invalidate (map userPoliciesQueryKey emails)
            (invalidate [PERMISSION_CATALOG_USAGE_QUERY_KEY] c))))"

definition bulk_permissions_changed :: "int \<Rightarrow> bulk_response \<Rightarrow> client \<Rightarrow> client" where
  "bulk_permissions_changed now d c =
     (let emails = distinctEmails d in
      invalidateSelfIfIncluded now emails True
        (invalidate [MY_PERMISSIONS_QUERY_KEY]
          (invalidate (map userPermissionsQueryKey emails)
            (invalidate [PERMISSION_CATALOG_USAGE_QUERY_KEY] c))))"

text \<open>\<open>policyNames ?? (policyName ? [policyName] : [])\<close>.\<close>

definition selected_policies :: "string list option \<Rightarrow> string option \<Rightarrow> string list" where
  "selected_policies policyNames policyName = (case policyNames of
      Some ns \<Rightarrow> ns
    | None \<Rightarrow> (case policyName of Some n \<Rightarrow> if truthy n then [n] else [] | None \<Rightarrow> []))"

definition selected_actions ::
  "(string \<times> string) list option \<Rightarrow> string option \<Rightarrow> string option \<Rightarrow> (string \<times> string) list" where
  "selected_actions actions action resourceType = (case actions of
      Some as \<Rightarrow> as
    | None \<Rightarrow> (case (action, resourceType) of
         (Some a, Some r) \<Rightarrow> if truthy a \<and> truthy r then [(a, r)] else []
       | _ \<Rightarrow> []))"

definition useBulkAssignPoliciesMutation where
  "useBulkAssignPoliciesMutation i srv now userEmails policyName policyNames c w =
     bulk_mutate i ''Failed to bulk-assign policy''
       (run_selected srv userEmails
          (map (\<lambda>n emails. bulkAssignPoliciesApi emails n) (selected_policies policyNames policyName))
          no_results w)
       (bulk_policies_changed now) c"

definition useBulkRemovePoliciesMutation where
  "useBulkRemovePoliciesMutation i srv now userEmails policyName policyNames c w =
     bulk_mutate i ''Failed to bulk-remove policy''
       (run_selected srv userEmails
          (map (\<lambda>n emails. bulkRemovePoliciesApi emails n) (selected_policies policyNames policyName))
          no_results w)
       (bulk_policies_changed now) c"

definition useBulkAssignPermissionsMutation where
  "useBulkAssignPermissionsMutation i srv now userEmails action actions resourceType conditions c w =
     bulk_mutate i ''Failed to bulk-grant permission''
       (run_selected srv userEmails
          (map (\<lambda>(a, r) emails. bulkAssignPermissionsApi emails a r conditions)
             (selected_actions actions action resourceType)) no_results w)
       (bulk_permissions_changed now) c"

definition useBulkRemovePermissionsMutation where
  "useBulkRemovePermissionsMutation i srv now userEmails action actions resourceType c w =
     bulk_mutate i ''Failed to bulk-revoke permission''
       (run_selected srv userEmails
          (map (\<lambda>(a, r) emails. bulkRemovePermissionsApi emails a r)
             (selected_actions actions action resourceType)) no_results w)
       (bulk_permissions_changed now) c"

definition bulk_role_changed :: "int \<Rightarrow> bulk_response \<Rightarrow> client \<Rightarrow> client" where
  "bulk_role_changed now d c =
     invalidateSelfIfIncluded now (distinctEmails d) False (invalidate [USERS_QUERY_KEY] c)"

definition useBulkUpdateRoleMutation where
  "useBulkUpdateRoleMutation i srv now userEmails role c w =
     bulk_mutate i ''Failed to bulk-update role''
       (runChunkedBulk srv userEmails (\<lambda>emails. bulkUpdateRoleApi emails role) w)
       (bulk_role_changed now) c"

section \<open>Chunks\<close>

lemma concat_chunk: "0 < n \<Longrightarrow> concat (chunk items n) = items"
  by (induction items n rule: chunk.induct) (subst chunk.simps, auto)

lemma chunk_length: "c \<in> set (chunk items n) \<Longrightarrow> c \<noteq> [] \<and> length c \<le> n"
proof (induction items n rule: chunk.induct)
  case (1 items n)
  then show ?case by (subst (asm) (2) chunk.simps) (auto split: if_splits)
qed

lemma chunk_count: "0 < n \<Longrightarrow> length (chunk items n) = (length items + n - 1) div n"
proof (induction items n rule: chunk.induct)
  case (1 items n)
  show ?case
  proof (cases "items = []")
    case False
    then have "length (chunk items n) = Suc ((length (drop n items) + n - 1) div n)"
      using 1 by (subst chunk.simps) auto
    also have "\<dots> = (length items + n - 1) div n"
    proof (cases "n \<le> length items")
      case True
      with 1(2) have "length items + n - 1 = (length items - n + n - 1) + n" by simp
      with 1(2) show ?thesis by (simp only: length_drop div_add_self2)
    next
      case short: False
      from False have "0 < length items" by simp
      then have sum: "length items + n - 1 = (length items - 1) + n" by linarith
      have "(length items - 1) div n = 0" "(n - 1) div n = 0" using short 1(2) by simp_all
      with sum short show ?thesis using 1(2) by (simp only: div_add_self2 sum) simp
    qed
    finally show ?thesis .
  qed (use 1(2) in \<open>simp add: chunk.simps\<close>)
qed

lemma run_requests_success:
  "run_requests (\<lambda>r w. (Inr (ans r), w @ [r])) rs m w = (Inr (foldl merge_response m (map ans rs)), w @ rs)"
  by (induction rs arbitrary: m w) auto

lemma merged_results:
  "results (foldl merge_response m ds) = results m @ concat (map results ds)"
  "success_count (foldl merge_response m ds) = success_count m + sum_list (map success_count ds)"
  "error_count (foldl merge_response m ds) = error_count m + sum_list (map error_count ds)"
  by (induction ds arbitrary: m) (simp_all add: merge_response_def)

lemma bulk_mutate_failure:
  "fst rw = Inl e \<Longrightarrow> bulk_mutate i f rw g c = (Inl (extractApiErrorMessage i e f), c, snd rw)"
  by (simp add: bulk_mutate_def mutate_def)

lemma bulk_mutate_success:
  "fst rw = Inr d \<Longrightarrow> bulk_mutate i f rw g c = (Inr d, g d c, snd rw)"
  by (simp add: bulk_mutate_def mutate_def)

section \<open>Properties\<close>

text \<open>C18. A bulk call reaches every selected user exactly once: the requests carry, in order and without
  overlap, chunks of the selection, none of them empty and none above the backend's limit of 200, as
  few as possible; and when all of them succeed the caller gets the answers of all chunks in order
  with the counts added up, as if there had been one request.\<close>

theorem bulk_covers_selection:
  "let cs = chunk userEmails BULK_REQUEST_CHUNK_SIZE;
       (out, sent) = runChunkedBulk (\<lambda>r w. (Inr (ans r), w @ [r])) userEmails call []
   in concat cs = userEmails
    \<and> (\<forall>es \<in> set cs. 0 < length es \<and> length es \<le> 200)
    \<and> length cs = (length userEmails + 199) div 200
    \<and> sent = map call cs
    \<and> (\<exists>m. out = Inr m \<and> results m = concat (map (\<lambda>es. results (ans (call es))) cs)
         \<and> success_count m = (\<Sum>es\<leftarrow>cs. success_count (ans (call es)))
         \<and> error_count m = (\<Sum>es\<leftarrow>cs. error_count (ans (call es))))"
  using concat_chunk [of 200 userEmails] chunk_length [of _ userEmails 200] chunk_count [of 200 userEmails]
  by (auto simp: Let_def BULK_REQUEST_CHUNK_SIZE_def runChunkedBulk_def run_requests_success
      merged_results no_results_def comp_def)

definition accept_all :: "http_request \<Rightarrow> bulk_response" where
  "accept_all r = no_results\<lparr>success_count := 1\<rparr>"

theorem bulk_covers_selection_witness:
  "length (chunk (replicate 450 ''a@x'') BULK_REQUEST_CHUNK_SIZE) = 3"
  using bulk_covers_selection [of "replicate 450 ''a@x''" accept_all "\<lambda>es. bulkUpdateRoleApi es ''USER''"]
  by (auto simp: Let_def split: prod.splits)

text \<open>C40. When a later chunk fails, what the earlier chunks have already changed on the server is lost to
  the caller: the mutation reports only the failure, no cached query is invalidated and the caller's
  own profile is not refreshed, although the server has moved on.\<close>

theorem bulk_failure_drops_progress:
  assumes "200 < length userEmails"
    and "srv (bulkAssignPoliciesApi (take 200 userEmails) n) w = (Inr d, w1)"
    and "srv (bulkAssignPoliciesApi (take 200 (drop 200 userEmails)) n) w1 = (Inl e, w2)"
  shows "useBulkAssignPoliciesMutation i srv now userEmails None (Some [n]) c w
     = (Inl (extractApiErrorMessage i e ''Failed to bulk-assign policy''), c, w2)"
proof -
  have "chunk userEmails 200 = take 200 userEmails # take 200 (drop 200 userEmails)
      # chunk (drop 200 (drop 200 userEmails)) 200"
    using assms(1) by (subst chunk.simps, subst chunk.simps) auto
  with assms(2,3) have "runChunkedBulk srv userEmails (\<lambda>emails. bulkAssignPoliciesApi emails n) w = (Inl e, w2)"
    by (simp add: runChunkedBulk_def BULK_REQUEST_CHUNK_SIZE_def)
  then show ?thesis
    by (simp add: useBulkAssignPoliciesMutation_def selected_policies_def bulk_mutate_failure)
qed

definition second_fails :: "nat bulk_server" where
  "second_fails r w = (if w = 0 then (Inr (accept_all r), 1) else (Inl (OtherError ''down''), w + 1))"

theorem bulk_failure_drops_progress_witness:
  "useBulkAssignPoliciesMutation untranslated second_fails 0 (replicate 201 ''a@x'') None (Some [''reader''])
     client_initial 0 = (Inl ''Failed to bulk-assign policy'', client_initial, 2)"
  using bulk_failure_drops_progress [of "replicate 201 ''a@x''" second_fails "''reader''" 0 _ 1
      "OtherError ''down''" 2 untranslated 0 client_initial]
  by (simp add: second_fails_def extractApiErrorMessage_def numeral_2_eq_2)

text \<open>The self-mutation flag is armed by a bulk answer that merely mentions the caller, even when every
  one of the caller's items failed, so nothing changed and no push will follow from it. A genuine
  revocation pushed within the next five seconds then leaves the stale permission list in place.\<close>

theorem bulk_error_arms_guard:
  assumes "fst (run_selected srv userEmails (map (\<lambda>n emails. bulkAssignPoliciesApi emails n) ns) no_results w) = Inr d"
    and "profile_email (auth c) = Some e" and "e \<in> bi_user_email ` set (results d)"
    and "\<forall>r \<in> set (results d). bi_status r = ItemError"
    and "now \<le> t" and "t < now + 5000"
    and "event_type msg = Some (JStr ''permissions_changed'')"
  shows "let c' = fst (snd (useBulkAssignPoliciesMutation i srv now userEmails None (Some ns) c w))
     in lastSelfMutationAt c' = Some now \<and> permissions (auth (onSessionEvent t msg c')) = permissions (auth c)"
  using assms
  by (auto simp: useBulkAssignPoliciesMutation_def selected_policies_def bulk_mutate_success
      bulk_policies_changed_def invalidateSelfIfIncluded_def distinctEmails_def Let_def session_defs
      RECENT_SELF_MUTATION_WINDOW_MS_def)

definition refused :: bulk_response where
  "refused = \<lparr>results = [\<lparr>bi_user_email = ''ada@x'', bi_identifier = ''reader'', bi_status = ItemError,
     bi_error = Some ''not assignable''\<rparr>], success_count = 0, error_count = 1\<rparr>"

theorem bulk_error_arms_guard_witness:
  "let c = with_auth (setProfile sample_profile) client_initial;
       c' = fst (snd (useBulkAssignPoliciesMutation untranslated (\<lambda>r w. (Inr (refused\<lparr>results :=
              map (\<lambda>x. x\<lparr>bi_user_email := cu_email sample_profile\<rparr>) (results refused)\<rparr>), w)) 0
              [cu_email sample_profile] None (Some [''reader'']) c ()))
   in lastSelfMutationAt c' = Some 0"
proof -
  let ?srv = "\<lambda>r w. (Inr (refused\<lparr>results :=
              map (\<lambda>x. x\<lparr>bi_user_email := cu_email sample_profile\<rparr>) (results refused)\<rparr>) :: bulk_response outcome, w :: unit)"
  let ?c = "with_auth (setProfile sample_profile) client_initial"
  have ch: "chunk [x] 200 = [[x]]" for x :: string
    by (subst chunk.simps) (simp add: chunk.simps)
  show ?thesis
    using bulk_error_arms_guard [of ?srv "[cu_email sample_profile]" "[''reader'']" "()" _ ?c
        "cu_email sample_profile" 0 0 "Document (JObj [(''type'', JStr ''permissions_changed'')])" untranslated]
    by (simp add: Let_def runChunkedBulk_def BULK_REQUEST_CHUNK_SIZE_def ch refused_def merge_response_def
        no_results_def setProfile_def)
qed

end
