(* ===== verification/UiHooks.thy ===== *)
theory UiHooks
  imports Prelude
begin

text \<open>
  The state hooks the pages share: \<open>useSortState.ts\<close>, \<open>usePageResetOn.ts\<close>, \<open>useCooldown.ts\<close>,
  \<open>useDebouncedValue.ts\<close>, the table selection (\<open>DataTable/DataTableSelection.ts\<close>), the page buttons
  (\<open>navigation/Pagination.tsx\<close>) and the session-lived page stores (\<open>store/createSessionUiStore.ts\<close>).
  State adjusted while rendering is a function of the rendered inputs and the cells it reads; an
  interval or a timeout is an id (or a deadline) with an event of its own.
\<close>

section \<open>Sort\<close>

datatype sort_direction = Asc | Desc

record sort_state =
  sort_key :: string
  sort_dir :: sort_direction

definition nextSortState :: "sort_state \<Rightarrow> string \<Rightarrow> sort_state" where
  "nextSortState prev key =
     (if sort_key prev = key
      then \<lparr>sort_key = key, sort_dir = (if sort_dir prev = Asc then Desc else Asc)\<rparr>
      else \<lparr>sort_key = key, sort_dir = Asc\<rparr>)"

definition useSortState :: "string \<Rightarrow> sort_direction option \<Rightarrow> sort_state" where
  "useSortState defaultKey defaultDirection =
     \<lparr>sort_key = defaultKey, sort_dir = (case defaultDirection of Some d \<Rightarrow> d | None \<Rightarrow> Desc)\<rparr>"

lemma nextSortState_twice: "nextSortState (nextSortState s k) k = \<lparr>sort_key = k,
  sort_dir = (if sort_key s = k then sort_dir s else Desc)\<rparr>"
  by (cases "sort_dir s") (auto simp: nextSortState_def)

section \<open>Page number\<close>

record page_cell =
  cell_page :: int
  prevResetKey :: string

definition page_mount :: "string \<Rightarrow> page_cell" where
  "page_mount resetKey = \<lparr>cell_page = 1, prevResetKey = resetKey\<rparr>"

definition usePageResetOn :: "string \<Rightarrow> page_cell \<Rightarrow> page_cell" where
  "usePageResetOn resetKey c =
     (if resetKey \<noteq> prevResetKey c then \<lparr>cell_page = 1, prevResetKey = resetKey\<rparr> else c)"

lemma page_reset: "resetKey \<noteq> prevResetKey c \<Longrightarrow> cell_page (usePageResetOn resetKey c) = 1"
  by (simp add: usePageResetOn_def)

lemma page_kept: "usePageResetOn (prevResetKey c) c = c"
  by (simp add: usePageResetOn_def)

section \<open>Cooldown\<close>

text \<open>The countdown, the interval the ref remembers, and the intervals that are really running.\<close>

record cooldown_state =
  cooldown :: int
  intervalRef :: "nat option"
  running :: "nat list"
  next_interval :: nat

definition useCooldown :: cooldown_state where
  "useCooldown = \<lparr>cooldown = 0, intervalRef = None, running = [], next_interval = 0\<rparr>"

definition startCooldown :: "int \<Rightarrow> cooldown_state \<Rightarrow> cooldown_state" where
  "startCooldown seconds c = \<lparr>cooldown = seconds, intervalRef = Some (next_interval c),
     running = running c @ [next_interval c], next_interval = next_interval c + 1\<rparr>"

definition clear_interval :: "nat option \<Rightarrow> cooldown_state \<Rightarrow> cooldown_state" where
  "clear_interval i c = (case i of None \<Rightarrow> c | Some k \<Rightarrow> c\<lparr>running := filter (\<lambda>j. j \<noteq> k) (running c)\<rparr>)"

text \<open>Interval \<open>i\<close> fires, if it is running.\<close>

definition cooldown_tick :: "nat \<Rightarrow> cooldown_state \<Rightarrow> cooldown_state" where
  "cooldown_tick i c =
     (if i \<notin> set (running c) then c
      else if cooldown c \<le> 1
      then (clear_interval (intervalRef c) c)\<lparr>intervalRef := None, cooldown := 0\<rparr>
      else c\<lparr>cooldown := cooldown c - 1\<rparr>)"

definition cooldown_unmount :: "cooldown_state \<Rightarrow> cooldown_state" where
  "cooldown_unmount c = clear_interval (intervalRef c) c"

text \<open>How the forms use it: a submit during the countdown is ignored.\<close>

definition guarded_start :: "int \<Rightarrow> cooldown_state \<Rightarrow> cooldown_state" where
  "guarded_start seconds c = (if cooldown c > 0 then c else startCooldown seconds c)"

datatype cooldown_event = CdStart int | CdTick nat

fun cooldown_step :: "cooldown_state \<Rightarrow> cooldown_event \<Rightarrow> cooldown_state" where
  "cooldown_step c (CdStart seconds) = (if seconds > 0 then guarded_start seconds c else c)"
| "cooldown_step c (CdTick i) = cooldown_tick i c"

text \<open>Under that guard at most one interval runs, the ref holds it, and it runs exactly while the
  countdown is positive.\<close>

definition cooldown_ok :: "cooldown_state \<Rightarrow> bool" where
  "cooldown_ok c \<longleftrightarrow> cooldown c \<ge> 0
     \<and> running c = (case intervalRef c of None \<Rightarrow> [] | Some i \<Rightarrow> [i])
     \<and> (intervalRef c = None \<longleftrightarrow> cooldown c = 0)"

lemma cooldown_step_ok: "cooldown_ok c \<Longrightarrow> cooldown_ok (cooldown_step c e)"
  by (cases e) (auto simp: cooldown_ok_def guarded_start_def startCooldown_def cooldown_tick_def
      clear_interval_def split: option.splits)

interpretation cooldowns: event_machine cooldown_step cooldown_ok
  by unfold_locales (rule cooldown_step_ok)

lemma cooldown_initial_ok: "cooldown_ok useCooldown"
  by (simp add: cooldown_ok_def useCooldown_def)

lemma cooldown_unmount_stops:
  "cooldown_ok c \<Longrightarrow> running (cooldown_unmount c) = []"
  by (auto simp: cooldown_ok_def cooldown_unmount_def clear_interval_def split: option.splits)

lemma cooldown_ends:
  assumes "cooldown_ok c" and "intervalRef c = Some i" and "cooldown c \<le> int n"
  shows "cooldown ((cooldown_tick i ^^ n) c) = 0 \<and> running ((cooldown_tick i ^^ n) c) = []"
proof -
  have idle: "(cooldown_tick i ^^ m) d = d" if "running d = []" for m d
    using that by (induction m) (simp_all add: cooldown_tick_def)
  show ?thesis using assms
  proof (induction n arbitrary: c)
    case 0
    then show ?case by (auto simp: cooldown_ok_def)
  next
    case (Suc n)
    let ?d = "cooldown_tick i c"
    have ok: "cooldown_ok ?d" using cooldown_step_ok [OF Suc.prems(1), of "CdTick i"] by simp
    have run: "(cooldown_tick i ^^ Suc n) c = (cooldown_tick i ^^ n) ?d"
      by (simp add: funpow_swap1)
    have i: "i \<in> set (running c)" using Suc.prems by (simp add: cooldown_ok_def)
    show ?case
    proof (cases "cooldown c \<le> 1")
      case True
      with i Suc.prems have "cooldown ?d = 0" "running ?d = []"
        by (auto simp: cooldown_tick_def clear_interval_def cooldown_ok_def)
      with idle [of ?d n] show ?thesis unfolding run by simp
    next
      case False
      with i Suc.prems(2-3) have "intervalRef ?d = Some i" "cooldown ?d \<le> int n"
        by (auto simp: cooldown_tick_def)
      with Suc.IH [OF ok] show ?thesis unfolding run by blast
    qed
  qed
qed

section \<open>Debounce\<close>

text \<open>The value handed out, the value last rendered, and the deadline of the pending timeout.\<close>

record 'a debounce =
  debounced :: 'a
  db_value :: 'a
  db_deadline :: "int option"

definition debounce_mount :: "int \<Rightarrow> int \<Rightarrow> 'a \<Rightarrow> 'a debounce" where
  "debounce_mount delayMs now v = \<lparr>debounced = v, db_value = v, db_deadline = Some (now + delayMs)\<rparr>"

definition debounce_render :: "int \<Rightarrow> int \<Rightarrow> 'a \<Rightarrow> 'a debounce \<Rightarrow> 'a debounce" where
  "debounce_render delayMs now v d =
     (if v = db_value d then d else d\<lparr>db_value := v, db_deadline := Some (now + delayMs)\<rparr>)"

definition debounce_fires :: "int \<Rightarrow> 'a debounce \<Rightarrow> 'a debounce" where
  "debounce_fires now d = (case db_deadline d of
      Some at \<Rightarrow> if at \<le> now then d\<lparr>debounced := db_value d, db_deadline := None\<rparr> else d
    | None \<Rightarrow> d)"

lemma debounce_settles:
  "db_deadline d = Some at \<Longrightarrow> at \<le> now \<Longrightarrow> debounced (debounce_fires now d) = db_value d"
  by (simp add: debounce_fires_def)

lemma debounce_waits:
  "v \<noteq> db_value d \<Longrightarrow> t < now + delayMs \<Longrightarrow>
     debounced (debounce_fires t (debounce_render delayMs now v d)) = debounced d"
  by (simp add: debounce_fires_def debounce_render_def)

section \<open>Session page stores\<close>

text \<open>\<open>createSessionUiStore\<close>: the module-level store of a page. A patch is a function on the state;
  the resetters run in tests only.\<close>

record 'a session_ui_store =
  ui_initial :: 'a
  ui_state :: 'a

definition createSessionUiStore :: "'a \<Rightarrow> 'a session_ui_store" where
  "createSessionUiStore initial = \<lparr>ui_initial = initial, ui_state = initial\<rparr>"

definition ui_update :: "('a \<Rightarrow> 'a) \<Rightarrow> 'a session_ui_store \<Rightarrow> 'a session_ui_store" where
  "ui_update patch s = s\<lparr>ui_state := patch (ui_state s)\<rparr>"

definition ui_reset :: "'a session_ui_store \<Rightarrow> 'a session_ui_store" where
  "ui_reset s = s\<lparr>ui_state := ui_initial s\<rparr>"

section \<open>Row selection\<close>

text \<open>The handlers hand the caller a function from the latest selection to the next one.\<close>

definition allKeysOnScreen :: "('r \<Rightarrow> 'k) \<Rightarrow> 'r list option \<Rightarrow> 'k set \<Rightarrow> 'k list" where
  "allKeysOnScreen rowKey rows disabledKeys =
     filter (\<lambda>k. k \<notin> disabledKeys) (case rows of Some rs \<Rightarrow> map rowKey rs | None \<Rightarrow> [])"

definition selectedOnScreenCount :: "'k list \<Rightarrow> 'k set \<Rightarrow> nat" where
  "selectedOnScreenCount keys selectedKeys = length (filter (\<lambda>k. k \<in> selectedKeys) keys)"

definition isAllSelected :: "'k list \<Rightarrow> 'k set \<Rightarrow> bool" where
  "isAllSelected keys selectedKeys \<longleftrightarrow>
     length keys > 0 \<and> selectedOnScreenCount keys selectedKeys = length keys"

definition isSomeSelected :: "'k list \<Rightarrow> 'k set \<Rightarrow> bool" where
  "isSomeSelected keys selectedKeys \<longleftrightarrow>
     selectedOnScreenCount keys selectedKeys > 0 \<and> \<not> isAllSelected keys selectedKeys"

definition toggleRow :: "'k \<Rightarrow> 'k set \<Rightarrow> 'k set" where
  "toggleRow key prev = (if key \<in> prev then prev - {key} else insert key prev)"

definition toggleAll :: "'k list \<Rightarrow> 'k set \<Rightarrow> 'k set" where
  "toggleAll keys prev =
     (if length keys > 0 \<and> (\<forall>k \<in> set keys. k \<in> prev)
      then foldl (\<lambda>s k. s - {k}) prev keys else foldl (\<lambda>s k. insert k s) prev keys)"

definition clearOnScreen :: "'k list \<Rightarrow> 'k set \<Rightarrow> 'k set" where
  "clearOnScreen keys prev = foldl (\<lambda>s k. s - {k}) prev keys"

lemma foldl_insert: "foldl (\<lambda>s k. insert k s) p ks = p \<union> set ks"
  by (induction ks arbitrary: p) auto

lemma foldl_remove: "foldl (\<lambda>s k. s - {k}) p ks = p - set ks"
  by (induction ks arbitrary: p) auto

lemma isAllSelected_iff: "isAllSelected keys sel \<longleftrightarrow> keys \<noteq> [] \<and> set keys \<subseteq> sel"
proof -
  have "length (filter (\<lambda>k. k \<in> sel) keys) = length keys \<longleftrightarrow> set keys \<subseteq> sel"
    by (metis filter_True length_filter_less nat_neq_iff subset_code(1))
  then show ?thesis by (auto simp: isAllSelected_def selectedOnScreenCount_def)
qed

lemma toggleAll_eq: "toggleAll keys prev = (if isAllSelected keys prev then prev - set keys else prev \<union> set keys)"
  by (auto simp: toggleAll_def isAllSelected_iff foldl_insert foldl_remove)

text \<open>The header checkbox: it flips between all and none of the enabled rows on screen, whatever the
  selection was, and touches no other key; in particular a disabled row never becomes selected.\<close>

lemma toggleAll_flips:
  "keys \<noteq> [] \<Longrightarrow> isAllSelected keys (toggleAll keys prev) = (\<not> isAllSelected keys prev)"
  by (cases keys) (auto simp: toggleAll_eq isAllSelected_iff)

lemma toggleAll_frame: "k \<notin> set keys \<Longrightarrow> k \<in> toggleAll keys prev \<longleftrightarrow> k \<in> prev"
  by (auto simp: toggleAll_eq)

lemma disabled_never_selected:
  "k \<in> disabledKeys \<Longrightarrow> k \<notin> prev \<Longrightarrow> k \<notin> toggleAll (allKeysOnScreen rowKey rows disabledKeys) prev"
  by (subst toggleAll_frame) (auto simp: allKeysOnScreen_def)

lemma toggleRow_twice: "toggleRow k (toggleRow k prev) = prev"
  by (auto simp: toggleRow_def)

section \<open>Page buttons\<close>

datatype page_button = PageNo int | Ellipsis

definition buildPageList :: "int \<Rightarrow> int \<Rightarrow> int \<Rightarrow> page_button list" where
  "buildPageList page totalPages siblingCount =
     (let first = max 2 (page - siblingCount);
          last = min (totalPages - 1) (page + siblingCount)
      in [PageNo 1]
         @ (if first > 2 then [Ellipsis] else [])
         @ map PageNo [first..last]
         @ (if last < totalPages - 1 then [Ellipsis] else [])
         @ (if totalPages > 1 then [PageNo totalPages] else []))"

text \<open>The buttons of the component: enabled, and the page a click asks for.\<close>

definition prev_button :: "int \<Rightarrow> bool \<times> int" where
  "prev_button page = (\<not> page \<le> 1, page - 1)"

definition next_button :: "int \<Rightarrow> int \<Rightarrow> bool \<times> int" where
  "next_button page totalPages = (\<not> page \<ge> totalPages, page + 1)"

definition page_buttons :: "int \<Rightarrow> int \<Rightarrow> page_button list" where
  "page_buttons page totalPages = buildPageList page (max 1 totalPages) 1"

definition button_numbers :: "page_button list \<Rightarrow> int list" where
  "button_numbers bs = concat (map (\<lambda>b. case b of PageNo p \<Rightarrow> [p] | Ellipsis \<Rightarrow> []) bs)"

lemma button_numbers_append [simp]: "button_numbers (as @ bs) = button_numbers as @ button_numbers bs"
  by (simp add: button_numbers_def)

lemma button_numbers_simps [simp]:
  "button_numbers [] = []" "button_numbers (Ellipsis # bs) = button_numbers bs"
  "button_numbers (PageNo p # bs) = p # button_numbers bs"
  by (simp_all add: button_numbers_def)

lemma button_numbers_map [simp]: "button_numbers (map PageNo ps) = ps"
  by (induction ps) (simp_all add: button_numbers_def)

lemma sorted_upto_strict: "sorted_wrt (<) [i..j]"
  by simp

text \<open>The row of buttons names pages of the list only, in increasing order, and offers the first, the
  last, the current page and its neighbours.\<close>

lemma page_buttons_offer:
  assumes "1 \<le> page" "page \<le> max 1 totalPages"
  shows "sorted_wrt (<) (button_numbers (page_buttons page totalPages))"
    and "set (button_numbers (page_buttons page totalPages)) =
       {p. 1 \<le> p \<and> p \<le> max 1 totalPages \<and> (p = 1 \<or> p = max 1 totalPages \<or> \<bar>p - page\<bar> \<le> 1)}"
  using assms
  by (auto simp: page_buttons_def buildPageList_def Let_def sorted_wrt_append)

end
