(* ===== verification/Toaster.thy ===== *)
theory Toaster
  imports QueryClient
begin

text \<open>
  The toast queue of \<open>ui/toaster/toasterInstance.ts\<close>: its module state (the list, the two timer maps,
  the ids whose action is running) with the clock as an argument. A timer is its deadline; that it
  fires is an event of its own. What an action button does is the type \<open>'a\<close>. An option that is
  absent differs from one given as \<open>undefined\<close>, because \<open>update\<close> spreads the options over the existing
  toast: \<open>None\<close> is absent, \<open>Some None\<close> is \<open>undefined\<close>.
\<close>

datatype duration = Infinite | Millis int

record 'a toast_options =
  to_title :: string
  to_description :: "string option option"
  to_type :: "toast_type option"
  to_duration :: "duration option option"
  to_action :: "'a option option"

record 'a app_toast =
  at_id :: nat
  at_title :: string
  at_description :: "string option"
  at_type :: toast_type
  at_duration :: "duration option"
  at_action :: "'a option"
  at_exiting :: bool

record 'a toaster =
  nextId :: nat
  toasts :: "'a app_toast list"
  timers :: "(nat \<times> int) list"
  exitTimers :: "(nat \<times> int) list"
  actionToastIds :: "nat list"

definition toaster_initial :: "'a toaster" where
  "toaster_initial = \<lparr>nextId = 1, toasts = [], timers = [], exitTimers = [], actionToastIds = []\<rparr>"

definition find_toast :: "nat \<Rightarrow> 'a toaster \<Rightarrow> 'a app_toast option" where
  "find_toast i s = List.find (\<lambda>t. at_id t = i) (toasts s)"

definition clearTimer :: "nat \<Rightarrow> 'a toaster \<Rightarrow> 'a toaster" where
  "clearTimer i s = s\<lparr>timers := AList.delete i (timers s)\<rparr>"

definition EXIT_MS :: int where "EXIT_MS = 180"

definition dismissToast :: "int \<Rightarrow> nat \<Rightarrow> 'a toaster \<Rightarrow> 'a toaster" where
  "dismissToast now i s =
     (let s1 = clearTimer i s in
      case find_toast i s1 of
        None \<Rightarrow> s1
      | Some t \<Rightarrow>
          if at_exiting t then s1
          else s1\<lparr>toasts := map (\<lambda>t. if at_id t = i then t\<lparr>at_exiting := True\<rparr> else t) (toasts s1),
                  exitTimers := AList.update i (now + EXIT_MS) (exitTimers s1)\<rparr>)"

definition armAutoDismiss :: "int \<Rightarrow> nat \<Rightarrow> duration option \<Rightarrow> 'a toaster \<Rightarrow> 'a toaster" where
  "armAutoDismiss now i d s =
     (if d = Some Infinite then s
      else (let lifetime = (case d of Some (Millis n) \<Rightarrow> n | _ \<Rightarrow> 5000) in
            if lifetime > 0 then s\<lparr>timers := AList.update i (now + lifetime) (timers s)\<rparr> else s))"

text \<open>\<open>options.x\<close> where an absent and an undefined property read the same.\<close>

definition given :: "'v option option \<Rightarrow> 'v option" where
  "given v = (case v of None \<Rightarrow> None | Some w \<Rightarrow> w)"

definition toaster_create :: "int \<Rightarrow> 'a toast_options \<Rightarrow> 'a toaster \<Rightarrow> nat \<times> 'a toaster" where
  "toaster_create now o1 s =
     (let s1 = foldl (\<lambda>s i. dismissToast now i s) s (actionToastIds s);
          s2 = s1\<lparr>actionToastIds := []\<rparr>;
          i = nextId s2;
          t = \<lparr>at_id = i, at_title = to_title o1, at_description = given (to_description o1),
               at_type = (case to_type o1 of Some ty \<Rightarrow> ty | None \<Rightarrow> ToastSuccess),
               at_duration = given (to_duration o1), at_action = given (to_action o1),
               at_exiting = False\<rparr>;
          s3 = s2\<lparr>nextId := i + 1, toasts := toasts s2 @ [t]\<rparr>
      in (i, armAutoDismiss now i (at_duration t) s3))"

definition spread :: "'v option option \<Rightarrow> 'v option \<Rightarrow> 'v option" where
  "spread new old = (case new of None \<Rightarrow> old | Some v \<Rightarrow> v)"

definition updated_toast :: "'a toast_options \<Rightarrow> 'a app_toast \<Rightarrow> 'a app_toast" where
  "updated_toast o1 t = t\<lparr>at_title := to_title o1,
     at_description := spread (to_description o1) (at_description t),
     at_type := (case to_type o1 of Some ty \<Rightarrow> ty | None \<Rightarrow> ToastSuccess),
     at_duration := spread (to_duration o1) (at_duration t),
     at_action := spread (to_action o1) (at_action t)\<rparr>"

definition toaster_update :: "int \<Rightarrow> nat \<Rightarrow> 'a toast_options \<Rightarrow> 'a toaster \<Rightarrow> 'a toaster" where
  "toaster_update now i o1 s = (case find_toast i s of
      None \<Rightarrow> s
    | Some existing \<Rightarrow>
        (let s1 = clearTimer i s;
             u = updated_toast o1 existing;
             s2 = s1\<lparr>toasts := map (\<lambda>t. if at_id t = i then u else t) (toasts s1)\<rparr>
         in armAutoDismiss now i (at_duration u) s2))"

definition beginAction :: "int \<Rightarrow> nat \<Rightarrow> 'a toaster \<Rightarrow> 'a toaster" where
  "beginAction now i s = (case find_toast i s of
      None \<Rightarrow> s
    | Some existing \<Rightarrow>
        toaster_update now i \<lparr>to_title = at_title existing, to_description = Some (at_description existing),
            to_type = Some ToastLoading, to_duration = Some (Some (Millis 15000)), to_action = Some None\<rparr>
          (s\<lparr>actionToastIds := (if i \<in> set (actionToastIds s) then actionToastIds s
                                else actionToastIds s @ [i])\<rparr>))"

definition toaster_dismiss :: "int \<Rightarrow> nat option \<Rightarrow> 'a toaster \<Rightarrow> 'a toaster" where
  "toaster_dismiss now i s = (case i of
      None \<Rightarrow>
        (let s1 = s\<lparr>timers := [], exitTimers := []\<rparr> in
         if toasts s1 = [] then s1
         else s1\<lparr>toasts := map (\<lambda>t. t\<lparr>at_exiting := True\<rparr>) (toasts s1),
                 exitTimers := foldl (\<lambda>m t. AList.update (at_id t) (now + EXIT_MS) m) [] (toasts s1)\<rparr>)
    | Some k \<Rightarrow> dismissToast now k (s\<lparr>actionToastIds := filter (\<lambda>j. j \<noteq> k) (actionToastIds s)\<rparr>))"

text \<open>The callbacks of the two kinds of timers.\<close>

definition timer_fires :: "int \<Rightarrow> nat \<Rightarrow> 'a toaster \<Rightarrow> 'a toaster" where
  "timer_fires now i s = (case map_of (timers s) i of
      Some at \<Rightarrow> if at \<le> now then dismissToast now i s else s
    | None \<Rightarrow> s)"

definition exit_fires :: "int \<Rightarrow> nat \<Rightarrow> 'a toaster \<Rightarrow> 'a toaster" where
  "exit_fires now i s = (case map_of (exitTimers s) i of
      Some at \<Rightarrow> if at \<le> now
        then s\<lparr>exitTimers := AList.delete i (exitTimers s), toasts := filter (\<lambda>t. at_id t \<noteq> i) (toasts s)\<rparr>
        else s
    | None \<Rightarrow> s)"

datatype 'a toaster_event =
    TCreate int "'a toast_options"
  | TUpdate int nat "'a toast_options"
  | TBeginAction int nat
  | TDismiss int "nat option"
  | TTimer int nat
  | TExit int nat

fun toaster_step :: "'a toaster \<Rightarrow> 'a toaster_event \<Rightarrow> 'a toaster" where
  "toaster_step s (TCreate now o1) = snd (toaster_create now o1 s)"
| "toaster_step s (TUpdate now i o1) = toaster_update now i o1 s"
| "toaster_step s (TBeginAction now i) = beginAction now i s"
| "toaster_step s (TDismiss now i) = toaster_dismiss now i s"
| "toaster_step s (TTimer now i) = timer_fires now i s"
| "toaster_step s (TExit now i) = exit_fires now i s"

section \<open>The queue is well formed\<close>

definition leaves_by_itself :: "'a app_toast \<Rightarrow> bool" where
  "leaves_by_itself t \<longleftrightarrow> (case at_duration t of None \<Rightarrow> True | Some Infinite \<Rightarrow> False | Some (Millis n) \<Rightarrow> n > 0)"

definition toaster_ok :: "'a toaster \<Rightarrow> bool" where
  "toaster_ok s \<longleftrightarrow> distinct (map at_id (toasts s)) \<and> (\<forall>t \<in> set (toasts s). at_id t < nextId s)
     \<and> (\<forall>k \<in> dom (map_of (timers s)) \<union> dom (map_of (exitTimers s)). k < nextId s)
     \<and> (\<forall>t \<in> set (toasts s). if at_exiting t then at_id t \<in> dom (map_of (exitTimers s))
                            else leaves_by_itself t \<longrightarrow> at_id t \<in> dom (map_of (timers s)))"

lemma dom_update [simp]: "dom (map_of (AList.update k v m)) = insert k (dom (map_of m))"
  by (simp add: update_conv')

lemma dom_delete [simp]: "dom (map_of (AList.delete k m)) = dom (map_of m) - {k}"
  by (simp add: delete_conv' dom_def) auto

lemma find_toast_Some:
  "find_toast i s = Some t \<Longrightarrow> t \<in> set (toasts s) \<and> at_id t = i"
  by (auto simp: find_toast_def find_Some_iff)

lemma find_toast_None: "find_toast i s = None \<Longrightarrow> t \<in> set (toasts s) \<Longrightarrow> at_id t \<noteq> i"
  by (auto simp: find_toast_def find_None_iff)

lemma toaster_okE:
  "toaster_ok s \<Longrightarrow> t \<in> set (toasts s) \<Longrightarrow> u \<in> set (toasts s) \<Longrightarrow> at_id t = at_id u \<Longrightarrow> t = u"
  by (auto simp: toaster_ok_def dest: inj_onD [OF iffD1 [OF distinct_map, THEN conjunct2]])

lemma ids_map_if: "(\<And>t. at_id (f t) = at_id t) \<Longrightarrow> map at_id (map (\<lambda>t. if P t then f t else t) ts) = map at_id ts"
  by simp

lemma dismissToast_ok:
  assumes ok: "toaster_ok s"
  shows "toaster_ok (dismissToast now i s)"
proof (cases "find_toast i (clearTimer i s)")
  case None
  then have "at_id t \<noteq> i" if "t \<in> set (toasts s)" for t
    using find_toast_None [OF None] that by (simp add: clearTimer_def)
  with ok None show ?thesis by (auto simp: dismissToast_def toaster_ok_def clearTimer_def Let_def)
next
  case (Some t)
  then have t: "t \<in> set (toasts s)" "at_id t = i" by (auto dest: find_toast_Some simp: clearTimer_def)
  show ?thesis
  proof (cases "at_exiting t")
    case True
    have "at_exiting u" if "u \<in> set (toasts s)" "at_id u = i" for u
      using toaster_okE [OF ok that(1) t(1)] that(2) t(2) True by simp
    with ok Some True show ?thesis by (auto simp: dismissToast_def toaster_ok_def clearTimer_def Let_def)
  next
    case False
    have "i < nextId s" using ok t by (auto simp: toaster_ok_def)
    with ok Some False show ?thesis
      by (auto simp: dismissToast_def toaster_ok_def clearTimer_def Let_def comp_def if_distrib
          cong: if_cong)
  qed
qed

lemma dismissToast_frame [simp]:
  "nextId (dismissToast now i s) = nextId s" "actionToastIds (dismissToast now i s) = actionToastIds s"
  by (auto simp: dismissToast_def clearTimer_def Let_def split: option.split)

lemma toaster_ok_actions [simp]: "toaster_ok (s\<lparr>actionToastIds := x\<rparr>) = toaster_ok s"
  by (simp add: toaster_ok_def)

lemma toaster_ok_unique:
  "toaster_ok s \<Longrightarrow> find_toast i s = Some t \<Longrightarrow> u \<in> set (toasts s) \<Longrightarrow> at_id u = i \<Longrightarrow> u = t"
  by (metis find_toast_Some toaster_okE)

lemma dismiss_all_ok: "toaster_ok s \<Longrightarrow> toaster_ok (foldl (\<lambda>s i. dismissToast now i s) s is)"
  by (induction "is" arbitrary: s) (auto intro: dismissToast_ok)

lemma armAutoDismiss_frame [simp]:
  "nextId (armAutoDismiss now i d s) = nextId s" "toasts (armAutoDismiss now i d s) = toasts s"
  "exitTimers (armAutoDismiss now i d s) = exitTimers s"
  by (auto simp: armAutoDismiss_def Let_def)

lemma armAutoDismiss_timers:
  "dom (map_of (timers (armAutoDismiss now i d s))) =
     (if (case d of None \<Rightarrow> True | Some Infinite \<Rightarrow> False | Some (Millis n) \<Rightarrow> n > 0)
      then insert i (dom (map_of (timers s))) else dom (map_of (timers s)))"
  by (auto simp: armAutoDismiss_def Let_def split: option.splits duration.splits)

lemma create_ok: "toaster_ok s \<Longrightarrow> toaster_ok (snd (toaster_create now o1 s))"
proof -
  assume ok: "toaster_ok s"
  define s1 where "s1 = foldl (\<lambda>s i. dismissToast now i s) s (actionToastIds s)"
  have ok1: "toaster_ok s1" unfolding s1_def by (rule dismiss_all_ok [OF ok])
  have "\<forall>t \<in> set (toasts s1). at_id t < nextId s1" using ok1 by (simp add: toaster_ok_def)
  then have "nextId s1 \<notin> at_id ` set (toasts s1)" by auto
  with ok1 show ?thesis
    unfolding toaster_create_def Let_def s1_def [symmetric]
    by (auto simp: toaster_ok_def armAutoDismiss_timers leaves_by_itself_def less_Suc_eq split: if_splits)
qed

lemma update_ok: "toaster_ok s \<Longrightarrow> toaster_ok (toaster_update now i o1 s)"
proof (cases "find_toast i s")
  case (Some t)
  assume ok: "toaster_ok s"
  have t: "t \<in> set (toasts s)" "at_id t = i" using find_toast_Some [OF Some] by auto
  have u: "at_id (updated_toast o1 t) = i" "at_exiting (updated_toast o1 t) = at_exiting t"
    using t(2) by (simp_all add: updated_toast_def)
  have ids: "map at_id (map (\<lambda>t'. if at_id t' = i then updated_toast o1 t else t') (toasts s))
      = map at_id (toasts s)" using u by simp
  have old: "u' = t" if "u' \<in> set (toasts s)" "at_id u' = i" for u'
    using toaster_ok_unique [OF ok Some that] .
  have lt: "i < nextId s" using ok t by (auto simp: toaster_ok_def)
  have ex: "i \<in> dom (map_of (exitTimers s))" if "at_exiting t"
    using ok t that unfolding toaster_ok_def by (metis (full_types))
  show ?thesis
    unfolding toaster_update_def Some option.case Let_def clearTimer_def
    unfolding toaster_ok_def armAutoDismiss_frame armAutoDismiss_timers
    using ok u lt ex unfolding toaster_ok_def
    by (auto simp: ids [simplified] comp_def if_distrib leaves_by_itself_def split: if_splits)
qed (simp add: toaster_update_def)

lemma beginAction_ok: "toaster_ok s \<Longrightarrow> toaster_ok (beginAction now i s)"
  by (auto simp: beginAction_def intro!: update_ok split: option.split)

lemma dom_fold_update:
  "dom (map_of (foldl (\<lambda>m t. AList.update (f t) v m) m0 ts)) = f ` set ts \<union> dom (map_of m0)"
  by (induction ts arbitrary: m0) auto

lemma toaster_dismiss_ok: "toaster_ok s \<Longrightarrow> toaster_ok (toaster_dismiss now i s)"
proof (cases i)
  case None
  assume "toaster_ok s"
  with None show ?thesis
    unfolding toaster_dismiss_def None option.case Let_def toaster_ok_def
    by (simp add: dom_fold_update comp_def del: Un_iff)
next
  case (Some k)
  assume "toaster_ok s"
  with Some show ?thesis by (simp add: toaster_dismiss_def dismissToast_ok)
qed

lemma exit_fires_ok: "toaster_ok s \<Longrightarrow> toaster_ok (exit_fires now i s)"
  by (auto simp: exit_fires_def toaster_ok_def distinct_map inj_on_def split: option.split)

lemma toaster_step_ok: "toaster_ok s \<Longrightarrow> toaster_ok (toaster_step s e)"
  by (cases e) (auto intro: create_ok update_ok beginAction_ok toaster_dismiss_ok exit_fires_ok
      dismissToast_ok simp: timer_fires_def split: option.split)

interpretation toast_machine: event_machine toaster_step toaster_ok
  by unfold_locales (rule toaster_step_ok)

lemma toaster_initial_ok: "toaster_ok toaster_initial"
  by (simp add: toaster_ok_def toaster_initial_def)

lemma reachable_toaster_ok: "toaster_ok (foldl toaster_step toaster_initial es)"
  by (rule toast_machine.run_inv [OF toaster_initial_ok])

lemma exit_fires_removes:
  assumes "map_of (exitTimers s) i = Some at" "at \<le> now"
  shows "i \<notin> at_id ` set (toasts (exit_fires now i s))"
  using assms by (auto simp: exit_fires_def)

lemma exit_timer_of:
  "toaster_ok s \<Longrightarrow> t \<in> set (toasts s) \<Longrightarrow> at_exiting t \<Longrightarrow>
    \<exists>at. map_of (exitTimers s) (at_id t) = Some at"
  unfolding toaster_ok_def by (force simp: dom_def)

lemma auto_timer_of:
  "toaster_ok s \<Longrightarrow> t \<in> set (toasts s) \<Longrightarrow> \<not> at_exiting t \<Longrightarrow> leaves_by_itself t \<Longrightarrow>
    \<exists>at. map_of (timers s) (at_id t) = Some at"
  unfolding toaster_ok_def by (force simp: dom_def)

lemma find_toast_in:
  "toaster_ok s \<Longrightarrow> t \<in> set (toasts s) \<Longrightarrow> find_toast (at_id t) s = Some t"
proof (cases "find_toast (at_id t) s")
  case None
  assume "t \<in> set (toasts s)"
  with find_toast_None [OF None] show ?thesis by blast
next
  case (Some u)
  assume "toaster_ok s" "t \<in> set (toasts s)"
  with Some toaster_ok_unique [of s "at_id t" u t] show ?thesis by simp
qed

lemma dismissToast_exit_timer:
  assumes ok: "toaster_ok s" and t: "t \<in> set (toasts s)"
  shows "map_of (exitTimers (dismissToast now (at_id t) s)) (at_id t) =
    (if at_exiting t then map_of (exitTimers s) (at_id t) else Some (now + EXIT_MS))"
proof -
  have "find_toast (at_id t) (clearTimer (at_id t) s) = Some t"
    using find_toast_in [OF ok t] by (simp add: find_toast_def clearTimer_def)
  then show ?thesis by (simp add: dismissToast_def Let_def clearTimer_def update_conv')
qed

text \<open>C39. Every toast of the queue has its own id, and one that is leaving, or whose duration is
  not infinite (nor zero), does leave: its timers are armed, so from some moment on, once both have
  fired, it is gone.\<close>

theorem toast_leaves:
  assumes "s = foldl toaster_step toaster_initial es"
    and "t \<in> set (toasts s)" and "at_exiting t \<or> leaves_by_itself t"
  shows "distinct (map at_id (toasts s)) \<and> (\<exists>at. \<forall>now \<ge> at.
    at_id t \<notin> at_id ` set (toasts (exit_fires (now + EXIT_MS) (at_id t) (timer_fires now (at_id t) s))))"
proof -
  have ok: "toaster_ok s" unfolding assms(1) by (rule reachable_toaster_ok)
  have "\<exists>at. \<forall>now \<ge> at. \<exists>x \<le> now + EXIT_MS.
      map_of (exitTimers (timer_fires now (at_id t) s)) (at_id t) = Some x"
  proof (cases "at_exiting t")
    case True
    with exit_timer_of [OF ok assms(2)] obtain at where "map_of (exitTimers s) (at_id t) = Some at"
      by blast
    with True have "\<forall>now \<ge> at. \<exists>x \<le> now + EXIT_MS.
        map_of (exitTimers (timer_fires now (at_id t) s)) (at_id t) = Some x"
      by (auto simp: timer_fires_def dismissToast_exit_timer [OF ok assms(2)] EXIT_MS_def
          split: option.split)
    then show ?thesis by blast
  next
    case False
    with assms(3) auto_timer_of [OF ok assms(2)] obtain at where "map_of (timers s) (at_id t) = Some at"
      by blast
    with False have "\<forall>now \<ge> at. \<exists>x \<le> now + EXIT_MS.
        map_of (exitTimers (timer_fires now (at_id t) s)) (at_id t) = Some x"
      by (auto simp: timer_fires_def dismissToast_exit_timer [OF ok assms(2)])
    then show ?thesis by blast
  qed
  then have "\<exists>at. \<forall>now \<ge> at.
      at_id t \<notin> at_id ` set (toasts (exit_fires (now + EXIT_MS) (at_id t) (timer_fires now (at_id t) s)))"
    by (meson exit_fires_removes)
  with ok show ?thesis by (simp add: toaster_ok_def)
qed

theorem toast_leaves_witness:
  "\<exists>at. \<forall>now \<ge> at. 1 \<notin> at_id ` set (toasts (exit_fires (now + EXIT_MS) 1 (timer_fires now 1
     (snd (toaster_create 0 \<lparr>to_title = ''Saved'', to_description = None, to_type = None,
        to_duration = None, to_action = (None :: unit option option)\<rparr> toaster_initial)))))"
  using toast_leaves [OF refl, of
    "\<lparr>at_id = 1, at_title = ''Saved'', at_description = None, at_type = ToastSuccess,
      at_duration = None, at_action = (None :: unit option), at_exiting = False\<rparr>"
    "[TCreate 0 \<lparr>to_title = ''Saved'', to_description = None, to_type = None,
        to_duration = None, to_action = None\<rparr>]"]
  by (simp add: toaster_create_def toaster_initial_def armAutoDismiss_def given_def leaves_by_itself_def)

text \<open>A toast whose duration stays infinite has no timer, so no timer event takes it away.\<close>

definition stuck :: "nat \<Rightarrow> 'a toaster \<Rightarrow> bool" where
  "stuck i s \<longleftrightarrow> i \<in> at_id ` set (toasts s)
     \<and> (\<forall>t \<in> set (toasts s). at_id t = i \<longrightarrow> at_duration t = Some Infinite)
     \<and> map_of (timers s) i = None \<and> map_of (exitTimers s) i = None"

lemma dismissToast_stuck: "j \<noteq> i \<Longrightarrow> stuck i s \<Longrightarrow> stuck i (dismissToast now j s)"
  by (auto simp: stuck_def dismissToast_def clearTimer_def Let_def update_conv' delete_conv' image_iff
      split: option.splits)

lemma timer_stuck: "stuck i s \<Longrightarrow> stuck i (timer_fires now j s)"
proof (cases "j = i")
  case True
  assume "stuck i s"
  with True show ?thesis by (simp add: timer_fires_def stuck_def)
next
  case False
  assume "stuck i s"
  with False show ?thesis by (simp add: timer_fires_def dismissToast_stuck split: option.split)
qed

lemma exit_stuck: "stuck i s \<Longrightarrow> stuck i (exit_fires now j s)"
  by (cases "j = i") (auto simp: exit_fires_def stuck_def delete_conv' image_iff split: option.splits)

text \<open>The clock going on: only timers fire.\<close>

fun is_tick :: "'a toaster_event \<Rightarrow> bool" where
  "is_tick (TTimer now i) = True"
| "is_tick (TExit now i) = True"
| "is_tick _ = False"

lemma ticks_stuck: "stuck i s \<Longrightarrow> list_all is_tick es \<Longrightarrow> stuck i (foldl toaster_step s es)"
proof (induction es arbitrary: s)
  case (Cons e es)
  from Cons.prems have "stuck i (toaster_step s e)"
    by (cases e) (auto intro: timer_stuck exit_stuck)
  with Cons show ?case by simp
qed simp

lemma create_infinite_stuck:
  assumes ok: "toaster_ok s" and inf: "to_duration o1 = Some (Some Infinite)"
  shows "stuck (fst (toaster_create now o1 s)) (snd (toaster_create now o1 s))"
proof -
  define s1 where "s1 = foldl (\<lambda>s i. dismissToast now i s) s (actionToastIds s)"
  have ok1: "toaster_ok s1" unfolding s1_def by (rule dismiss_all_ok [OF ok])
  then have "map_of (timers s1) (nextId s1) = None" "map_of (exitTimers s1) (nextId s1) = None"
    unfolding toaster_ok_def by (meson UnI1 UnI2 domIff less_irrefl)+
  moreover have "\<forall>t \<in> set (toasts s1). at_id t \<noteq> nextId s1"
    using ok1 by (auto simp: toaster_ok_def)
  ultimately show ?thesis
    using inf unfolding toaster_create_def Let_def s1_def [symmetric]
    by (auto simp: stuck_def armAutoDismiss_def given_def)
qed

lemma update_keeps_stuck:
  assumes st: "stuck i s" and no: "to_duration o1 = None"
  shows "stuck i (toaster_update now i o1 s)"
proof (cases "find_toast i s")
  case None
  then show ?thesis using st by (simp add: toaster_update_def)
next
  case (Some t)
  have t: "t \<in> set (toasts s)" "at_id t = i" using find_toast_Some [OF Some] by auto
  then have u: "at_duration (updated_toast o1 t) = Some Infinite" "at_id (updated_toast o1 t) = i"
    using st no by (simp_all add: stuck_def updated_toast_def spread_def)
  have "updated_toast o1 t \<in> (\<lambda>t'. if at_id t' = i then updated_toast o1 t else t') ` set (toasts s)"
    using t by (auto intro!: rev_image_eqI [OF t(1)])
  then have "i \<in> at_id ` (\<lambda>t'. if at_id t' = i then updated_toast o1 t else t') ` set (toasts s)"
    using u(2) by (rule rev_image_eqI [OF _ sym])
  with st u Some show ?thesis
    by (auto simp: toaster_update_def Let_def armAutoDismiss_def clearTimer_def stuck_def delete_conv'
        simp del: image_iff)
qed

lemma foldl_dismiss_frame [simp]:
  "nextId (foldl (\<lambda>s i. dismissToast now i s) s is) = nextId s"
  by (induction "is" arbitrary: s) auto

text \<open>A toast created without a duration is auto-dismissed.\<close>

lemma created_leaves:
  assumes ok: "toaster_ok s" and "t \<in> set (toasts (snd (toaster_create now o1 s)))"
    and "at_id t = nextId s" and "to_duration o1 = None"
  shows "leaves_by_itself t"
proof -
  define s1 where "s1 = foldl (\<lambda>s i. dismissToast now i s) s (actionToastIds s)"
  have ok1: "toaster_ok s1" "nextId s1 = nextId s"
    unfolding s1_def by (simp_all add: dismiss_all_ok [OF ok])
  then have "\<forall>t \<in> set (toasts s1). at_id t \<noteq> nextId s"
    by (auto simp: toaster_ok_def)
  with assms(2-4) show ?thesis
    unfolding toaster_create_def Let_def s1_def [symmetric]
    by (auto simp: given_def leaves_by_itself_def)
qed

end
