(* ===== verification/UserAccess.thy ===== *)
theory UserAccess
  imports Toaster Mutations PolicyHelpers Authorization
begin

text \<open>
  The dialog that edits one user's access: its view state and query selection
  (\<open>users/access_dialog/useUserAccessDialogState.ts\<close>) and the handlers that send a request and
  report it with a toast (\<open>userAccessDialogHandlers.ts\<close>). A handler is a request with the toaster it
  leaves, and a function of the outcome (\<open>Inl\<close> the error's message). What an undo button does is the
  datatype \<open>access_undo\<close>, with a request and a settlement of its own. \<open>tr\<close> is the translation
  function, applied to a key and its interpolation values.
\<close>

type_synonym translate = "string \<Rightarrow> (string \<times> string) list \<Rightarrow> string"

datatype access_undo =
    ReassignPolicy string string
  | RerevokePolicy string string
  | RegrantPermission string string string "json option"
  | RerevokePermission string string string

definition plain :: "toast_type \<Rightarrow> string \<Rightarrow> 'a toast_options" where
  "plain ty title = \<lparr>to_title = title, to_description = None, to_type = Some ty, to_duration = None,
     to_action = None\<rparr>"

definition with_undo :: "access_undo \<Rightarrow> access_undo toast_options \<Rightarrow> access_undo toast_options" where
  "with_undo a o1 = o1\<lparr>to_action := Some (Some a)\<rparr>"

definition pending_toast :: "string \<Rightarrow> access_undo toast_options" where
  "pending_toast title = (plain ToastLoading title)\<lparr>to_duration := Some (Some Infinite)\<rparr>"

abbreviation show_access :: "int \<Rightarrow> access_undo toast_options \<Rightarrow> access_undo toaster \<Rightarrow> access_undo toaster" where
  "show_access now o1 s \<equiv> snd (toaster_create now o1 s)"

section \<open>Policies\<close>

text \<open>\<open>if (!userEmail) return\<close>: \<open>null\<close> and the empty string.\<close>

definition for_user :: "string option \<Rightarrow> (string \<Rightarrow> 'r) \<Rightarrow> 'r option" where
  "for_user userEmail f = (case userEmail of
      None \<Rightarrow> None
    | Some e \<Rightarrow> if truthy e then Some (f e) else None)"

definition togglePolicy :: "string option \<Rightarrow> string \<Rightarrow> bool \<Rightarrow> http_request option" where
  "togglePolicy userEmail policyName wasAssigned = for_user userEmail (\<lambda>e.
     if wasAssigned then revokePolicyApi e policyName else assignPolicyApi e policyName)"

definition togglePolicy_settled ::
  "translate \<Rightarrow> int \<Rightarrow> string \<Rightarrow> string \<Rightarrow> bool \<Rightarrow> string + unit \<Rightarrow> access_undo toaster \<Rightarrow> access_undo toaster"
where
  "togglePolicy_settled tr now email policyName wasAssigned r s = (case r of
      Inl m \<Rightarrow> show_access now (plain ToastError m) s
    | Inr _ \<Rightarrow>
        if wasAssigned
        then show_access now (with_undo (ReassignPolicy email policyName)
               (plain ToastInfo (tr ''users:accessDialog.policyRevokedToast'' [(''policyName'', policyName)]))) s
        else show_access now (with_undo (RerevokePolicy email policyName)
               (plain ToastSuccess (tr ''users:accessDialog.policyAssignedToast'' [(''policyName'', policyName)]))) s)"

definition requestRevokePolicyAction :: "string option \<Rightarrow> string \<Rightarrow> string \<Rightarrow> http_request option" where
  "requestRevokePolicyAction userEmail policyName action =
     for_user userEmail (\<lambda>e. revokePolicyActionApi e policyName action)"

definition requestRevokePolicyAction_settled ::
  "translate \<Rightarrow> int \<Rightarrow> string \<Rightarrow> string \<Rightarrow> string + unit \<Rightarrow> access_undo toaster \<Rightarrow> access_undo toaster" where
  "requestRevokePolicyAction_settled tr now policyName action r s = (case r of
      Inl m \<Rightarrow> show_access now (plain ToastError m) s
    | Inr _ \<Rightarrow> show_access now (plain ToastSuccess (tr ''users:policiesDialog.actionRevokedToast''
        [(''action'', action), (''policyName'', policyName)])) s)"

section \<open>Direct permissions\<close>

record direct_grant = grant +
  dg_conditions :: "json option"

definition grant_payload :: "string \<Rightarrow> string \<Rightarrow> json option \<Rightarrow> permission_assignment_payload" where
  "grant_payload action resourceType conditions =
     \<lparr>pa_action = action, pa_resource_type = resourceType, pa_conditions = conditions\<rparr>"

text \<open>The click: a toast that is shown until the request settles, and the request. The result is the
  id of that toast with the request.\<close>

definition toggleDirectPermission ::
  "translate \<Rightarrow> int \<Rightarrow> string option \<Rightarrow> string \<Rightarrow> string \<Rightarrow> direct_grant option \<Rightarrow> access_undo toaster \<Rightarrow>
     (nat \<times> http_request) option \<times> access_undo toaster"
where
  "toggleDirectPermission tr now userEmail action resourceType currentGrant s =
     (case for_user userEmail id of
        None \<Rightarrow> (None, s)
      | Some e \<Rightarrow>
          (case currentGrant of
             Some g \<Rightarrow>
               (let (i, s1) = toaster_create now (pending_toast
                      (tr ''users:accessDialog.permissionRevokingToast'' [(''action'', action)])) s
                in (Some (i, revokePermissionApi e action resourceType), s1))
           | None \<Rightarrow>
               (let (i, s1) = toaster_create now (pending_toast
                      (tr ''users:accessDialog.permissionGrantingToast'' [(''action'', action)])) s
                in (Some (i, grantPermissionApi e (grant_payload action resourceType None)), s1))))"

definition permission_failed :: "int \<Rightarrow> nat \<Rightarrow> string \<Rightarrow> access_undo toaster \<Rightarrow> access_undo toaster" where
  "permission_failed now pendingToastId m s =
     show_access now ((plain ToastError m)\<lparr>to_duration := Some (Some (Millis 8000))\<rparr>)
       (toaster_dismiss now (Some pendingToastId) s)"

definition toggleDirectPermission_settled ::
  "translate \<Rightarrow> int \<Rightarrow> string \<Rightarrow> string \<Rightarrow> string \<Rightarrow> direct_grant option \<Rightarrow> nat \<Rightarrow> string + unit \<Rightarrow>
     access_undo toaster \<Rightarrow> access_undo toaster"
where
  "toggleDirectPermission_settled tr now email action resourceType currentGrant pendingToastId r s =
     (case r of
        Inl m \<Rightarrow> permission_failed now pendingToastId m s
      | Inr _ \<Rightarrow>
          (case currentGrant of
             Some g \<Rightarrow> toaster_update now pendingToastId
               (with_undo (RegrantPermission email action resourceType
                   (nullish_or (dg_conditions g) None))
                 (plain ToastInfo (tr ''users:accessDialog.permissionRevokedToast'' [(''action'', action)]))) s
           | None \<Rightarrow> toaster_update now pendingToastId
               (with_undo (RerevokePermission email action resourceType)
                 (plain ToastSuccess (tr ''users:accessDialog.permissionGrantedToast'' [(''action'', action)]))) s))"

section \<open>Undo\<close>

text \<open>What the undo buttons send, and the toast once that request settles.\<close>

fun undo_request :: "access_undo \<Rightarrow> http_request" where
  "undo_request (ReassignPolicy e p) = assignPolicyApi e p"
| "undo_request (RerevokePolicy e p) = revokePolicyApi e p"
| "undo_request (RegrantPermission e a rt c) = grantPermissionApi e (grant_payload a rt c)"
| "undo_request (RerevokePermission e a rt) = revokePermissionApi e a rt"

fun undo_title :: "translate \<Rightarrow> access_undo \<Rightarrow> string" where
  "undo_title tr (ReassignPolicy e p) = tr ''users:accessDialog.policyAssignedToast'' [(''policyName'', p)]"
| "undo_title tr (RerevokePolicy e p) = tr ''users:accessDialog.policyRevokedToast'' [(''policyName'', p)]"
| "undo_title tr (RegrantPermission e a rt c) = tr ''users:accessDialog.permissionGrantedToast'' [(''action'', a)]"
| "undo_title tr (RerevokePermission e a rt) = tr ''users:accessDialog.permissionRevokedToast'' [(''action'', a)]"

definition undo_settled ::
  "translate \<Rightarrow> int \<Rightarrow> access_undo \<Rightarrow> string + unit \<Rightarrow> access_undo toaster \<Rightarrow> access_undo toaster" where
  "undo_settled tr now u r s = (case r of
      Inl m \<Rightarrow> show_access now (plain ToastError m) s
    | Inr _ \<Rightarrow> show_access now (plain ToastSuccess (undo_title tr u)) s)"

section \<open>Conditions of a direct grant\<close>

text \<open>The message shown under the editor (\<open>Inl\<close>), or the request, if any.\<close>

definition saveConditions ::
  "translate \<Rightarrow> (string \<Rightarrow> json_text) \<Rightarrow> string option \<Rightarrow> string \<Rightarrow> string \<Rightarrow> string \<Rightarrow> string + http_request option"
where
  "saveConditions tr parse userEmail action resourceType conditionsText =
     (case for_user userEmail id of
        None \<Rightarrow> Inr None
      | Some e \<Rightarrow>
          if truthy (js_trim conditionsText)
          then (case parse conditionsText of
                  Malformed \<Rightarrow> Inl (tr ''users:permissionsDialog.invalidConditionsJson'' [])
                | Document j \<Rightarrow> Inr (Some (grantPermissionApi e (grant_payload action resourceType (Some j)))))
          else Inr (Some (grantPermissionApi e (grant_payload action resourceType None))))"

section \<open>The dialog's state\<close>

datatype access_tab = DetailsTab | PoliciesTab | PermissionsTab
datatype access_filter = FilterAll | FilterOn | FilterOff

record access_dialog =
  ad_tab :: access_tab
  ad_polQuery :: string
  ad_polFilter :: access_filter
  ad_polOpen :: "string list"
  ad_permQuery :: string
  ad_permFilter :: access_filter
  ad_permClosedGroups :: "string list"
  ad_editingKey :: "string option"
  ad_prevIsOpen :: bool

definition access_dialog_mount :: "bool \<Rightarrow> access_dialog" where
  "access_dialog_mount isOpen = \<lparr>ad_tab = DetailsTab, ad_polQuery = [], ad_polFilter = FilterAll,
     ad_polOpen = [], ad_permQuery = [], ad_permFilter = FilterAll, ad_permClosedGroups = [],
     ad_editingKey = None, ad_prevIsOpen = isOpen\<rparr>"

definition access_dialog_render :: "bool \<Rightarrow> access_tab \<Rightarrow> access_dialog \<Rightarrow> access_dialog" where
  "access_dialog_render isOpen initialTab d =
     (if isOpen \<noteq> ad_prevIsOpen d
      then (if isOpen then (access_dialog_mount True)\<lparr>ad_tab := initialTab\<rparr> else d\<lparr>ad_prevIsOpen := False\<rparr>)
      else d)"

text \<open>\<open>if (next.has(x)) next.delete(x); else next.add(x)\<close>.\<close>

definition set_toggle :: "'a \<Rightarrow> 'a list \<Rightarrow> 'a list" where
  "set_toggle x s = (if x \<in> set s then filter (\<lambda>y. y \<noteq> x) s else s @ [x])"

definition togglePolicyOpen :: "string \<Rightarrow> access_dialog \<Rightarrow> access_dialog" where
  "togglePolicyOpen p d = d\<lparr>ad_polOpen := set_toggle p (ad_polOpen d)\<rparr>"

definition expandAllPolicies :: "policy_read list option \<Rightarrow> access_dialog \<Rightarrow> access_dialog" where
  "expandAllPolicies ps d = d\<lparr>ad_polOpen := (case ps of Some l \<Rightarrow> js_distinct (map pol_name l) | None \<Rightarrow> [])\<rparr>"

definition collapseAllPolicies :: "access_dialog \<Rightarrow> access_dialog" where
  "collapseAllPolicies d = d\<lparr>ad_polOpen := []\<rparr>"

definition togglePermGroup :: "string \<Rightarrow> access_dialog \<Rightarrow> access_dialog" where
  "togglePermGroup rt d = d\<lparr>ad_permClosedGroups := set_toggle rt (ad_permClosedGroups d)\<rparr>"

definition expandAllPermGroups :: "access_dialog \<Rightarrow> access_dialog" where
  "expandAllPermGroups d = d\<lparr>ad_permClosedGroups := []\<rparr>"

text \<open>The catalogue's resource types, the only part of its rows that is read here.\<close>

definition collapseAllPermGroups :: "string list option \<Rightarrow> access_dialog \<Rightarrow> access_dialog" where
  "collapseAllPermGroups rts d =
     d\<lparr>ad_permClosedGroups := (case rts of Some l \<Rightarrow> js_distinct l | None \<Rightarrow> [])\<rparr>"

definition armKey :: "string \<Rightarrow> string \<Rightarrow> string" where
  "armKey action resourceType = action @ ''::'' @ resourceType"

definition saveConditions_settled ::
  "translate \<Rightarrow> int \<Rightarrow> string \<Rightarrow> string + unit \<Rightarrow> access_undo toaster \<times> access_dialog \<Rightarrow>
     access_undo toaster \<times> access_dialog"
where
  "saveConditions_settled tr now action r sd = (case r of
      Inl m \<Rightarrow> (show_access now (plain ToastError m) (fst sd), snd sd)
    | Inr _ \<Rightarrow> (show_access now (plain ToastSuccess
          (tr ''users:accessDialog.conditionsSavedToast'' [(''action'', action)])) (fst sd),
        (snd sd)\<lparr>ad_editingKey := None\<rparr>))"

section \<open>Which queries the dialog runs\<close>

definition isSelf :: "string option \<Rightarrow> string option \<Rightarrow> bool" where
  "isSelf userEmail currentUserEmail \<longleftrightarrow> opt_truthy userEmail \<and> userEmail = currentUserEmail"

record access_queries =
  aq_managementPolicies :: bool
  aq_myPolicies :: bool
  aq_managementPermissions :: bool
  aq_myPermissions :: bool
  aq_allPolicies :: bool
  aq_catalog :: bool
  aq_recentChanges :: bool

definition access_queries_enabled :: "auth_state \<Rightarrow> bool \<Rightarrow> string option \<Rightarrow> access_queries" where
  "access_queries_enabled a isOpen userEmail =
     (let self = isSelf userEmail (profile_email a);
          other = isOpen \<and> opt_truthy userEmail \<and> \<not> self in
      \<lparr>aq_managementPolicies = other, aq_myPolicies = (isOpen \<and> self),
       aq_managementPermissions = other, aq_myPermissions = (isOpen \<and> self),
       aq_allPolicies = isOpen, aq_catalog = isOpen,
       aq_recentChanges = (isOpen \<and> opt_truthy userEmail \<and>
          (self \<or> useCan a (OneAction ''security_audit:read'') None))\<rparr>)"

definition RECENT_ACCESS_CHANGES_LIMIT :: int where "RECENT_ACCESS_CHANGES_LIMIT = 5"

text \<open>The query of the latest access changes: its key and the request it sends.\<close>

definition recentAccessChangesQuery :: "string option \<Rightarrow> string option \<Rightarrow> qkey \<times> http_request" where
  "recentAccessChangesQuery userEmail currentUserEmail =
     (let self = isSelf userEmail currentUserEmail;
          params = \<lparr>al_limit = Some RECENT_ACCESS_CHANGES_LIMIT, al_offset = None, al_search = None,
            al_sortBy = None, al_sortDir = None, al_from = None, al_to = None,
            al_eventType = Some ''access_change'', al_ipAddress = None, al_success = None\<rparr>
      in ([KStr ''auditLog'', KStr ''security'', KStr ''accessChanges'',
           (case userEmail of Some e \<Rightarrow> KStr e | None \<Rightarrow> KNone), KBool self],
          if self then getMySecurityAuditLogApi params
          else getUserSecurityAuditLogApi (case userEmail of Some e \<Rightarrow> e | None \<Rightarrow> []) params))"

section \<open>Toasts of the dialog\<close>

text \<open>The toast of a direct grant or revoke is opened with an infinite duration and updated, when
  the request succeeds, without one. However many timers fire from then on, it stays; the toast of
  a policy assignment leaves by itself.\<close>

theorem access_toast_stays:
  assumes "s = foldl toaster_step toaster_initial es"
    and "toggleDirectPermission tr now userEmail action resourceType g s = (Some (i, request), s1)"
    and "list_all is_tick ts" and "s2 = foldl toaster_step s1 ts"
    and "s3 = toggleDirectPermission_settled tr later email action resourceType g i (Inr ()) s2"
    and "list_all is_tick us"
  shows "i \<in> at_id ` set (toasts (foldl toaster_step s3 us))
    \<and> (\<forall>t \<in> set (toasts s3). at_id t = i \<longrightarrow> \<not> leaves_by_itself t)
    \<and> (\<forall>p b t. t \<in> set (toasts (togglePolicy_settled tr later email p b (Inr ()) s2)) \<longrightarrow>
          at_id t = nextId s2 \<longrightarrow> leaves_by_itself t)"
proof -
  have ok: "toaster_ok s" unfolding assms(1) by (rule reachable_toaster_ok)
  have "\<exists>title. i = fst (toaster_create now (pending_toast title) s)
      \<and> s1 = snd (toaster_create now (pending_toast title) s)"
    using assms(2)
    by (auto simp: toggleDirectPermission_def split: option.splits prod.splits) (metis fst_conv snd_conv)+
  then have 1: "stuck i s1" "toaster_ok s1"
    using create_infinite_stuck [OF ok] create_ok [OF ok]
    by (auto simp: pending_toast_def plain_def)
  have 2: "stuck i s2" "toaster_ok s2"
    using ticks_stuck [OF 1(1) assms(3)] toast_machine.run_inv [OF 1(2)] by (simp_all add: assms(4))
  have 3: "stuck i s3"
    using 2(1) unfolding assms(5) toggleDirectPermission_settled_def
    by (auto intro!: update_keeps_stuck simp: with_undo_def plain_def split: option.split)
  have "stuck i (foldl toaster_step s3 us)" by (rule ticks_stuck [OF 3 assms(6)])
  moreover have "\<forall>t \<in> set (toasts s3). at_id t = i \<longrightarrow> \<not> leaves_by_itself t"
    using 3 by (auto simp: stuck_def leaves_by_itself_def)
  moreover have "leaves_by_itself t"
    if "t \<in> set (toasts (togglePolicy_settled tr later email p b (Inr ()) s2))" "at_id t = nextId s2"
    for p b t
    using that created_leaves [OF 2(2), of t later _ ] 
    by (auto simp: togglePolicy_settled_def with_undo_def plain_def split: if_splits)
  ultimately show ?thesis by (auto simp: stuck_def)
qed

theorem access_toast_stays_witness:
  "1 \<in> at_id ` set (toasts (foldl toaster_step
     (toggleDirectPermission_settled (\<lambda>k ps. k) 5 ''a@x'' ''users:delete'' ''*'' None 1 (Inr ())
       (snd (toggleDirectPermission (\<lambda>k ps. k) 0 (Some ''a@x'') ''users:delete'' ''*'' None toaster_initial)))
     [TTimer 10000 1, TExit 20000 1]))"
proof -
  let ?tg = "toggleDirectPermission (\<lambda>k ps. k) 0 (Some ''a@x'') ''users:delete'' ''*'' None
    (foldl toaster_step toaster_initial [])"
  have "?tg = (Some (1, grantPermissionApi ''a@x'' (grant_payload ''users:delete'' ''*'' None)), snd ?tg)"
    by (simp add: toggleDirectPermission_def for_user_def toaster_create_def toaster_initial_def Let_def)
  from access_toast_stays [OF refl this, where ts = "[]" and us = "[TTimer 10000 1, TExit 20000 1]"
      and later = 5 and email = "''a@x''", OF _ refl refl]
  show ?thesis by simp
qed

section \<open>Undo\<close>

text \<open>The newest toast of the queue.\<close>

definition newest :: "'a toaster \<Rightarrow> 'a app_toast option" where
  "newest s = (case rev (toasts s) of [] \<Rightarrow> None | t # ts \<Rightarrow> Some t)"

lemma newest_created:
  "newest (snd (toaster_create now o1 s)) = Some \<lparr>at_id = nextId s, at_title = to_title o1,
     at_description = given (to_description o1),
     at_type = (case to_type o1 of Some ty \<Rightarrow> ty | None \<Rightarrow> ToastSuccess),
     at_duration = given (to_duration o1), at_action = given (to_action o1), at_exiting = False\<rparr>"
  by (simp add: newest_def toaster_create_def Let_def)

lemma update_action:
  assumes "find_toast i s = Some t" and "to_action o1 = Some (Some a)"
  shows "find_toast i (toaster_update now i o1 s) = Some (updated_toast o1 t)"
    and "at_action (updated_toast o1 t) = Some a"
proof -
  have "List.find (\<lambda>t. at_id t = i) (map (\<lambda>t'. if at_id t' = i then u else t') ts) = Some u"
    if "List.find (\<lambda>t. at_id t = i) ts = Some t" "at_id u = i" for u ts
    using that by (induction ts) (auto split: if_splits)
  moreover have "at_id (updated_toast o1 t) = i"
    using find_toast_Some [OF assms(1)] by (simp add: updated_toast_def)
  ultimately show "find_toast i (toaster_update now i o1 s) = Some (updated_toast o1 t)"
    using assms(1) by (simp add: find_toast_def toaster_update_def Let_def clearTimer_def)
  show "at_action (updated_toast o1 t) = Some a" by (simp add: updated_toast_def spread_def assms(2))
qed

text \<open>Every undo the dialog offers sends the request of the opposite click: for a policy, the one
  \<open>togglePolicy\<close> sends when the assignment is the other way round; for a direct grant, a revoke;
  for a revoked grant, a grant of the same action and resource type with the conditions it had. A
  failed request offers no undo.\<close>

theorem access_undo_reverses:
  assumes "truthy email" and "find_toast i s = Some t"
  shows "(case newest (togglePolicy_settled tr now email p was r s) of
        None \<Rightarrow> False
      | Some n \<Rightarrow> (case at_action n of
          None \<Rightarrow> \<exists>m. r = Inl m
        | Some u \<Rightarrow> r = Inr () \<and> Some (undo_request u) = togglePolicy (Some email) p (\<not> was)))
    \<and> (case Option.bind (find_toast i (toggleDirectPermission_settled tr now email action rt g i (Inr ()) s))
          at_action of
        None \<Rightarrow> False
      | Some u \<Rightarrow> undo_request u = (case g of
          None \<Rightarrow> revokePermissionApi email action rt
        | Some d \<Rightarrow> grantPermissionApi email (grant_payload action rt (nullish_or (dg_conditions d) None))))
    \<and> newest (toggleDirectPermission_settled tr now email action rt g i (Inl m) s) \<noteq> None
    \<and> Option.bind (newest (toggleDirectPermission_settled tr now email action rt g i (Inl m) s)) at_action = None"
  using assms
  by (auto simp: togglePolicy_settled_def newest_created with_undo_def plain_def given_def
      togglePolicy_def for_user_def toggleDirectPermission_settled_def permission_failed_def update_action
      split: sum.splits option.splits)

theorem access_undo_reverses_witness:
  "case newest (togglePolicy_settled (\<lambda>k ps. k) 0 ''a@x'' ''P'' True (Inr ())
      (snd (toaster_create 0 (pending_toast ''t'') toaster_initial))) of
     None \<Rightarrow> False
   | Some n \<Rightarrow> (case at_action n of
       None \<Rightarrow> False
     | Some u \<Rightarrow> undo_request u = assignPolicyApi ''a@x'' ''P'')"
proof -
  let ?s = "snd (toaster_create 0 (pending_toast ''t'') toaster_initial)"
  have "find_toast 1 ?s = Some (hd (toasts ?s))"
    by (simp add: toaster_create_def toaster_initial_def find_toast_def armAutoDismiss_def given_def
        pending_toast_def plain_def)
  from access_undo_reverses [OF _ this, where email = "''a@x''" and tr = "\<lambda>k ps. k" and now = 0
      and p = "''P''" and was = True and r = "Inr ()", THEN conjunct1]
  show ?thesis by (auto simp: togglePolicy_def for_user_def split: option.splits)
qed

end
