(* ===== verification/UsersPage.thy ===== *)
theory UsersPage
  imports UiHooks UserAccess
begin

text \<open>
  The users page: filters kept in the page store and in the address bar
  (\<open>users/useUsersPageFilters.ts\<close>, \<open>users/usersUiStore.ts\<close>), the queries of
  \<open>users/queries/userQueries.ts\<close> with the collection of all matching emails, and the page's
  selection, dialogs and handlers (\<open>users/useUsersPageState.ts\<close>).

  A setter closes over the address bar of the render it was created in, so it takes that snapshot as
  an argument, apart from the current state. A navigation replaces the whole query string.
\<close>

section \<open>URLSearchParams\<close>

type_synonym url_params = "(string \<times> string) list"

definition url_get :: "string \<Rightarrow> url_params \<Rightarrow> string option" where
  "url_get k u = map_of u k"

definition url_delete :: "string \<Rightarrow> url_params \<Rightarrow> url_params" where
  "url_delete k u = filter (\<lambda>p. fst p \<noteq> k) u"

fun url_set :: "string \<Rightarrow> string \<Rightarrow> url_params \<Rightarrow> url_params" where
  "url_set k v [] = [(k, v)]"
| "url_set k v (p # ps) = (if fst p = k then (k, v) # url_delete k ps else p # url_set k v ps)"

lemma url_get_delete [simp]: "url_get j (url_delete k u) = (if j = k then None else url_get j u)"
  by (induction u) (auto simp: url_get_def url_delete_def)

lemma url_get_set [simp]: "url_get j (url_set k v u) = (if j = k then Some v else url_get j u)"
proof (induction u)
  case (Cons p ps)
  then show ?case using url_get_delete [of j k ps] by (cases p) (auto simp: url_get_def)
qed (simp add: url_get_def)

section \<open>Filters\<close>

definition USERS_ALL_VALUE :: string where "USERS_ALL_VALUE = []"

record users_ui =
  uu_role :: string
  uu_verified :: string
  uu_status :: string
  uu_policy :: string
  uu_permission :: string
  uu_lastLogin :: string
  uu_sort :: sort_state

definition useUsersUiStore :: "users_ui session_ui_store" where
  "useUsersUiStore = createSessionUiStore \<lparr>uu_role = USERS_ALL_VALUE, uu_verified = USERS_ALL_VALUE,
     uu_status = USERS_ALL_VALUE, uu_policy = USERS_ALL_VALUE, uu_permission = USERS_ALL_VALUE, uu_lastLogin = USERS_ALL_VALUE,
     uu_sort = \<lparr>sort_key = [], sort_dir = Desc\<rparr>\<rparr>"

record users_filters =
  uf_store :: "users_ui session_ui_store"
  uf_url :: url_params
  uf_search :: string

abbreviation uf_ui :: "users_filters \<Rightarrow> users_ui" where
  "uf_ui s \<equiv> ui_state (uf_store s)"

text \<open>The hook mounts with the address bar of that moment.\<close>

definition users_filters_mount :: "users_ui session_ui_store \<Rightarrow> url_params \<Rightarrow> users_filters" where
  "users_filters_mount st url = \<lparr>uf_store = st, uf_url = url,
     uf_search = (case url_get ''search'' url of Some v \<Rightarrow> v | None \<Rightarrow> [])\<rparr>"

definition patch_users :: "(users_ui \<Rightarrow> users_ui) \<Rightarrow> users_filters \<Rightarrow> users_filters" where
  "patch_users patch s = s\<lparr>uf_store := ui_update patch (uf_store s)\<rparr>"

definition policy_filter :: "users_filters \<Rightarrow> string" where
  "policy_filter s = (case url_get ''policy'' (uf_url s) of Some v \<Rightarrow> v | None \<Rightarrow> uu_policy (uf_ui s))"

definition permission_filter :: "users_filters \<Rightarrow> string" where
  "permission_filter s =
     (case url_get ''permission'' (uf_url s) of Some v \<Rightarrow> v | None \<Rightarrow> uu_permission (uf_ui s))"

definition permissionSource :: "users_filters \<Rightarrow> string option" where
  "permissionSource s = (case url_get ''permission_source'' (uf_url s) of
      Some v \<Rightarrow> if v = ''policy'' \<or> v = ''direct'' then Some v else None
    | None \<Rightarrow> None)"

definition setSearch :: "string \<Rightarrow> users_filters \<Rightarrow> users_filters" where
  "setSearch v s = s\<lparr>uf_search := v\<rparr>"

definition setRole :: "string \<Rightarrow> users_filters \<Rightarrow> users_filters" where
  "setRole v = patch_users (\<lambda>u. u\<lparr>uu_role := v\<rparr>)"

definition setVerified :: "string \<Rightarrow> users_filters \<Rightarrow> users_filters" where
  "setVerified v = patch_users (\<lambda>u. u\<lparr>uu_verified := v\<rparr>)"

definition setStatus :: "string \<Rightarrow> users_filters \<Rightarrow> users_filters" where
  "setStatus v = patch_users (\<lambda>u. u\<lparr>uu_status := v\<rparr>)"

definition setLastLogin :: "string \<Rightarrow> users_filters \<Rightarrow> users_filters" where
  "setLastLogin v = patch_users (\<lambda>u. u\<lparr>uu_lastLogin := v\<rparr>)"

definition toggleSort :: "string \<Rightarrow> users_filters \<Rightarrow> users_filters" where
  "toggleSort key = patch_users (\<lambda>u. u\<lparr>uu_sort := nextSortState (uu_sort u) key\<rparr>)"

definition setPolicy :: "url_params \<Rightarrow> string \<Rightarrow> users_filters \<Rightarrow> users_filters" where
  "setPolicy searchParams v s =
     (let s1 = patch_users (\<lambda>u. u\<lparr>uu_policy := v\<rparr>) s in
      if url_get ''policy'' searchParams \<noteq> None
      then s1\<lparr>uf_url := (if v = USERS_ALL_VALUE then url_delete ''policy'' searchParams
                        else url_set ''policy'' v searchParams)\<rparr>
      else s1)"

definition setPermission :: "url_params \<Rightarrow> string \<Rightarrow> users_filters \<Rightarrow> users_filters" where
  "setPermission searchParams v s =
     (let s1 = patch_users (\<lambda>u. u\<lparr>uu_permission := v\<rparr>) s in
      if url_get ''permission'' searchParams \<noteq> None
      then s1\<lparr>uf_url := (if v = USERS_ALL_VALUE
                        then url_delete ''permission_source'' (url_delete ''permission'' searchParams)
                        else url_set ''permission'' v searchParams)\<rparr>
      else s1)"

definition hasActiveFilters :: "users_filters \<Rightarrow> bool" where
  "hasActiveFilters s \<longleftrightarrow> truthy (uf_search s) \<or> uu_role (uf_ui s) \<noteq> USERS_ALL_VALUE
     \<or> uu_verified (uf_ui s) \<noteq> USERS_ALL_VALUE \<or> uu_status (uf_ui s) \<noteq> USERS_ALL_VALUE
     \<or> policy_filter s \<noteq> USERS_ALL_VALUE \<or> permission_filter s \<noteq> USERS_ALL_VALUE
     \<or> permissionSource s \<noteq> None \<or> uu_lastLogin (uf_ui s) \<noteq> USERS_ALL_VALUE"

text \<open>One click: every setter closes over the same \<open>searchParams\<close>.\<close>

definition clearFilters :: "url_params \<Rightarrow> users_filters \<Rightarrow> users_filters" where
  "clearFilters searchParams s =
     (setLastLogin USERS_ALL_VALUE \<circ> setPermission searchParams USERS_ALL_VALUE \<circ> setPolicy searchParams USERS_ALL_VALUE
      \<circ> setStatus USERS_ALL_VALUE \<circ> setVerified USERS_ALL_VALUE \<circ> setRole USERS_ALL_VALUE \<circ> setSearch []) s"

lemmas filter_setters =
  setSearch_def setRole_def setVerified_def setStatus_def setLastLogin_def setPolicy_def
  setPermission_def patch_users_def ui_update_def Let_def

text \<open>"Clear filters" clears every filter exactly when the address bar does not carry both a policy
  and a permission, nor a permission source without a permission. With both deep links the policy
  stays, because the second navigation starts from the address bar of the click and brings it back.\<close>

theorem clear_filters_exact:
  "(hasActiveFilters (clearFilters (uf_url s) s) \<longleftrightarrow>
     ((\<exists>p. url_get ''policy'' (uf_url s) = Some p \<and> p \<noteq> USERS_ALL_VALUE) \<and> url_get ''permission'' (uf_url s) \<noteq> None)
     \<or> (permissionSource s \<noteq> None \<and> url_get ''permission'' (uf_url s) = None))
   \<and> (\<forall>p q. url_get ''policy'' (uf_url s) = Some p \<longrightarrow> url_get ''permission'' (uf_url s) = Some q \<longrightarrow>
        policy_filter (clearFilters (uf_url s) s) = p)"
  by (auto simp: clearFilters_def filter_setters hasActiveFilters_def policy_filter_def
      permission_filter_def permissionSource_def USERS_ALL_VALUE_def split: option.splits)

theorem clear_filters_exact_witness:
  "policy_filter (clearFilters [(''policy'', ''P''), (''permission'', ''users:read'')]
     (users_filters_mount useUsersUiStore [(''policy'', ''P''), (''permission'', ''users:read'')])) = ''P''"
  using clear_filters_exact [of "users_filters_mount useUsersUiStore
      [(''policy'', ''P''), (''permission'', ''users:read'')]", THEN conjunct2]
  by (simp add: users_filters_mount_def url_get_def)

section \<open>userQueries.ts\<close>

definition SELECT_ALL_MATCHING_MAX :: nat where "SELECT_ALL_MATCHING_MAX = 2000"

text \<open>The filters as the queries take them: an absent field is \<open>None\<close>.\<close>

record users_query_filters =
  uq_search :: "string option"
  uq_role :: "string option"
  uq_isVerified :: "bool option"
  uq_status :: "string option"
  uq_policy :: "string option"
  uq_permission :: "string option"
  uq_permissionSource :: "string option"
  uq_lastLogin :: "string option"
  uq_sortBy :: "string option"
  uq_sortDir :: "string option"

definition users_page_request :: "int \<Rightarrow> int \<Rightarrow> users_query_filters \<Rightarrow> http_request" where
  "users_page_request limit offset f = listUsersApi \<lparr>lu_limit = Some limit, lu_offset = Some offset,
     lu_search = Option.bind (uq_search f) or_undefined, lu_role = uq_role f,
     lu_isVerified = uq_isVerified f, lu_status = uq_status f, lu_policy = uq_policy f,
     lu_permission = uq_permission f, lu_permissionSource = uq_permissionSource f,
     lu_sortBy = uq_sortBy f, lu_sortDir = uq_sortDir f, lu_lastLogin = uq_lastLogin f,
     lu_lastLoginFrom = None, lu_lastLoginTo = None\<rparr>"

text \<open>An answer: the rows with, of the header, \<open>Number(...)\<close> when that is finite.\<close>

record managed_user =
  mu_id :: int
  mu_name :: string
  mu_email :: string
  mu_role :: string

record users_response =
  ur_data :: "managed_user list"
  ur_total :: "int option"

definition useUsersQuery :: "int \<Rightarrow> int \<Rightarrow> users_query_filters \<Rightarrow> http_request" where
  "useUsersQuery page pageSize f = users_page_request pageSize ((page - 1) * pageSize) f"

definition users_page_of :: "users_response \<Rightarrow> managed_user list \<times> int" where
  "users_page_of r = (ur_data r, case ur_total r of Some n \<Rightarrow> n | None \<Rightarrow> 0)"

definition FETCH_PAGE_SIZE :: nat where "FETCH_PAGE_SIZE = 1000"

definition too_many_message :: string where
  "too_many_message = ''This filter matches more than '' @ nat_text SELECT_ALL_MATCHING_MAX
     @ '' users. Narrow the filters and try again.''"

text \<open>The loop over the pages. The server may keep a state, a failing request ends the loop with the
  message of its error.\<close>

function fetch_pages ::
  "('s \<Rightarrow> http_request \<Rightarrow> (string + users_response) \<times> 's) \<Rightarrow> users_query_filters \<Rightarrow> nat \<Rightarrow> string list \<Rightarrow> 's \<Rightarrow>
     (string + string list) \<times> 's"
where
  "fetch_pages srv f offset emails s =
     (case srv s (users_page_request (int FETCH_PAGE_SIZE) (int offset) f) of
        (Inl e, s1) \<Rightarrow> (Inl e, s1)
      | (Inr r, s1) \<Rightarrow>
          (let all = emails @ map mu_email (ur_data r) in
           if length all > SELECT_ALL_MATCHING_MAX then (Inl too_many_message, s1)
           else (case ur_total r of
              None \<Rightarrow> (Inr all, s1)
            | Some n \<Rightarrow> if int (length all) \<ge> n \<or> ur_data r = [] then (Inr all, s1)
                else fetch_pages srv f (offset + FETCH_PAGE_SIZE) all s1)))"
  by pat_completeness auto
termination
  by (relation "measure (\<lambda>(srv, f, offset, emails, s). Suc SELECT_ALL_MATCHING_MAX - length emails)")
    (auto simp: length_greater_0_conv [symmetric] simp del: length_greater_0_conv)

declare fetch_pages.simps [simp del]

definition fetchAllMatchingUserEmails ::
  "('s \<Rightarrow> http_request \<Rightarrow> (string + users_response) \<times> 's) \<Rightarrow> users_query_filters \<Rightarrow> 's \<Rightarrow>
     (string + string list) \<times> 's"
where
  "fetchAllMatchingUserEmails srv f s = fetch_pages srv f 0 [] s"

text \<open>A server that pages through a fixed list and puts \<open>h\<close> into the header.\<close>

definition lists_users ::
  "('s \<Rightarrow> http_request \<Rightarrow> (string + users_response) \<times> 's) \<Rightarrow> users_query_filters \<Rightarrow> managed_user list \<Rightarrow>
     int option \<Rightarrow> bool"
where
  "lists_users srv f us h \<longleftrightarrow> (\<forall>k s. srv s (users_page_request (int FETCH_PAGE_SIZE) (int k) f) =
     (Inr \<lparr>ur_data = take FETCH_PAGE_SIZE (drop k us), ur_total = h\<rparr>, s))"

lemma fetch_pages_bound:
  "fst (fetch_pages srv f offset emails s) = Inr es \<Longrightarrow> length es \<le> SELECT_ALL_MATCHING_MAX"
proof (induction srv f offset emails s rule: fetch_pages.induct)
  case (1 srv f offset emails s)
  show ?case
  proof (cases "srv s (users_page_request (int FETCH_PAGE_SIZE) (int offset) f)")
    case (Pair r s1)
    show ?thesis
    proof (cases r)
      case (Inl e)
      with Pair 1(2) show ?thesis by (simp add: fetch_pages.simps [of srv])
    next
      case (Inr p)
      note IH = 1(1) [OF Pair [symmetric] Inr refl]
      from 1(2) show ?thesis
        unfolding fetch_pages.simps [of srv f offset] Pair Inr Let_def sum.case prod.case
        using IH by (auto split: if_splits option.splits)
    qed
  qed
qed

lemma fetch_pages_step:
  assumes "lists_users srv f us h"
  shows "fetch_pages srv f k (map mu_email (take k us)) s =
    (if min (k + FETCH_PAGE_SIZE) (length us) > SELECT_ALL_MATCHING_MAX then (Inl too_many_message, s)
     else if h = None \<or> int (min (k + FETCH_PAGE_SIZE) (length us)) \<ge> the h \<or> length us \<le> k
       then (Inr (map mu_email (take (k + FETCH_PAGE_SIZE) us)), s)
     else fetch_pages srv f (k + FETCH_PAGE_SIZE) (map mu_email (take (k + FETCH_PAGE_SIZE) us)) s)"
proof -
  have all: "map mu_email (take k us) @ map mu_email (take FETCH_PAGE_SIZE (drop k us))
      = map mu_email (take (k + FETCH_PAGE_SIZE) us)"
    by (simp add: take_add)
  have len: "length (map mu_email (take (k + FETCH_PAGE_SIZE) us)) = min (k + FETCH_PAGE_SIZE) (length us)"
    by simp
  have empty: "take FETCH_PAGE_SIZE (drop k us) = [] \<longleftrightarrow> length us \<le> k"
    by (auto simp: FETCH_PAGE_SIZE_def)
  show ?thesis
    using assms
    unfolding fetch_pages.simps [of srv f k] lists_users_def
    by (simp only: prod.case sum.case users_response.simps all len empty Let_def)
      (auto split: option.splits)
qed

text \<open>C22. "Select all matching" always returns: the loop ends on every server, and never with more than
  2000 emails. Against a server that reports its total it returns exactly the matching users, in
  order, or the error when there are more than 2000. Against one whose header is missing it returns
  the first 1000 without any error.\<close>

theorem select_all_fetch:
  "(fst (fetchAllMatchingUserEmails srv f s) = Inr es \<longrightarrow> length es \<le> 2000)
   \<and> (lists_users srv f us (Some (int (length us))) \<longrightarrow> fetchAllMatchingUserEmails srv f s =
        (if length us \<le> 2000 then Inr (map mu_email us) else Inl too_many_message, s))
   \<and> (lists_users srv f us None \<longrightarrow>
        fetchAllMatchingUserEmails srv f s = (Inr (map mu_email (take 1000 us)), s))"
proof (intro conjI impI)
  assume "fst (fetchAllMatchingUserEmails srv f s) = Inr es"
  then show "length es \<le> 2000"
    unfolding fetchAllMatchingUserEmails_def
    by (metis SELECT_ALL_MATCHING_MAX_def fetch_pages_bound)
next
  assume a: "lists_users srv f us (Some (int (length us)))"
  note step = fetch_pages_step [OF a, unfolded FETCH_PAGE_SIZE_def SELECT_ALL_MATCHING_MAX_def, of _ s]
  show "fetchAllMatchingUserEmails srv f s =
      (if length us \<le> 2000 then Inr (map mu_email us) else Inl too_many_message, s)"
    unfolding fetchAllMatchingUserEmails_def
    using step [of 0] step [of 1000] step [of 2000] by (auto split: if_splits)
next
  assume a: "lists_users srv f us None"
  show "fetchAllMatchingUserEmails srv f s = (Inr (map mu_email (take 1000 us)), s)"
    unfolding fetchAllMatchingUserEmails_def
    using fetch_pages_step [OF a, of 0 s] by (simp add: FETCH_PAGE_SIZE_def SELECT_ALL_MATCHING_MAX_def)
qed

definition no_users_filters :: users_query_filters where
  "no_users_filters = \<lparr>uq_search = None, uq_role = None, uq_isVerified = None, uq_status = None,
     uq_policy = None, uq_permission = None, uq_permissionSource = None, uq_lastLogin = None,
     uq_sortBy = None, uq_sortDir = None\<rparr>"

theorem select_all_fetch_witness:
  "fetchAllMatchingUserEmails
     (\<lambda>(s :: unit) r. (Inr \<lparr>ur_data = (if r = users_page_request 1000 0 no_users_filters
          then [\<lparr>mu_id = 1, mu_name = ''A'', mu_email = ''a@x'', mu_role = ''user''\<rparr>] else []), ur_total = Some 1\<rparr>, s))
     no_users_filters () = (Inr [''a@x''], ())"
proof -
  let ?srv = "\<lambda>(s :: unit) r. (Inr \<lparr>ur_data = (if r = users_page_request 1000 0 no_users_filters
      then [\<lparr>mu_id = 1, mu_name = ''A'', mu_email = ''a@x'', mu_role = ''user''\<rparr>] else []), ur_total = Some 1\<rparr>, s)"
  have "lists_users ?srv no_users_filters [\<lparr>mu_id = 1, mu_name = ''A'', mu_email = ''a@x'', mu_role = ''user''\<rparr>] (Some 1)"
    by (auto simp: lists_users_def FETCH_PAGE_SIZE_def users_page_request_def listUsersApi_def http_get_def
        toApiParams_def or_default_def take_Cons')
  with select_all_fetch [of ?srv no_users_filters "()" "[]" "[\<lparr>mu_id = 1, mu_name = ''A'', mu_email = ''a@x'', mu_role = ''user''\<rparr>]"]
  show ?thesis by simp
qed

section \<open>useUsersPageState.ts\<close>

definition USERS_PAGE_SIZE :: int where "USERS_PAGE_SIZE = 25"

definition users_toBoolFilter :: "string \<Rightarrow> bool option" where
  "users_toBoolFilter v = (if v = USERS_ALL_VALUE then None else Some (v = ''true''))"

datatype bulk_dialog = BulkPolicy | BulkPermission | BulkRole

record users_page =
  up_filters :: users_filters
  up_debounced :: string
  up_page :: page_cell
  up_deletingUser :: "managed_user option"
  up_purgingUser :: "managed_user option"
  up_pendingRoleChange :: "(managed_user \<times> string) option"
  up_accessUser :: "managed_user option"
  up_accessTab :: access_tab
  up_selectedUserIds :: "int set"
  up_selectAllMatching :: bool
  up_allMatchingEmails :: "string list"
  up_isSelectingAllMatching :: bool
  up_bulkDialog :: "bulk_dialog option"
  up_rowClickSelects :: bool
  up_prevSelectionKey :: string

fun direction_text :: "sort_direction \<Rightarrow> string" where
  "direction_text Asc = ''asc''"
| "direction_text Desc = ''desc''"

definition filterResetKey :: "users_page \<Rightarrow> string" where
  "filterResetKey p = (let f = up_filters p; u = uf_ui f in
     js_join ''|'' [up_debounced p, sort_key (uu_sort u), direction_text (sort_dir (uu_sort u)),
       uu_role u, uu_verified u, uu_status u, policy_filter f, permission_filter f,
       (case permissionSource f of Some v \<Rightarrow> v | None \<Rightarrow> ''undefined''), uu_lastLogin u])"

definition selectionResetKey :: "users_page \<Rightarrow> string" where
  "selectionResetKey p = int_text (cell_page (up_page p)) @ ''|'' @ filterResetKey p"

definition users_page_mount :: "users_filters \<Rightarrow> users_page" where
  "users_page_mount f =
     (let p = \<lparr>up_filters = f, up_debounced = uf_search f, up_page = page_mount [],
            up_deletingUser = None, up_purgingUser = None, up_pendingRoleChange = None,
            up_accessUser = None, up_accessTab = DetailsTab, up_selectedUserIds = {},
            up_selectAllMatching = False, up_allMatchingEmails = [], up_isSelectingAllMatching = False,
            up_bulkDialog = None, up_rowClickSelects = False, up_prevSelectionKey = []\<rparr>;
          q = p\<lparr>up_page := page_mount (filterResetKey p)\<rparr>
      in q\<lparr>up_prevSelectionKey := selectionResetKey q\<rparr>)"

definition clearSelection :: "users_page \<Rightarrow> users_page" where
  "clearSelection p = p\<lparr>up_selectedUserIds := {}, up_selectAllMatching := False\<rparr>"

text \<open>What rendering does to the state: the page number first, then the selection.\<close>

definition users_page_render :: "users_page \<Rightarrow> users_page" where
  "users_page_render p =
     (let q = p\<lparr>up_page := usePageResetOn (filterResetKey p) (up_page p)\<rparr> in
      if selectionResetKey q \<noteq> up_prevSelectionKey q
      then clearSelection (q\<lparr>up_prevSelectionKey := selectionResetKey q\<rparr>)
      else q)"

definition activeFilters :: "users_page \<Rightarrow> users_query_filters" where
  "activeFilters p = (let f = up_filters p; u = uf_ui f in
     \<lparr>uq_search = Some (up_debounced p), uq_role = or_undefined (uu_role u),
      uq_isVerified = users_toBoolFilter (uu_verified u), uq_status = or_undefined (uu_status u),
      uq_policy = or_undefined (policy_filter f), uq_permission = or_undefined (permission_filter f),
      uq_permissionSource = permissionSource f, uq_lastLogin = or_undefined (uu_lastLogin u),
      uq_sortBy = None, uq_sortDir = None\<rparr>)"

definition page_request :: "users_page \<Rightarrow> http_request" where
  "page_request p = useUsersQuery (cell_page (up_page p)) USERS_PAGE_SIZE
     ((activeFilters p)\<lparr>uq_sortBy := or_undefined (sort_key (uu_sort (uf_ui (up_filters p)))),
        uq_sortDir := Some (direction_text (sort_dir (uu_sort (uf_ui (up_filters p)))))\<rparr>)"

definition users_totalPages :: "(managed_user list \<times> int) option \<Rightarrow> int" where
  "users_totalPages data = (case data of
      Some (us, n) \<Rightarrow> max 1 (- ((- n) div USERS_PAGE_SIZE))
    | None \<Rightarrow> 1)"

definition selectedUserEmails :: "managed_user list option \<Rightarrow> users_page \<Rightarrow> string list" where
  "selectedUserEmails users p =
     (if up_selectAllMatching p then up_allMatchingEmails p
      else map mu_email (filter (\<lambda>u. mu_id u \<in> up_selectedUserIds p)
        (case users of Some us \<Rightarrow> us | None \<Rightarrow> [])))"

definition selectedCount :: "(managed_user list \<times> int) option \<Rightarrow> users_page \<Rightarrow> int" where
  "selectedCount data p =
     (if up_selectAllMatching p
      then (case data of Some (us, n) \<Rightarrow> n | None \<Rightarrow> int (length (up_allMatchingEmails p)))
      else int (card (up_selectedUserIds p)))"

definition handleSelectionChange :: "(int set \<Rightarrow> int set) \<Rightarrow> users_page \<Rightarrow> users_page" where
  "handleSelectionChange f p =
     p\<lparr>up_selectAllMatching := False, up_selectedUserIds := f (up_selectedUserIds p)\<rparr>"

text \<open>The click starts the collection with the filters of that moment; it settles later.\<close>

definition handleSelectAllMatching :: "users_page \<Rightarrow> users_query_filters \<times> users_page" where
  "handleSelectAllMatching p = (activeFilters p, p\<lparr>up_isSelectingAllMatching := True\<rparr>)"

definition select_all_settled ::
  "string + string list \<Rightarrow> users_page \<Rightarrow> 'a toast_options option \<times> users_page" where
  "select_all_settled r p = (case r of
      Inr emails \<Rightarrow> (None, p\<lparr>up_allMatchingEmails := emails, up_selectAllMatching := True,
         up_isSelectingAllMatching := False\<rparr>)
    | Inl m \<Rightarrow> (Some (plain ToastError m), p\<lparr>up_isSelectingAllMatching := False\<rparr>))"

section \<open>The dialogs' confirmations\<close>

definition handleExport :: "users_page \<Rightarrow> http_request" where
  "handleExport p = (let f = activeFilters p in exportUsersApi \<lparr>lu_limit = None, lu_offset = None,
     lu_search = uq_search f, lu_role = uq_role f, lu_isVerified = uq_isVerified f,
     lu_status = uq_status f, lu_policy = uq_policy f, lu_permission = uq_permission f,
     lu_permissionSource = uq_permissionSource f, lu_sortBy = None, lu_sortDir = None,
     lu_lastLogin = uq_lastLogin f, lu_lastLoginFrom = None, lu_lastLoginTo = None\<rparr>)"

definition export_settled :: "string + unit \<Rightarrow> 'a toast_options option" where
  "export_settled r = (case r of Inl m \<Rightarrow> Some (plain ToastError m) | Inr _ \<Rightarrow> None)"

definition handleRoleChangeConfirm :: "users_page \<Rightarrow> http_request option" where
  "handleRoleChangeConfirm p = (case up_pendingRoleChange p of
      None \<Rightarrow> None
    | Some (u, newRole) \<Rightarrow> Some (updateUserRoleApi (mu_email u) newRole))"

definition handleDeleteConfirm :: "users_page \<Rightarrow> http_request option" where
  "handleDeleteConfirm p = map_option (\<lambda>u. deleteUserApi (mu_email u)) (up_deletingUser p)"

definition handlePurgeConfirm :: "users_page \<Rightarrow> http_request option" where
  "handlePurgeConfirm p = map_option (\<lambda>u. purgeUserApi (mu_email u)) (up_purgingUser p)"

definition handleReactivate :: "string \<Rightarrow> http_request" where
  "handleReactivate userEmail = reactivateUserApi userEmail"

datatype users_action = RoleChange | Deactivate | Purge | Reactivate

fun action_toast_key :: "users_action \<Rightarrow> string" where
  "action_toast_key RoleChange = ''users:page.roleUpdatedToast''"
| "action_toast_key Deactivate = ''users:page.userDeactivatedToast''"
| "action_toast_key Purge = ''users:page.userDeletedToast''"
| "action_toast_key Reactivate = ''users:page.userReactivatedToast''"

fun close_dialog :: "users_action \<Rightarrow> users_page \<Rightarrow> users_page" where
  "close_dialog RoleChange p = p\<lparr>up_pendingRoleChange := None\<rparr>"
| "close_dialog Deactivate p = p\<lparr>up_deletingUser := None\<rparr>"
| "close_dialog Purge p = p\<lparr>up_purgingUser := None\<rparr>"
| "close_dialog Reactivate p = p"

definition users_action_settled ::
  "translate \<Rightarrow> users_action \<Rightarrow> string + unit \<Rightarrow> users_page \<Rightarrow> 'a toast_options \<times> users_page" where
  "users_action_settled tr a r p = (case r of
      Inr _ \<Rightarrow> (plain ToastSuccess (tr (action_toast_key a) []), close_dialog a p)
    | Inl m \<Rightarrow> (plain ToastError m, p))"

definition onRoleChangeRequest :: "managed_user \<Rightarrow> string \<Rightarrow> users_page \<Rightarrow> users_page" where
  "onRoleChangeRequest u newRole p = p\<lparr>up_pendingRoleChange := Some (u, newRole)\<rparr>"

definition onOpenAccess :: "managed_user \<Rightarrow> access_tab \<Rightarrow> users_page \<Rightarrow> users_page" where
  "onOpenAccess u tab p = p\<lparr>up_accessTab := tab, up_accessUser := Some u\<rparr>"

section \<open>The selection follows the page and the filters\<close>

lemma split_at: "a @ c # x = b @ c # y \<Longrightarrow> c \<notin> set a \<Longrightarrow> c \<notin> set b \<Longrightarrow> a = b \<and> x = y"
proof (induction a arbitrary: b)
  case Nil
  then show ?case by (cases b) auto
next
  case (Cons d a)
  then show ?case by (cases b) auto
qed

lemma bar_not_in_int_text: "CHR ''|'' \<notin> set (int_text i)"
proof
  assume "CHR ''|'' \<in> set (int_text i)"
  then have "CHR ''|'' \<in> set (nat_text (nat \<bar>i\<bar>))"
    by (auto simp: int_text_def split: if_splits)
  from nat_text_digits [OF this] show False by simp
qed

lemma selectionResetKey_page:
  "selectionResetKey p = selectionResetKey q \<Longrightarrow> filterResetKey p = filterResetKey q"
  using split_at [of "int_text (cell_page (up_page p))" "CHR ''|''" "filterResetKey p"
      "int_text (cell_page (up_page q))" "filterResetKey q"] bar_not_in_int_text
  by (simp add: selectionResetKey_def)

lemma filterResetKey_frame [simp]:
  "filterResetKey (p\<lparr>up_page := c\<rparr>) = filterResetKey p"
  "filterResetKey (p\<lparr>up_isSelectingAllMatching := b\<rparr>) = filterResetKey p"
  "filterResetKey (p\<lparr>up_prevSelectionKey := k\<rparr>) = filterResetKey p"
  "filterResetKey (p\<lparr>up_selectedUserIds := ids, up_selectAllMatching := b\<rparr>) = filterResetKey p"
  "filterResetKey (p\<lparr>up_allMatchingEmails := es, up_selectAllMatching := b\<rparr>) = filterResetKey p"
  "filterResetKey (p\<lparr>up_allMatchingEmails := es, up_selectAllMatching := b, up_isSelectingAllMatching := b'\<rparr>)
     = filterResetKey p"
  by (simp_all add: filterResetKey_def)

text \<open>A state the page has been rendered in: its cells hold its own keys.\<close>

definition rendered :: "users_page \<Rightarrow> bool" where
  "rendered p \<longleftrightarrow> prevResetKey (up_page p) = filterResetKey p
     \<and> up_prevSelectionKey p = selectionResetKey p"

lemma render_rendered: "rendered (users_page_render p)"
  by (auto simp: rendered_def users_page_render_def Let_def usePageResetOn_def clearSelection_def
      selectionResetKey_def filterResetKey_def)

lemma rendered_stays: "rendered p \<Longrightarrow> users_page_render p = p"
  by (simp add: rendered_def users_page_render_def usePageResetOn_def)

lemma render_clears:
  assumes "rendered p" and "filterResetKey q \<noteq> filterResetKey p"
    and "up_prevSelectionKey q = up_prevSelectionKey p"
  shows "up_selectedUserIds (users_page_render q) = {} \<and> \<not> up_selectAllMatching (users_page_render q)"
proof -
  let ?q = "q\<lparr>up_page := usePageResetOn (filterResetKey q) (up_page q)\<rparr>"
  have "selectionResetKey ?q \<noteq> up_prevSelectionKey ?q"
    using assms selectionResetKey_page [of ?q p] by (auto simp: rendered_def)
  then show ?thesis by (simp add: users_page_render_def Let_def clearSelection_def)
qed

lemma setRole_frame [simp]:
  "policy_filter (setRole r f) = policy_filter f" "permission_filter (setRole r f) = permission_filter f"
  "permissionSource (setRole r f) = permissionSource f"
  "uf_ui (setRole r f) = (uf_ui f)\<lparr>uu_role := r\<rparr>"
  by (auto simp: setRole_def patch_users_def ui_update_def policy_filter_def permission_filter_def
      permissionSource_def split: option.splits)

lemma role_changes_key:
  assumes "r \<noteq> uu_role (uf_ui (up_filters p))"
  shows "filterResetKey (p\<lparr>up_filters := setRole r (up_filters p)\<rparr>) \<noteq> filterResetKey p"
  using assms
  by (simp add: filterResetKey_def Let_def)

text \<open>A change of a filter empties the selection when the page renders next. But "select all
  matching" collects in the background, and its result is stored whenever it arrives: after a
  filter change in between, the selection becomes the users of the old filter, it survives the
  following renders, and the count shown beside it is the total of the new one.\<close>

theorem late_select_all:
  assumes "rendered p" and "handleSelectAllMatching p = (f, p1)"
    and "r \<noteq> uu_role (uf_ui (up_filters p1))"
    and "p2 = users_page_render (p1\<lparr>up_filters := setRole r (up_filters p1)\<rparr>)"
    and "p3 = snd (select_all_settled (Inr emails) p2)"
  shows "selectedUserEmails users p2 = []
    \<and> uq_role (activeFilters p2) = or_undefined r \<and> uq_role f = or_undefined (uu_role (uf_ui (up_filters p)))
    \<and> users_page_render p3 = p3 \<and> selectedUserEmails users p3 = emails \<and> selectedCount (Some (us, n)) p3 = n"
proof -
  let ?q = "p1\<lparr>up_filters := setRole r (up_filters p1)\<rparr>"
  have p1: "p1 = p\<lparr>up_isSelectingAllMatching := True\<rparr>" "f = activeFilters p"
    using assms(2) by (auto simp: handleSelectAllMatching_def)
  have ren: "rendered p1" using assms(1) by (simp add: p1 rendered_def selectionResetKey_def)
  have "up_selectedUserIds p2 = {} \<and> \<not> up_selectAllMatching p2"
    unfolding assms(4) by (rule render_clears [OF ren role_changes_key [OF assms(3)]]) simp
  then have "selectedUserEmails users p2 = []" by (simp add: selectedUserEmails_def)
  moreover have "up_filters p2 = setRole r (up_filters p)"
    by (simp add: assms(4) p1 users_page_render_def Let_def clearSelection_def)
  then have "uq_role (activeFilters p2) = or_undefined r"
    by (simp add: activeFilters_def Let_def)
  moreover have "rendered p3"
    using render_rendered [of ?q]
    by (simp add: assms(5) select_all_settled_def assms(4) [symmetric] rendered_def selectionResetKey_def)
  then have "users_page_render p3 = p3" by (rule rendered_stays)
  ultimately show ?thesis
    by (simp add: assms(5) p1(2) select_all_settled_def selectedUserEmails_def selectedCount_def
        activeFilters_def Let_def)
qed

theorem late_select_all_witness:
  "selectedUserEmails None (snd (select_all_settled (Inr [''a@x''])
     (users_page_render ((snd (handleSelectAllMatching (users_page_mount (users_filters_mount useUsersUiStore []))))
        \<lparr>up_filters := setRole ''admin'' (users_filters_mount useUsersUiStore [])\<rparr>)))) = [''a@x'']"
proof -
  let ?f = "users_filters_mount useUsersUiStore []"
  let ?p = "users_page_mount ?f"
  have ren: "rendered ?p"
    by (simp add: rendered_def users_page_mount_def Let_def page_mount_def selectionResetKey_def filterResetKey_def)
  have f: "up_filters (snd (handleSelectAllMatching ?p)) = ?f"
    by (simp add: handleSelectAllMatching_def users_page_mount_def Let_def)
  have role: "''admin'' \<noteq> uu_role (uf_ui (up_filters (snd (handleSelectAllMatching ?p))))"
    unfolding f by (simp add: users_filters_mount_def useUsersUiStore_def createSessionUiStore_def USERS_ALL_VALUE_def)
  show ?thesis
    using late_select_all [OF ren prod.collapse [symmetric] role refl refl, of None "[''a@x'']"]
    unfolding f by blast
qed

end
