(* ===== verification/ResumeEditor.thy ===== *)
theory ResumeEditor
  imports ApiClient Complex_Main
begin

text \<open>
  The resume editor: its documents (\<open>app/resume_builder/resumeDocumentTypes.ts\<close>), the store with its
  bounded undo history (\<open>useResumeEditorStore.ts\<close>) and, of \<open>ResumeBuilderPage.tsx\<close>, the edits of the
  layout and of the blocks, the save flow with the effect that adopts the server's revision, and the
  polling of background jobs. Column widths are rationals (the program's are doubles; rounding is
  not modelled). \<open>Date.now()\<close>, which makes the ids of new parts, is an argument. A change that throws
  (no page, row or column to put a block into) is \<open>None\<close> and leaves the store as it was.
\<close>

section \<open>Documents\<close>

record resume_block =
  rb_id :: string
  rb_type :: string
  rb_title :: string
  rb_visible :: bool
  rb_content :: "(string \<times> json) list"
  rb_style :: "(string \<times> string) list option"
  rb_source_ids :: "string list option"

record resume_column =
  rc_id :: string
  rc_width :: rat
  rc_min_width :: rat
  rc_max_width :: rat
  rc_section_ids :: "string list"

record resume_row =
  rr_id :: string
  rr_columns :: "resume_column list"

record resume_page =
  rp_id :: string
  rp_rows :: "resume_row list"

record resume_style =
  st_font_family :: string
  st_font_size :: rat
  st_accent_color :: string
  st_text_color :: string
  st_margin :: rat
  st_spacing :: rat
  st_density :: string

record resume_document =
  rd_paper :: string
  rd_pages :: "resume_page list"
  rd_blocks :: "resume_block list"
  rd_style :: resume_style

definition blockText :: "resume_block \<Rightarrow> string \<Rightarrow> string \<Rightarrow> string" where
  "blockText b key fallback = (case map_of (rb_content b) key of Some (JStr s) \<Rightarrow> s | _ \<Rightarrow> fallback)"

section \<open>The store\<close>

record editor_state =
  ed_document :: "resume_document option"
  ed_selectedId :: "string option"
  ed_savedRevisionId :: "int option"
  ed_dirty :: bool
  ed_undo :: "resume_document list"
  ed_redo :: "resume_document list"

definition useResumeEditorStore :: editor_state where
  "useResumeEditorStore = \<lparr>ed_document = None, ed_selectedId = None, ed_savedRevisionId = None,
     ed_dirty = False, ed_undo = [], ed_redo = []\<rparr>"

text \<open>\<open>xs.slice(-50)\<close>.\<close>

definition last_50 :: "'a list \<Rightarrow> 'a list" where
  "last_50 xs = drop (length xs - 50) xs"

definition setDocument :: "resume_document \<Rightarrow> int option \<Rightarrow> editor_state \<Rightarrow> editor_state" where
  "setDocument d revisionId s = s\<lparr>ed_document := Some d, ed_savedRevisionId := revisionId,
     ed_dirty := False, ed_undo := [], ed_redo := []\<rparr>"

definition editor_update ::
  "(resume_document \<Rightarrow> resume_document option) \<Rightarrow> editor_state \<Rightarrow> editor_state" where
  "editor_update change s = (case ed_document s of
      None \<Rightarrow> s
    | Some d \<Rightarrow> (case change d of
        None \<Rightarrow> s
      | Some d' \<Rightarrow> s\<lparr>ed_document := Some d', ed_undo := last_50 (ed_undo s @ [d]), ed_redo := [],
          ed_dirty := True\<rparr>))"

definition editor_select :: "string option \<Rightarrow> editor_state \<Rightarrow> editor_state" where
  "editor_select i s = s\<lparr>ed_selectedId := i\<rparr>"

definition undoChange :: "editor_state \<Rightarrow> editor_state" where
  "undoChange s = (case (rev (ed_undo s), ed_document s) of
      (previous # us, Some d) \<Rightarrow> s\<lparr>ed_document := Some previous, ed_undo := butlast (ed_undo s),
         ed_redo := take 50 (d # ed_redo s), ed_dirty := True\<rparr>
    | _ \<Rightarrow> s)"

definition redoChange :: "editor_state \<Rightarrow> editor_state" where
  "redoChange s = (case (ed_redo s, ed_document s) of
      (next_doc # rs, Some d) \<Rightarrow> s\<lparr>ed_document := Some next_doc, ed_redo := rs,
         ed_undo := last_50 (ed_undo s @ [d]), ed_dirty := True\<rparr>
    | _ \<Rightarrow> s)"

definition markSaved :: "int \<Rightarrow> editor_state \<Rightarrow> editor_state" where
  "markSaved revisionId s = s\<lparr>ed_savedRevisionId := Some revisionId, ed_dirty := False,
     ed_undo := [], ed_redo := []\<rparr>"

datatype editor_event =
    EdSet resume_document "int option"
  | EdUpdate "resume_document \<Rightarrow> resume_document option"
  | EdSelect "string option"
  | EdUndo
  | EdRedo
  | EdSaved int

fun editor_step :: "editor_state \<Rightarrow> editor_event \<Rightarrow> editor_state" where
  "editor_step s (EdSet d r) = setDocument d r s"
| "editor_step s (EdUpdate f) = editor_update f s"
| "editor_step s (EdSelect i) = editor_select i s"
| "editor_step s EdUndo = undoChange s"
| "editor_step s EdRedo = redoChange s"
| "editor_step s (EdSaved r) = markSaved r s"

text \<open>The history is bounded, and there is none without a document.\<close>

definition editor_ok :: "editor_state \<Rightarrow> bool" where
  "editor_ok s \<longleftrightarrow> length (ed_undo s) \<le> 50 \<and> length (ed_redo s) \<le> 50
     \<and> (ed_document s = None \<longrightarrow> ed_undo s = [] \<and> ed_redo s = [] \<and> \<not> ed_dirty s)
     \<and> (\<not> ed_dirty s \<longrightarrow> ed_undo s = [] \<and> ed_redo s = [])"

lemma last_50_length [simp]: "length (last_50 xs) \<le> 50"
  by (simp add: last_50_def)

lemma last_50_snoc: "last_50 (xs @ [x]) = last_50 (xs @ [x]) \<and> last_50 (xs @ [x]) \<noteq> []
  \<and> last (last_50 (xs @ [x])) = x \<and> butlast (last_50 (xs @ [x])) = drop (length xs - 49) xs"
  by (auto simp: last_50_def butlast_append drop_butlast)

lemma editor_step_ok: "editor_ok s \<Longrightarrow> editor_ok (editor_step s e)"
  by (cases e) (auto simp: editor_ok_def setDocument_def editor_update_def editor_select_def
      undoChange_def redoChange_def markSaved_def last_50_def split: option.splits list.splits)

interpretation editor: event_machine editor_step editor_ok
  by unfold_locales (rule editor_step_ok)

lemma editor_initial_ok: "editor_ok useResumeEditorStore"
  by (simp add: editor_ok_def useResumeEditorStore_def)

lemma last_50_absorb: "last_50 (last_50 xs @ ys) = last_50 (xs @ ys)"
proof (cases "length xs \<le> 50")
  case False
  then have "length xs + length ys - (length xs - 50 + 50) + (length xs - 50) = length xs + length ys - 50"
    by simp
  with False show ?thesis by (auto simp: last_50_def)
qed (simp add: last_50_def)

lemma last_50_id: "length xs \<le> 50 \<Longrightarrow> last_50 xs = xs"
  by (simp add: last_50_def)

lemma undo_simps:
  assumes "ed_document s = Some d" and "ed_undo s = us @ [u]"
  shows "undoChange s = s\<lparr>ed_document := Some u, ed_undo := us, ed_redo := take 50 (d # ed_redo s),
    ed_dirty := True\<rparr>"
  using assms by (simp add: undoChange_def)

lemma undo_n:
  assumes "ed_document s \<noteq> None" and "0 < n" and "n \<le> length (ed_undo s)"
  shows "ed_document ((undoChange ^^ n) s) = Some (rev (ed_undo s) ! (n - 1))"
  using assms
proof (induction n arbitrary: s)
  case (Suc n)
  then obtain us u where us: "ed_undo s = us @ [u]"
    by (metis length_0_conv not_less_eq_eq rev_exhaust zero_le)
  from Suc.prems obtain d where d: "ed_document s = Some d" by auto
  let ?t = "undoChange s"
  have t: "ed_document ?t = Some u" "ed_undo ?t = us"
    by (simp_all add: undo_simps [OF d us])
  show ?case
  proof (cases n)
    case 0
    with t us show ?thesis by simp
  next
    case (Suc m)
    with Suc.IH [of ?t] t us Suc.prems show ?thesis by (simp add: funpow_swap1)
  qed
qed simp

definition apply_changes :: "(resume_document \<Rightarrow> resume_document) list \<Rightarrow> editor_state \<Rightarrow> editor_state" where
  "apply_changes fs s = foldl (\<lambda>s f. editor_update (\<lambda>d. Some (f d)) s) s fs"

definition changed :: "resume_document \<Rightarrow> (resume_document \<Rightarrow> resume_document) list \<Rightarrow> resume_document" where
  "changed d fs = foldl (\<lambda>d f. f d) d fs"

lemma apply_changes_history:
  assumes "ed_document s = Some d"
  shows "ed_document (apply_changes fs s) = Some (changed d fs)
    \<and> last_50 (ed_undo (apply_changes fs s)) = last_50 (ed_undo s @ map (\<lambda>i. changed d (take i fs)) [0..<length fs])
    \<and> (fs \<noteq> [] \<longrightarrow> ed_redo (apply_changes fs s) = [] \<and> ed_dirty (apply_changes fs s))"
proof (induction fs rule: rev_induct)
  case Nil
  then show ?case by (simp add: apply_changes_def changed_def assms)
next
  case (snoc f fs)
  then have step: "apply_changes (fs @ [f]) s = (apply_changes fs s)\<lparr>ed_document := Some (f (changed d fs)),
      ed_undo := last_50 (ed_undo (apply_changes fs s) @ [changed d fs]), ed_redo := [], ed_dirty := True\<rparr>"
    by (simp add: apply_changes_def editor_update_def)
  have "last_50 (ed_undo (apply_changes (fs @ [f]) s)) = last_50 (last_50 (ed_undo (apply_changes fs s)) @ [changed d fs])"
    unfolding step by (simp add: last_50_absorb last_50_id)
  also have "\<dots> = last_50 (ed_undo s @ (map (\<lambda>i. changed d (take i fs)) [0..<length fs] @ [changed d fs]))"
    using snoc by (simp add: last_50_absorb)
  also have "map (\<lambda>i. changed d (take i fs)) [0..<length fs] @ [changed d fs]
      = map (\<lambda>i. changed d (take i (fs @ [f]))) [0..<length (fs @ [f])]"
    by simp
  finally show ?case by (simp add: step changed_def)
qed

lemma redo_undo:
  assumes "ed_document t = Some d" and "ed_undo t \<noteq> []" and "length (ed_undo t) \<le> 50" and "length (ed_redo t) < 50" and "ed_dirty t"
  shows "redoChange (undoChange t) = t"
proof -
  obtain us u where us: "ed_undo t = us @ [u]" using assms(2) rev_exhaust by blast
  show ?thesis
    unfolding undo_simps [OF assms(1) us] using assms us by (simp add: redoChange_def last_50_id)
qed

lemma redos_undo:
  "ed_document t \<noteq> None \<Longrightarrow> ed_dirty t \<Longrightarrow> k \<le> length (ed_undo t) \<Longrightarrow> length (ed_undo t) \<le> 50
     \<Longrightarrow> length (ed_redo t) + k \<le> 50 \<Longrightarrow> (redoChange ^^ k) ((undoChange ^^ k) t) = t"
proof (induction k arbitrary: t)
  case (Suc k)
  obtain d us u where d: "ed_document t = Some d" and us: "ed_undo t = us @ [u]"
    using Suc.prems(1,3) by (metis length_0_conv not_less_eq_eq option.exhaust rev_exhaust zero_le)
  have "(redoChange ^^ k) ((undoChange ^^ k) (undoChange t)) = undoChange t"
    by (rule Suc.IH) (use Suc.prems us in \<open>auto simp: undo_simps [OF d us]\<close>)
  then have "(redoChange ^^ Suc k) ((undoChange ^^ Suc k) t) = redoChange (undoChange t)"
    by (simp add: funpow_swap1)
  also have "\<dots> = t" by (rule redo_undo [OF d]) (use Suc.prems us in auto)
  finally show ?case .
qed simp

lemma undo_keeps:
  assumes "ed_document t \<noteq> None" and "ed_dirty t" and "m \<le> length (ed_undo t)" and "length (ed_redo t) + m \<le> 50"
  shows "ed_document ((undoChange ^^ m) t) \<noteq> None \<and> ed_dirty ((undoChange ^^ m) t)
    \<and> length (ed_undo ((undoChange ^^ m) t)) = length (ed_undo t) - m
    \<and> length (ed_redo ((undoChange ^^ m) t)) = length (ed_redo t) + m"
  using assms
proof (induction m)
  case (Suc m)
  let ?v = "(undoChange ^^ m) t"
  from Suc obtain d us u where "ed_document ?v = Some d" "ed_undo ?v = us @ [u]"
    by (metis Suc_leD add_Suc_right diff_is_0_eq length_0_conv not_less_eq_eq option.exhaust rev_exhaust)
  then show ?case using Suc by (auto simp: undo_simps)
qed simp

lemma reachable_editor_ok: "editor_ok (foldl editor_step useResumeEditorStore es)"
  by (rule editor.run_inv [OF editor_initial_ok])

text \<open>C8. From every reachable state of the editor, make up to fifty changes and undo any number of them: the document is the one from
  before exactly those changes. Redo any number of the undone ones: the editor is, in its whole state, where that many
  undos fewer would have left it, so redo brings the changes back in their order. Neither history ever holds more
  than fifty documents.\<close>

theorem editor_undo_redo:
  assumes "s = foldl editor_step useResumeEditorStore es" and "ed_document s = Some d"
    and "length fs \<le> 50" and "m \<le> length fs" and "k \<le> m"
  shows "ed_document ((undoChange ^^ m) (apply_changes fs s)) = Some (changed d (take (length fs - m) fs))
    \<and> (redoChange ^^ k) ((undoChange ^^ m) (apply_changes fs s)) = (undoChange ^^ (m - k)) (apply_changes fs s)
    \<and> length (ed_undo s) \<le> 50 \<and> length (ed_redo s) \<le> 50"
proof -
  let ?t = "apply_changes fs s" and ?ds = "map (\<lambda>i. changed d (take i fs)) [0..<length fs]"
  have ok: "editor_ok s" unfolding assms(1) by (rule reachable_editor_ok)
  note hist = apply_changes_history [OF assms(2), of fs]
  have "editor_ok ?t"
    unfolding apply_changes_def using ok
    by (induction fs arbitrary: s) (use editor_step_ok [of _ "EdUpdate _"] in auto)
  then have len: "length (ed_undo ?t) \<le> 50" by (simp add: editor_ok_def)
  have undo: "ed_undo ?t = drop (length (ed_undo s) + length fs - 50) (ed_undo s) @ ?ds"
    using hist last_50_id [OF len] assms(3) by (simp add: last_50_def)
  have m: "m \<le> length (ed_undo ?t)" using assms(4) by (simp add: undo)
  have "ed_document ((undoChange ^^ m) ?t) = Some (changed d (take (length fs - m) fs))"
  proof (cases "m = 0")
    case False
    have "rev (ed_undo ?t) ! (m - 1) = rev ?ds ! (m - 1)"
      using False assms(4) by (simp add: undo nth_append)
    also have "\<dots> = changed d (take (length fs - m) fs)"
      using False assms(4) by (simp add: rev_nth)
    finally show ?thesis using undo_n [of ?t m] hist False m by simp
  qed (use hist in simp)
  moreover have "(redoChange ^^ k) ((undoChange ^^ m) ?t) = (undoChange ^^ (m - k)) ?t"
  proof (cases "fs = []")
    case False
    have "length (ed_redo ?t) + (m - k) \<le> 50" "m - k \<le> length (ed_undo ?t)"
      using False hist m assms(3-5) by auto
    with undo_keeps [of ?t "m - k"] False hist
    have v: "ed_document ((undoChange ^^ (m - k)) ?t) \<noteq> None" "ed_dirty ((undoChange ^^ (m - k)) ?t)"
      "length (ed_undo ((undoChange ^^ (m - k)) ?t)) = length (ed_undo ?t) - (m - k)"
      "length (ed_redo ((undoChange ^^ (m - k)) ?t)) = m - k" by simp_all
    have "(undoChange ^^ m) ?t = (undoChange ^^ k) ((undoChange ^^ (m - k)) ?t)"
      using assms(5) by (metis comp_apply funpow_add le_add_diff_inverse)
    then show ?thesis
      using redos_undo [OF v(1,2), of k] v(3,4) m len assms(3-5) by simp
  qed (use assms(4,5) in simp)
  ultimately show ?thesis using ok by (simp add: editor_ok_def)
qed

definition blank_document :: resume_document where
  "blank_document = \<lparr>rd_paper = ''a4'', rd_pages = [\<lparr>rp_id = ''page-1'', rp_rows = [\<lparr>rr_id = ''row-1'',
       rr_columns = [\<lparr>rc_id = ''column-1'', rc_width = 1, rc_min_width = 1, rc_max_width = 1,
         rc_section_ids = [''summary'']\<rparr>]\<rparr>]\<rparr>],
     rd_blocks = [\<lparr>rb_id = ''summary'', rb_type = ''summary'', rb_title = ''Summary'', rb_visible = True,
       rb_content = [(''text'', JStr [])], rb_style = None, rb_source_ids = None\<rparr>],
     rd_style = \<lparr>st_font_family = ''inter'', st_font_size = 10, st_accent_color = ''#000000'',
       st_text_color = ''#000000'', st_margin = 1, st_spacing = 1, st_density = ''normal''\<rparr>\<rparr>"

definition two_changes :: "(resume_document \<Rightarrow> resume_document) list" where
  "two_changes = [\<lambda>d. d\<lparr>rd_paper := ''letter''\<rparr>, \<lambda>d. d\<lparr>rd_blocks := []\<rparr>]"

theorem editor_undo_redo_witness:
  "let t = apply_changes two_changes (foldl editor_step useResumeEditorStore [EdSet blank_document (Some 1)])
   in ed_document ((undoChange ^^ 2) t) = Some blank_document \<and> (redoChange ^^ 2) ((undoChange ^^ 2) t) = t"
proof -
  have "length two_changes = 2" "changed blank_document (take 0 two_changes) = blank_document"
    by (simp_all add: two_changes_def changed_def)
  moreover have "ed_document (foldl editor_step useResumeEditorStore [EdSet blank_document (Some 1)]) = Some blank_document"
    by (simp add: setDocument_def)
  ultimately show ?thesis
    using editor_undo_redo [OF refl, of "[EdSet blank_document (Some 1)]" blank_document two_changes 2 2]
    unfolding Let_def by simp
qed

section \<open>Layout edits\<close>

text \<open>The first element a change applies to is replaced: the nested loops that return from inside.\<close>

fun update_first :: "('a \<Rightarrow> 'a option) \<Rightarrow> 'a list \<Rightarrow> 'a list option" where
  "update_first f [] = None"
| "update_first f (x # xs) = (case f x of
      Some y \<Rightarrow> Some (y # xs)
    | None \<Rightarrow> map_option (\<lambda>ys. x # ys) (update_first f xs))"

definition update_first_row :: "(resume_row \<Rightarrow> resume_row option) \<Rightarrow> resume_page list \<Rightarrow> resume_page list option" where
  "update_first_row f pages =
     update_first (\<lambda>p. map_option (\<lambda>rows. p\<lparr>rp_rows := rows\<rparr>) (update_first f (rp_rows p))) pages"

fun index_where :: "('a \<Rightarrow> bool) \<Rightarrow> 'a list \<Rightarrow> nat option" where
  "index_where P [] = None"
| "index_where P (x # xs) = (if P x then Some 0 else map_option Suc (index_where P xs))"

definition swap :: "nat \<Rightarrow> nat \<Rightarrow> 'a list \<Rightarrow> 'a list" where
  "swap i j xs = xs[i := xs ! j, j := xs ! i]"

definition remove_at :: "nat \<Rightarrow> 'a list \<Rightarrow> 'a list" where
  "remove_at i xs = take i xs @ drop (Suc i) xs"

datatype move_direction = Up | Down | ToLeft | ToRight

text \<open>\<open>next >= 0 && next < length\<close> for the neighbour of an index.\<close>

definition neighbour :: "bool \<Rightarrow> nat \<Rightarrow> nat \<Rightarrow> nat option" where
  "neighbour bk i n = (if bk then (if i = 0 then None else Some (i - 1))
     else if Suc i < n then Some (Suc i) else None)"

definition move_within :: "nat \<Rightarrow> bool \<Rightarrow> resume_column \<Rightarrow> resume_column" where
  "move_within i bk c = (case neighbour bk i (length (rc_section_ids c)) of
      Some j \<Rightarrow> c\<lparr>rc_section_ids := swap i j (rc_section_ids c)\<rparr>
    | None \<Rightarrow> c)"

definition move_across ::
  "string \<Rightarrow> nat \<Rightarrow> nat \<Rightarrow> bool \<Rightarrow> resume_column list \<Rightarrow> resume_column list" where
  "move_across blockId ci i bk cols = (case neighbour bk ci (length cols) of
      Some t \<Rightarrow> cols[ci := (cols ! ci)\<lparr>rc_section_ids := remove_at i (rc_section_ids (cols ! ci))\<rparr>,
                    t := (cols ! t)\<lparr>rc_section_ids := rc_section_ids (cols ! t) @ [blockId]\<rparr>]
    | None \<Rightarrow> cols)"

definition move_in_row :: "string \<Rightarrow> move_direction \<Rightarrow> resume_row \<Rightarrow> resume_row option" where
  "move_in_row blockId direction r =
     (case index_where (\<lambda>c. blockId \<in> set (rc_section_ids c)) (rr_columns r) of
        None \<Rightarrow> None
      | Some ci \<Rightarrow>
          (let c = rr_columns r ! ci;
               i = the (index_where (\<lambda>s. s = blockId) (rc_section_ids c)) in
           Some (r\<lparr>rr_columns := (case direction of
               Up \<Rightarrow> (rr_columns r)[ci := move_within i True c]
             | Down \<Rightarrow> (rr_columns r)[ci := move_within i False c]
             | ToLeft \<Rightarrow> move_across blockId ci i True (rr_columns r)
             | ToRight \<Rightarrow> move_across blockId ci i False (rr_columns r))\<rparr>)))"

definition move_block :: "string \<Rightarrow> move_direction \<Rightarrow> resume_document \<Rightarrow> resume_document" where
  "move_block blockId direction d = (case update_first_row (move_in_row blockId direction) (rd_pages d) of
      Some pages \<Rightarrow> d\<lparr>rd_pages := pages\<rparr>
    | None \<Rightarrow> d)"

definition resize_in_row :: "string \<Rightarrow> rat \<Rightarrow> resume_row \<Rightarrow> resume_row option" where
  "resize_in_row columnId width r =
     (case index_where (\<lambda>c. rc_id c = columnId) (rr_columns r) of
        None \<Rightarrow> None
      | Some i \<Rightarrow>
          if length (rr_columns r) < 2 then None
          else (let c = rr_columns r ! i;
                    j = (if i = length (rr_columns r) - 1 then i - 1 else i + 1);
                    n = rr_columns r ! j;
                    nextWidth = max (rc_min_width c) (min (rc_max_width c) width);
                    neighborWidth = rc_width n - (nextWidth - rc_width c) in
                if neighborWidth < rc_min_width n \<or> neighborWidth > rc_max_width n then Some r
                else Some (r\<lparr>rr_columns := (rr_columns r)[i := c\<lparr>rc_width := nextWidth\<rparr>,
                                                         j := n\<lparr>rc_width := neighborWidth\<rparr>]\<rparr>)))"

definition resizeColumn :: "string \<Rightarrow> rat \<Rightarrow> resume_document \<Rightarrow> resume_document" where
  "resizeColumn columnId width d = (case update_first_row (resize_in_row columnId width) (rd_pages d) of
      Some pages \<Rightarrow> d\<lparr>rd_pages := pages\<rparr>
    | None \<Rightarrow> d)"

text \<open>\<open>pages.flatMap(page => page.rows.flatMap(row => row.columns))\<close>, and the same pages with other
  columns in the same places.\<close>

definition all_columns :: "resume_page list \<Rightarrow> resume_column list" where
  "all_columns pages = concat (map rr_columns (concat (map rp_rows pages)))"

fun fill_rows :: "resume_row list \<Rightarrow> resume_column list \<Rightarrow> resume_row list" where
  "fill_rows [] cols = []"
| "fill_rows (r # rs) cols = r\<lparr>rr_columns := take (length (rr_columns r)) cols\<rparr>
     # fill_rows rs (drop (length (rr_columns r)) cols)"

fun fill_pages :: "resume_page list \<Rightarrow> resume_column list \<Rightarrow> resume_page list" where
  "fill_pages [] cols = []"
| "fill_pages (p # ps) cols =
     (let n = length (concat (map rr_columns (rp_rows p))) in
      p\<lparr>rp_rows := fill_rows (rp_rows p) (take n cols)\<rparr> # fill_pages ps (drop n cols))"

definition moveToColumn :: "string \<Rightarrow> string \<Rightarrow> resume_document \<Rightarrow> resume_document" where
  "moveToColumn blockId columnId d =
     (let cols = all_columns (rd_pages d);
          source = map_option (\<lambda>k. length cols - 1 - k)
            (index_where (\<lambda>c. blockId \<in> set (rc_section_ids c)) (rev cols));
          target = index_where (\<lambda>c. rc_id c = columnId) cols in
      case (source, target) of
        (Some s, Some t) \<Rightarrow>
          if s = t then d
          else d\<lparr>rd_pages := fill_pages (rd_pages d)
            (cols[s := (cols ! s)\<lparr>rc_section_ids := filter (\<lambda>v. v \<noteq> blockId) (rc_section_ids (cols ! s))\<rparr>,
                  t := (cols ! t)\<lparr>rc_section_ids := rc_section_ids (cols ! t) @ [blockId]\<rparr>])\<rparr>
      | _ \<Rightarrow> d)"

section \<open>Block edits\<close>

definition is_word :: "char \<Rightarrow> bool" where
  "is_word c \<longleftrightarrow> (let n = (of_char c :: nat) in
     (48 \<le> n \<and> n \<le> 57) \<or> (65 \<le> n \<and> n \<le> 90) \<or> (97 \<le> n \<and> n \<le> 122) \<or> n = 95)"

text \<open>\<open>replace(/\b\w/g, upper)\<close>: the flag says whether the character before is a word character.\<close>

fun upper_words :: "bool \<Rightarrow> string \<Rightarrow> string" where
  "upper_words inside [] = []"
| "upper_words inside (c # cs) =
     (if is_word c \<and> \<not> inside then char_upper c else c) # upper_words (is_word c) cs"

definition labelFor :: "string \<Rightarrow> string" where
  "labelFor key = upper_words False (map (\<lambda>c. if c = CHR ''_'' then CHR '' '' else c) key)"

definition first_column_push :: "string \<Rightarrow> resume_page list \<Rightarrow> resume_page list option" where
  "first_column_push blockId pages = (case pages of
      [] \<Rightarrow> None
    | p # ps \<Rightarrow> (case rp_rows p of
        [] \<Rightarrow> None
      | r # rs \<Rightarrow> (case rr_columns r of
          [] \<Rightarrow> None
        | c # cs \<Rightarrow> Some (p\<lparr>rp_rows := r\<lparr>rr_columns :=
            c\<lparr>rc_section_ids := rc_section_ids c @ [blockId]\<rparr> # cs\<rparr> # rs\<rparr> # ps))))"

definition addBlock :: "string \<Rightarrow> string \<Rightarrow> resume_document \<Rightarrow> resume_document option" where
  "addBlock now ty d =
     (let blockId = ''custom-'' @ now;
          b = \<lparr>rb_id = blockId, rb_type = ty, rb_title = labelFor ty, rb_visible = True,
               rb_content = (if ty = ''custom_list'' then [(''bullets'', JArr [JStr []])]
                  else if ty = ''divider'' then [] else [(''text'', JStr [])]),
               rb_style = None, rb_source_ids = None\<rparr>
      in map_option (\<lambda>pages. d\<lparr>rd_blocks := rd_blocks d @ [b], rd_pages := pages\<rparr>)
           (first_column_push blockId (rd_pages d)))"

definition addRow :: "string \<Rightarrow> resume_document \<Rightarrow> resume_document option" where
  "addRow now d = (case rd_pages d of
      [] \<Rightarrow> None
    | p # ps \<Rightarrow> Some (d\<lparr>rd_pages := p\<lparr>rp_rows := rp_rows p @ [\<lparr>rr_id = ''row-'' @ now,
        rr_columns = [\<lparr>rc_id = ''column-'' @ now, rc_width = 1, rc_min_width = 1, rc_max_width = 1,
          rc_section_ids = []\<rparr>]\<rparr>]\<rparr> # ps\<rparr>))"

definition map_pages :: "(resume_column \<Rightarrow> resume_column) \<Rightarrow> resume_page list \<Rightarrow> resume_page list" where
  "map_pages f pages = map (\<lambda>p. p\<lparr>rp_rows := map (\<lambda>r. r\<lparr>rr_columns := map f (rr_columns r)\<rparr>) (rp_rows p)\<rparr>) pages"

text \<open>\<open>splice(index + 1, 0, copy)\<close> behind the first occurrence.\<close>

fun insert_after :: "string \<Rightarrow> string \<Rightarrow> string list \<Rightarrow> string list" where
  "insert_after x y [] = []"
| "insert_after x y (z # zs) = (if z = x then z # y # zs else z # insert_after x y zs)"

definition selected_block :: "string option \<Rightarrow> resume_document \<Rightarrow> resume_block option" where
  "selected_block selectedId d = List.find (\<lambda>b. Some (rb_id b) = selectedId) (rd_blocks d)"

definition duplicate_block :: "string \<Rightarrow> resume_block \<Rightarrow> resume_document \<Rightarrow> resume_document" where
  "duplicate_block now b d =
     (let copy = b\<lparr>rb_id := ''copy-'' @ now, rb_title := rb_title b @ '' copy''\<rparr> in
      d\<lparr>rd_blocks := rd_blocks d @ [copy],
        rd_pages := map_pages (\<lambda>c. c\<lparr>rc_section_ids := insert_after (rb_id b) (rb_id copy) (rc_section_ids c)\<rparr>)
          (rd_pages d)\<rparr>)"

definition remove_block :: "string \<Rightarrow> resume_document \<Rightarrow> resume_document" where
  "remove_block i d = d\<lparr>rd_blocks := filter (\<lambda>b. rb_id b \<noteq> i) (rd_blocks d),
     rd_pages := map_pages (\<lambda>c. c\<lparr>rc_section_ids := filter (\<lambda>v. v \<noteq> i) (rc_section_ids c)\<rparr>) (rd_pages d)\<rparr>"

definition edit_block :: "(resume_block \<Rightarrow> resume_block) \<Rightarrow> string option \<Rightarrow> resume_document \<Rightarrow> resume_document" where
  "edit_block patch selectedId d =
     d\<lparr>rd_blocks := map (\<lambda>b. if Some (rb_id b) = selectedId then patch b else b) (rd_blocks d)\<rparr>"

definition editContent :: "string \<Rightarrow> json \<Rightarrow> resume_block \<Rightarrow> resume_block" where
  "editContent key v b = b\<lparr>rb_content := AList.update key v (rb_content b)\<rparr>"

section \<open>The page's edits of the store\<close>

definition updateDocument ::
  "bool \<Rightarrow> (resume_document \<Rightarrow> resume_document option) \<Rightarrow> editor_state \<Rightarrow> editor_state" where
  "updateDocument approved change s = (if approved then s else editor_update change s)"

definition duplicateSelected :: "bool \<Rightarrow> string \<Rightarrow> resume_document option \<Rightarrow> editor_state \<Rightarrow> editor_state" where
  "duplicateSelected approved now editorDocument s =
     (case Option.bind editorDocument (selected_block (ed_selectedId s)) of
        None \<Rightarrow> s
      | Some b \<Rightarrow> updateDocument approved (\<lambda>d. Some (duplicate_block now b d)) s)"

definition removeSelected :: "bool \<Rightarrow> resume_document \<Rightarrow> editor_state \<Rightarrow> editor_state" where
  "removeSelected approved editorDocument s = (case ed_selectedId s of
      None \<Rightarrow> s
    | Some i \<Rightarrow>
        if \<not> truthy i \<or> length (rd_blocks editorDocument) \<le> 1 \<or> approved then s
        else editor_select None (updateDocument approved (\<lambda>d. Some (remove_block i d)) s))"

section \<open>Every block is in one place\<close>

definition placed :: "resume_document \<Rightarrow> string list" where
  "placed d = concat (map rc_section_ids (all_columns (rd_pages d)))"

definition layout_ok :: "resume_document \<Rightarrow> bool" where
  "layout_ok d \<longleftrightarrow> distinct (map rb_id (rd_blocks d)) \<and> distinct (placed d)
     \<and> set (placed d) \<subseteq> rb_id ` set (rd_blocks d)"

definition row_ids :: "resume_row \<Rightarrow> string multiset" where
  "row_ids r = (\<Sum>c\<leftarrow>rr_columns r. mset (rc_section_ids c))"

lemma mset_sections: "mset (concat (map rc_section_ids cols)) = (\<Sum>c\<leftarrow>cols. mset (rc_section_ids c))"
  by (induction cols) auto

lemma mset_placed: "mset (placed d) = (\<Sum>p\<leftarrow>rd_pages d. \<Sum>r\<leftarrow>rp_rows p. row_ids r)"
proof -
  have rows: "mset (concat (map rc_section_ids (concat (map rr_columns rs)))) = (\<Sum>r\<leftarrow>rs. row_ids r)" for rs
    by (induction rs) (simp_all add: row_ids_def mset_sections)
  have "mset (concat (map rc_section_ids (all_columns ps))) = (\<Sum>p\<leftarrow>ps. \<Sum>r\<leftarrow>rp_rows p. row_ids r)" for ps
    by (induction ps) (simp_all add: all_columns_def rows)
  then show ?thesis by (simp add: placed_def)
qed

lemma update_first_same:
  assumes "\<And>x y. f x = Some y \<Longrightarrow> g y = g x" and "update_first f xs = Some ys"
  shows "map g ys = map g xs"
  using assms(2) by (induction xs arbitrary: ys) (auto simp: assms(1) split: option.splits)

lemma update_first_row_same:
  assumes "\<And>x y. f x = Some y \<Longrightarrow> g y = g x" and "update_first_row f ps = Some qs"
  shows "map (\<lambda>p. map g (rp_rows p)) qs = map (\<lambda>p. map g (rp_rows p)) ps"
  using assms(2) unfolding update_first_row_def
  by (rule update_first_same [rotated]) (auto intro: update_first_same [OF assms(1)])

lemma placed_same:
  assumes "map (\<lambda>p. map row_ids (rp_rows p)) qs = map (\<lambda>p. map row_ids (rp_rows p)) (rd_pages d)"
  shows "mset (placed (d\<lparr>rd_pages := qs\<rparr>)) = mset (placed d)"
proof -
  have "map (\<lambda>p. \<Sum>r\<leftarrow>rp_rows p. row_ids r) qs = map sum_list (map (\<lambda>p. map row_ids (rp_rows p)) qs)"
    by simp
  also have "\<dots> = map (\<lambda>p. \<Sum>r\<leftarrow>rp_rows p. row_ids r) (rd_pages d)"
    unfolding assms by simp
  finally show ?thesis by (simp add: mset_placed)
qed

lemma index_where_Some:
  "index_where P xs = Some i \<Longrightarrow> i < length xs \<and> P (xs ! i)"
  by (induction xs arbitrary: i) (auto split: if_splits)

lemma index_where_None: "index_where P xs = None \<longleftrightarrow> (\<forall>x \<in> set xs. \<not> P x)"
  by (induction xs) auto

lemma sum_list_replace:
  fixes xs :: "'a :: comm_monoid_add list"
  shows "i < length xs \<Longrightarrow> sum_list (xs[i := y]) + xs ! i = sum_list xs + y"
proof (induction xs arbitrary: i)
  case (Cons x xs)
  then show ?case by (cases i) (auto simp: add.commute add.left_commute add.assoc)
qed simp

lemma sum_list_replace2:
  fixes xs :: "'a :: cancel_comm_monoid_add list"
  assumes "i < length xs" "j < length xs" "i \<noteq> j" "y + z = xs ! i + xs ! j"
  shows "sum_list (xs[i := y, j := z]) = sum_list xs"
proof -
  have 1: "sum_list (xs[i := y, j := z]) + xs ! j = sum_list (xs[i := y]) + z"
    using sum_list_replace [of j "xs[i := y]" z] assms(2,3) by simp
  have 2: "sum_list (xs[i := y]) + xs ! i = sum_list xs + y"
    by (rule sum_list_replace [OF assms(1)])
  have "sum_list (xs[i := y, j := z]) + (xs ! i + xs ! j) = sum_list xs + (y + z)"
    using 1 2 by (metis add.assoc add.commute)
  then show ?thesis using assms(4) by (metis add_right_cancel)
qed

lemma mset_remove_at: "i < length xs \<Longrightarrow> mset (remove_at i xs) + {#xs ! i#} = mset xs"
  unfolding remove_at_def
  by (metis add_mset_add_single id_take_nth_drop mset.simps(2) mset_append union_mset_add_mset_right)

lemma mset_swap': "i < length xs \<Longrightarrow> j < length xs \<Longrightarrow> mset (swap i j xs) = mset xs"
  unfolding swap_def using mset_swap [of j xs i] by (simp add: list_update_swap)

lemma neighbour_lt: "neighbour bk i n = Some j \<Longrightarrow> i < n \<Longrightarrow> j < n \<and> j \<noteq> i"
  by (auto simp: neighbour_def split: if_splits)

lemma row_update_same:
  "i < length (rr_columns r) \<Longrightarrow> mset (rc_section_ids c) = mset (rc_section_ids (rr_columns r ! i)) \<Longrightarrow>
     row_ids (r\<lparr>rr_columns := (rr_columns r)[i := c]\<rparr>) = row_ids r"
  using list_update_id [of "map (\<lambda>c. mset (rc_section_ids c)) (rr_columns r)" i]
  by (simp add: row_ids_def map_update)

lemma across_same:
  assumes "ci < length cols" "t < length cols" "ci \<noteq> t" "i < length (rc_section_ids (cols ! ci))"
    and "rc_section_ids (cols ! ci) ! i = b"
  shows "(\<Sum>c\<leftarrow>cols[ci := (cols ! ci)\<lparr>rc_section_ids := remove_at i (rc_section_ids (cols ! ci))\<rparr>,
      t := (cols ! t)\<lparr>rc_section_ids := rc_section_ids (cols ! t) @ [b]\<rparr>]. mset (rc_section_ids c))
    = (\<Sum>c\<leftarrow>cols. mset (rc_section_ids c))"
  using assms mset_remove_at [OF assms(4)]
  by (simp add: map_update) (intro sum_list_replace2, auto simp: ac_simps)

lemma move_in_row_same: "move_in_row b direction r = Some r' \<Longrightarrow> row_ids r' = row_ids r"
proof -
  assume mv: "move_in_row b direction r = Some r'"
  then obtain ci where ci: "index_where (\<lambda>c. b \<in> set (rc_section_ids c)) (rr_columns r) = Some ci"
    by (auto simp: move_in_row_def split: option.splits)
  let ?c = "rr_columns r ! ci"
  from index_where_Some [OF ci] have lt: "ci < length (rr_columns r)" and b: "b \<in> set (rc_section_ids ?c)"
    by auto
  then obtain i where i: "index_where (\<lambda>s. s = b) (rc_section_ids ?c) = Some i"
    using index_where_None [of "\<lambda>s. s = b"] by (cases "index_where (\<lambda>s. s = b) (rc_section_ids ?c)") auto
  from index_where_Some [OF i] have li: "i < length (rc_section_ids ?c)" "rc_section_ids ?c ! i = b" by auto
  have within: "mset (rc_section_ids (move_within i bk ?c)) = mset (rc_section_ids ?c)" for bk
    using neighbour_lt [OF _ li(1)] li(1)
    by (auto simp: move_within_def mset_swap' split: option.split)
  have across: "row_ids (r\<lparr>rr_columns := move_across b ci i bk (rr_columns r)\<rparr>) = row_ids r" for bk
    using neighbour_lt [OF _ lt] across_same [OF lt _ _ li]
    by (auto simp: move_across_def row_ids_def split: option.split)
  from mv show ?thesis
    unfolding move_in_row_def ci option.case Let_def i option.sel
    by (cases direction) (auto simp: row_update_same [OF lt] within across)
qed

lemma move_block_placed: "mset (placed (move_block b direction d)) = mset (placed d)"
  by (auto simp: move_block_def split: option.split
      intro!: placed_same update_first_row_same [where g = row_ids] move_in_row_same)

lemma guarded_Some: "(if a then None else if b then Some r else Some x) = Some r' \<Longrightarrow> r' = r \<or> r' = x"
  by (auto split: if_splits)

lemma resize_in_row_same: "resize_in_row c w r = Some r' \<Longrightarrow> row_ids r' = row_ids r"
proof -
  assume rs: "resize_in_row c w r = Some r'"
  then obtain i where i: "index_where (\<lambda>k. rc_id k = c) (rr_columns r) = Some i"
    by (auto simp: resize_in_row_def split: option.splits)
  have li: "i < length (rr_columns r)" using index_where_Some [OF i] by simp
  have same: "map rc_section_ids ((rr_columns r)[i := (rr_columns r ! i)\<lparr>rc_width := x\<rparr>,
      j := (rr_columns r ! j)\<lparr>rc_width := y\<rparr>]) = map rc_section_ids (rr_columns r)" for x y j
    using li list_update_id [of "map rc_section_ids (rr_columns r)" i]
      list_update_id [of "map rc_section_ids (rr_columns r)" j]
    by (cases "j < length (rr_columns r)") (auto simp: map_update list_update_beyond)
  have same_row: "map rc_section_ids (rr_columns (r\<lparr>rr_columns := (rr_columns r)[i := (rr_columns r ! i)\<lparr>rc_width := x\<rparr>,
      j := (rr_columns r ! j)\<lparr>rc_width := y\<rparr>]\<rparr>)) = map rc_section_ids (rr_columns r)" for x y j
    using same [of x j y] by simp
  have "map rc_section_ids (rr_columns r') = map rc_section_ids (rr_columns r)"
    using guarded_Some [OF rs [unfolded resize_in_row_def i option.case Let_def]]
    by (elim disjE) (simp, erule ssubst, rule same_row)
  then have "map mset (map rc_section_ids (rr_columns r')) = map mset (map rc_section_ids (rr_columns r))"
    by (rule arg_cong)
  then show ?thesis by (simp add: row_ids_def comp_def)
qed

lemma resizeColumn_placed: "mset (placed (resizeColumn c w d)) = mset (placed d)"
  by (auto simp: resizeColumn_def split: option.split
      intro!: placed_same update_first_row_same [where g = row_ids] resize_in_row_same)

lemma fill_rows_columns:
  "length cols = length (concat (map rr_columns rs)) \<Longrightarrow> concat (map rr_columns (fill_rows rs cols)) = cols"
  by (induction rs cols rule: fill_rows.induct) simp_all

lemma fill_pages_columns:
  "length cols = length (all_columns ps) \<Longrightarrow> all_columns (fill_pages ps cols) = cols"
  by (induction ps cols rule: fill_pages.induct)
    (simp_all add: all_columns_def Let_def fill_rows_columns)

lemma distinct_column:
  "distinct (placed d) \<Longrightarrow> c \<in> set (all_columns (rd_pages d)) \<Longrightarrow> distinct (rc_section_ids c)"
  by (auto simp: placed_def distinct_concat_iff)

lemma mset_filter_out: "distinct xs \<Longrightarrow> x \<in> set xs \<Longrightarrow> mset (filter (\<lambda>v. v \<noteq> x) xs) + {#x#} = mset xs"
proof -
  assume "distinct xs" "x \<in> set xs"
  then have "mset (remove1 x xs) + {#x#} = mset xs" by simp
  moreover have "remove1 x xs = filter (\<lambda>v. v \<noteq> x) xs"
    using \<open>distinct xs\<close> unfolding distinct_remove1_removeAll [OF \<open>distinct xs\<close>] removeAll_filter_not_eq
    by (intro filter_cong) auto
  ultimately show ?thesis by metis
qed

lemma moveToColumn_placed:
  assumes "distinct (placed d)"
  shows "mset (placed (moveToColumn b c d)) = mset (placed d)"
proof -
  let ?cols = "all_columns (rd_pages d)"
  show ?thesis
  proof (cases "index_where (\<lambda>c. b \<in> set (rc_section_ids c)) (rev ?cols)")
    case (Some k)
    show ?thesis
    proof (cases "index_where (\<lambda>k. rc_id k = c) ?cols")
      case (Some t)
      define s where "s = length ?cols - 1 - k"
      have s_eq: "length ?cols - Suc k = s" by (simp add: s_def)
      have k: "k < length ?cols" "b \<in> set (rc_section_ids (rev ?cols ! k))"
        using index_where_Some [OF \<open>index_where _ (rev ?cols) = Some k\<close>] by auto
      have s: "s < length ?cols" "b \<in> set (rc_section_ids (?cols ! s))"
        using k by (auto simp: s_def rev_nth)
      have t: "t < length ?cols" using index_where_Some [OF Some] by simp
      let ?s = "(?cols ! s)\<lparr>rc_section_ids := filter (\<lambda>v. v \<noteq> b) (rc_section_ids (?cols ! s))\<rparr>"
      let ?t = "(?cols ! t)\<lparr>rc_section_ids := rc_section_ids (?cols ! t) @ [b]\<rparr>"
      have m: "mset (filter (\<lambda>v. v \<noteq> b) (rc_section_ids (?cols ! s))) + {#b#} = mset (rc_section_ids (?cols ! s))"
        using distinct_column [OF assms nth_mem [OF s(1)]] s(2) by (rule mset_filter_out)
      have eq: "mset (filter (\<lambda>v. v \<noteq> b) (rc_section_ids (?cols ! s))) + mset (rc_section_ids (?cols ! t) @ [b])
          = mset (rc_section_ids (?cols ! s)) + mset (rc_section_ids (?cols ! t))"
        unfolding m [symmetric] mset_append by (simp add: ac_simps)
      have "s \<noteq> t \<Longrightarrow> (\<Sum>c\<leftarrow>?cols[s := ?s, t := ?t]. mset (rc_section_ids c)) = (\<Sum>c\<leftarrow>?cols. mset (rc_section_ids c))"
        using s(1) t eq unfolding map_update by (intro sum_list_replace2) simp_all
      moreover have "all_columns (fill_pages (rd_pages d) (?cols[s := ?s, t := ?t])) = ?cols[s := ?s, t := ?t]"
        by (rule fill_pages_columns) simp
      ultimately show ?thesis
        using \<open>index_where _ (rev ?cols) = Some k\<close> Some
        by (simp add: moveToColumn_def Let_def s_eq placed_def mset_sections)
    qed (simp add: moveToColumn_def Let_def \<open>index_where _ (rev ?cols) = Some k\<close>)
  qed (simp add: moveToColumn_def Let_def)
qed

lemma all_columns_map_pages: "all_columns (map_pages f ps) = map f (all_columns ps)"
proof -
  have "concat (map rr_columns (map (\<lambda>r. r\<lparr>rr_columns := map f (rr_columns r)\<rparr>) rs))
      = map f (concat (map rr_columns rs))" for rs :: "resume_row list"
    by (induction rs) auto
  then show ?thesis by (induction ps) (auto simp: all_columns_def map_pages_def)
qed

lemma mset_insert_after: "mset (insert_after x y zs) = (if x \<in> set zs then add_mset y (mset zs) else mset zs)"
  by (induction zs) auto

lemma mset_insert_after_concat:
  "distinct (concat xss) \<Longrightarrow> mset (concat (map (insert_after x y) xss)) =
     (if x \<in> set (concat xss) then add_mset y (mset (concat xss)) else mset (concat xss))"
  by (induction xss) (auto simp: mset_insert_after)

lemma first_column_push_placed:
  "first_column_push i ps = Some qs \<Longrightarrow>
     mset (placed (d\<lparr>rd_pages := qs\<rparr>)) = add_mset i (mset (placed (d\<lparr>rd_pages := ps\<rparr>)))"
proof -
  assume push: "first_column_push i ps = Some qs"
  then obtain p ps' r rs c cs where "ps = p # ps'" "rp_rows p = r # rs" "rr_columns r = c # cs"
    by (auto simp: first_column_push_def split: list.splits)
  with push show ?thesis by (auto simp: first_column_push_def placed_def all_columns_def)
qed

datatype block_patch = PatchTitle string | PatchVisible bool | PatchContent string json

fun patch_block :: "block_patch \<Rightarrow> resume_block \<Rightarrow> resume_block" where
  "patch_block (PatchTitle t) b = b\<lparr>rb_title := t\<rparr>"
| "patch_block (PatchVisible v) b = b\<lparr>rb_visible := v\<rparr>"
| "patch_block (PatchContent k v) b = editContent k v b"

datatype resume_edit =
    MoveBlock string move_direction
  | MoveToColumn string string
  | ResizeColumn string rat
  | AddBlock string string
  | AddRow string
  | DuplicateBlock string resume_block
  | RemoveBlock string
  | EditBlock block_patch "string option"

fun apply_edit :: "resume_edit \<Rightarrow> resume_document \<Rightarrow> resume_document option" where
  "apply_edit (MoveBlock b direction) d = Some (move_block b direction d)"
| "apply_edit (MoveToColumn b c) d = Some (moveToColumn b c d)"
| "apply_edit (ResizeColumn c w) d = Some (resizeColumn c w d)"
| "apply_edit (AddBlock now ty) d = addBlock now ty d"
| "apply_edit (AddRow now) d = addRow now d"
| "apply_edit (DuplicateBlock now b) d = Some (duplicate_block now b d)"
| "apply_edit (RemoveBlock i) d = Some (remove_block i d)"
| "apply_edit (EditBlock p i) d = Some (edit_block (patch_block p) i d)"

text \<open>The ids an edit makes up from the clock are new, and only an existing block is duplicated.\<close>

fun edit_fresh :: "resume_edit \<Rightarrow> resume_document \<Rightarrow> bool" where
  "edit_fresh (AddBlock now ty) d = (''custom-'' @ now \<notin> rb_id ` set (rd_blocks d))"
| "edit_fresh (DuplicateBlock now b) d = (b \<in> set (rd_blocks d) \<and> ''copy-'' @ now \<notin> rb_id ` set (rd_blocks d))"
| "edit_fresh _ d = True"

text \<open>What an edit does to the placed ids.\<close>

fun edit_placed :: "resume_edit \<Rightarrow> string multiset \<Rightarrow> string multiset" where
  "edit_placed (AddBlock now ty) ids = add_mset (''custom-'' @ now) ids"
| "edit_placed (DuplicateBlock now b) ids = (if rb_id b \<in># ids then add_mset (''copy-'' @ now) ids else ids)"
| "edit_placed (RemoveBlock i) ids = filter_mset (\<lambda>v. v \<noteq> i) ids"
| "edit_placed _ ids = ids"

lemma patch_block_id [simp]: "rb_id (patch_block p b) = rb_id b"
  by (cases p) (auto simp: editContent_def)


lemma addBlock_placed:
  "addBlock now ty d = Some d' \<Longrightarrow> mset (placed d') = add_mset (''custom-'' @ now) (mset (placed d))
     \<and> map rb_id (rd_blocks d') = map rb_id (rd_blocks d) @ [''custom-'' @ now]"
  using first_column_push_placed [of "''custom-'' @ now" "rd_pages d" _ d]
  by (auto simp: addBlock_def Let_def placed_def)

lemma addRow_placed:
  "addRow now d = Some d' \<Longrightarrow> mset (placed d') = mset (placed d) \<and> rd_blocks d' = rd_blocks d"
  by (auto simp: addRow_def placed_def all_columns_def split: list.splits)

lemma duplicate_placed:
  assumes "distinct (placed d)"
  shows "mset (placed (duplicate_block now b d)) =
    (if rb_id b \<in> set (placed d) then add_mset (''copy-'' @ now) (mset (placed d)) else mset (placed d))"
  using mset_insert_after_concat [of "map rc_section_ids (all_columns (rd_pages d))" "rb_id b" "''copy-'' @ now"]
    assms
  unfolding placed_def duplicate_block_def Let_def
  by (simp add: all_columns_map_pages comp_def)

lemma remove_placed: "placed (remove_block i d) = filter (\<lambda>v. v \<noteq> i) (placed d)"
  by (simp add: placed_def remove_block_def all_columns_map_pages comp_def filter_concat)

lemma edit_block_ids: "map rb_id (rd_blocks (edit_block (patch_block p) i d)) = map rb_id (rd_blocks d)"
  by (simp add: edit_block_def)

lemma edit_block_placed: "placed (edit_block f i d) = placed d"
  by (simp add: placed_def edit_block_def)

lemma edits_place:
  assumes "layout_ok d" and "edit_fresh e d" and "apply_edit e d = Some d'"
  shows "mset (placed d') = edit_placed e (mset (placed d))"
  using assms
  by (cases e) (auto simp: layout_ok_def move_block_placed moveToColumn_placed resizeColumn_placed
      addBlock_placed duplicate_placed remove_placed edit_block_placed dest: addRow_placed)


text \<open>What an edit does to the ids of the blocks.\<close>

fun edit_ids :: "resume_edit \<Rightarrow> string list \<Rightarrow> string list" where
  "edit_ids (AddBlock now ty) ids = ids @ [''custom-'' @ now]"
| "edit_ids (DuplicateBlock now b) ids = ids @ [''copy-'' @ now]"
| "edit_ids (RemoveBlock i) ids = filter (\<lambda>v. v \<noteq> i) ids"
| "edit_ids _ ids = ids"

lemma move_block_blocks [simp]: "rd_blocks (move_block b direction d) = rd_blocks d"
  by (simp add: move_block_def split: option.split)

lemma moveToColumn_blocks [simp]: "rd_blocks (moveToColumn b c d) = rd_blocks d"
  by (simp add: moveToColumn_def Let_def split: option.split)

lemma resizeColumn_blocks [simp]: "rd_blocks (resizeColumn c w d) = rd_blocks d"
  by (simp add: resizeColumn_def split: option.split)

lemma edits_blocks:
  "apply_edit e d = Some d' \<Longrightarrow> map rb_id (rd_blocks d') = edit_ids e (map rb_id (rd_blocks d))"
  by (cases e) (auto simp: addBlock_placed addRow_placed edit_block_ids duplicate_block_def Let_def
      remove_block_def filter_map comp_def)

definition new_ids :: "resume_edit \<Rightarrow> string set" where
  "new_ids e = (case e of AddBlock now ty \<Rightarrow> {''custom-'' @ now} | DuplicateBlock now b \<Rightarrow> {''copy-'' @ now} | _ \<Rightarrow> {})"

lemma edit_ids_distinct: "distinct ids \<Longrightarrow> new_ids e \<inter> set ids = {} \<Longrightarrow> distinct (edit_ids e ids)"
  by (cases e) (auto simp: new_ids_def)

lemma edit_placed_list:
  "\<exists>ys. mset ys = edit_placed e (mset xs) \<and> set ys \<subseteq> set (edit_ids e xs)
     \<and> (distinct xs \<longrightarrow> new_ids e \<inter> set xs = {} \<longrightarrow> distinct ys)"
proof (cases e)
  case (DuplicateBlock now b)
  then show ?thesis
    by (intro exI [of _ "if rb_id b \<in> set xs then xs @ [''copy-'' @ now] else xs"]) (auto simp: new_ids_def)
qed (intro exI [of _ "edit_ids e xs"], auto simp: new_ids_def)+

lemma edit_ids_mono: "set xs \<subseteq> set ys \<Longrightarrow> set (edit_ids e xs) \<subseteq> set (edit_ids e ys)"
  by (cases e) auto

text \<open>C7. No edit of the layout loses a block or shows one twice: moves and resizing keep the placed
  blocks, adding and duplicating add the new one, removing takes exactly the removed one, and after
  each every placed id is the id of one block and is placed once.\<close>

theorem layout_edits:
  assumes "layout_ok d" and "edit_fresh e d" and "apply_edit e d = Some d'"
  shows "layout_ok d' \<and> mset (placed d') = edit_placed e (mset (placed d))"
proof -
  let ?ids = "map rb_id (rd_blocks d)"
  have ids: "distinct ?ids" "set (placed d) \<subseteq> set ?ids" "distinct (placed d)"
    using assms(1) by (auto simp: layout_ok_def)
  have new: "new_ids e \<inter> set ?ids = {}"
    using assms(2) by (cases e) (auto simp: new_ids_def)
  have m: "mset (placed d') = edit_placed e (mset (placed d))" by (rule edits_place [OF assms])
  from edit_placed_list [of e "placed d"] obtain ys where
    ys: "mset ys = mset (placed d')" "set ys \<subseteq> set (edit_ids e (placed d))"
      "distinct (placed d) \<longrightarrow> new_ids e \<inter> set (placed d) = {} \<longrightarrow> distinct ys"
    unfolding m by blast
  have "distinct ys" using ys(3) ids(2,3) new by blast
  then have "distinct (placed d')" using mset_eq_imp_distinct_iff [OF ys(1)] by simp
  moreover have "set (placed d') \<subseteq> set (map rb_id (rd_blocks d'))"
    unfolding edits_blocks [OF assms(3)]
    using ys(2) edit_ids_mono [OF ids(2), of e] mset_eq_setD [OF ys(1)] by blast
  moreover have "distinct (map rb_id (rd_blocks d'))"
    unfolding edits_blocks [OF assms(3)] by (rule edit_ids_distinct [OF ids(1) new])
  ultimately show ?thesis using m by (simp add: layout_ok_def)
qed

theorem layout_edits_witness:
  "layout_ok (the (apply_edit (AddBlock ''17'' ''divider'') blank_document))"
proof -
  have "apply_edit (AddBlock ''17'' ''divider'') blank_document
      = Some (the (apply_edit (AddBlock ''17'' ''divider'') blank_document))"
    by (simp add: addBlock_def Let_def first_column_push_def blank_document_def)
  from layout_edits [OF _ _ this] show ?thesis
    by (simp add: layout_ok_def placed_def all_columns_def blank_document_def)
qed

section \<open>Column widths\<close>

definition width_ok :: "resume_column \<Rightarrow> bool" where
  "width_ok c \<longleftrightarrow> rc_min_width c \<le> rc_width c \<and> rc_width c \<le> rc_max_width c"

definition row_width :: "resume_row \<Rightarrow> rat" where
  "row_width r = (\<Sum>c\<leftarrow>rr_columns r. rc_width c)"

definition row_widths :: "resume_document \<Rightarrow> rat list list" where
  "row_widths d = map (\<lambda>p. map row_width (rp_rows p)) (rd_pages d)"

lemma resized_row:
  assumes "i < length cols" "j < length cols" "i \<noteq> j" "x + y = rc_width (cols ! i) + rc_width (cols ! j)"
  shows "(\<Sum>c\<leftarrow>cols[i := (cols ! i)\<lparr>rc_width := x\<rparr>, j := (cols ! j)\<lparr>rc_width := y\<rparr>]. rc_width c)
    = (\<Sum>c\<leftarrow>cols. rc_width c)"
  using assms unfolding map_update by (intro sum_list_replace2) simp_all

lemma list_all_update: "list_all P xs \<Longrightarrow> P a \<Longrightarrow> list_all P (xs[i := a])"
  by (auto simp: list_all_iff dest: set_update_subset_insert [THEN subsetD])

lemma list_all_update2: "list_all P xs \<Longrightarrow> P a \<Longrightarrow> P b \<Longrightarrow> list_all P (xs[i := a, j := b])"
  by (intro list_all_update)

lemma resize_in_row_width:
  assumes "resize_in_row columnId w r = Some r'"
  shows "row_width r' = row_width r \<and> (list_all width_ok (rr_columns r) \<longrightarrow> list_all width_ok (rr_columns r'))"
proof -
  from assms obtain i where i: "index_where (\<lambda>c. rc_id c = columnId) (rr_columns r) = Some i"
    by (auto simp: resize_in_row_def split: option.splits)
  let ?cols = "rr_columns r" and ?j = "if i = length (rr_columns r) - 1 then i - 1 else i + 1"
  let ?x = "max (rc_min_width (?cols ! i)) (min (rc_max_width (?cols ! i)) w)"
  let ?y = "rc_width (?cols ! ?j) - (?x - rc_width (?cols ! i))"
  let ?r = "r\<lparr>rr_columns := ?cols[i := (?cols ! i)\<lparr>rc_width := ?x\<rparr>, ?j := (?cols ! ?j)\<lparr>rc_width := ?y\<rparr>]\<rparr>"
  have li: "i < length ?cols" using index_where_Some [OF i] by simp
  note res = assms [unfolded resize_in_row_def i option.case Let_def]
  show ?thesis
  proof (cases "length ?cols < 2 \<or> ?y < rc_min_width (?cols ! ?j) \<or> ?y > rc_max_width (?cols ! ?j)")
    case True
    with res have "r' = r" by (simp only: if_split split: if_split_asm) auto
    then show ?thesis by simp
  next
    case False
    then have len: "\<not> length ?cols < 2" and
      y: "\<not> (?y < rc_min_width (?cols ! ?j) \<or> ?y > rc_max_width (?cols ! ?j))" by blast+
    have r': "r' = ?r"
      using res unfolding if_not_P [OF len] if_not_P [OF y] by simp
    have j: "?j < length ?cols" "i \<noteq> ?j" using len li by auto
    have "row_width ?r = row_width r"
      unfolding row_width_def using resized_row [OF li j, of ?x ?y] by simp
    moreover have "list_all width_ok (rr_columns ?r)" if ok: "list_all width_ok ?cols"
    proof -
      have "width_ok (?cols ! i)" using ok li by (simp add: list_all_length)
      then have "width_ok ((?cols ! i)\<lparr>rc_width := ?x\<rparr>)" by (auto simp: width_ok_def)
      moreover have "width_ok ((?cols ! ?j)\<lparr>rc_width := ?y\<rparr>)" using y by (simp add: width_ok_def not_less)
      ultimately have "list_all width_ok (?cols[i := (?cols ! i)\<lparr>rc_width := ?x\<rparr>, ?j := (?cols ! ?j)\<lparr>rc_width := ?y\<rparr>])"
        by (intro list_all_update2 ok)
      then show ?thesis by simp
    qed
    ultimately show ?thesis unfolding r' by blast
  qed
qed


lemma update_first_list_all:
  assumes "\<And>x y. f x = Some y \<Longrightarrow> Q x \<Longrightarrow> Q y" and "update_first f xs = Some ys" and "list_all Q xs"
  shows "list_all Q ys"
  using assms(2,3) by (induction xs arbitrary: ys) (auto simp: assms(1) split: option.splits)

definition widths_ok :: "resume_document \<Rightarrow> bool" where
  "widths_ok d \<longleftrightarrow> list_all (\<lambda>p. list_all (\<lambda>r. list_all width_ok (rr_columns r)) (rp_rows p)) (rd_pages d)"

text \<open>Dragging a column's edge keeps every column inside its own bounds and every row exactly as wide
  as it was, whatever width is asked for.\<close>

theorem resize_keeps_rows:
  assumes "widths_ok d"
  shows "widths_ok (resizeColumn columnId w d) \<and> row_widths (resizeColumn columnId w d) = row_widths d"
proof (cases "update_first_row (resize_in_row columnId w) (rd_pages d)")
  case None
  with assms show ?thesis by (simp add: resizeColumn_def)
next
  case (Some pages)
  have "map (\<lambda>p. map row_width (rp_rows p)) pages = map (\<lambda>p. map row_width (rp_rows p)) (rd_pages d)"
    by (rule update_first_row_same [OF _ Some]) (use resize_in_row_width in blast)
  moreover have "list_all (\<lambda>p. list_all (\<lambda>r. list_all width_ok (rr_columns r)) (rp_rows p)) pages"
    using Some assms unfolding update_first_row_def widths_ok_def
    by (rule update_first_list_all [rotated])
      (auto intro: update_first_list_all [rotated] dest: resize_in_row_width)
  ultimately show ?thesis by (simp add: resizeColumn_def Some widths_ok_def row_widths_def)
qed

theorem resize_keeps_rows_witness:
  "row_widths (resizeColumn ''column-1'' 7 blank_document) = [[1]]"
  using resize_keeps_rows [of blank_document "''column-1''" 7]
  by (simp add: widths_ok_def width_ok_def blank_document_def row_widths_def row_width_def)

section \<open>Saving\<close>

text \<open>What the page keeps beside the store: the workspace query's revision and status, and the
  proposal under review.\<close>

record builder_page =
  bp_editor :: editor_state
  bp_revision :: "(int \<times> resume_document) option"
  bp_approved :: bool
  bp_proposal :: "resume_document option"

definition editorDocument :: "builder_page \<Rightarrow> resume_document option" where
  "editorDocument p = (case ed_document (bp_editor p) of
      Some d \<Rightarrow> Some d | None \<Rightarrow> map_option snd (bp_revision p))"

definition displayedDocument :: "builder_page \<Rightarrow> resume_document option" where
  "displayedDocument p = (case bp_proposal p of Some d \<Rightarrow> Some d | None \<Rightarrow> editorDocument p)"

definition currentRevisionId :: "builder_page \<Rightarrow> int option" where
  "currentRevisionId p = (case ed_savedRevisionId (bp_editor p) of
      Some r \<Rightarrow> Some r | None \<Rightarrow> map_option fst (bp_revision p))"

text \<open>The effect that runs after every change of the store or of the query's revision.\<close>

definition adopt_revision :: "builder_page \<Rightarrow> builder_page" where
  "adopt_revision p = (case bp_revision p of
      None \<Rightarrow> p
    | Some (r, d) \<Rightarrow>
        if ed_document (bp_editor p) = None
           \<or> (\<not> ed_dirty (bp_editor p) \<and> ed_savedRevisionId (bp_editor p) \<noteq> Some r)
        then p\<lparr>bp_editor := setDocument d (Some r) (bp_editor p)\<rparr> else p)"

text \<open>\<open>save\<close>: the request (\<open>enc\<close> is how axios serialises a document), the answer, and the refetch the
  answer starts. After each the page renders and the effect runs.\<close>

definition save_request ::
  "(resume_document \<Rightarrow> json) \<Rightarrow> int \<Rightarrow> resume_document option \<Rightarrow> string \<Rightarrow> builder_page \<Rightarrow> http_request option" where
  "save_request enc i doc changeKind p = (case doc of
      None \<Rightarrow> None
    | Some d \<Rightarrow> if bp_approved p then None
        else Some (saveBuilderDocumentApi i (enc d) (currentRevisionId p) (Some changeKind)))"

definition save_answered :: "int \<Rightarrow> builder_page \<Rightarrow> builder_page" where
  "save_answered r p = adopt_revision (p\<lparr>bp_editor := markSaved r (bp_editor p)\<rparr>)"

definition revision_refetched :: "int \<Rightarrow> resume_document \<Rightarrow> builder_page \<Rightarrow> builder_page" where
  "revision_refetched r d p = adopt_revision (p\<lparr>bp_revision := Some (r, d)\<rparr>)"

definition revision_restored :: "int \<Rightarrow> resume_document \<Rightarrow> builder_page \<Rightarrow> builder_page" where
  "revision_restored r d p = adopt_revision (p\<lparr>bp_editor := setDocument d (Some r) (bp_editor p)\<rparr>)"

definition page_edit :: "resume_edit \<Rightarrow> builder_page \<Rightarrow> builder_page" where
  "page_edit e p = adopt_revision (p\<lparr>bp_editor := updateDocument (bp_approved p) (apply_edit e) (bp_editor p)\<rparr>)"

text \<open>The autosave effect: a timer is pending exactly in these states.\<close>

definition AUTOSAVE_MS :: int where "AUTOSAVE_MS = 1200"

definition autosave_pending :: "builder_page \<Rightarrow> bool" where
  "autosave_pending p \<longleftrightarrow> ed_dirty (bp_editor p) \<and> editorDocument p \<noteq> None \<and> \<not> bp_approved p"

definition acceptProposal :: "(resume_document \<Rightarrow> json) \<Rightarrow> int \<Rightarrow> builder_page \<Rightarrow> http_request option" where
  "acceptProposal enc i p = (if bp_proposal p = None then None
     else save_request enc i (bp_proposal p) ''ai_refinement'' p)"

definition proposal_accepted :: "builder_page \<Rightarrow> builder_page" where
  "proposal_accepted p = p\<lparr>bp_proposal := None\<rparr>"

text \<open>A page at rest: it shows and has saved the revision the query holds.\<close>

definition page_at_rest :: "int \<Rightarrow> resume_document \<Rightarrow> builder_page \<Rightarrow> bool" where
  "page_at_rest r d p \<longleftrightarrow> bp_revision p = Some (r, d) \<and> ed_document (bp_editor p) = Some d
     \<and> ed_savedRevisionId (bp_editor p) = Some r \<and> \<not> ed_dirty (bp_editor p) \<and> \<not> bp_approved p"

lemma adopt_dirty: "ed_dirty (bp_editor p) \<Longrightarrow> ed_document (bp_editor p) \<noteq> None \<Longrightarrow> adopt_revision p = p"
  by (auto simp: adopt_revision_def split: option.split)

lemma page_edit_result:
  assumes "ed_document (bp_editor p) = Some d" "\<not> bp_approved p" "apply_edit e d = Some d'"
  shows "page_edit e p = p\<lparr>bp_editor := (bp_editor p)\<lparr>ed_document := Some d',
    ed_undo := last_50 (ed_undo (bp_editor p) @ [d]), ed_redo := [], ed_dirty := True\<rparr>\<rparr>"
  using assms by (simp add: page_edit_def updateDocument_def editor_update_def adopt_dirty)

text \<open>C34. An edit made while an autosave is in flight is lost. The answer marks the editor clean although
  its document is newer than the one sent; the effect then finds a clean editor that disagrees with
  the query and puts the revision from before the save back on the screen; the refetch replaces it
  by the revision that was sent. The second edit is in neither document, the undo history is empty,
  and no autosave is pending.\<close>

theorem autosave_drops_edits:
  assumes "page_at_rest r0 d0 p" and "apply_edit e1 d0 = Some d1" and "apply_edit e2 d1 = Some d2"
    and "r1 \<noteq> r0" and "p1 = page_edit e1 p" and "p2 = page_edit e2 p1"
    and "p3 = save_answered r1 p2" and "p4 = revision_refetched r1 d1 p3"
  shows "autosave_pending p1
    \<and> save_request enc i (editorDocument p1) ''manual_edit'' p1
        = Some (saveBuilderDocumentApi i (enc d1) (Some r0) (Some ''manual_edit''))
    \<and> editorDocument p2 = Some d2 \<and> editorDocument p3 = Some d0 \<and> editorDocument p4 = Some d1
    \<and> ed_undo (bp_editor p4) = [] \<and> \<not> autosave_pending p3 \<and> \<not> autosave_pending p4"
proof -
  note rest = assms(1) [unfolded page_at_rest_def]
  have p1: "ed_document (bp_editor p1) = Some d1" "\<not> bp_approved p1" "bp_revision p1 = Some (r0, d0)"
    "ed_savedRevisionId (bp_editor p1) = Some r0" "ed_dirty (bp_editor p1)"
    unfolding assms(5) using rest by (simp_all add: page_edit_result [OF _ _ assms(2)])
  have p2: "ed_document (bp_editor p2) = Some d2" "\<not> bp_approved p2" "bp_revision p2 = Some (r0, d0)"
    unfolding assms(6) using p1 by (simp_all add: page_edit_result [OF p1(1,2) assms(3)])
  have p3: "p3 = p2\<lparr>bp_editor := setDocument d0 (Some r0) (markSaved r1 (bp_editor p2))\<rparr>"
    unfolding assms(7) using p2 assms(4) by (simp add: save_answered_def adopt_revision_def markSaved_def)
  have p4: "bp_editor p4 = setDocument d1 (Some r1) (bp_editor p3)"
    unfolding assms(8) p3 using assms(4)
    by (simp add: revision_refetched_def adopt_revision_def setDocument_def)
  from p1 p2 show ?thesis
    unfolding p3 by (simp add: autosave_pending_def save_request_def editorDocument_def currentRevisionId_def
        p4 setDocument_def)
qed

text \<open>Restoring an earlier revision does not show it: the query still holds the current one and is not
  refetched, so the effect puts that back.\<close>

theorem restore_is_reverted:
  assumes "bp_revision p = Some (r0, d0)" and "r \<noteq> r0"
  shows "editorDocument (revision_restored r d p) = Some d0
    \<and> currentRevisionId (revision_restored r d p) = Some r0"
  using assms
  by (simp add: revision_restored_def adopt_revision_def setDocument_def editorDocument_def currentRevisionId_def)

text \<open>The editor store outlives the page. Opening a workspace mounts the page on whatever the store holds;
  when its query answers, the effect decides between the two documents.\<close>

definition open_workspace :: "editor_state \<Rightarrow> builder_page" where
  "open_workspace e = adopt_revision
     \<lparr>bp_editor = e, bp_revision = None, bp_approved = False, bp_proposal = None\<rparr>"

definition workspace_loaded :: "int \<Rightarrow> resume_document \<Rightarrow> bool \<Rightarrow> builder_page \<Rightarrow> builder_page" where
  "workspace_loaded r d approved p = adopt_revision (p\<lparr>bp_revision := Some (r, d), bp_approved := approved\<rparr>)"

text \<open>C35. Which document an opened workspace shows: its own, or the one it was left with when the store already
  has its revision, unless the store still holds unsaved edits. Those may be of another workspace: they are
  shown as this one's, and the autosave sends them to this workspace with the other one's revision number.\<close>

theorem opened_workspace_document:
  assumes "p = workspace_loaded r' d' False (open_workspace e)"
  shows "editorDocument p = (case ed_document e of
        None \<Rightarrow> Some d'
      | Some d \<Rightarrow> if ed_dirty e \<or> ed_savedRevisionId e = Some r' then Some d else Some d')
    \<and> (ed_document e = Some d \<and> ed_dirty e \<and> ed_savedRevisionId e = Some r \<longrightarrow>
      autosave_pending p \<and> save_request enc j (editorDocument p) ''manual_edit'' p
        = Some (saveBuilderDocumentApi j (enc d) (Some r) (Some ''manual_edit'')))"
  unfolding assms
  by (auto simp: workspace_loaded_def open_workspace_def adopt_revision_def editorDocument_def setDocument_def
      autosave_pending_def save_request_def currentRevisionId_def split: option.split)

text \<open>Workspace 1 is left with an unsaved edit; workspace 2 is opened.\<close>

theorem opened_workspace_document_witness:
  "let e = bp_editor (page_edit (EditBlock (PatchTitle ''A'') (Some ''summary''))
       \<lparr>bp_editor = setDocument blank_document (Some 1) useResumeEditorStore, bp_revision = Some (1, blank_document),
         bp_approved = False, bp_proposal = None\<rparr>);
     p = workspace_loaded 7 (blank_document\<lparr>rd_paper := ''letter''\<rparr>) False (open_workspace e)
   in save_request (\<lambda>d. JStr (rd_paper d)) 2 (editorDocument p) ''manual_edit'' p
      = Some (saveBuilderDocumentApi 2 (JStr (rd_paper blank_document)) (Some 1) (Some ''manual_edit''))"
proof -
  let ?d = "edit_block (patch_block (PatchTitle ''A'')) (Some ''summary'') blank_document"
  let ?p = "\<lparr>bp_editor = setDocument blank_document (Some 1) useResumeEditorStore,
      bp_revision = Some (1, blank_document), bp_approved = False, bp_proposal = None\<rparr> :: builder_page"
  let ?e = "bp_editor (page_edit (EditBlock (PatchTitle ''A'') (Some ''summary'')) ?p)"
  have "?e = (bp_editor ?p)\<lparr>ed_document := Some ?d, ed_undo := last_50 (ed_undo (bp_editor ?p) @ [blank_document]),
      ed_redo := [], ed_dirty := True\<rparr>"
    by (subst page_edit_result) (simp_all add: setDocument_def)
  then have "ed_document ?e = Some ?d \<and> ed_dirty ?e \<and> ed_savedRevisionId ?e = Some 1"
    by (simp add: setDocument_def)
  from mp [OF conjunct2 [OF opened_workspace_document
      [where enc = "\<lambda>d. JStr (rd_paper d)" and j = 2, OF refl]] this]
  show ?thesis by (simp add: Let_def edit_block_def)
qed

definition sample_page :: builder_page where
  "sample_page = \<lparr>bp_editor = setDocument blank_document (Some 1) useResumeEditorStore,
     bp_revision = Some (1, blank_document), bp_approved = False, bp_proposal = None\<rparr>"

theorem autosave_drops_edits_witness:
  "editorDocument (revision_refetched 2 (edit_block (patch_block (PatchTitle ''A'')) (Some ''summary'') blank_document)
     (save_answered 2 (page_edit (EditBlock (PatchTitle ''B'') (Some ''summary''))
        (page_edit (EditBlock (PatchTitle ''A'') (Some ''summary'')) sample_page))))
   = Some (edit_block (patch_block (PatchTitle ''A'')) (Some ''summary'') blank_document)"
proof -
  have "page_at_rest 1 blank_document sample_page"
    by (simp add: page_at_rest_def sample_page_def setDocument_def)
  from autosave_drops_edits [OF this apply_edit.simps(8) apply_edit.simps(8) _ refl refl refl refl,
      where ?r1.0 = 2 and enc = "\<lambda>d. JNull" and i = 1]
  show ?thesis by simp
qed

theorem restore_is_reverted_witness:
  "editorDocument (revision_restored 5 (blank_document\<lparr>rd_paper := ''letter''\<rparr>) sample_page) = Some blank_document"
  using restore_is_reverted [of sample_page 1 blank_document 5] by (simp add: sample_page_def)

section \<open>Background jobs\<close>

datatype job_status = JobSucceeded | JobStopped "string option" | JobRunning

text \<open>The polling loops: at most sixty looks at the job, each after a pause; the server keeps a state.
  \<open>Inl\<close> is the message of the error that is thrown.\<close>

primrec poll_job :: "('s \<Rightarrow> job_status \<times> 's) \<Rightarrow> string \<Rightarrow> string \<Rightarrow> nat \<Rightarrow> 's \<Rightarrow> (string + unit) \<times> 's" where
  "poll_job look failed timed_out 0 s = (Inl timed_out, s)"
| "poll_job look failed timed_out (Suc n) s = (case look s of
      (JobSucceeded, s1) \<Rightarrow> (Inr (), s1)
    | (JobStopped m, s1) \<Rightarrow> (Inl (case Option.bind m or_undefined of Some t \<Rightarrow> t | None \<Rightarrow> failed), s1)
    | (JobRunning, s1) \<Rightarrow> poll_job look failed timed_out n s1)"

definition exportPdf_poll :: "('s \<Rightarrow> job_status \<times> 's) \<Rightarrow> 's \<Rightarrow> (string + unit) \<times> 's" where
  "exportPdf_poll look s = poll_job look ''PDF export failed'' ''PDF export timed out'' 60 s"

definition generate_poll :: "('s \<Rightarrow> job_status \<times> 's) \<Rightarrow> 's \<Rightarrow> (string + unit) \<times> 's" where
  "generate_poll look s = poll_job look ''Generation failed'' ''Generation timed out'' 60 s"

lemma poll_job_times_out:
  assumes "\<And>s. fst (look s) = JobRunning"
  shows "fst (poll_job look failed timed_out n s) = Inl timed_out"
proof (induction n arbitrary: s)
  case (Suc n)
  obtain s1 where "look s = (JobRunning, s1)"
    using assms [of s] by (cases "look s") simp
  with Suc show ?case by simp
qed simp

end
