(* ===== verification/Navigation.thy ===== *)
theory Navigation
  imports Authorization
begin

text \<open>
  Where the pages are and who is sent to them: the sidebar's links
  (\<open>layout/app_layout/navItems.ts\<close>, \<open>Sidebar.tsx\<close>), the application's own links and the table of
  routes with their guards (\<open>app/App.tsx\<close>). Labels are translation keys, icons are left out. The
  matching of a location against the table is react-router's; the model takes it as a parameter
  with the documented law that a static path of the table is matched by its own route
  (\<open>router_law\<close>).
\<close>

definition PERM :: "string \<Rightarrow> string" where
  "PERM name = (case map_of PERMISSIONS name of Some v \<Rightarrow> v | None \<Rightarrow> [])"

section \<open>Sidebar\<close>

record nav_item =
  ni_label :: string
  ni_to :: string
  ni_permission :: permission_arg
  ni_order :: "int option"

definition NAV_ITEMS :: "nav_item list" where
  "NAV_ITEMS = [
    \<lparr>ni_label = ''layout:nav.dashboard'', ni_to = ''/dashboard'', ni_permission = NoPermission, ni_order = Some 10\<rparr>,
    \<lparr>ni_label = ''layout:nav.users'', ni_to = ''/users'', ni_permission = OneAction (PERM ''USERS_LIST_ALL''),
      ni_order = Some 20\<rparr>,
    \<lparr>ni_label = ''layout:nav.policies'', ni_to = ''/policies'',
      ni_permission = AnyOf [PERM ''POLICIES_READ'', PERM ''POLICIES_CREATE''], ni_order = Some 30\<rparr>,
    \<lparr>ni_label = ''layout:nav.permissions'', ni_to = ''/permissions'',
      ni_permission = OneAction (PERM ''PERMISSIONS_READ''), ni_order = Some 32\<rparr>,
    \<lparr>ni_label = ''layout:nav.rateLimits'', ni_to = ''/rate-limits'',
      ni_permission = OneAction (PERM ''RATE_LIMITS_READ''), ni_order = Some 35\<rparr>,
    \<lparr>ni_label = ''layout:nav.auditLog'', ni_to = ''/audit-log'', ni_permission = NoPermission, ni_order = Some 40\<rparr>,
    \<lparr>ni_label = ''layout:nav.accountSettings'', ni_to = ''/account-settings'', ni_permission = NoPermission,
      ni_order = Some 50\<rparr>]"

text \<open>The links \<open>App.tsx\<close> passes to every layout and to the command palette; \<open>t\<close> translates their labels.\<close>

definition extraNavItems :: "(string \<Rightarrow> string) \<Rightarrow> nav_item list" where
  "extraNavItems t = [
    \<lparr>ni_label = t ''nav.careerKnowledge'', ni_to = ''/career-knowledge'', ni_permission = NoPermission, ni_order = Some 12\<rparr>,
    \<lparr>ni_label = t ''nav.resumes'', ni_to = ''/resume-builder'', ni_permission = NoPermission, ni_order = Some 14\<rparr>,
    \<lparr>ni_label = t ''nav.applications'', ni_to = ''/applications'', ni_permission = NoPermission, ni_order = Some 16\<rparr>]"

text \<open>The comparator is not positive; \<open>Infinity - Infinity\<close> is \<open>NaN\<close>, which the sort takes as \<open>0\<close>.\<close>

fun order_le :: "int option \<Rightarrow> int option \<Rightarrow> bool" where
  "order_le a None = True"
| "order_le None (Some n) = False"
| "order_le (Some m) (Some n) = (m \<le> n)"

definition sidebar_items :: "nav_item list option \<Rightarrow> nav_item list" where
  "sidebar_items extraItems = (case extraItems of
      None \<Rightarrow> NAV_ITEMS
    | Some es \<Rightarrow> if length es > 0
        then js_sort (\<lambda>a b. order_le (ni_order a) (ni_order b)) (NAV_ITEMS @ es) else NAV_ITEMS)"

text \<open>A link with a permission is wrapped in \<open>IfCan\<close>.\<close>

definition sidebar_links :: "auth_state \<Rightarrow> nav_item list option \<Rightarrow> nav_item list" where
  "sidebar_links s extraItems = filter (\<lambda>i. no_permission_asked (ni_permission i)
     \<or> IfCan s (ni_permission i) None (Nothing :: unit guarded) = Children) (sidebar_items extraItems)"

lemma order_le_preorder: "total_preorder (\<lambda>a b. order_le (ni_order a) (ni_order b))"
proof -
  have "order_le x y \<or> order_le y x" "order_le x y \<Longrightarrow> order_le y z \<Longrightarrow> order_le x z" for x y z
    by (cases x; cases y; cases z; auto)+
  then show ?thesis unfolding total_preorder_def by blast
qed

lemma sidebar_sorted:
  "sorted_wrt (\<lambda>a b. order_le (ni_order a) (ni_order b)) (sidebar_items (Some es))"
proof (cases es)
  case Nil
  then show ?thesis by (simp add: sidebar_items_def NAV_ITEMS_def)
next
  case (Cons e es')
  then show ?thesis by (simp add: sidebar_items_def sorted_js_sort [OF order_le_preorder] del: append.simps)
qed

section \<open>Routes\<close>

datatype page_element = Public string | Protected permission_arg string

definition ROUTES :: "(string \<times> page_element) list" where
  "ROUTES = [
    (''/'', Public ''LandingPage''),
    (''/dashboard'', Protected NoPermission ''DashboardPage''),
    (''/users'', Protected (OneAction (PERM ''USERS_LIST_ALL'')) ''UsersPage''),
    (''/policies'', Protected (AnyOf [PERM ''POLICIES_READ'', PERM ''POLICIES_CREATE'']) ''PoliciesPage''),
    (''/permissions'', Protected (OneAction (PERM ''PERMISSIONS_READ'')) ''PermissionsPage''),
    (''/rate-limits'', Protected (OneAction (PERM ''RATE_LIMITS_READ'')) ''RateLimitsPage''),
    (''/audit-log'', Protected NoPermission ''AuditLogPage''),
    (''/account-settings'', Protected NoPermission ''AccountSettingsPage''),
    (''/career-knowledge'', Protected NoPermission ''CareerKnowledgePage''),
    (''/resume-builder'', Protected NoPermission ''ResumeWorkspacesPage''),
    (''/resume-builder/new'', Protected NoPermission ''ResumeSetupPage''),
    (''/resume-builder/new/templates'', Protected NoPermission ''ResumeTemplatePickerPage''),
    (''/resume-builder/:workspaceId'', Protected NoPermission ''ResumeBuilderPage''),
    (''/applications'', Protected NoPermission ''ApplicationsPage''),
    (''/login'', Public ''LoginPage''),
    (''/signup'', Public ''SignupPage''),
    (''/verify-account'', Public ''VerifyAccountPage''),
    (''/password-reset-request'', Public ''PasswordResetRequestPage''),
    (''/reset-password'', Public ''PasswordResetConfirmPage''),
    (''/confirm-delete'', Public ''ConfirmDeleteAccountPage''),
    (''/privacy'', Public ''PrivacyPolicyPage''),
    (''/terms'', Public ''TermsOfServicePage''),
    (''/not-authorized'', Public ''NotAuthorizedPage''),
    (''*'', Public ''NotFoundPage'')]"

text \<open>The path of a destination, without its query string and fragment.\<close>

definition path_of :: "string \<Rightarrow> string" where
  "path_of dest = takeWhile (\<lambda>c. c \<noteq> CHR ''?'' \<and> c \<noteq> CHR ''#'') dest"

definition static_path :: "string \<Rightarrow> bool" where
  "static_path p \<longleftrightarrow> CHR '':'' \<notin> set p \<and> CHR ''*'' \<notin> set p"

definition router_law :: "(string \<Rightarrow> page_element) \<Rightarrow> bool" where
  "router_law match \<longleftrightarrow> (\<forall>(p, e) \<in> set ROUTES. static_path p \<longrightarrow> match p = e)"

text \<open>An instance of the law: exact matching, everything else is not found.\<close>

definition exact_match :: "string \<Rightarrow> page_element" where
  "exact_match p = (case map_of ROUTES p of Some e \<Rightarrow> e | None \<Rightarrow> Public ''NotFoundPage'')"

lemma exact_match_law: "router_law exact_match"
  unfolding router_law_def by (simp add: ROUTES_def exact_match_def)

text \<open>What somebody sees who arrives at an element: a guard mounts with the store of that moment.\<close>

definition arrive :: "auth_state \<Rightarrow> page_element \<Rightarrow> route_view" where
  "arrive s e = (case e of
      Public name \<Rightarrow> RouteChildren
    | Protected p name \<Rightarrow> fst (route_render p s (route_mount s p)))"

lemma arrive_protected:
  "isAuthenticated s = Some True \<Longrightarrow> arrive s (Protected p name) = RouteChildren \<longleftrightarrow>
     no_permission_asked p \<or> can s p"
  by (auto simp: arrive_def route_render_def route_remember_def route_mount_def route_decision_def
      route_allowed_def Let_def)

definition opens :: "auth_state \<Rightarrow> (string \<Rightarrow> page_element) \<Rightarrow> string \<Rightarrow> bool" where
  "opens s match dest \<longleftrightarrow> arrive s (match (path_of dest)) = RouteChildren"

lemma opens_static:
  "router_law match \<Longrightarrow> (path_of dest, e) \<in> set ROUTES \<Longrightarrow> static_path (path_of dest) \<Longrightarrow>
     opens s match dest \<longleftrightarrow> arrive s e = RouteChildren"
  by (auto simp: router_law_def opens_def)

text \<open>The guard of a page asks for exactly what the link to it asks for.\<close>

definition guard_of :: "string \<Rightarrow> permission_arg option" where
  "guard_of dest = (case map_of ROUTES (path_of dest) of
      Some (Protected p name) \<Rightarrow> Some p | _ \<Rightarrow> None)"

lemma guard_of_opens:
  assumes "router_law match" and "guard_of dest = Some p" and "static_path (path_of dest)"
    and "isAuthenticated s = Some True"
  shows "opens s match dest \<longleftrightarrow> no_permission_asked p \<or> can s p"
proof -
  obtain name where "map_of ROUTES (path_of dest) = Some (Protected p name)"
    using assms(2) by (auto simp: guard_of_def split: option.splits page_element.splits)
  then have "(path_of dest, Protected p name) \<in> set ROUTES" by (rule map_of_SomeD)
  from opens_static [OF assms(1) this assms(3)] arrive_protected [OF assms(4)] show ?thesis by simp
qed

lemma extraNavItems_not_empty [simp]: "extraNavItems t \<noteq> []"
  by (simp add: extraNavItems_def)

lemma nav_guards:
  "i \<in> set (NAV_ITEMS @ extraNavItems t) \<Longrightarrow>
     guard_of (ni_to i) = Some (ni_permission i) \<and> static_path (path_of (ni_to i))"
proof -
  have "\<forall>i \<in> set (NAV_ITEMS @ extraNavItems t).
      guard_of (ni_to i) = Some (ni_permission i) \<and> static_path (path_of (ni_to i))"
    unfolding NAV_ITEMS_def extraNavItems_def
    by (simp add: guard_of_def path_of_def ROUTES_def static_path_def)
  then show "i \<in> set (NAV_ITEMS @ extraNavItems t) \<Longrightarrow> ?thesis" by blast
qed

text \<open>C25. The sidebar never sends anybody to a page that turns them away: for a signed-in user every
  link it shows opens its page, and every page of the table it leaves out would have been refused.\<close>

theorem sidebar_links_open:
  assumes "router_law match" and "isAuthenticated s = Some True" and "i \<in> set (NAV_ITEMS @ extraNavItems t)"
  shows "i \<in> set (sidebar_links s (Some (extraNavItems t))) \<longleftrightarrow> opens s match (ni_to i)"
proof -
  have "i \<in> set (sidebar_items (Some (extraNavItems t)))"
    using assms(3) by (simp add: sidebar_items_def extraNavItems_not_empty del: append.simps)
  moreover have "IfCan s (ni_permission i) None (Nothing :: unit guarded) = Children \<longleftrightarrow> can s (ni_permission i)"
    using assms(2) by (simp add: IfCan_def Authorized_def useCan_def)
  ultimately show ?thesis
    using guard_of_opens [OF assms(1) _ _ assms(2)] nav_guards [OF assms(3)]
    by (simp add: sidebar_links_def)
qed

theorem sidebar_links_open_witness:
  "opens (auth_initial\<lparr>isAuthenticated := Some True\<rparr>) exact_match ''/dashboard''"
proof -
  let ?s = "auth_initial\<lparr>isAuthenticated := Some True\<rparr>" and ?i = "hd NAV_ITEMS"
  have i: "?i \<in> set (NAV_ITEMS @ extraNavItems id)" "ni_to ?i = ''/dashboard''"
    by (simp_all add: NAV_ITEMS_def)
  have "?i \<in> set (sidebar_links ?s (Some (extraNavItems id)))"
    by (simp add: sidebar_links_def sidebar_items_def extraNavItems_def NAV_ITEMS_def)
  with sidebar_links_open [OF exact_match_law _ i(1), of ?s] i(2) show ?thesis by simp
qed

section \<open>From one guarded page to another\<close>

text \<open>Every guarded route of the table has a \<open>ProtectedRoute\<close> at the same place of the tree, and nothing
  gives them keys. Whether the guard of the next page is a new one or the old one with its two state cells
  is decided by react-router and React, so it is a parameter: \<open>kept\<close>.\<close>

definition next_guard :: "bool \<Rightarrow> permission_arg \<Rightarrow> auth_state \<Rightarrow> route_memory \<Rightarrow> route_memory" where
  "next_guard kept p s m = (if kept then m else route_mount s p)"

definition journey_view :: "bool \<Rightarrow> permission_arg \<Rightarrow> auth_state \<Rightarrow> route_memory \<Rightarrow> route_view" where
  "journey_view kept p s m = fst (route_render p s (next_guard kept p s m))"

text \<open>A guard that is kept across a navigation still lets nobody through who may not pass, but it answers
  differently to somebody who never could: having been allowed on the page before, they are treated as if
  this page had been taken away from them and sent to the dashboard, instead of to the not-authorized page.\<close>

theorem guard_journey:
  assumes "m = snd (route_render NoPermission s0 (route_mount s0 NoPermission))"
    and "isAuthenticated s0 = Some True" and "isAuthenticated s = Some True"
  shows "(journey_view kept p s m = RouteChildren \<longleftrightarrow> route_allowed s p)
    \<and> (\<not> route_allowed s p \<and> \<not> permissionsPending s \<longrightarrow>
      journey_view kept p s m = RedirectTo (if kept then ''/dashboard'' else ''/not-authorized''))"
proof -
  have "m = \<lparr>prevIsAllowed = True, wasEverAllowed = True\<rparr>"
    using assms(1,2) by (simp add: route_render_def route_remember_def route_mount_def route_allowed_def Let_def)
  then show ?thesis
    using assms(3)
    by (auto simp: journey_view_def next_guard_def route_render_def route_remember_def route_decision_def
        route_mount_def Let_def)
qed

theorem guard_journey_witness:
  "let s = auth_initial\<lparr>isAuthenticated := Some True\<rparr>;
       m = snd (route_render NoPermission s (route_mount s NoPermission))
   in journey_view True (OneAction ''users:list_all'') s m = RedirectTo ''/dashboard''"
proof -
  let ?s = "auth_initial\<lparr>isAuthenticated := Some True\<rparr>"
  have "\<not> route_allowed ?s (OneAction ''users:list_all'') \<and> \<not> permissionsPending ?s"
    by (simp add: route_allowed_def can_iff auth_initial_def)
  from guard_journey [OF refl, of ?s ?s True "OneAction ''users:list_all''"] this show ?thesis by (simp add: Let_def)
qed

end
