(* ===== verification/SearchText.thy ===== *)
theory SearchText
  imports JsValues
begin

text \<open>
  The text sweeps behind the command palette (\<open>translations/searchText.ts\<close>). A translation bundle is a
  JSON document; i18next's registry (\<open>exists\<close>, the fixed \<open>t\<close>, \<open>getResourceBundle\<close>) is a parameter.
  The main lemma says that the per-string matches are exactly the distinct strings of the blob the
  page is searched by that contain the query.
\<close>

record i18n_registry =
  ix_exists :: "string \<Rightarrow> string \<Rightarrow> bool"
  ix_fixedT :: "string \<Rightarrow> string \<Rightarrow> string"
  ix_bundle :: "string \<Rightarrow> string \<Rightarrow> json option"

section \<open>Walking a bundle\<close>

text \<open>\<open>Object.values\<close> of an array are its elements; of an object its property values, in order.\<close>

fun flattenValues :: "json \<Rightarrow> string list \<Rightarrow> string list"
  and flatten_elements :: "json list \<Rightarrow> string list \<Rightarrow> string list"
  and flatten_properties :: "(string \<times> json) list \<Rightarrow> string list \<Rightarrow> string list" where
  "flattenValues (JStr s) out = out @ [s]"
| "flattenValues (JArr vs) out = flatten_elements vs out"
| "flattenValues (JObj kvs) out = flatten_properties kvs out"
| "flattenValues _ out = out"
| "flatten_elements [] out = out"
| "flatten_elements (v # vs) out = flatten_elements vs (flattenValues v out)"
| "flatten_properties [] out = out"
| "flatten_properties ((k, v) # kvs) out = flatten_properties kvs (flattenValues v out)"

text \<open>\<open>acc[key]\<close> on an object or an array; anything else ends the path.\<close>

fun json_get :: "json option \<Rightarrow> string \<Rightarrow> json option" where
  "json_get (Some (JObj kvs)) key = map_of kvs key"
| "json_get (Some (JArr vs)) key =
     (if key = ''length'' then Some (JNum (int (length vs)))
      else map_option (\<lambda>i. vs ! i) (find (\<lambda>i. nat_text i = key) [0..<length vs]))"
| "json_get _ key = None"

definition getPath :: "json option \<Rightarrow> string \<Rightarrow> json option" where
  "getPath obj path = foldl json_get obj (js_split (CHR ''.'') path)"

text \<open>An absent node contributes nothing.\<close>

definition flatten_opt :: "json option \<Rightarrow> string list \<Rightarrow> string list" where
  "flatten_opt node out = (case node of None \<Rightarrow> out | Some v \<Rightarrow> flattenValues v out)"

definition namespaceSearchText :: "i18n_registry \<Rightarrow> string \<Rightarrow> string \<Rightarrow> string" where
  "namespaceSearchText ix ns language = js_lower (js_join '' '' (flatten_opt (ix_bundle ix language ns) []))"

definition scopedSearchText :: "i18n_registry \<Rightarrow> string \<Rightarrow> string \<Rightarrow> string list \<Rightarrow> string" where
  "scopedSearchText ix ns language paths = (let bundle = ix_bundle ix language ns
     in js_lower (js_join '' '' (foldl (\<lambda>out path. flatten_opt (getPath bundle path) out) [] paths)))"

section \<open>Collecting matches\<close>

text \<open>A string is a match if it contains the query and has no interpolation token.\<close>

definition match_text :: "string \<Rightarrow> string \<Rightarrow> bool" where
  "match_text lowerQuery s \<longleftrightarrow> js_includes (js_lower s) lowerQuery \<and> \<not> js_includes s ''{{''"

fun collectMatches :: "string \<Rightarrow> json \<Rightarrow> string list \<Rightarrow> string list"
  and collect_elements :: "string \<Rightarrow> json list \<Rightarrow> string list \<Rightarrow> string list"
  and collect_properties :: "string \<Rightarrow> (string \<times> json) list \<Rightarrow> string list \<Rightarrow> string list" where
  "collectMatches q (JStr s) out = (if match_text q s then set_add out s else out)"
| "collectMatches q (JArr vs) out = collect_elements q vs out"
| "collectMatches q (JObj kvs) out = collect_properties q kvs out"
| "collectMatches q _ out = out"
| "collect_elements q [] out = out"
| "collect_elements q (v # vs) out = collect_elements q vs (collectMatches q v out)"
| "collect_properties q [] out = out"
| "collect_properties q ((k, v) # kvs) out = collect_properties q kvs (collectMatches q v out)"

definition collect_opt :: "string \<Rightarrow> json option \<Rightarrow> string list \<Rightarrow> string list" where
  "collect_opt q node out = (case node of None \<Rightarrow> out | Some v \<Rightarrow> collectMatches q v out)"

definition namespaceMatches :: "i18n_registry \<Rightarrow> string \<Rightarrow> string \<Rightarrow> string \<Rightarrow> string list" where
  "namespaceMatches ix ns language query =
     collect_opt (js_lower query) (ix_bundle ix language ns) []"

definition scopedMatches :: "i18n_registry \<Rightarrow> string \<Rightarrow> string \<Rightarrow> string list \<Rightarrow> string \<Rightarrow> string list" where
  "scopedMatches ix ns language paths query = (let bundle = ix_bundle ix language ns;
       lowerQuery = js_lower query
     in foldl (\<lambda>out path. collect_opt lowerQuery (getPath bundle path) out) [] paths)"

section \<open>Matches and the searched text\<close>

text \<open>The accumulators: flattening appends, collecting adds the matching strings one by one.\<close>

lemma elements_append_if:
  assumes "\<And>v xs. v \<in> set vs \<Longrightarrow> flattenValues v xs = xs @ flattenValues v []"
  shows "flatten_elements vs xs = xs @ flatten_elements vs []"
  using assms
proof (induction vs arbitrary: xs)
  case (Cons v vs)
  have tail: "flatten_elements vs ys = ys @ flatten_elements vs []" for ys
    by (rule Cons.IH, rule Cons.prems) simp
  have head: "flattenValues v xs = xs @ flattenValues v []" by (rule Cons.prems) simp
  show ?case
    unfolding flatten_elements.simps head tail [of "xs @ flattenValues v []"] tail [of "flattenValues v []"]
    by simp
qed simp

lemma properties_elements: "flatten_properties kvs xs = flatten_elements (map snd kvs) xs"
  by (induction kvs arbitrary: xs) auto

lemma flatten_append: "flattenValues v xs = xs @ flattenValues v []"
proof (induction v arbitrary: xs)
  case (JArr vs)
  then show ?case unfolding flattenValues.simps by (rule elements_append_if)
next
  case (JObj kvs)
  have "flattenValues v ys = ys @ flattenValues v []" if v: "v \<in> set (map snd kvs)" for v ys
  proof -
    from v obtain p where "p \<in> set kvs" "v \<in> Basic_BNFs.snds p" by (auto simp: snds.simps)
    then show ?thesis by (rule JObj.IH)
  qed
  then show ?case unfolding flattenValues.simps properties_elements by (rule elements_append_if)
qed simp_all

lemma elements_append: "flatten_elements vs xs = xs @ flatten_elements vs []"
  by (rule elements_append_if) (rule flatten_append)

lemma properties_append: "flatten_properties kvs xs = xs @ flatten_properties kvs []"
  unfolding properties_elements by (rule elements_append)

definition add_matches :: "string \<Rightarrow> string list \<Rightarrow> string list \<Rightarrow> string list" where
  "add_matches q ss out = foldl (\<lambda>out s. if match_text q s then set_add out s else out) out ss"

lemma add_matches_simps [simp]:
  "add_matches q [] out = out"
  "add_matches q (s # ss) out = add_matches q ss (if match_text q s then set_add out s else out)"
  "add_matches q (ss @ ts) out = add_matches q ts (add_matches q ss out)"
  by (simp_all add: add_matches_def)

lemma collect_flatten:
  "collectMatches q v out = add_matches q (flattenValues v []) out"
  "collect_elements q vs out = add_matches q (flatten_elements vs []) out"
  "collect_properties q kvs out = add_matches q (flatten_properties kvs []) out"
proof (induction q v out and q vs out and q kvs out
    rule: collectMatches_collect_elements_collect_properties.induct)
  case (6 q v vs out)
  then show ?case by (simp add: elements_append [of vs "flattenValues v []"])
next
  case (8 q k v kvs out)
  then show ?case by (simp add: properties_append [of kvs "flattenValues v []"])
qed simp_all

lemma collect_opt_flatten: "collect_opt q node out = add_matches q (flatten_opt node []) out"
  by (simp add: collect_opt_def flatten_opt_def collect_flatten split: option.split)

lemma set_add_distinct: "set_add (js_distinct xs) x = js_distinct (xs @ [x])"
  by (simp add: set_add_def js_distinct_snoc)

lemma add_matches_distinct:
  "add_matches q ss (js_distinct out) = js_distinct (out @ filter (match_text q) ss)"
proof (induction ss arbitrary: out)
  case (Cons s ss)
  from Cons [of "out @ [s]"] Cons [of out] show ?case by (simp add: set_add_distinct)
qed simp

lemma add_matches_filter: "add_matches q ss [] = js_distinct (filter (match_text q) ss)"
  using add_matches_distinct [of q ss "[]"] by simp

lemma flatten_opt_append: "flatten_opt node out = out @ flatten_opt node []"
  by (simp add: flatten_opt_def flatten_append [of _ out] split: option.split)

definition scoped_strings :: "json option \<Rightarrow> string list \<Rightarrow> string list" where
  "scoped_strings bundle paths = concat (map (\<lambda>path. flatten_opt (getPath bundle path) []) paths)"

lemma scoped_fold_text:
  "foldl (\<lambda>out path. flatten_opt (getPath bundle path) out) out paths = out @ scoped_strings bundle paths"
proof (induction paths arbitrary: out)
  case (Cons p ps)
  then show ?case
    by (simp add: scoped_strings_def flatten_opt_append [of "getPath bundle p" out])
qed (simp add: scoped_strings_def)

lemma scoped_fold_matches:
  "foldl (\<lambda>out path. collect_opt q (getPath bundle path) out) out paths
     = add_matches q (scoped_strings bundle paths) out"
  by (induction paths arbitrary: out) (simp_all add: scoped_strings_def collect_opt_flatten)

lemma namespaceMatches_eq:
  "namespaceMatches ix ns l q
     = js_distinct (filter (match_text (js_lower q)) (flatten_opt (ix_bundle ix l ns) []))"
  by (simp add: namespaceMatches_def collect_opt_flatten add_matches_filter)

lemma scopedMatches_eq:
  "scopedMatches ix ns l ps q
     = js_distinct (filter (match_text (js_lower q)) (scoped_strings (ix_bundle ix l ns) ps))"
  by (simp add: scopedMatches_def Let_def scoped_fold_matches add_matches_filter)

section \<open>Lower case\<close>

lemma char_lower_idem [simp]: "char_lower (char_lower c) = char_lower c"
proof (cases "char_lower c = c")
  case False
  let ?n = "of_char c :: nat"
  have n: "65 \<le> ?n" "?n \<le> 90" using False by (auto simp: char_lower_def Let_def split: if_splits)
  then have "(of_char (char_of (?n + 32) :: char) :: nat) = ?n + 32"
    by (simp only: of_char_of) simp
  with n show ?thesis by (simp add: char_lower_def Let_def)
qed simp

lemma js_lower_idem [simp]: "js_lower (js_lower s) = js_lower s"
  by (simp add: js_lower_def)

lemma js_lower_append [simp]: "js_lower (s @ t) = js_lower s @ js_lower t"
  by (simp add: js_lower_def)

lemma js_includes_self [simp]: "js_includes s s"
  by (metis append_Nil append_Nil2 js_includes_iff)

lemma js_includes_mono: "js_includes s q \<Longrightarrow> js_includes (a @ s @ b) q"
  by (metis append.assoc js_includes_iff)

lemma js_includes_join: "js_includes s q \<Longrightarrow> s \<in> set ss \<Longrightarrow> js_includes (js_join sep ss) q"
proof (induction sep ss rule: js_join.induct)
  case (3 sep a b ss)
  then show ?case
    using js_includes_mono [of s q "[]" "sep @ js_join sep (b # ss)"]
      js_includes_mono [of "js_join sep (b # ss)" q "a @ sep" "[]"] by auto
qed auto

lemma js_lower_join: "js_lower (js_join sep ss) = js_join (js_lower sep) (map js_lower ss)"
  by (induction sep ss rule: js_join.induct) (simp_all add: js_lower_def)

lemma lower_join_includes:
  "js_includes (js_lower s) q \<Longrightarrow> s \<in> set ss \<Longrightarrow> js_includes (js_lower (js_join sep ss)) q"
  unfolding js_lower_join by (rule js_includes_join) auto

text \<open>Every string the matches list is in the text its page is found by.\<close>

lemma namespace_match_found:
  assumes "s \<in> set (namespaceMatches ix ns l q)"
  shows "js_includes (namespaceSearchText ix ns l) (js_lower q)"
  using assms lower_join_includes [of s "js_lower q"]
  by (auto simp: namespaceMatches_eq namespaceSearchText_def match_text_def)

lemma scoped_match_found:
  assumes "s \<in> set (scopedMatches ix ns l ps q)"
  shows "js_includes (scopedSearchText ix ns l ps) (js_lower q)"
  using assms lower_join_includes [of s "js_lower q"] scoped_fold_text [of _ "[]" ps]
  by (auto simp: scopedMatches_eq scopedSearchText_def match_text_def Let_def)

end
