(* ===== verification/CommandPalette.thy ===== *)
theory CommandPalette
  imports Navigation UsersPage PolicyForm SearchText
begin

text \<open>
  The command palette: what it can find (\<open>searchItems.ts\<close>), how the result groups are built and ranked
  (\<open>CommandPaletteResults.ts\<close>), which rows get a group header (\<open>CommandPaletteResultsList.tsx\<close>) and the
  keyboard (\<open>CommandPalette.tsx\<close>). Icons are left out. The answers of the two server searches and of the
  catalogue query are parameters.
\<close>

section \<open>What can be found\<close>

record search_item =
  si_label :: string
  si_detail :: "string option"
  si_group :: string
  si_matchKeys :: "string list option"
  si_scope :: "(string \<times> string list) option"
  si_to :: string
  si_permission :: permission_arg

definition settings_item :: "string \<Rightarrow> string list option \<Rightarrow> search_item" where
  "settings_item tab paths = \<lparr>si_label = ''account_settings:tabs.'' @ tab, si_detail = None,
     si_group = ''account_settings:pageTitle'', si_matchKeys = None,
     si_scope = map_option (Pair ''account_settings'') paths,
     si_to = ''/account-settings?tab='' @ tab, si_permission = NoPermission\<rparr>"

definition audit_item :: "string \<Rightarrow> string \<Rightarrow> string \<Rightarrow> string \<Rightarrow> permission_arg \<Rightarrow> search_item" where
  "audit_item tab detail category scope p = \<lparr>si_label = ''audit_log:tabs.'' @ tab,
     si_detail = Some (''audit_log:tabs.'' @ detail), si_group = ''audit_log:page.title'', si_matchKeys = None,
     si_scope = Some (''audit_log'', [''tabs.'' @ tab, ''tabs.'' @ detail, category]),
     si_to = ''/audit-log?category='' @ category @ ''&scope='' @ scope, si_permission = p\<rparr>"

definition SEARCH_ITEMS :: "search_item list" where
  "SEARCH_ITEMS = [
    settings_item ''password'' (Some [''tabs.password'', ''changePassword'']),
    settings_item ''profile'' (Some [''tabs.profile'', ''profileName'']),
    settings_item ''status'' (Some [''tabs.status'', ''accountStatus'']),
    settings_item ''appearance'' (Some [''tabs.appearance'', ''appearance'']),
    settings_item ''legal'' None,
    settings_item ''danger'' (Some [''tabs.danger'', ''deleteAccount'']),
    \<lparr>si_label = ''dashboard:activeSessionsCard.heading'', si_detail = None, si_group = ''layout:nav.dashboard'',
      si_matchKeys = None, si_scope = Some (''dashboard'', [''activeSessionsCard'', ''parseUserAgent'']),
      si_to = ''/dashboard'', si_permission = NoPermission\<rparr>,
    audit_item ''authorizationDecisions'' ''myActivity'' ''authorization'' ''mine'' NoPermission,
    audit_item ''authorizationDecisions'' ''allUsers'' ''authorization'' ''all'' (OneAction (PERM ''POLICIES_READ'')),
    audit_item ''securityEvents'' ''myActivity'' ''security'' ''mine'' NoPermission,
    audit_item ''securityEvents'' ''allUsers'' ''security'' ''all'' (OneAction (PERM ''SECURITY_AUDIT_READ''))]"

definition PAGE_CONTENT_NAMESPACES :: "(string \<times> string list) list" where
  "PAGE_CONTENT_NAMESPACES = [
    (''/dashboard'', [''dashboard'']), (''/users'', [''users'']), (''/policies'', [''policies'']),
    (''/permissions'', [''permissions'']), (''/rate-limits'', [''rate_limits'']),
    (''/audit-log'', [''audit_log'']), (''/account-settings'', [''account_settings''])]"

definition page_namespaces :: "string \<Rightarrow> string list" where
  "page_namespaces dest = (case map_of PAGE_CONTENT_NAMESPACES dest of Some ns \<Rightarrow> ns | None \<Rightarrow> [])"

section \<open>Results\<close>

datatype result_kind = KPage | KContent | KMatch | KUser | KPolicy

record palette_result =
  pr_kind :: result_kind
  pr_to :: string
  pr_label :: string
  pr_sublabel :: "string option"

text \<open>What one render of the hook reads: the store, the language and registry, the props and the data
  of its three queries.\<close>

record palette_input =
  pi_auth :: auth_state
  pi_language :: string
  pi_i18n :: i18n_registry
  pi_nav :: "nav_item list option"
  pi_search :: "search_item list option"
  pi_catalog :: "catalog_entry list option"
  pi_users :: "managed_user list option"
  pi_policies :: "policy_read list option"

abbreviation or_empty :: "'a list option \<Rightarrow> 'a list" where
  "or_empty xs \<equiv> (case xs of None \<Rightarrow> [] | Some ys \<Rightarrow> ys)"

definition nav_entries :: "palette_input \<Rightarrow> nav_item list" where
  "nav_entries n = NAV_ITEMS @ or_empty (pi_nav n)"

definition search_entries :: "palette_input \<Rightarrow> search_item list" where
  "search_entries n = SEARCH_ITEMS @ or_empty (pi_search n)"

definition permitted :: "palette_input \<Rightarrow> permission_arg \<Rightarrow> bool" where
  "permitted n p \<longleftrightarrow> no_permission_asked p \<or> can (pi_auth n) p"

definition resolveLabel :: "palette_input \<Rightarrow> string \<Rightarrow> string" where
  "resolveLabel n label = (if ix_exists (pi_i18n n) label (pi_language n)
     then ix_fixedT (pi_i18n n) (pi_language n) label else label)"

text \<open>Pages and features: a result with the text it is found by.\<close>

definition page_entry :: "palette_input \<Rightarrow> nav_item \<Rightarrow> palette_result \<times> string" where
  "page_entry n item = (let label = resolveLabel n (ni_label item);
       texts = map (\<lambda>ns. namespaceSearchText (pi_i18n n) ns (pi_language n)) (page_namespaces (ni_to item))
     in (\<lparr>pr_kind = KPage, pr_to = ni_to item, pr_label = label, pr_sublabel = None\<rparr>,
         js_lower (js_join '' '' (label # texts))))"

definition pageIndex :: "palette_input \<Rightarrow> (palette_result \<times> string) list" where
  "pageIndex n = map (page_entry n) (filter (\<lambda>i. permitted n (ni_permission i)) (nav_entries n))"

definition filteredPages :: "palette_input \<Rightarrow> string \<Rightarrow> palette_result list" where
  "filteredPages n q = (if q = [] then map fst (pageIndex n)
     else map fst (filter (\<lambda>(r, haystack). js_includes haystack q) (pageIndex n)))"

definition middle_dot :: string where "middle_dot = '' '' @ [CHR 0xB7] @ '' ''"

definition content_entry :: "palette_input \<Rightarrow> search_item \<Rightarrow> palette_result \<times> string" where
  "content_entry n item = (let label = resolveLabel n (si_label item);
       group = resolveLabel n (si_group item);
       detail = map_option (resolveLabel n) (Option.bind (si_detail item) or_undefined);
       scopeText = (case si_scope item of None \<Rightarrow> []
         | Some (ns, paths) \<Rightarrow> scopedSearchText (pi_i18n n) ns (pi_language n) paths);
       haystack = js_lower (js_join '' ''
         ([label, or_empty detail, group, scopeText] @ map (resolveLabel n) (or_empty (si_matchKeys item))))
     in (\<lparr>pr_kind = KContent, pr_to = si_to item, pr_label = label,
          pr_sublabel = Some (case detail of Some d \<Rightarrow> if d = [] then group else group @ middle_dot @ d
                                | None \<Rightarrow> group)\<rparr>, haystack))"

definition contentIndex :: "palette_input \<Rightarrow> (palette_result \<times> string) list" where
  "contentIndex n = map (content_entry n) (filter (\<lambda>i. permitted n (si_permission i)) (search_entries n))"

definition filteredContent :: "palette_input \<Rightarrow> string \<Rightarrow> palette_result list" where
  "filteredContent n q = (if q = [] then []
     else map fst (filter (\<lambda>(r, haystack). js_includes haystack q) (contentIndex n)))"

text \<open>Text matches: one row for every distinct destination and string.\<close>

definition pushMatch :: "string \<times> string \<times> string \<Rightarrow> string set \<times> palette_result list
    \<Rightarrow> string set \<times> palette_result list" where
  "pushMatch row st = (case row of (dest, txt_, sub) \<Rightarrow> case st of (seen, results) \<Rightarrow>
     let key = dest @ '' '' @ txt_ in
     if key \<in> seen then st
     else (insert key seen, results @ [\<lparr>pr_kind = KMatch, pr_to = dest, pr_label = txt_, pr_sublabel = Some sub\<rparr>]))"

definition page_rows :: "palette_input \<Rightarrow> string \<Rightarrow> nav_item \<Rightarrow> (string \<times> string \<times> string) list" where
  "page_rows n q item = (if \<not> permitted n (ni_permission item) then []
     else concat (map (\<lambda>ns. map (\<lambda>m. (ni_to item, m, resolveLabel n (ni_label item)))
            (namespaceMatches (pi_i18n n) ns (pi_language n) q)) (page_namespaces (ni_to item))))"

definition content_rows :: "palette_input \<Rightarrow> string \<Rightarrow> search_item \<Rightarrow> (string \<times> string \<times> string) list" where
  "content_rows n q item = (if \<not> permitted n (si_permission item) then []
     else (case si_scope item of None \<Rightarrow> []
       | Some (ns, paths) \<Rightarrow> map (\<lambda>m. (si_to item, m, resolveLabel n (si_group item)))
           (scopedMatches (pi_i18n n) ns (pi_language n) paths q)))"

definition TEXT_MATCH_RESULTS_LIMIT :: nat where "TEXT_MATCH_RESULTS_LIMIT = 20"

definition match_rows :: "palette_input \<Rightarrow> string \<Rightarrow> (string \<times> string \<times> string) list" where
  "match_rows n q = concat (map (page_rows n q) (nav_entries n)) @ concat (map (content_rows n q) (search_entries n))"

definition textMatches :: "palette_input \<Rightarrow> string \<Rightarrow> palette_result list" where
  "textMatches n q = (if q = [] then []
     else take TEXT_MATCH_RESULTS_LIMIT (snd (fold pushMatch (match_rows n q) ({}, []))))"

text \<open>The catalogue: \<open>undefined\<close> in a template is its name.\<close>

definition push_permission :: "palette_input \<Rightarrow> string \<Rightarrow> catalog_entry
    \<Rightarrow> string set \<times> palette_result list \<Rightarrow> string set \<times> palette_result list" where
  "push_permission n q e st = (case st of (seen, results) \<Rightarrow>
     let haystack = js_lower (ce_action e @ '' '' @ ce_resource_type e @ '' '' @
           (case ce_description e of Some d \<Rightarrow> d | None \<Rightarrow> ''undefined''));
         key = ce_action e @ '':'' @ ce_resource_type e
     in if \<not> js_includes haystack q \<or> key \<in> seen then st
        else (insert key seen, results @
          [\<lparr>pr_kind = KMatch, pr_to = ''/permissions?search='' @ encodeURIComponent (ce_action e),
            pr_label = ce_action e @ middle_dot @ ce_resource_type e,
            pr_sublabel = Some (resolveLabel n ''layout:nav.permissions'')\<rparr>]))"

definition permissionMatches :: "palette_input \<Rightarrow> string \<Rightarrow> palette_result list" where
  "permissionMatches n q =
     (if q = [] \<or> \<not> can (pi_auth n) (OneAction (PERM ''PERMISSIONS_READ'')) then []
      else (case pi_catalog n of None \<Rightarrow> []
        | Some entries \<Rightarrow> take TEXT_MATCH_RESULTS_LIMIT (snd (fold (push_permission n q) entries ({}, [])))))"

text \<open>The two server searches: which request is enabled, and the rows of its answer.\<close>

definition palette_user_request :: "palette_input \<Rightarrow> string \<Rightarrow> http_request option" where
  "palette_user_request n trimmedQuery =
     (if can (pi_auth n) (OneAction (PERM ''USERS_LIST_ALL'')) \<and> 0 < length trimmedQuery
      then Some (useUsersQuery 1 5 (no_users_filters\<lparr>uq_search := Some trimmedQuery\<rparr>)) else None)"

definition palette_policy_request :: "palette_input \<Rightarrow> string \<Rightarrow> http_request option" where
  "palette_policy_request n trimmedQuery =
     (if can (pi_auth n) (OneAction (PERM ''POLICIES_READ'')) \<and> 0 < length trimmedQuery
      then Some (listPoliciesApi \<lparr>lp_limit = Some 5, lp_offset = Some ((1 - 1) * 5), lp_search = Some trimmedQuery,
        lp_resourceType = None, lp_isActive = None, lp_containsAction = None, lp_destructiveOnly = None,
        lp_sortBy = Some ''name'', lp_sortDir = Some ''asc''\<rparr>) else None)"

definition filteredUsers :: "palette_input \<Rightarrow> string \<Rightarrow> palette_result list" where
  "filteredUsers n trimmedQuery = map (\<lambda>u. \<lparr>pr_kind = KUser,
       pr_to = ''/users?search='' @ encodeURIComponent (mu_email u), pr_label = mu_name u,
       pr_sublabel = Some (mu_email u)\<rparr>)
     (if can (pi_auth n) (OneAction (PERM ''USERS_LIST_ALL'')) \<and> trimmedQuery \<noteq> [] then or_empty (pi_users n) else [])"

definition filteredPolicies :: "palette_input \<Rightarrow> string \<Rightarrow> palette_result list" where
  "filteredPolicies n trimmedQuery = map (\<lambda>p. \<lparr>pr_kind = KPolicy,
       pr_to = ''/policies?search='' @ encodeURIComponent (pol_name p), pr_label = pol_name p,
       pr_sublabel = Some (case Option.bind (pol_description p) or_undefined of
          Some d \<Rightarrow> d | None \<Rightarrow> resolveLabel n ''layout:nav.policies'')\<rparr>)
     (if can (pi_auth n) (OneAction (PERM ''POLICIES_READ'')) \<and> trimmedQuery \<noteq> [] then or_empty (pi_policies n) else [])"

section \<open>Ranking\<close>

fun kindPriority :: "result_kind \<Rightarrow> nat" where
  "kindPriority KPage = 0"
| "kindPriority KContent = 1"
| "kindPriority KMatch = 2"
| "kindPriority KPolicy = 3"
| "kindPriority KUser = 4"

definition relevance :: "string \<Rightarrow> palette_result \<Rightarrow> nat" where
  "relevance q r = (let label = js_lower (pr_label r);
       sublabel = (case pr_sublabel r of Some s \<Rightarrow> js_lower s | None \<Rightarrow> [])
     in if label = q then 0 else if js_starts_with label q then 1 else if js_includes label q then 2
        else if js_includes sublabel q then 3 else 4)"

record ranked_result =
  rk_result :: palette_result
  rk_relevance :: nat
  rk_index :: nat

definition rank_candidates :: "string \<Rightarrow> palette_result list \<Rightarrow> ranked_result list" where
  "rank_candidates q candidates = map (\<lambda>(i, r). \<lparr>rk_result = r, rk_relevance = relevance q r, rk_index = i\<rparr>)
     (enumerate 0 candidates)"

definition best_relevance :: "ranked_result list \<Rightarrow> nat" where
  "best_relevance g = Min (rk_relevance ` set g)"

definition group_kind :: "ranked_result list \<Rightarrow> result_kind" where
  "group_kind g = pr_kind (rk_result (hd g))"

text \<open>\<open>a - b || c - d\<close> is not positive: the lexicographic order.\<close>

definition group_le :: "ranked_result list \<Rightarrow> ranked_result list \<Rightarrow> bool" where
  "group_le a b \<longleftrightarrow> best_relevance a < best_relevance b
     \<or> best_relevance a = best_relevance b \<and> kindPriority (group_kind a) \<le> kindPriority (group_kind b)"

definition item_le :: "ranked_result \<Rightarrow> ranked_result \<Rightarrow> bool" where
  "item_le a b \<longleftrightarrow> rk_relevance a < rk_relevance b
     \<or> rk_relevance a = rk_relevance b \<and> rk_index a \<le> rk_index b"

definition rank :: "string \<Rightarrow> palette_result list \<Rightarrow> palette_result list" where
  "rank q candidates =
     (let groups = group_by (\<lambda>x. pr_kind (rk_result x)) (rank_candidates q candidates)
      in concat (map (\<lambda>g. map rk_result (js_sort item_le g)) (js_sort group_le (map snd groups))))"

definition candidates :: "palette_input \<Rightarrow> string \<Rightarrow> palette_result list" where
  "candidates n trimmedQuery = (let q = js_lower trimmedQuery in
     filteredPages n q @ filteredContent n q @ textMatches n q @ permissionMatches n q
     @ filteredPolicies n trimmedQuery @ filteredUsers n trimmedQuery)"

definition palette_filtered :: "palette_input \<Rightarrow> string \<Rightarrow> palette_result list" where
  "palette_filtered n trimmedQuery = rank (js_lower trimmedQuery) (candidates n trimmedQuery)"

definition kindCount :: "palette_result list \<Rightarrow> nat" where
  "kindCount filtered = card (set (map pr_kind filtered))"

text \<open>The rows above which the list renders a header.\<close>

definition isFirstOfKind :: "palette_result list \<Rightarrow> nat \<Rightarrow> bool" where
  "isFirstOfKind filtered i \<longleftrightarrow> kindCount filtered > 1
     \<and> (i = 0 \<or> pr_kind (filtered ! (i - 1)) \<noteq> pr_kind (filtered ! i))"

section \<open>What the ranking does\<close>

lemma item_le_preorder: "total_preorder item_le"
  unfolding total_preorder_def item_le_def by auto

lemma group_le_preorder: "total_preorder group_le"
  unfolding total_preorder_def group_le_def by auto

abbreviation rk_kind :: "ranked_result \<Rightarrow> result_kind" where
  "rk_kind x \<equiv> pr_kind (rk_result x)"

interpretation palette_groups: grouping "group_by rk_kind" rk_kind
  by (rule group_by_grouping)

lemma results_of_ranked: "map rk_result (rank_candidates q cs) = cs"
  by (simp add: rank_candidates_def case_prod_beta comp_def)

lemma relevance_of_ranked: "x \<in> set (rank_candidates q cs) \<Longrightarrow> rk_relevance x = relevance q (rk_result x)"
  by (auto simp: rank_candidates_def)

lemma best_relevance_sorted [simp]: "best_relevance (js_sort item_le h) = best_relevance h"
  by (simp add: best_relevance_def)

text \<open>The groups as they are displayed: their items, sorted.\<close>

definition shown_groups :: "string \<Rightarrow> palette_result list \<Rightarrow> ranked_result list list" where
  "shown_groups q cs = map (js_sort item_le)
     (js_sort group_le (map snd (group_by rk_kind (rank_candidates q cs))))"

lemma rank_shown: "rank q cs = map rk_result (concat (shown_groups q cs))"
  by (simp add: rank_def shown_groups_def Let_def map_concat comp_def)

lemma mset_rank [simp]: "mset (rank q cs) = mset cs"
proof -
  let ?rs = "rank_candidates q cs"
  have "mset (concat (shown_groups q cs)) = mset (concat (map snd (group_by rk_kind ?rs)))"
    by (simp add: shown_groups_def mset_concat_mset image_mset.compositionality comp_def)
  also have "\<dots> = mset ?rs" by (rule palette_groups.nothing_lost)
  finally have "image_mset rk_result (mset (concat (shown_groups q cs))) = mset (map rk_result ?rs)" by simp
  then show ?thesis unfolding rank_shown results_of_ranked by simp
qed

lemma set_rank [simp]: "set (rank q cs) = set cs"
  by (metis mset_rank set_mset_mset)

lemma bucket_kind:
  "(k, g) \<in> set (group_by rk_kind xs) \<Longrightarrow> g \<noteq> [] \<and> (\<forall>x \<in> set g. rk_kind x = k)"
  using palette_groups.bucket_nonempty by (auto simp: group_by_entries filter_empty_conv)

lemma shown_group:
  assumes "g \<in> set (shown_groups q cs)"
  shows "g \<noteq> []" and "x \<in> set g \<Longrightarrow> rk_kind x = group_kind g" and "sorted_wrt item_le g"
proof -
  obtain k h where h: "(k, h) \<in> set (group_by rk_kind (rank_candidates q cs))" "g = js_sort item_le h"
    using assms by (auto simp: shown_groups_def)
  then show "g \<noteq> []" using bucket_kind [OF h(1)] by (metis length_0_conv length_js_sort)
  then have "hd g \<in> set h" using h(2) by (metis hd_in_set set_js_sort)
  then show "x \<in> set g \<Longrightarrow> rk_kind x = group_kind g"
    using bucket_kind [OF h(1)] h(2) by (auto simp: group_kind_def)
  show "sorted_wrt item_le g" unfolding h(2) by (rule sorted_js_sort [OF item_le_preorder])
qed

lemma shown_kinds_distinct: "distinct (map group_kind (shown_groups q cs))"
proof -
  let ?bs = "group_by rk_kind (rank_candidates q cs)"
  have "group_kind (js_sort item_le h) = k" if "(k, h) \<in> set ?bs" for k h
  proof -
    have "js_sort item_le h \<noteq> []" using bucket_kind [OF that] by (metis length_0_conv length_js_sort)
    then have "hd (js_sort item_le h) \<in> set h" by (metis hd_in_set set_js_sort)
    then show ?thesis using bucket_kind [OF that] by (simp add: group_kind_def)
  qed
  then have "map (\<lambda>h. group_kind (js_sort item_le h)) (map snd ?bs) = map fst ?bs" by auto
  then have "distinct (map (\<lambda>h. group_kind (js_sort item_le h)) (map snd ?bs))"
    using palette_groups.groups_keys(1) by metis
  then have "distinct (map (\<lambda>h. group_kind (js_sort item_le h)) (js_sort group_le (map snd ?bs)))"
    by (metis mset_eq_imp_distinct_iff mset_js_sort mset_map)
  then show ?thesis by (simp add: shown_groups_def comp_def)
qed

lemma shown_sorted: "sorted_wrt group_le (shown_groups q cs)"
proof -
  let ?hs = "map snd (group_by rk_kind (rank_candidates q cs))"
  have kind: "group_kind (js_sort item_le h) = group_kind h" if "h \<in> set ?hs" for h
  proof -
    from that obtain k where k: "(k, h) \<in> set (group_by rk_kind (rank_candidates q cs))" by auto
    from bucket_kind [OF this] have "js_sort item_le h \<noteq> []" "h \<noteq> []"
      by (metis length_0_conv length_js_sort)+
    then have "hd (js_sort item_le h) \<in> set h" "hd h \<in> set h" by (metis hd_in_set set_js_sort)+
    then show ?thesis using bucket_kind [OF k] by (simp add: group_kind_def)
  qed
  have "sorted_wrt group_le (js_sort group_le ?hs)" by (rule sorted_js_sort [OF group_le_preorder])
  then have "sorted_wrt (\<lambda>a b. group_le (js_sort item_le a) (js_sort item_le b)) (js_sort group_le ?hs)"
    by (rule sorted_wrt_mono_rel [rotated]) (use kind in \<open>simp add: group_le_def\<close>)
  then show ?thesis by (simp add: shown_groups_def sorted_wrt_map)
qed

lemma rank_kinds_adjacent: "distinct (remdups_adj (map pr_kind (rank q cs)))"
proof -
  have "remdups_adj (map rk_kind (concat (shown_groups q cs))) = map group_kind (shown_groups q cs)"
    by (rule blocks_adjacent) (auto dest: shown_group(1,2) intro: shown_kinds_distinct)
  then show ?thesis using shown_kinds_distinct [of q cs] by (simp add: rank_shown comp_def)
qed

lemma set_shown: "set (concat (shown_groups q cs)) = set (rank_candidates q cs)"
proof -
  have "x \<in> set (concat (shown_groups q cs)) \<longleftrightarrow> x \<in> set (concat (map snd (group_by rk_kind (rank_candidates q cs))))" for x
    by (auto simp: shown_groups_def)
  moreover have "set (concat (map snd (group_by rk_kind (rank_candidates q cs)))) = set (rank_candidates q cs)"
    by (metis palette_groups.nothing_lost set_mset_mset)
  ultimately show ?thesis by blast
qed

lemma headers_adjacent:
  "length (filter (\<lambda>i. i = 0 \<or> ks ! (i - 1) \<noteq> ks ! i) [0..<length ks]) = length (remdups_adj ks)"
proof (induction ks rule: rev_induct)
  case (snoc k ks)
  have "filter (\<lambda>i. i = 0 \<or> (ks @ [k]) ! (i - 1) \<noteq> (ks @ [k]) ! i) [0..<length ks]
      = filter (\<lambda>i. i = 0 \<or> ks ! (i - 1) \<noteq> ks ! i) [0..<length ks]"
    by (rule filter_cong) (auto simp: nth_append)
  moreover have "remdups_adj (ks @ [k]) = (if ks \<noteq> [] \<and> last ks = k then remdups_adj ks else remdups_adj ks @ [k])"
    by (induction ks rule: remdups_adj.induct) auto
  moreover have "ks \<noteq> [] \<Longrightarrow> (ks @ [k]) ! (length ks - 1) = last ks"
    by (simp add: nth_append last_conv_nth)
  ultimately show ?case using snoc by auto
qed simp

lemma sorted_head: "sorted_wrt R xs \<Longrightarrow> x \<in> set xs \<Longrightarrow> x = hd xs \<or> R (hd xs) x"
  by (cases xs) auto

lemma rank_head:
  assumes "r \<in> set cs"
  shows "relevance q (hd (rank q cs)) \<le> relevance q r"
proof -
  from assms obtain y where y: "y \<in> set (rank_candidates q cs)" "rk_result y = r"
    by (metis imageE results_of_ranked set_map)
  then obtain g where g: "g \<in> set (shown_groups q cs)" "y \<in> set g"
    using set_shown [of q cs] by auto
  let ?gs = "shown_groups q cs"
  have ne: "?gs \<noteq> []" using g by auto
  then have first: "hd ?gs \<in> set ?gs" by simp
  from shown_group(1,3) [OF this] have top: "hd ?gs \<noteq> []" "sorted_wrt item_le (hd ?gs)" by auto
  have hd_rank: "hd (rank q cs) = rk_result (hd (hd ?gs))"
    using ne top(1) by (cases ?gs) (auto simp: rank_shown hd_map)
  have top_in: "hd (hd ?gs) \<in> set (rank_candidates q cs)"
    using first top(1) set_shown [of q cs] by (metis concat.simps(2) hd_in_set in_set_conv_decomp list.collapse
        UnCI set_append ne)
  have "sorted_wrt group_le ?gs" by (rule shown_sorted)
  then have "group_le (hd ?gs) g \<or> g = hd ?gs" using sorted_head g(1) by metis
  then have "best_relevance (hd ?gs) \<le> best_relevance g" by (auto simp: group_le_def)
  also have "\<dots> \<le> rk_relevance y" using g(2) by (simp add: best_relevance_def)
  finally have "best_relevance (hd ?gs) \<le> relevance q r" using y relevance_of_ranked [OF y(1)] by simp
  moreover have "rk_relevance (hd (hd ?gs)) \<le> rk_relevance x" if "x \<in> set (hd ?gs)" for x
    using sorted_head [OF top(2) that] by (auto simp: item_le_def)
  then have "rk_relevance (hd (hd ?gs)) \<le> best_relevance (hd ?gs)"
    using top(1) by (simp add: best_relevance_def)
  ultimately show ?thesis using hd_rank relevance_of_ranked [OF top_in] by simp
qed

lemma palette_ranking_parts:
  shows "mset (rank q cs) = mset cs"
    and "sorted_wrt (\<lambda>a b. pr_kind a = pr_kind b \<longrightarrow> relevance q a \<le> relevance q b) (rank q cs)"
    and "1 < kindCount (rank q cs) \<Longrightarrow>
      length (filter (isFirstOfKind (rank q cs)) [0..<length (rank q cs)]) = kindCount (rank q cs)"
    and "r \<in> set cs \<Longrightarrow> relevance q (hd (rank q cs)) \<le> relevance q r"
proof -
  show "mset (rank q cs) = mset cs" by (rule mset_rank)
next
  have "sorted_wrt (\<lambda>a b. rk_kind a = rk_kind b \<longrightarrow> item_le a b) (concat (shown_groups q cs))"
    by (rule sorted_wrt_blocks) (auto dest: shown_group(2,3) intro: shown_kinds_distinct)
  then have "sorted_wrt (\<lambda>a b. rk_kind a = rk_kind b \<longrightarrow>
      relevance q (rk_result a) \<le> relevance q (rk_result b)) (concat (shown_groups q cs))"
    by (rule sorted_wrt_mono_rel [rotated])
      (auto simp: item_le_def set_shown [unfolded set_concat] dest!: relevance_of_ranked
        simp flip: relevance_of_ranked)
  then show "sorted_wrt (\<lambda>a b. pr_kind a = pr_kind b \<longrightarrow> relevance q a \<le> relevance q b) (rank q cs)"
    unfolding rank_shown sorted_wrt_map .
next
  let ?rs = "rank q cs"
  assume "1 < kindCount ?rs"
  then have "filter (isFirstOfKind ?rs) [0..<length ?rs]
      = filter (\<lambda>i. i = 0 \<or> map pr_kind ?rs ! (i - 1) \<noteq> map pr_kind ?rs ! i) [0..<length (map pr_kind ?rs)]"
    unfolding isFirstOfKind_def length_map by (intro filter_cong) auto
  also have "length \<dots> = length (remdups_adj (map pr_kind ?rs))" by (rule headers_adjacent)
  also have "\<dots> = kindCount ?rs"
    using distinct_card [OF rank_kinds_adjacent [of q cs]] by (simp add: kindCount_def)
  finally show "length (filter (isFirstOfKind ?rs) [0..<length ?rs]) = kindCount ?rs" .
next
  assume "r \<in> set cs"
  then show "relevance q (hd (rank q cs)) \<le> relevance q r" by (rule rank_head)
qed

text \<open>C17. The palette's ranking shows every candidate exactly once. Results of one kind stand together, so
  with two kinds or more every kind has exactly one header; within a kind more relevant results come
  first; and the first row of all, the one that Enter opens, is a best match among all candidates.\<close>

theorem palette_ranking:
  "mset (rank q cs) = mset cs
   \<and> sorted_wrt (\<lambda>a b. pr_kind a = pr_kind b \<longrightarrow> relevance q a \<le> relevance q b) (rank q cs)
   \<and> (1 < kindCount (rank q cs) \<longrightarrow>
        length (filter (isFirstOfKind (rank q cs)) [0..<length (rank q cs)]) = kindCount (rank q cs))
   \<and> (\<forall>r \<in> set cs. relevance q (hd (rank q cs)) \<le> relevance q r)"
  using palette_ranking_parts [where q = q and cs = cs] by blast

theorem palette_ranking_witness:
  "relevance ''se'' (hd (rank ''se''
     [\<lparr>pr_kind = KPage, pr_to = ''/dashboard'', pr_label = ''Dashboard'', pr_sublabel = None\<rparr>,
      \<lparr>pr_kind = KContent, pr_to = ''/audit-log'', pr_label = ''Security events'', pr_sublabel = Some ''Audit log''\<rparr>])) \<le> 1"
proof -
  let ?r = "\<lparr>pr_kind = KContent, pr_to = ''/audit-log'', pr_label = ''Security events'', pr_sublabel = Some ''Audit log''\<rparr>"
  have "relevance ''se'' ?r = 1" by code_simp
  then show ?thesis
    using palette_ranking [of "''se''" "[\<lparr>pr_kind = KPage, pr_to = ''/dashboard'', pr_label = ''Dashboard'',
        pr_sublabel = None\<rparr>, ?r]"] by simp
qed

section \<open>Where the results lead\<close>

lemma set_fold_pushMatch:
  "r \<in> set (snd (fold pushMatch rows st)) \<Longrightarrow> r \<in> set (snd st)
     \<or> (\<exists>(d, m, l) \<in> set rows. r = \<lparr>pr_kind = KMatch, pr_to = d, pr_label = m, pr_sublabel = Some l\<rparr>)"
proof (induction rows arbitrary: st)
  case (Cons row rows)
  obtain d m l seen rs where eqs: "row = (d, m, l)" "st = (seen, rs)" by (cases row; cases st)
  from Cons.IH [of "pushMatch row st"] Cons.prems show ?case
    by (auto simp: eqs pushMatch_def Let_def split: if_splits)
qed simp

lemma textMatches_row:
  assumes "r \<in> set (textMatches n q)"
  obtains d m l where "(d, m, l) \<in> set (match_rows n q)" "pr_to r = d" "pr_label r = m" "q \<noteq> []"
proof -
  have "q \<noteq> []" "r \<in> set (snd (fold pushMatch (match_rows n q) ({}, [])))"
    using assms by (auto simp: textMatches_def dest: in_set_takeD split: if_splits)
  with set_fold_pushMatch [OF this(2)] that show ?thesis by auto
qed

lemma row_source:
  assumes "(d, m, l) \<in> set (match_rows n q)"
  obtains (page) i ns where "i \<in> set (nav_entries n)" "permitted n (ni_permission i)" "d = ni_to i"
      "ns \<in> set (page_namespaces (ni_to i))" "m \<in> set (namespaceMatches (pi_i18n n) ns (pi_language n) q)"
  | (content) i ns ps where "i \<in> set (search_entries n)" "permitted n (si_permission i)" "d = si_to i"
      "si_scope i = Some (ns, ps)" "m \<in> set (scopedMatches (pi_i18n n) ns (pi_language n) ps q)"
proof -
  from assms consider i where "i \<in> set (nav_entries n)" "(d, m, l) \<in> set (page_rows n q i)"
    | i where "i \<in> set (search_entries n)" "(d, m, l) \<in> set (content_rows n q i)"
    unfolding match_rows_def by auto
  then show ?thesis
  proof cases
    case 1
    with page [of i] show ?thesis by (auto simp: page_rows_def split: if_splits)
  next
    case 2
    with content [of i] show ?thesis by (cases "si_scope i") (auto simp: content_rows_def split: if_splits)
  qed
qed

text \<open>The application passes its own links and no search items of its own.\<close>

definition app_palette :: "(string \<Rightarrow> string) \<Rightarrow> palette_input \<Rightarrow> bool" where
  "app_palette t n \<longleftrightarrow> pi_nav n = Some (extraNavItems t) \<and> pi_search n = None"

lemma search_guards:
  "i \<in> set SEARCH_ITEMS \<Longrightarrow> guard_of (si_to i) = Some NoPermission \<and> static_path (path_of (si_to i))"
proof -
  have "\<forall>i \<in> set SEARCH_ITEMS. guard_of (si_to i) = Some NoPermission \<and> static_path (path_of (si_to i))"
    by (simp add: SEARCH_ITEMS_def settings_item_def audit_item_def guard_of_def path_of_def ROUTES_def static_path_def)
  then show "i \<in> set SEARCH_ITEMS \<Longrightarrow> ?thesis" by blast
qed

lemma query_guards:
  "guard_of (''/permissions?search='' @ s) = Some (OneAction (PERM ''PERMISSIONS_READ''))"
  "guard_of (''/users?search='' @ s) = Some (OneAction (PERM ''USERS_LIST_ALL''))"
  "guard_of (''/policies?search='' @ s) = Some (AnyOf [PERM ''POLICIES_READ'', PERM ''POLICIES_CREATE''])"
  "static_path (path_of (''/permissions?search='' @ s))" "static_path (path_of (''/users?search='' @ s))"
  "static_path (path_of (''/policies?search='' @ s))"
  by (simp_all add: guard_of_def path_of_def ROUTES_def static_path_def)

lemma set_fold_permissions:
  "r \<in> set (snd (fold (push_permission n q) es st)) \<Longrightarrow> r \<in> set (snd st)
     \<or> (\<exists>a. pr_to r = ''/permissions?search='' @ encodeURIComponent a)"
proof (induction es arbitrary: st)
  case (Cons e es)
  obtain seen rs where st: "st = (seen, rs)" by (cases st)
  from Cons.IH [of "push_permission n q e st"] Cons.prems show ?case
    by (auto simp: st push_permission_def Let_def split: if_splits)
qed simp

lemma permissionMatches_to:
  assumes "r \<in> set (permissionMatches n q)"
  shows "can (pi_auth n) (OneAction (PERM ''PERMISSIONS_READ''))
    \<and> (\<exists>a. pr_to r = ''/permissions?search='' @ encodeURIComponent a)"
  using assms set_fold_permissions [of r n q _ "({}, [])"]
  by (auto simp: permissionMatches_def dest: in_set_takeD split: if_splits option.splits)

lemma filteredUsers_to:
  "r \<in> set (filteredUsers n tq) \<Longrightarrow> can (pi_auth n) (OneAction (PERM ''USERS_LIST_ALL''))
     \<and> (\<exists>e. pr_to r = ''/users?search='' @ encodeURIComponent e)"
  by (cases "can (pi_auth n) (OneAction (PERM ''USERS_LIST_ALL'')) \<and> tq \<noteq> []") (auto simp: filteredUsers_def)

lemma filteredPolicies_to:
  "r \<in> set (filteredPolicies n tq) \<Longrightarrow> can (pi_auth n) (OneAction (PERM ''POLICIES_READ''))
     \<and> (\<exists>e. pr_to r = ''/policies?search='' @ encodeURIComponent e)"
  by (cases "can (pi_auth n) (OneAction (PERM ''POLICIES_READ'')) \<and> tq \<noteq> []") (auto simp: filteredPolicies_def)

lemma pages_to: "r \<in> set (filteredPages n q) \<Longrightarrow>
    \<exists>i \<in> set (nav_entries n). permitted n (ni_permission i) \<and> pr_to r = ni_to i"
  by (auto simp: filteredPages_def pageIndex_def page_entry_def Let_def split: if_splits)

lemma content_to: "r \<in> set (filteredContent n q) \<Longrightarrow>
    \<exists>i \<in> set (search_entries n). permitted n (si_permission i) \<and> pr_to r = si_to i"
  by (auto simp: filteredContent_def contentIndex_def content_entry_def Let_def split: if_splits)

text \<open>Where a candidate leads: a page of the sidebar, a feature, or one of the three searches.\<close>

lemma candidate_destination:
  assumes "app_palette t n" and "r \<in> set (candidates n tq)"
  shows "\<exists>p. guard_of (pr_to r) = Some p \<and> static_path (path_of (pr_to r)) \<and> permitted n p"
proof -
  let ?q = "js_lower tq"
  have nav: "\<exists>p. guard_of (ni_to i) = Some p \<and> static_path (path_of (ni_to i)) \<and> permitted n p"
    if "i \<in> set (nav_entries n)" "permitted n (ni_permission i)" for i
    using that assms(1) nav_guards [of i t] by (simp add: nav_entries_def app_palette_def)
  have feature: "\<exists>p. guard_of (si_to i) = Some p \<and> static_path (path_of (si_to i)) \<and> permitted n p"
    if "i \<in> set (search_entries n)" for i
    using that assms(1) search_guards [of i] by (auto simp: search_entries_def app_palette_def permitted_def)
  from assms(2) consider "r \<in> set (filteredPages n ?q)" | "r \<in> set (filteredContent n ?q)"
    | "r \<in> set (textMatches n ?q)" | "r \<in> set (permissionMatches n ?q)"
    | "r \<in> set (filteredPolicies n tq)" | "r \<in> set (filteredUsers n tq)"
    unfolding candidates_def Let_def by auto
  then show ?thesis
  proof cases
    case 1
    with pages_to nav show ?thesis by metis
  next
    case 2
    with content_to feature show ?thesis by metis
  next
    case 3
    then obtain d m l where row: "(d, m, l) \<in> set (match_rows n ?q)" "pr_to r = d" by (rule textMatches_row)
    from row(1) show ?thesis by (cases rule: row_source) (use nav feature row(2) in auto)
  next
    case 4
    from permissionMatches_to [OF this] obtain a where a: "pr_to r = ''/permissions?search='' @ encodeURIComponent a"
      and "permitted n (OneAction (PERM ''PERMISSIONS_READ''))" by (auto simp: permitted_def can_iff)
    then show ?thesis unfolding a using query_guards(1,4) by blast
  next
    case 5
    from filteredPolicies_to [OF this] obtain a where a: "pr_to r = ''/policies?search='' @ encodeURIComponent a"
      and "permitted n (AnyOf [PERM ''POLICIES_READ'', PERM ''POLICIES_CREATE''])" by (auto simp: permitted_def can_iff)
    then show ?thesis unfolding a using query_guards(3,6) by blast
  next
    case 6
    from filteredUsers_to [OF this] obtain a where a: "pr_to r = ''/users?search='' @ encodeURIComponent a"
      and "permitted n (OneAction (PERM ''USERS_LIST_ALL''))" by (auto simp: permitted_def can_iff)
    then show ?thesis unfolding a using query_guards(2,5) by blast
  qed
qed

text \<open>C6. The palette offers nothing its user may not open: whatever the query, the translations, the
  catalogue and the two servers' answers, every row of the palette of a signed-in user leads to a page that
  lets them in, and without the permission the search requests are not even sent.\<close>

theorem palette_results_open:
  assumes "router_law match" and "isAuthenticated (pi_auth n) = Some True" and "app_palette t n"
  shows "(\<forall>r \<in> set (palette_filtered n tq). opens (pi_auth n) match (pr_to r))
    \<and> (palette_user_request n tq \<noteq> None \<longrightarrow> can (pi_auth n) (OneAction (PERM ''USERS_LIST_ALL'')))
    \<and> (palette_policy_request n tq \<noteq> None \<longrightarrow> can (pi_auth n) (OneAction (PERM ''POLICIES_READ'')))"
proof -
  have "opens (pi_auth n) match (pr_to r)" if "r \<in> set (candidates n tq)" for r
    using candidate_destination [OF assms(3) that] guard_of_opens [OF assms(1) _ _ assms(2)]
    by (auto simp: permitted_def)
  then show ?thesis
    by (simp add: palette_filtered_def palette_user_request_def palette_policy_request_def)
qed

definition sample_palette :: palette_input where
  "sample_palette = \<lparr>pi_auth = auth_initial\<lparr>isAuthenticated := Some True, permissions := [PERM ''USERS_LIST_ALL'']\<rparr>,
     pi_language = ''en'', pi_i18n = \<lparr>ix_exists = (\<lambda>l g. False), ix_fixedT = (\<lambda>l k. k),
       ix_bundle = (\<lambda>l ns. if ns = ''users'' then Some (JObj [(''title'', JStr ''Bobsleigh''), (''n'', JNum 3)]) else None)\<rparr>,
     pi_nav = Some (extraNavItems id), pi_search = None, pi_catalog = None,
     pi_users = Some [\<lparr>mu_id = 1, mu_name = ''Bob'', mu_email = ''b@x'', mu_role = ''user''\<rparr>], pi_policies = None\<rparr>"

theorem palette_results_open_witness:
  "opens (pi_auth sample_palette) exact_match (''/users?search='' @ encodeURIComponent ''b@x'')"
proof -
  let ?r = "\<lparr>pr_kind = KUser, pr_to = ''/users?search='' @ encodeURIComponent ''b@x'', pr_label = ''Bob'',
      pr_sublabel = Some ''b@x''\<rparr>"
  have auth: "isAuthenticated (pi_auth sample_palette) = Some True" and app: "app_palette id sample_palette"
    and can: "can (pi_auth sample_palette) (OneAction (PERM ''USERS_LIST_ALL''))"
    by (simp_all add: sample_palette_def app_palette_def can_iff)
  have "?r \<in> set (filteredUsers sample_palette ''bob'')"
    using can by (simp add: filteredUsers_def sample_palette_def)
  then have "?r \<in> set (palette_filtered sample_palette ''bob'')"
    by (simp only: palette_filtered_def set_rank candidates_def Let_def set_append Un_iff) blast
  from bspec [OF conjunct1 [OF palette_results_open [OF exact_match_law auth app]] this] show ?thesis by simp
qed

section \<open>Text matches\<close>

lemma fold_pushMatch_distinct:
  assumes "distinct (map (\<lambda>r. pr_to r @ '' '' @ pr_label r) (snd st))"
    and "fst st = (\<lambda>r. pr_to r @ '' '' @ pr_label r) ` set (snd st)"
  shows "distinct (map (\<lambda>r. pr_to r @ '' '' @ pr_label r) (snd (fold pushMatch rows st)))"
  using assms
proof (induction rows arbitrary: st)
  case (Cons row rows)
  obtain d m l seen rs where eqs: "row = (d, m, l)" "st = (seen, rs)" by (cases row; cases st)
  show ?case
    unfolding fold.simps comp_apply
    by (rule Cons.IH) (use Cons.prems in \<open>auto simp: eqs pushMatch_def Let_def\<close>)
qed simp

lemma textMatches_distinct: "distinct (map (\<lambda>r. (pr_to r, pr_label r)) (textMatches n q))"
proof -
  let ?key = "\<lambda>r. pr_to r @ '' '' @ pr_label r"
  have "distinct (map ?key (snd (fold pushMatch (match_rows n q) ({}, []))))"
    by (rule fold_pushMatch_distinct) simp_all
  then have "distinct (map ?key (textMatches n q))"
    by (cases "q = []") (simp_all only: textMatches_def if_True if_False take_map [symmetric] distinct_take list.map distinct.simps simp_thms)
  then have "distinct (map ((\<lambda>(a, b). a @ '' '' @ b) \<circ> (\<lambda>r. (pr_to r, pr_label r))) (textMatches n q))"
    by (simp add: comp_def)
  then show ?thesis by (simp only: map_map [symmetric] distinct_map [of "\<lambda>(a, b). a @ '' '' @ b"])
qed

lemma palette_text_matches_parts:
  assumes "q = js_lower tq"
  shows "length (textMatches n q) \<le> 20" and "distinct (map (\<lambda>r. (pr_to r, pr_label r)) (textMatches n q))"
    and "r \<in> set (textMatches n q) \<Longrightarrow> js_includes (js_lower (pr_label r)) q
      \<and> (\<exists>r' \<in> set (filteredPages n q @ filteredContent n q). pr_to r' = pr_to r)"
proof -
  show "length (textMatches n q) \<le> 20" by (simp add: textMatches_def TEXT_MATCH_RESULTS_LIMIT_def)
  show "distinct (map (\<lambda>r. (pr_to r, pr_label r)) (textMatches n q))" by (rule textMatches_distinct)
  have q: "js_lower q = q" by (simp add: assms)
  assume "r \<in> set (textMatches n q)"
  then obtain d m l where row: "(d, m, l) \<in> set (match_rows n q)" "pr_to r = d" "pr_label r = m" "q \<noteq> []"
    by (rule textMatches_row)
  from row(1) show "js_includes (js_lower (pr_label r)) q
      \<and> (\<exists>r' \<in> set (filteredPages n q @ filteredContent n q). pr_to r' = pr_to r)"
  proof (cases rule: row_source)
    case (page i ns)
    let ?texts = "map (\<lambda>ns. namespaceSearchText (pi_i18n n) ns (pi_language n)) (page_namespaces (ni_to i))"
    have "js_includes (js_lower (namespaceSearchText (pi_i18n n) ns (pi_language n))) q"
      using namespace_match_found [OF page(5)] q by (simp add: namespaceSearchText_def)
    then have "js_includes (snd (page_entry n i)) q"
      unfolding page_entry_def Let_def snd_conv by (rule lower_join_includes) (use page(4) in simp)
    then have "fst (page_entry n i) \<in> set (filteredPages n q)"
      using page(1,2) row(4) by (auto simp: filteredPages_def pageIndex_def case_prod_beta)
    moreover have "pr_to (fst (page_entry n i)) = ni_to i" by (simp add: page_entry_def Let_def)
    ultimately show ?thesis
      using page(3,5) row(2,3) q by (auto simp: namespaceMatches_eq match_text_def)
  next
    case (content i ns ps)
    have "js_includes (js_lower (scopedSearchText (pi_i18n n) ns (pi_language n) ps)) q"
      using scoped_match_found [OF content(5)] q by (simp add: scopedSearchText_def Let_def)
    then have "js_includes (snd (content_entry n i)) q"
      unfolding content_entry_def Let_def snd_conv
      by (rule lower_join_includes) (use content(4) in simp)
    then have "fst (content_entry n i) \<in> set (filteredContent n q)"
      using content(1,2) row(4) by (auto simp: filteredContent_def contentIndex_def case_prod_beta)
    moreover have "pr_to (fst (content_entry n i)) = si_to i" by (simp add: content_entry_def Let_def)
    ultimately show ?thesis
      using content(3,5) row(2,3) q by (auto simp: scopedMatches_eq match_text_def)
  qed
qed

text \<open>The rows that quote a text: at most twenty, no destination with the same text twice, every text
  contains the query, and each comes from a place the palette also lists itself, as a page or as a
  feature, for the same query. So whatever a "match" row finds can be reached without it.\<close>

theorem palette_text_matches:
  "let q = js_lower tq in length (textMatches n q) \<le> 20
     \<and> distinct (map (\<lambda>r. (pr_to r, pr_label r)) (textMatches n q))
     \<and> (\<forall>r \<in> set (textMatches n q). js_includes (js_lower (pr_label r)) q
          \<and> (\<exists>r' \<in> set (filteredPages n q @ filteredContent n q). pr_to r' = pr_to r))"
  unfolding Let_def using palette_text_matches_parts [OF refl, where n = n and tq = tq] by blast

theorem palette_text_matches_witness:
  "\<exists>r' \<in> set (filteredPages sample_palette ''bob'' @ filteredContent sample_palette ''bob''). pr_to r' = ''/users''"
proof -
  let ?r = "\<lparr>pr_kind = KMatch, pr_to = ''/users'', pr_label = ''Bobsleigh'', pr_sublabel = Some ''layout:nav.users''\<rparr>"
  have "textMatches sample_palette ''bob'' = [?r]" by code_simp
  moreover have "js_lower ''bob'' = ''bob''" by code_simp
  ultimately show ?thesis using palette_text_matches [of "''bob''" sample_palette] by (simp add: Let_def)
qed

end
