(* ===== verification/PaletteKeyboard.thy ===== *)
theory PaletteKeyboard
  imports CommandPalette
begin

text \<open>
  The state of \<open>CommandPalette.tsx\<close>: query, highlight, the render-phase resets and the debounced query the
  results are computed from. \<open>App.tsx\<close> owns whether it is open. \<open>results\<close> stands for the hook's list for a
  trimmed query (\<open>palette_filtered\<close> with the data that has arrived).
\<close>

record palette_state =
  cp_isOpen :: bool
  cp_query :: string
  cp_activeIndex :: nat
  cp_prevIsOpen :: bool
  cp_prevQuery :: string
  cp_debounce :: "string debounce"

definition PALETTE_DELAY :: int where "PALETTE_DELAY = 300"

definition palette_mount :: "int \<Rightarrow> palette_state" where
  "palette_mount now = \<lparr>cp_isOpen = False, cp_query = [], cp_activeIndex = 0, cp_prevIsOpen = False,
     cp_prevQuery = [], cp_debounce = debounce_mount PALETTE_DELAY now []\<rparr>"

text \<open>One commit: React repeats the render until the state set during it is settled, then the debounce
  effect sees the query.\<close>

definition adjust_open :: "palette_state \<Rightarrow> palette_state" where
  "adjust_open st = (if cp_isOpen st \<noteq> cp_prevIsOpen st
     then (let st1 = st\<lparr>cp_prevIsOpen := cp_isOpen st\<rparr>
           in if cp_isOpen st then st1\<lparr>cp_query := [], cp_activeIndex := 0\<rparr> else st1)
     else st)"

definition adjust_query :: "palette_state \<Rightarrow> palette_state" where
  "adjust_query st = (if cp_query st \<noteq> cp_prevQuery st
     then st\<lparr>cp_prevQuery := cp_query st, cp_activeIndex := 0\<rparr> else st)"

definition palette_commit :: "int \<Rightarrow> palette_state \<Rightarrow> palette_state" where
  "palette_commit now st = (let st1 = adjust_query (adjust_open st)
     in st1\<lparr>cp_debounce := debounce_render PALETTE_DELAY now (cp_query st1) (cp_debounce st1)\<rparr>)"

definition trimmedQuery :: "palette_state \<Rightarrow> string" where
  "trimmedQuery st = js_trim (debounced (cp_debounce st))"

text \<open>What the user and the clock do. Only a row that exists can be hovered.\<close>

datatype palette_event = Toggle bool | Dismiss | Type string | ArrowDown | ArrowUp | Enter | Hover nat | Timer

text \<open>\<open>(i - 1 + length) % length\<close>; the index is never negative.\<close>

definition move_down :: "nat \<Rightarrow> nat \<Rightarrow> nat" where
  "move_down len i = (if len = 0 then 0 else (i + 1) mod len)"

definition move_up :: "nat \<Rightarrow> nat \<Rightarrow> nat" where
  "move_up len i = (if len = 0 then 0 else (i + len - 1) mod len)"

text \<open>Where an event navigates to.\<close>

definition goes_to :: "palette_result list \<Rightarrow> palette_event \<Rightarrow> palette_state \<Rightarrow> string option" where
  "goes_to filtered e st = (if e = Enter \<and> cp_activeIndex st < length filtered
     then Some (pr_to (filtered ! cp_activeIndex st)) else None)"

definition palette_event_state :: "(string \<Rightarrow> palette_result list) \<Rightarrow> int \<Rightarrow> palette_event \<Rightarrow> palette_state \<Rightarrow> palette_state"
where
  "palette_event_state results now e st = (let filtered = results (trimmedQuery st) in case e of
      Toggle signed_in \<Rightarrow> if signed_in then st\<lparr>cp_isOpen := \<not> cp_isOpen st\<rparr> else st
    | Dismiss \<Rightarrow> st\<lparr>cp_isOpen := False\<rparr>
    | Type s \<Rightarrow> st\<lparr>cp_query := s\<rparr>
    | ArrowDown \<Rightarrow> st\<lparr>cp_activeIndex := move_down (length filtered) (cp_activeIndex st)\<rparr>
    | ArrowUp \<Rightarrow> st\<lparr>cp_activeIndex := move_up (length filtered) (cp_activeIndex st)\<rparr>
    | Enter \<Rightarrow> if goes_to filtered e st \<noteq> None then st\<lparr>cp_isOpen := False\<rparr> else st
    | Hover i \<Rightarrow> if i < length filtered then st\<lparr>cp_activeIndex := i\<rparr> else st
    | Timer \<Rightarrow> st\<lparr>cp_debounce := debounce_fires now (cp_debounce st)\<rparr>)"

definition palette_step :: "(string \<Rightarrow> palette_result list) \<Rightarrow> palette_state \<Rightarrow> int \<times> palette_event \<Rightarrow> palette_state" where
  "palette_step results st ne = palette_commit (fst ne) (palette_event_state results (fst ne) (snd ne) st)"

text \<open>Between events the state is settled: a second render changes nothing.\<close>

definition palette_settled :: "palette_state \<Rightarrow> bool" where
  "palette_settled st \<longleftrightarrow> cp_prevIsOpen st = cp_isOpen st \<and> cp_prevQuery st = cp_query st
     \<and> db_value (cp_debounce st) = cp_query st
     \<and> (db_deadline (cp_debounce st) = None \<longrightarrow> debounced (cp_debounce st) = cp_query st)"

lemmas palette_defs = palette_step_def palette_event_state_def palette_commit_def adjust_open_def adjust_query_def
  debounce_render_def debounce_fires_def Let_def

lemma commit_settled:
  assumes "db_deadline (cp_debounce st) = None \<longrightarrow> debounced (cp_debounce st) = db_value (cp_debounce st)"
  shows "palette_settled (palette_commit now st)"
  using assms by (auto simp: palette_commit_def adjust_open_def adjust_query_def debounce_render_def
      palette_settled_def Let_def)

lemma palette_step_settled:
  assumes "palette_settled st"
  shows "palette_settled (palette_step results st ne)"
  unfolding palette_step_def
  by (rule commit_settled)
    (use assms in \<open>auto simp: palette_event_state_def debounce_fires_def palette_settled_def Let_def
      split: palette_event.split option.split\<close>)

interpretation palette: event_machine "palette_step results" palette_settled
  by unfold_locales (rule palette_step_settled)

lemma mount_settled: "palette_settled (palette_mount now)"
  by (simp add: palette_settled_def palette_mount_def debounce_mount_def)

lemma palette_keyboard_parts:
  fixes results :: "string \<Rightarrow> palette_result list"
  defines "run t es \<equiv> foldl (palette_step results) (palette_mount t) es"
  assumes "st = run t es" and "rows = results (trimmedQuery st)"
  shows "rows \<noteq> [] \<Longrightarrow> e \<in> {ArrowDown, ArrowUp} \<Longrightarrow>
      cp_activeIndex (palette_step results st (now, e)) < length rows"
    and "cp_activeIndex st < length rows \<Longrightarrow>
      move_up (length rows) (move_down (length rows) (cp_activeIndex st)) = cp_activeIndex st
      \<and> (move_down (length rows) ^^ length rows) (cp_activeIndex st) = cp_activeIndex st"
    and "s \<noteq> cp_query st \<Longrightarrow> cp_activeIndex (palette_step results st (now, Type s)) = 0"
    and "cp_isOpen (palette_step results st (now, Enter)) \<longleftrightarrow> cp_isOpen st \<and> goes_to rows Enter st = None"
proof -
  have settled: "palette_settled st"
    unfolding assms by (rule palette.run_inv [OF mount_settled])
  show "rows \<noteq> [] \<Longrightarrow> e \<in> {ArrowDown, ArrowUp} \<Longrightarrow>
      cp_activeIndex (palette_step results st (now, e)) < length rows"
    using settled unfolding assms(3)
    by (auto simp: palette_defs move_down_def move_up_def palette_settled_def)
  show "s \<noteq> cp_query st \<Longrightarrow> cp_activeIndex (palette_step results st (now, Type s)) = 0"
    using settled by (simp add: palette_defs palette_settled_def)
  show "cp_isOpen (palette_step results st (now, Enter)) \<longleftrightarrow> cp_isOpen st \<and> goes_to rows Enter st = None"
    using settled unfolding assms(3) by (simp add: palette_defs palette_settled_def)
next
  let ?n = "length rows" and ?i = "cp_activeIndex st"
  assume i: "?i < ?n"
  have down: "(move_down ?n ^^ k) ?i = (?i + k) mod ?n" for k
    using i by (induction k) (auto simp: move_down_def mod_Suc_eq)
  have "move_up ?n (move_down ?n ?i) = ?i"
    using i by (cases "Suc ?i = ?n") (auto simp: move_up_def move_down_def)
  with down [of ?n] i show "move_up ?n (move_down ?n ?i) = ?i \<and> (move_down ?n ^^ ?n) ?i = ?i" by simp
qed

text \<open>The highlight. In every state the palette reaches an arrow key puts the highlight on a row, wherever
  it was before (the list may have shrunk under it); the two arrows are inverse to each other and going
  down once for every row comes back; typing something else puts it on the first row; and Enter opens the
  highlighted row and closes, or does nothing when no row is highlighted.\<close>

theorem palette_keyboard:
  fixes results :: "string \<Rightarrow> palette_result list"
  assumes "st = foldl (palette_step results) (palette_mount t) es" and "rows = results (trimmedQuery st)"
  shows "(rows \<noteq> [] \<longrightarrow> cp_activeIndex (palette_step results st (now, ArrowDown)) < length rows
        \<and> cp_activeIndex (palette_step results st (now, ArrowUp)) < length rows)
    \<and> (cp_activeIndex st < length rows \<longrightarrow>
        move_up (length rows) (move_down (length rows) (cp_activeIndex st)) = cp_activeIndex st
        \<and> (move_down (length rows) ^^ length rows) (cp_activeIndex st) = cp_activeIndex st)
    \<and> (s \<noteq> cp_query st \<longrightarrow> cp_activeIndex (palette_step results st (now, Type s)) = 0)
    \<and> (cp_isOpen (palette_step results st (now, Enter)) \<longleftrightarrow> cp_isOpen st \<and> goes_to rows Enter st = None)"
proof (intro conjI impI)
  note parts = palette_keyboard_parts [where results = results, OF assms]
  show "cp_activeIndex (palette_step results st (now, ArrowDown)) < length rows" if "rows \<noteq> []"
    using that by (rule parts(1)) simp
  show "cp_activeIndex (palette_step results st (now, ArrowUp)) < length rows" if "rows \<noteq> []"
    using that by (rule parts(1)) simp
  show "move_up (length rows) (move_down (length rows) (cp_activeIndex st)) = cp_activeIndex st"
    if "cp_activeIndex st < length rows" using parts(2) [OF that] by (rule conjunct1)
  show "(move_down (length rows) ^^ length rows) (cp_activeIndex st) = cp_activeIndex st"
    if "cp_activeIndex st < length rows" using parts(2) [OF that] by (rule conjunct2)
  show "cp_activeIndex (palette_step results st (now, Type s)) = 0" if "s \<noteq> cp_query st"
    using that by (rule parts(3))
  show "cp_isOpen (palette_step results st (now, Enter)) \<longleftrightarrow> cp_isOpen st \<and> goes_to rows Enter st = None"
    by (rule parts(4))
qed

text \<open>Reopening shows the results of the previous search: the query and the highlight are reset, but the
  results follow the debounced query, which keeps the old text for another 300 milliseconds. Enter within
  that time opens the old search's first row, although the input is empty.\<close>

theorem palette_reopens_stale:
  assumes "palette_settled st" and "\<not> cp_isOpen st" and "db_deadline (cp_debounce st) = None"
    and "cp_query st \<noteq> []" and "st1 = palette_step results st (now, Toggle True)"
    and "results (js_trim (cp_query st)) = r # rs"
    and "later < now + PALETTE_DELAY" and "st2 = palette_step results st1 (later, Timer)"
  shows "cp_isOpen st2 \<and> cp_query st2 = [] \<and> cp_activeIndex st2 = 0
    \<and> results (trimmedQuery st2) = r # rs
    \<and> goes_to (results (trimmedQuery st2)) Enter st2 = Some (pr_to r)"
proof -
  have deb: "debounced (cp_debounce st) = cp_query st" "db_value (cp_debounce st) = cp_query st"
    using assms(1,3) by (simp_all add: palette_settled_def)
  have st1: "cp_isOpen st1" "cp_query st1 = []" "cp_activeIndex st1 = 0" "cp_prevIsOpen st1" "cp_prevQuery st1 = []"
    "cp_debounce st1 = \<lparr>debounced = cp_query st, db_value = [], db_deadline = Some (now + PALETTE_DELAY)\<rparr>"
    unfolding assms(5) using assms(1,2,4) deb
    by (auto simp: palette_defs palette_settled_def intro: debounce.equality)
  then have "st2 = st1"
    unfolding assms(8) using assms(7) by (simp add: palette_defs)
  with st1 show ?thesis using assms(6) by (simp add: trimmedQuery_def goes_to_def)
qed

text \<open>Two rows, whatever the query; the highlight wraps.\<close>

definition two_rows :: "string \<Rightarrow> palette_result list" where
  "two_rows q = [\<lparr>pr_kind = KPage, pr_to = ''/'' @ q, pr_label = q, pr_sublabel = None\<rparr>,
     \<lparr>pr_kind = KPage, pr_to = ''/dashboard'', pr_label = ''Dashboard'', pr_sublabel = None\<rparr>]"

theorem palette_keyboard_witness:
  "cp_activeIndex (palette_step two_rows (foldl (palette_step two_rows) (palette_mount 0)
      [(1, Toggle True), (2, Type ''users''), (400, Timer), (500, ArrowDown)]) (600, ArrowDown)) < 2"
proof -
  let ?st = "foldl (palette_step two_rows) (palette_mount 0)
      [(1, Toggle True), (2, Type ''users''), (400, Timer), (500, ArrowDown)]"
  have "two_rows (trimmedQuery ?st) \<noteq> []" and len: "length (two_rows (trimmedQuery ?st)) = 2"
    by (simp_all add: two_rows_def)
  from mp [OF conjunct1 [OF palette_keyboard [where results = two_rows, OF refl refl]] this(1)] len show ?thesis by simp
qed

theorem palette_reopens_stale_witness:
  "let st = foldl (palette_step two_rows) (palette_mount 0)
        [(1, Toggle True), (2, Type ''users''), (400, Timer), (500, Enter)]
   in goes_to (two_rows (trimmedQuery (palette_step two_rows (palette_step two_rows st (900, Toggle True)) (901, Timer))))
        Enter (palette_step two_rows (palette_step two_rows st (900, Toggle True)) (901, Timer)) = Some ''/users''"
proof -
  let ?st = "foldl (palette_step two_rows) (palette_mount 0) [(1, Toggle True), (2, Type ''users''), (400, Timer), (500, Enter)]"
  have st: "?st = \<lparr>cp_isOpen = False, cp_query = ''users'', cp_activeIndex = 0, cp_prevIsOpen = False,
      cp_prevQuery = ''users'', cp_debounce = \<lparr>debounced = ''users'', db_value = ''users'', db_deadline = None\<rparr>\<rparr>"
    by code_simp
  have trimmed: "js_trim ''users'' = ''users''" by code_simp
  let ?r = "hd (two_rows ''users'')"
  have rows: "two_rows (js_trim (cp_query ?st)) = ?r # tl (two_rows ''users'')"
    unfolding st using trimmed by (simp add: two_rows_def)
  have at_rest: "palette_settled ?st" "\<not> cp_isOpen ?st" "db_deadline (cp_debounce ?st) = None" "cp_query ?st \<noteq> []"
    unfolding st by (simp_all add: palette_settled_def)
  have soon: "901 < 900 + PALETTE_DELAY" by (simp add: PALETTE_DELAY_def)
  have "pr_to ?r = ''/users''" by (simp add: two_rows_def)
  with palette_reopens_stale [where results = two_rows, OF at_rest refl rows soon refl] show ?thesis unfolding Let_def by metis
qed

end
