(* ===== verification/AccountForms.thy ===== *)
theory AccountForms
  imports UiHooks ApiError ApiClient Complex_Main
begin

text \<open>
  The forms around an account: the password rules (\<open>auth/password_rules/passwordRules.ts\<close>), login with its
  lockout countdown, signup, password reset, verification and its resend, the cards of the account
  settings page and the deletion of an account. A submit is a function to the form afterwards and the
  request it sends, if any. What the browser says of an e-mail input's validity is the parameter
  \<open>email_valid\<close>; a translated message is represented by its key.
\<close>

section \<open>Password rules\<close>

record password_rules =
  lengthRule :: bool
  upperRule :: bool
  lowerRule :: bool
  numberRule :: bool

definition char_between :: "nat \<Rightarrow> nat \<Rightarrow> char \<Rightarrow> bool" where
  "char_between a b c \<longleftrightarrow> a \<le> (of_char c :: nat) \<and> (of_char c :: nat) \<le> b"

definition checkPasswordRules :: "string \<Rightarrow> password_rules" where
  "checkPasswordRules pwd = \<lparr>lengthRule = length pwd \<ge> 8,
     upperRule = list_ex (char_between 65 90) pwd,
     lowerRule = list_ex (char_between 97 122) pwd,
     numberRule = list_ex (char_between 48 57) pwd\<rparr>"

datatype password_strength = NoStrength | Weak | Medium | Strong

definition passed_rules :: "password_rules \<Rightarrow> nat" where
  "passed_rules r = length (filter id [lengthRule r, upperRule r, lowerRule r, numberRule r])"

definition evaluatePasswordStrength :: "string \<Rightarrow> password_strength" where
  "evaluatePasswordStrength pwd = (if pwd = [] then NoStrength
     else let passedRules = passed_rules (checkPasswordRules pwd) in
       if passedRules \<le> 2 then Weak else if passedRules = 3 then Medium else Strong)"

definition validatePassword :: "string \<Rightarrow> string option" where
  "validatePassword pwd = (let r = checkPasswordRules pwd in
     if \<not> lengthRule r then Some ''auth:passwordRules.lengthError''
     else if \<not> upperRule r then Some ''auth:passwordRules.upperError''
     else if \<not> lowerRule r then Some ''auth:passwordRules.lowerError''
     else if \<not> numberRule r then Some ''auth:passwordRules.numberError''
     else None)"

text \<open>The segments of the strength bar that are filled.\<close>

definition filled_segments :: "string \<Rightarrow> bool list" where
  "filled_segments pwd = map (\<lambda>i. i < passed_rules (checkPasswordRules pwd)) [0..<4]"

fun strength_level :: "password_strength \<Rightarrow> nat" where
  "strength_level NoStrength = 0"
| "strength_level Weak = 1"
| "strength_level Medium = 2"
| "strength_level Strong = 3"

definition rule_list :: "password_rules \<Rightarrow> bool list" where
  "rule_list r = [lengthRule r, upperRule r, lowerRule r, numberRule r]"

lemma passed_rules_le: "passed_rules r \<le> 4"
  unfolding passed_rules_def using length_filter_le [of id "rule_list r"] by (simp add: rule_list_def)

lemma passed_all: "passed_rules r = 4 \<longleftrightarrow> lengthRule r \<and> upperRule r \<and> lowerRule r \<and> numberRule r"
  by (auto simp: passed_rules_def)

lemma valid_password:
  "validatePassword pwd = None \<longleftrightarrow> passed_rules (checkPasswordRules pwd) = 4"
  by (auto simp: validatePassword_def passed_all Let_def)

lemma password_strong: "validatePassword pwd = None \<longleftrightarrow> evaluatePasswordStrength pwd = Strong"
proof -
  have "pwd = [] \<Longrightarrow> passed_rules (checkPasswordRules pwd) = 0"
    by (simp add: checkPasswordRules_def passed_rules_def)
  then show ?thesis using passed_rules_le [of "checkPasswordRules pwd"]
    by (auto simp: valid_password evaluatePasswordStrength_def Let_def)
qed

lemma char_sets:
  "char_between 65 90 c \<longleftrightarrow> c \<in> set ''ABCDEFGHIJKLMNOPQRSTUVWXYZ''"
  "char_between 97 122 c \<longleftrightarrow> c \<in> set ''abcdefghijklmnopqrstuvwxyz''"
  "char_between 48 57 c \<longleftrightarrow> c \<in> set ''0123456789''"
proof -
  have chars: "char_between a b c \<longleftrightarrow> c \<in> set (map char_of [a..<Suc b])" if "b < 256" for a b
  proof
    assume "char_between a b c"
    then have "(of_char c :: nat) \<in> set [a..<Suc b]" unfolding char_between_def by simp linarith
    then show "c \<in> set (map char_of [a..<Suc b])" by (metis char_of_char image_eqI set_map)
  next
    assume "c \<in> set (map char_of [a..<Suc b])"
    then obtain n where "c = char_of n" "a \<le> n" "n \<le> b" by auto
    with that show "char_between a b c" by (simp add: char_between_def)
  qed
  have upper: "map char_of [65..<Suc 90] = ''ABCDEFGHIJKLMNOPQRSTUVWXYZ''"
    and lower: "map char_of [97..<Suc 122] = ''abcdefghijklmnopqrstuvwxyz''"
    and digits: "map char_of [48..<Suc 57] = ''0123456789''"
    by code_simp+
  show "char_between 65 90 c \<longleftrightarrow> c \<in> set ''ABCDEFGHIJKLMNOPQRSTUVWXYZ''"
    unfolding upper [symmetric] by (rule chars) simp
  show "char_between 97 122 c \<longleftrightarrow> c \<in> set ''abcdefghijklmnopqrstuvwxyz''"
    unfolding lower [symmetric] by (rule chars) simp
  show "char_between 48 57 c \<longleftrightarrow> c \<in> set ''0123456789''"
    unfolding digits [symmetric] by (rule chars) simp
qed

text \<open>The strength shown while typing and the check on submit agree: a password is called strong exactly
  if the submit accepts it, it is then at least eight characters with an upper-case, a lower-case letter and
  a digit, and typing on, at either end, never takes a rule away or makes the password weaker.\<close>

theorem password_rules_agree:
  "(validatePassword pwd = None \<longleftrightarrow> evaluatePasswordStrength pwd = Strong)
   \<and> (validatePassword pwd = None \<longleftrightarrow> filled_segments pwd = [True, True, True, True])
   \<and> (validatePassword pwd = None \<longleftrightarrow> length pwd \<ge> 8
        \<and> (\<exists>c \<in> set pwd. c \<in> set ''ABCDEFGHIJKLMNOPQRSTUVWXYZ'')
        \<and> (\<exists>c \<in> set pwd. c \<in> set ''abcdefghijklmnopqrstuvwxyz'') \<and> (\<exists>c \<in> set pwd. c \<in> set ''0123456789''))
   \<and> strength_level (evaluatePasswordStrength pwd) \<le> strength_level (evaluatePasswordStrength (a @ pwd @ b))"
proof (intro conjI)
  let ?r = "checkPasswordRules pwd" and ?s = "checkPasswordRules (a @ pwd @ b)"
  show "validatePassword pwd = None \<longleftrightarrow> evaluatePasswordStrength pwd = Strong" by (rule password_strong)
  show "validatePassword pwd = None \<longleftrightarrow> filled_segments pwd = [True, True, True, True]"
    using passed_rules_le [of ?r] by (auto simp: valid_password filled_segments_def upt_rec)
  have letters: "char_between 65 90 c \<longleftrightarrow> c \<in> set ''ABCDEFGHIJKLMNOPQRSTUVWXYZ''"
    "char_between 97 122 c \<longleftrightarrow> c \<in> set ''abcdefghijklmnopqrstuvwxyz''"
    "char_between 48 57 c \<longleftrightarrow> c \<in> set ''0123456789''" for c
    by (rule char_sets)+
  show "validatePassword pwd = None \<longleftrightarrow> length pwd \<ge> 8
        \<and> (\<exists>c \<in> set pwd. c \<in> set ''ABCDEFGHIJKLMNOPQRSTUVWXYZ'')
        \<and> (\<exists>c \<in> set pwd. c \<in> set ''abcdefghijklmnopqrstuvwxyz'') \<and> (\<exists>c \<in> set pwd. c \<in> set ''0123456789'')"
    unfolding valid_password passed_all checkPasswordRules_def list_ex_iff letters by simp
  have "lengthRule ?r \<longrightarrow> lengthRule ?s" "upperRule ?r \<longrightarrow> upperRule ?s" "lowerRule ?r \<longrightarrow> lowerRule ?s"
    "numberRule ?r \<longrightarrow> numberRule ?s"
    by (auto simp: checkPasswordRules_def)
  then have "passed_rules ?r \<le> passed_rules ?s" by (auto simp: passed_rules_def)
  then show "strength_level (evaluatePasswordStrength pwd) \<le> strength_level (evaluatePasswordStrength (a @ pwd @ b))"
    by (auto simp: evaluatePasswordStrength_def Let_def)
qed

theorem password_rules_agree_witness:
  "evaluatePasswordStrength ''Passw0rd'' = Strong"
proof -
  have "validatePassword ''Passw0rd'' = None" by code_simp
  then show ?thesis using password_rules_agree [of "''Passw0rd''"] by blast
qed

section \<open>Login\<close>

record login_form =
  lf_email :: string
  lf_password :: string
  lf_lock :: cooldown_state

definition two_digits :: "nat \<Rightarrow> string" where
  "two_digits n = (let s = nat_text n in replicate (2 - length s) (CHR ''0'') @ s)"

definition formatMinutesSeconds :: "nat \<Rightarrow> string" where
  "formatMinutesSeconds totalSeconds =
     nat_text (totalSeconds div 60) @ '':'' @ two_digits (totalSeconds mod 60)"

text \<open>How long a failed login locks the form: \<open>retryAfter\<close> is \<open>Number(...)\<close> of the response's header when
  that is finite, \<open>number\<close> is \<open>Number(...)\<close> of a JSON value when that is a finite integer.\<close>

definition lock_seconds :: "(json option \<Rightarrow> int option) \<Rightarrow> rat option \<Rightarrow> js_error \<Rightarrow> int option" where
  "lock_seconds number retryAfter e =
     (let d = error_data e;
          minutes = (case number (json_field ''minutes'' (json_field ''params'' d)) of
             Some m \<Rightarrow> if m = 0 then 1 else m | None \<Rightarrow> 1);
          locked = (if json_field ''code'' d = Some (JStr ''ACCOUNT_LOCKED'') then Some (minutes * 60) else None)
      in if isAxiosError e \<and> error_status e = Some 429
         then (case retryAfter of
             Some r \<Rightarrow> if r > 0 then Some \<lceil>r\<rceil> else locked
           | None \<Rightarrow> locked)
         else None)"

definition login_failed :: "(json option \<Rightarrow> int option) \<Rightarrow> rat option \<Rightarrow> js_error \<Rightarrow> login_form \<Rightarrow> login_form" where
  "login_failed number retryAfter e lf = (case lock_seconds number retryAfter e of
      Some s \<Rightarrow> lf\<lparr>lf_lock := startCooldown s (lf_lock lf)\<rparr>
    | None \<Rightarrow> lf)"

definition login_submit :: "login_form \<Rightarrow> http_request option" where
  "login_submit lf = (if cooldown (lf_lock lf) > 0 then None
     else Some (loginApi (lf_email lf) (lf_password lf)))"

definition isRetryableError :: "js_error option \<Rightarrow> bool" where
  "isRetryableError cause = (case cause of
      None \<Rightarrow> False
    | Some e \<Rightarrow> isAxiosError e \<and> (case error_status e of None \<Rightarrow> True | Some st \<Rightarrow> st \<ge> 500))"

datatype login_button = TryAgainIn string | RetryLogin | SubmitLogin

definition login_button_label :: "js_error option \<Rightarrow> login_form \<Rightarrow> login_button" where
  "login_button_label cause lf = (if cooldown (lf_lock lf) > 0
     then TryAgainIn (formatMinutesSeconds (nat (cooldown (lf_lock lf))))
     else if isRetryableError cause then RetryLogin else SubmitLogin)"

text \<open>A second passes on the form's countdown.\<close>

definition login_tick :: "login_form \<Rightarrow> login_form" where
  "login_tick lf = lf\<lparr>lf_lock := (case intervalRef (lf_lock lf) of
      Some i \<Rightarrow> cooldown_tick i (lf_lock lf) | None \<Rightarrow> lf_lock lf)\<rparr>"

lemma login_tick_counts:
  "cooldown_ok (lf_lock lf) \<Longrightarrow> cooldown (lf_lock (login_tick lf)) = max 0 (cooldown (lf_lock lf) - 1)
     \<and> cooldown_ok (lf_lock (login_tick lf))"
  by (auto simp: login_tick_def cooldown_ok_def cooldown_tick_def clear_interval_def split: option.splits)

lemma login_ticks:
  "cooldown_ok (lf_lock lf) \<Longrightarrow> cooldown (lf_lock ((login_tick ^^ n) lf)) = max 0 (cooldown (lf_lock lf) - int n)
     \<and> cooldown_ok (lf_lock ((login_tick ^^ n) lf)) \<and> lf_email ((login_tick ^^ n) lf) = lf_email lf
     \<and> lf_password ((login_tick ^^ n) lf) = lf_password lf"
proof (induction n)
  case 0
  then show ?case by (simp add: cooldown_ok_def)
next
  case (Suc n)
  let ?l = "(login_tick ^^ n) lf"
  have ok: "cooldown_ok (lf_lock ?l)" and c: "cooldown (lf_lock ?l) = max 0 (cooldown (lf_lock lf) - int n)"
    using Suc by blast+
  have "lf_email (login_tick ?l) = lf_email ?l" "lf_password (login_tick ?l) = lf_password ?l"
    by (simp_all add: login_tick_def)
  with login_tick_counts [OF ok] c Suc show ?case by simp
qed

text \<open>C31. The lockout: after an answer that locks for \<open>s\<close> seconds the form sends nothing for \<open>s\<close> ticks, the
  button counts them down, and from then on a submit sends the typed credentials again. The server's
  \<open>Retry-After\<close> decides before its own lockout minutes; any other failure locks nothing.\<close>

theorem login_lockout:
  assumes "cooldown_ok (lf_lock lf)" and "cooldown (lf_lock lf) = 0"
  shows "(lock_seconds number retryAfter e = Some s \<and> s > 0 \<longrightarrow>
       login_submit ((login_tick ^^ n) (login_failed number retryAfter e lf))
         = (if int n < s then None else Some (loginApi (lf_email lf) (lf_password lf)))
       \<and> (int n < s \<longrightarrow> login_button_label cause ((login_tick ^^ n) (login_failed number retryAfter e lf))
            = TryAgainIn (formatMinutesSeconds (nat (s - int n)))))
     \<and> (error_status e \<noteq> Some 429 \<longrightarrow> login_failed number retryAfter e lf = lf)
     \<and> (error_status e = Some 429 \<and> r > 0 \<longrightarrow> lock_seconds number (Some r) e = Some \<lceil>r\<rceil> \<and> \<lceil>r\<rceil> > 0)"
proof (intro conjI impI)
  assume lock: "lock_seconds number retryAfter e = Some s \<and> s > 0"
  let ?f = "login_failed number retryAfter e lf"
  have f: "?f = lf\<lparr>lf_lock := startCooldown s (lf_lock lf)\<rparr>" using lock by (simp add: login_failed_def)
  have "running (lf_lock lf) = []" using assms by (auto simp: cooldown_ok_def)
  then have "cooldown_ok (lf_lock ?f)" "cooldown (lf_lock ?f) = s"
    unfolding f using lock by (auto simp: cooldown_ok_def startCooldown_def)
  from login_ticks [OF this(1), of n] this(2)
  have n: "cooldown (lf_lock ((login_tick ^^ n) ?f)) = max 0 (s - int n)"
    "lf_email ((login_tick ^^ n) ?f) = lf_email lf" "lf_password ((login_tick ^^ n) ?f) = lf_password lf"
    unfolding f by simp_all
  then show "login_submit ((login_tick ^^ n) ?f) = (if int n < s then None else Some (loginApi (lf_email lf) (lf_password lf)))"
    by (simp add: login_submit_def)
  show "login_button_label cause ((login_tick ^^ n) ?f) = TryAgainIn (formatMinutesSeconds (nat (s - int n)))"
    if "int n < s" using that n by (simp add: login_button_label_def)
next
  assume "error_status e \<noteq> Some 429"
  then show "login_failed number retryAfter e lf = lf" by (simp add: login_failed_def lock_seconds_def Let_def)
next
  assume "error_status e = Some 429 \<and> r > 0"
  moreover from this have "isAxiosError e" by (cases e rule: error_status.cases) auto
  ultimately show "lock_seconds number (Some r) e = Some \<lceil>r\<rceil>" "\<lceil>r\<rceil> > 0"
    by (simp_all add: lock_seconds_def Let_def)
qed

definition locked_answer :: js_error where
  "locked_answer = AxiosError (Some \<lparr>resp_status = 429, resp_data = Some (JObj [(''code'', JStr ''ACCOUNT_LOCKED''),
     (''params'', JObj [(''minutes'', JNum 15)])])\<rparr>)"

definition json_number :: "json option \<Rightarrow> int option" where
  "json_number v = (case v of Some (JNum n) \<Rightarrow> Some n | _ \<Rightarrow> None)"

theorem login_lockout_witness:
  "login_submit ((login_tick ^^ 899) (login_failed json_number None locked_answer
     \<lparr>lf_email = ''a@x'', lf_password = ''p'', lf_lock = useCooldown\<rparr>)) = None"
proof -
  let ?lf = "\<lparr>lf_email = ''a@x'', lf_password = ''p'', lf_lock = useCooldown\<rparr>"
  have "cooldown_ok (lf_lock ?lf)" "cooldown (lf_lock ?lf) = 0"
    by (simp_all add: cooldown_initial_ok) (simp add: useCooldown_def)
  moreover have "lock_seconds json_number None locked_answer = Some 900 \<and> (0::int) < 900"
    by (simp add: lock_seconds_def locked_answer_def json_number_def)
  ultimately show ?thesis
    using login_lockout [of ?lf json_number None locked_answer 900 899 None 1] by simp
qed

section \<open>Signup\<close>

record signup_form =
  sg_name :: string
  sg_email :: string
  sg_password :: string
  sg_confirm :: string
  sg_mismatch :: bool
  sg_passwordInvalid :: bool
  sg_strength :: password_strength
  sg_nameError :: "string option"
  sg_emailError :: "string option"

definition signup_mount :: signup_form where
  "signup_mount = \<lparr>sg_name = [], sg_email = [], sg_password = [], sg_confirm = [], sg_mismatch = False,
     sg_passwordInvalid = False, sg_strength = NoStrength, sg_nameError = None, sg_emailError = None\<rparr>"

text \<open>The change handlers of the four inputs.\<close>

definition signup_type_name :: "string \<Rightarrow> signup_form \<Rightarrow> signup_form" where
  "signup_type_name v f = f\<lparr>sg_name := v, sg_nameError := None\<rparr>"

definition signup_type_email :: "string \<Rightarrow> signup_form \<Rightarrow> signup_form" where
  "signup_type_email v f = f\<lparr>sg_email := v, sg_emailError := None\<rparr>"

definition handlePasswordChange :: "string \<Rightarrow> signup_form \<Rightarrow> signup_form" where
  "handlePasswordChange v f = f\<lparr>sg_password := v, sg_strength := evaluatePasswordStrength v,
     sg_passwordInvalid := False\<rparr>"

definition signup_type_confirm :: "string \<Rightarrow> signup_form \<Rightarrow> signup_form" where
  "signup_type_confirm v f = f\<lparr>sg_confirm := v, sg_mismatch := False\<rparr>"

datatype signup_field = NameField | EmailField | PasswordField | ConfirmField

text \<open>\<open>handleSubmit\<close>: the form, the request and the field that gets the focus.\<close>

definition signup_submit ::
  "(string \<Rightarrow> bool) \<Rightarrow> signup_form \<Rightarrow> signup_form \<times> http_request option \<times> signup_field option" where
  "signup_submit email_valid f0 =
     (let f = f0\<lparr>sg_nameError := (if truthy (js_trim (sg_name f0)) then None else Some ''signup.nameRequired''),
                 sg_emailError := (if \<not> truthy (js_trim (sg_email f0)) then Some ''signup.emailRequired''
                    else if \<not> email_valid (sg_email f0) then Some ''signup.emailInvalid'' else None)\<rparr>
      in if sg_nameError f \<noteq> None then (f, None, Some NameField)
         else if sg_emailError f \<noteq> None then (f, None, Some EmailField)
         else if validatePassword (sg_password f) \<noteq> None
           then (f\<lparr>sg_passwordInvalid := True, sg_mismatch := False\<rparr>, None, Some PasswordField)
         else if sg_password f \<noteq> sg_confirm f
           then (f\<lparr>sg_mismatch := True, sg_passwordInvalid := False\<rparr>, None, Some ConfirmField)
         else (f\<lparr>sg_mismatch := False, sg_passwordInvalid := False\<rparr>,
               Some (signupApi (sg_name f) (sg_email f) (sg_password f)), None))"

definition signup_succeeded :: "signup_form \<Rightarrow> signup_form" where
  "signup_succeeded f = f\<lparr>sg_password := [], sg_confirm := [], sg_strength := NoStrength\<rparr>"

datatype signup_event = SgName string | SgEmail string | SgPassword string | SgConfirm string | SgSubmit | SgSuccess

fun signup_step :: "(string \<Rightarrow> bool) \<Rightarrow> signup_form \<Rightarrow> signup_event \<Rightarrow> signup_form" where
  "signup_step ev f (SgName v) = signup_type_name v f"
| "signup_step ev f (SgEmail v) = signup_type_email v f"
| "signup_step ev f (SgPassword v) = handlePasswordChange v f"
| "signup_step ev f (SgConfirm v) = signup_type_confirm v f"
| "signup_step ev f SgSubmit = fst (signup_submit ev f)"
| "signup_step ev f SgSuccess = signup_succeeded f"

text \<open>What the form claims about its fields is true of them: the strength is the password's, an invalid
  password is not called strong, and a complaint about a name or an e-mail concerns what is in the field.\<close>

definition signup_ok :: "(string \<Rightarrow> bool) \<Rightarrow> signup_form \<Rightarrow> bool" where
  "signup_ok ev f \<longleftrightarrow> sg_strength f = evaluatePasswordStrength (sg_password f)
     \<and> (sg_passwordInvalid f \<longrightarrow> validatePassword (sg_password f) \<noteq> None)
     \<and> (sg_nameError f \<noteq> None \<longrightarrow> \<not> truthy (js_trim (sg_name f)))
     \<and> (sg_emailError f \<noteq> None \<longrightarrow> \<not> truthy (js_trim (sg_email f)) \<or> \<not> ev (sg_email f))"

lemma empty_password: "evaluatePasswordStrength [] = NoStrength" "validatePassword [] \<noteq> None"
  by (simp_all add: evaluatePasswordStrength_def validatePassword_def checkPasswordRules_def)

lemma signup_submit_ok: "signup_ok ev f \<Longrightarrow> signup_ok ev (fst (signup_submit ev f))"
  by (auto simp: signup_ok_def signup_submit_def Let_def)

lemma signup_step_ok: "signup_ok ev f \<Longrightarrow> signup_ok ev (signup_step ev f e)"
proof (cases e)
  case SgSubmit
  assume "signup_ok ev f"
  with SgSubmit show ?thesis by (simp add: signup_submit_ok)
qed (auto simp: signup_ok_def signup_type_name_def signup_type_email_def handlePasswordChange_def
    signup_type_confirm_def signup_succeeded_def empty_password)

interpretation signup: event_machine "signup_step ev" "signup_ok ev"
  by unfold_locales (rule signup_step_ok)

lemma signup_mount_ok: "signup_ok ev signup_mount"
  by (simp add: signup_ok_def signup_mount_def empty_password)

definition signup_complaints :: "signup_form \<Rightarrow> signup_field set" where
  "signup_complaints f = (if sg_nameError f \<noteq> None then {NameField} else {})
     \<union> (if sg_emailError f \<noteq> None then {EmailField} else {})
     \<union> (if sg_passwordInvalid f then {PasswordField} else {}) \<union> (if sg_mismatch f then {ConfirmField} else {})"

lemma signup_branches:
  assumes "signup_submit ev f = (f', req, focus)"
  shows "(req \<noteq> None \<longleftrightarrow> js_trim (sg_name f) \<noteq> [] \<and> js_trim (sg_email f) \<noteq> [] \<and> ev (sg_email f)
           \<and> validatePassword (sg_password f) = None \<and> sg_password f = sg_confirm f)
       \<and> (req \<noteq> None \<longrightarrow> req = Some (signupApi (sg_name f) (sg_email f) (sg_password f))
            \<and> signup_complaints f' = {} \<and> focus = None)
       \<and> (req = None \<longrightarrow> (\<exists>x \<in> signup_complaints f'. focus = Some x))"
proof -
  have tr: "truthy s \<longleftrightarrow> s \<noteq> []" for s by (cases s) simp_all
  consider "js_trim (sg_name f) = []" | "js_trim (sg_name f) \<noteq> []" "js_trim (sg_email f) = []"
    | "js_trim (sg_name f) \<noteq> []" "js_trim (sg_email f) \<noteq> []" "\<not> ev (sg_email f)"
    | "js_trim (sg_name f) \<noteq> []" "js_trim (sg_email f) \<noteq> []" "ev (sg_email f)" "validatePassword (sg_password f) \<noteq> None"
    | "js_trim (sg_name f) \<noteq> []" "js_trim (sg_email f) \<noteq> []" "ev (sg_email f)" "validatePassword (sg_password f) = None"
      "sg_password f \<noteq> sg_confirm f"
    | "js_trim (sg_name f) \<noteq> []" "js_trim (sg_email f) \<noteq> []" "ev (sg_email f)" "validatePassword (sg_password f) = None"
      "sg_password f = sg_confirm f" by blast
  moreover have "f' = fst (signup_submit ev f)" "req = fst (snd (signup_submit ev f))"
    "focus = snd (snd (signup_submit ev f))" by (simp_all add: assms)
  ultimately show ?thesis
    by cases (simp_all add: signup_submit_def Let_def tr signup_complaints_def)
qed

text \<open>Whatever was typed and submitted before, a submit of the signup form sends the typed values exactly
  if the name and the e-mail are not blank, the e-mail is valid, every password rule passes and the two
  passwords agree; then it shows no complaint. Otherwise nothing is sent and the field that gets the
  focus is one it complains about; and no complaint of an untouched form about a field is false.\<close>

theorem signup_submits:
  assumes "f = foldl (signup_step ev) signup_mount es" and "signup_submit ev f = (f', req, focus)"
  shows "(req \<noteq> None \<longleftrightarrow> js_trim (sg_name f) \<noteq> [] \<and> js_trim (sg_email f) \<noteq> [] \<and> ev (sg_email f)
            \<and> evaluatePasswordStrength (sg_password f) = Strong \<and> sg_password f = sg_confirm f)
       \<and> (req \<noteq> None \<longrightarrow> req = Some (signupApi (sg_name f) (sg_email f) (sg_password f))
            \<and> signup_complaints f' = {} \<and> focus = None)
       \<and> (req = None \<longrightarrow> (\<exists>x \<in> signup_complaints f'. focus = Some x))
       \<and> sg_strength f' = evaluatePasswordStrength (sg_password f')
       \<and> (sg_passwordInvalid f' \<longrightarrow> sg_strength f' \<noteq> Strong)"
proof -
  have "signup_ok ev f" unfolding assms(1) by (rule signup.run_inv [OF signup_mount_ok])
  then have "signup_ok ev f'" using signup_submit_ok [of ev f] assms(2) by simp
  then have "sg_strength f' = evaluatePasswordStrength (sg_password f')
      \<and> (sg_passwordInvalid f' \<longrightarrow> sg_strength f' \<noteq> Strong)"
    unfolding signup_ok_def using password_strong [of "sg_password f'"] by auto
  moreover let ?sent = "js_trim (sg_name f) \<noteq> [] \<and> js_trim (sg_email f) \<noteq> [] \<and> ev (sg_email f)
      \<and> validatePassword (sg_password f) = None \<and> sg_password f = sg_confirm f"
  have "(req \<noteq> None \<longleftrightarrow> ?sent)
       \<and> (req \<noteq> None \<longrightarrow> req = Some (signupApi (sg_name f) (sg_email f) (sg_password f))
            \<and> signup_complaints f' = {} \<and> focus = None)
       \<and> (req = None \<longrightarrow> (\<exists>x \<in> signup_complaints f'. focus = Some x))"
    by (rule signup_branches [OF assms(2)])
  ultimately show ?thesis unfolding password_strong by blast
qed

theorem signup_submits_witness:
  "fst (snd (signup_submit (\<lambda>e. True) (foldl (signup_step (\<lambda>e. True)) signup_mount
     [SgName ''A'', SgEmail ''a@x'', SgPassword ''Passw0rd'', SgSubmit, SgConfirm ''Passw0rd''])))
   = Some (signupApi ''A'' ''a@x'' ''Passw0rd'')"
proof -
  let ?f = "foldl (signup_step (\<lambda>e. True)) signup_mount
     [SgName ''A'', SgEmail ''a@x'', SgPassword ''Passw0rd'', SgSubmit, SgConfirm ''Passw0rd'']"
  obtain f' req focus where res: "signup_submit (\<lambda>e. True) ?f = (f', req, focus)" by (metis prod_cases3)
  have "sg_name ?f = ''A''" "sg_email ?f = ''a@x''" "sg_password ?f = ''Passw0rd''" "sg_confirm ?f = ''Passw0rd''"
    by code_simp+
  moreover have "evaluatePasswordStrength ''Passw0rd'' = Strong" "js_trim ''A'' \<noteq> []" "js_trim ''a@x'' \<noteq> []"
    by code_simp+
  ultimately show ?thesis using signup_submits [OF refl res] res by simp
qed

section \<open>Password reset\<close>

record password_reset_form =
  rf_manualToken :: string
  rf_newPassword :: string
  rf_confirm :: string
  rf_mismatch :: bool
  rf_passwordInvalid :: bool
  rf_strength :: password_strength

definition reset_token :: "string \<Rightarrow> password_reset_form \<Rightarrow> string" where
  "reset_token propToken f = (if truthy propToken then propToken else rf_manualToken f)"

definition reset_type_password :: "string \<Rightarrow> password_reset_form \<Rightarrow> password_reset_form" where
  "reset_type_password v f = f\<lparr>rf_newPassword := v, rf_strength := evaluatePasswordStrength v, rf_passwordInvalid := False\<rparr>"

definition reset_type_confirm :: "string \<Rightarrow> password_reset_form \<Rightarrow> password_reset_form" where
  "reset_type_confirm v f = f\<lparr>rf_confirm := v, rf_mismatch := False\<rparr>"

definition reset_submit :: "string \<Rightarrow> password_reset_form \<Rightarrow> password_reset_form \<times> http_request option" where
  "reset_submit propToken f =
     (if validatePassword (rf_newPassword f) \<noteq> None then (f\<lparr>rf_passwordInvalid := True, rf_mismatch := False\<rparr>, None)
      else if rf_newPassword f \<noteq> rf_confirm f then (f\<lparr>rf_mismatch := True, rf_passwordInvalid := False\<rparr>, None)
      else (f\<lparr>rf_mismatch := False, rf_passwordInvalid := False\<rparr>,
            Some (passwordResetConfirmApi (reset_token propToken f) (rf_newPassword f))))"

definition reset_succeeded :: "password_reset_form \<Rightarrow> password_reset_form" where
  "reset_succeeded f = f\<lparr>rf_newPassword := [], rf_confirm := [], rf_strength := NoStrength\<rparr>"

text \<open>Links that are dead tell so by their code; another failure leaves the form.\<close>

definition dead_link :: "string \<Rightarrow> js_error \<Rightarrow> bool" where
  "dead_link code e \<longleftrightarrow> isAxiosError e \<and> json_field ''code'' (error_data e) = Some (JStr code)"

definition isDeadResetLinkError :: "js_error \<Rightarrow> bool" where
  "isDeadResetLinkError = dead_link ''INVALID_OR_EXPIRED_RESET_TOKEN''"

definition isDeadDeleteLinkError :: "js_error \<Rightarrow> bool" where
  "isDeadDeleteLinkError = dead_link ''INVALID_OR_EXPIRED_DELETE_TOKEN''"

text \<open>The state of a mutation as a form sees it.\<close>

datatype 'd mutation = MIdle | MPending | MError js_error | MSuccess 'd

datatype reset_screen = ResetDone bool | LinkExpired | ResetForm "js_error option"

definition reset_view :: "json mutation \<Rightarrow> reset_screen" where
  "reset_view m = (case m of
      MSuccess d \<Rightarrow> ResetDone (json_field ''sessions_revoked'' (Some d) \<noteq> Some (JBool False))
    | MError e \<Rightarrow> if isDeadResetLinkError e then LinkExpired else ResetForm (Some e)
    | _ \<Rightarrow> ResetForm None)"

section \<open>Verification and resend\<close>

definition verify_enabled :: "string \<Rightarrow> 'd mutation \<Rightarrow> bool" where
  "verify_enabled token m \<longleftrightarrow> \<not> (\<not> truthy token \<or> (\<exists>d. m = MSuccess d) \<or> (\<exists>e. m = MError e))"

datatype verify_call = CallSuccess | CallError

text \<open>The effect that reports a settled mutation: at most once, whatever re-renders.\<close>

definition verify_report :: "bool \<Rightarrow> 'd mutation \<Rightarrow> bool \<times> verify_call list" where
  "verify_report fired m = (if fired then (True, []) else case m of
      MSuccess d \<Rightarrow> (True, [CallSuccess])
    | MError e \<Rightarrow> (True, [CallError])
    | _ \<Rightarrow> (False, []))"

fun verify_reports :: "bool \<Rightarrow> 'd mutation list \<Rightarrow> bool \<times> verify_call list" where
  "verify_reports fired [] = (fired, [])"
| "verify_reports fired (m # ms) = (let (fired1, calls1) = verify_report fired m;
       (fired2, calls2) = verify_reports fired1 ms in (fired2, calls1 @ calls2))"

definition resend_submit :: "(string \<Rightarrow> http_request) \<Rightarrow> string \<Rightarrow> cooldown_state \<Rightarrow> http_request option" where
  "resend_submit api email c = (if cooldown c > 0 then None else Some (api email))"

definition resend_answered :: "'e + 'd \<Rightarrow> cooldown_state \<Rightarrow> cooldown_state" where
  "resend_answered r c = (case r of Inl e \<Rightarrow> c | Inr d \<Rightarrow> startCooldown 60 c)"

text \<open>The one-time token of an e-mail link: the fragment's, else the query's, else none.\<close>

definition link_value :: "string option \<Rightarrow> string option \<Rightarrow> string" where
  "link_value in_hash in_query = (case Option.bind in_hash or_undefined of
      Some v \<Rightarrow> v
    | None \<Rightarrow> (case Option.bind in_query or_undefined of Some v \<Rightarrow> v | None \<Rightarrow> []))"

lemma verify_fired_silent: "verify_reports True ms = (True, [])"
  by (induction ms) (simp_all add: verify_report_def)

lemma verify_reports_once: "length (snd (verify_reports fired ms)) \<le> 1"
proof (induction ms arbitrary: fired)
  case (Cons m ms)
  show ?case
  proof (cases "fst (verify_report fired m)")
    case True
    then have "verify_reports fired (m # ms) = (True, snd (verify_report fired m))"
      by (cases "verify_report fired m") (simp add: verify_fired_silent)
    then show ?thesis by (simp add: verify_report_def split: mutation.split)
  next
    case False
    then have "verify_report fired m = (False, [])"
      by (auto simp: verify_report_def split: if_splits mutation.splits)
    with Cons [of False] show ?thesis by (simp add: case_prod_beta)
  qed
qed simp

end
