(* ===== verification/AccountSettings.thy ===== *)
theory AccountSettings
  imports AccountForms
begin

text \<open>
  The account settings page: the cards that change the name and the password and delete the account, and the
  page's tabs with their deep links (\<open>account_settings/*.tsx\<close>).
\<close>

section \<open>Name\<close>

record name_card =
  nc_editedName :: string
  nc_error :: "string option"

definition name_card_mount :: "string option \<Rightarrow> name_card" where
  "name_card_mount name = \<lparr>nc_editedName = (case name of Some n \<Rightarrow> n | None \<Rightarrow> []), nc_error = None\<rparr>"

definition name_isDirty :: "string option \<Rightarrow> name_card \<Rightarrow> bool" where
  "name_isDirty name c \<longleftrightarrow> nc_editedName c \<noteq> (case name of Some n \<Rightarrow> n | None \<Rightarrow> [])"

definition handleNameSubmit :: "string option \<Rightarrow> name_card \<Rightarrow> name_card \<times> http_request option" where
  "handleNameSubmit name c =
     (if \<not> truthy (nc_editedName c) \<or> Some (nc_editedName c) = name
      then (c\<lparr>nc_error := Some ''profileName.noChanges''\<rparr>, None)
      else (c\<lparr>nc_error := None\<rparr>, Some (updateMyAccountApi
        \<lparr>up_name = Some (nc_editedName c), up_password = None, up_current_password = None, up_brand_color = None\<rparr>)))"

definition name_saved :: "string \<Rightarrow> name_card \<Rightarrow> name_card" where
  "name_saved updated c = c\<lparr>nc_editedName := updated\<rparr>"

section \<open>Password\<close>

record password_card =
  pc_new :: string
  pc_current :: string
  pc_error :: "string option"

definition password_isDirty :: "password_card \<Rightarrow> bool" where
  "password_isDirty c \<longleftrightarrow> length (pc_new c) > 0"

definition handlePasswordSubmit :: "bool \<Rightarrow> password_card \<Rightarrow> password_card \<times> http_request option" where
  "handlePasswordSubmit hasPassword c = (case validatePassword (pc_new c) of
      Some m \<Rightarrow> (c\<lparr>pc_error := Some m\<rparr>, None)
    | None \<Rightarrow>
        if hasPassword \<and> \<not> truthy (pc_current c)
        then (c\<lparr>pc_error := Some ''changePassword.confirmCurrentRequired''\<rparr>, None)
        else (c\<lparr>pc_error := None\<rparr>, Some (updateMyAccountApi
          \<lparr>up_name = None, up_password = Some (pc_new c),
           up_current_password = (if hasPassword then Some (pc_current c) else None), up_brand_color = None\<rparr>)))"

datatype password_toast = UpdatedToast | UpdatedButSessionsNotRevoked

definition password_saved :: "json \<Rightarrow> password_card \<Rightarrow> password_card \<times> password_toast" where
  "password_saved d c = (c\<lparr>pc_new := [], pc_current := []\<rparr>,
     if json_field ''sessions_revoked'' (Some d) = Some (JBool False) then UpdatedButSessionsNotRevoked else UpdatedToast)"

section \<open>Deleting the account\<close>

record delete_card =
  dc_currentPassword :: string
  dc_formError :: "string option"
  dc_confirmOpen :: bool
  dc_confirmationSent :: bool

definition delete_card_mount :: delete_card where
  "delete_card_mount = \<lparr>dc_currentPassword = [], dc_formError = None, dc_confirmOpen = False, dc_confirmationSent = False\<rparr>"

definition handleRequestDelete :: "bool \<Rightarrow> delete_card \<Rightarrow> delete_card" where
  "handleRequestDelete hasPassword c =
     (if hasPassword \<and> \<not> truthy (dc_currentPassword c)
      then c\<lparr>dc_formError := Some ''deleteAccount.currentPasswordRequired''\<rparr>
      else c\<lparr>dc_formError := None, dc_confirmOpen := True\<rparr>)"

definition handleConfirmDelete :: "bool \<Rightarrow> delete_card \<Rightarrow> http_request" where
  "handleConfirmDelete hasPassword c =
     deleteMyAccountApi (if hasPassword then Some (dc_currentPassword c) else None)"

text \<open>The settlement: the card afterwards, and where it goes.\<close>

definition delete_settled :: "js_error + json \<Rightarrow> delete_card \<Rightarrow> delete_card \<times> string option" where
  "delete_settled r c = (case r of
      Inl e \<Rightarrow> (c\<lparr>dc_confirmOpen := False\<rparr>, None)
    | Inr d \<Rightarrow> if json_truthy (json_field ''confirmation_required'' (Some d))
        then (c\<lparr>dc_confirmOpen := False, dc_confirmationSent := True\<rparr>, None)
        else (c\<lparr>dc_confirmOpen := False\<rparr>, Some ''/login''))"

datatype delete_event = DcType string | DcRequest | DcCancel | DcConfirm | DcSettled "js_error + json"

text \<open>The card with the requests it sends. The confirm button exists only in the open dialog, the form only
  until a confirmation e-mail was sent.\<close>

definition delete_step :: "bool \<Rightarrow> delete_card \<times> http_request list \<Rightarrow> delete_event \<Rightarrow> delete_card \<times> http_request list" where
  "delete_step hasPassword s e = (case s of (c, reqs) \<Rightarrow> case e of
      DcType v \<Rightarrow> if dc_confirmationSent c \<or> dc_confirmOpen c then s else (c\<lparr>dc_currentPassword := v\<rparr>, reqs)
    | DcRequest \<Rightarrow> if dc_confirmationSent c \<or> dc_confirmOpen c then s else (handleRequestDelete hasPassword c, reqs)
    | DcCancel \<Rightarrow> (c\<lparr>dc_confirmOpen := False\<rparr>, reqs)
    | DcConfirm \<Rightarrow> if dc_confirmOpen c then (c, reqs @ [handleConfirmDelete hasPassword c]) else s
    | DcSettled r \<Rightarrow> (fst (delete_settled r c), reqs))"

definition delete_ok :: "bool \<Rightarrow> delete_card \<times> http_request list \<Rightarrow> bool" where
  "delete_ok hasPassword s \<longleftrightarrow> (dc_confirmOpen (fst s) \<and> hasPassword \<longrightarrow> dc_currentPassword (fst s) \<noteq> [])
     \<and> (\<forall>r \<in> set (snd s). if hasPassword then \<exists>p. p \<noteq> [] \<and> r = deleteMyAccountApi (Some p)
          else r = deleteMyAccountApi None)"

lemma delete_step_ok: "delete_ok hasPassword s \<Longrightarrow> delete_ok hasPassword (delete_step hasPassword s e)"
  by (cases s; cases e)
    (auto simp: delete_ok_def delete_step_def handleRequestDelete_def handleConfirmDelete_def delete_settled_def
      truthy_def split: sum.split)

interpretation delete_dialog: event_machine "delete_step hasPassword" "delete_ok hasPassword"
  by unfold_locales (rule delete_step_ok)



section \<open>Tabs and deep links\<close>

text \<open>The page's own state, the store that remembers the tab, and what the tab strip is mounted with: its
  key and its default value. The strip keeps its own selection afterwards and reports a change of it.\<close>

record settings_page =
  sp_activeTab :: string
  sp_visitedTabs :: "string set"
  sp_storedTab :: "string option"
  sp_key :: "string option"
  sp_defaultValue :: string

definition initialTab :: "string option \<Rightarrow> string option \<Rightarrow> string" where
  "initialTab deepLinkTab storedTab = (case deepLinkTab of
      Some t \<Rightarrow> t | None \<Rightarrow> (case storedTab of Some t \<Rightarrow> t | None \<Rightarrow> ''profile''))"

definition settings_mount :: "string option \<Rightarrow> string option \<Rightarrow> settings_page" where
  "settings_mount deepLinkTab storedTab = (let t = initialTab deepLinkTab storedTab in
     \<lparr>sp_activeTab = t, sp_visitedTabs = {t}, sp_storedTab = storedTab, sp_key = deepLinkTab, sp_defaultValue = t\<rparr>)"

definition handleTabChange :: "string \<Rightarrow> settings_page \<Rightarrow> settings_page" where
  "handleTabChange value p = p\<lparr>sp_activeTab := value, sp_storedTab := Some value,
     sp_visitedTabs := insert value (sp_visitedTabs p)\<rparr>"

text \<open>A navigation to the page while it is mounted: only what is computed in the render changes.\<close>

definition settings_navigate :: "string option \<Rightarrow> settings_page \<Rightarrow> settings_page" where
  "settings_navigate deepLinkTab p =
     p\<lparr>sp_key := deepLinkTab, sp_defaultValue := initialTab deepLinkTab (sp_storedTab p)\<rparr>"

definition strip_remounts :: "settings_page \<Rightarrow> settings_page \<Rightarrow> bool" where
  "strip_remounts p p' \<longleftrightarrow> sp_key p \<noteq> sp_key p'"

definition BUILTIN_TABS :: "string list" where
  "BUILTIN_TABS = [''profile'', ''password'', ''status'', ''appearance'', ''legal'', ''danger'']"

definition visible_panels :: "string list \<Rightarrow> settings_page \<Rightarrow> string list" where
  "visible_panels extraTabs p =
     filter (\<lambda>t. t \<in> sp_visitedTabs p \<and> sp_activeTab p = t) (BUILTIN_TABS @ extraTabs)"

datatype settings_event = TabChange string | Navigate "string option"

fun settings_step :: "settings_page \<Rightarrow> settings_event \<Rightarrow> settings_page" where
  "settings_step p (TabChange t) = handleTabChange t p"
| "settings_step p (Navigate d) = settings_navigate d p"

definition settings_ok :: "settings_page \<Rightarrow> bool" where
  "settings_ok p \<longleftrightarrow> sp_activeTab p \<in> sp_visitedTabs p"

interpretation settings: event_machine settings_step settings_ok
proof
  show "settings_ok (settings_step p e)" if "settings_ok p" for p e
    using that by (cases e) (simp_all add: settings_ok_def handleTabChange_def settings_navigate_def)
qed

lemma settings_mount_ok: "settings_ok (settings_mount d st)"
  by (simp add: settings_ok_def settings_mount_def Let_def)

lemma visible_is_active:
  assumes "settings_ok p" and "sp_activeTab p \<in> set BUILTIN_TABS" and "set extraTabs \<inter> set BUILTIN_TABS = {}"
  shows "visible_panels extraTabs p = [sp_activeTab p]"
proof -
  have "filter (\<lambda>t. t \<in> sp_visitedTabs p \<and> sp_activeTab p = t) extraTabs = []"
    using assms(2,3) by (auto simp: filter_empty_conv)
  moreover have "filter (\<lambda>t. t \<in> sp_visitedTabs p \<and> sp_activeTab p = t) BUILTIN_TABS = [sp_activeTab p]"
    using assms(1,2) by (auto simp: settings_ok_def BUILTIN_TABS_def)
  ultimately show ?thesis by (simp add: visible_panels_def)
qed

text \<open>C33. A deep link picks the tab only when it mounts the page. Followed while the page is open, as the
  command palette does, a link to another built-in tab remounts the strip with that tab selected, but
  the panel shown stays the one from before, in every state the page can be in.\<close>

theorem settings_deep_link:
  assumes "p = foldl settings_step (settings_mount d st) es" and "t \<in> set BUILTIN_TABS"
    and "sp_activeTab p \<in> set BUILTIN_TABS" and "set extraTabs \<inter> set BUILTIN_TABS = {}" and "sp_key p \<noteq> Some t"
  shows "visible_panels extraTabs (settings_mount (Some t) st') = [t]
    \<and> strip_remounts p (settings_navigate (Some t) p) \<and> sp_defaultValue (settings_navigate (Some t) p) = t
    \<and> visible_panels extraTabs (settings_navigate (Some t) p) = [sp_activeTab p]"
proof -
  have ok: "settings_ok p" unfolding assms(1) by (rule settings.run_inv [OF settings_mount_ok])
  then have "settings_ok (settings_navigate (Some t) p)" "sp_activeTab (settings_navigate (Some t) p) = sp_activeTab p"
    by (simp_all add: settings_ok_def settings_navigate_def)
  with visible_is_active [of "settings_navigate (Some t) p"] assms(3,4)
  have "visible_panels extraTabs (settings_navigate (Some t) p) = [sp_activeTab p]" by simp
  moreover have "sp_activeTab (settings_mount (Some t) st') = t"
    by (simp add: settings_mount_def initialTab_def Let_def)
  with visible_is_active [OF settings_mount_ok, of "Some t" st'] assms(2,4)
  have "visible_panels extraTabs (settings_mount (Some t) st') = [t]" by simp
  ultimately show ?thesis
    using assms(5) by (simp add: strip_remounts_def settings_navigate_def initialTab_def)
qed

theorem settings_deep_link_witness:
  "visible_panels [] (settings_navigate (Some ''password'') (settings_mount (Some ''appearance'') None)) = [''appearance'']"
proof -
  have "sp_activeTab (settings_mount (Some ''appearance'') None) = ''appearance''"
    "sp_key (settings_mount (Some ''appearance'') None) \<noteq> Some ''password''"
    by (simp_all add: settings_mount_def initialTab_def Let_def)
  with settings_deep_link [of "settings_mount (Some ''appearance'') None" "Some ''appearance''" None "[]" "''password''" "[]"]
  show ?thesis by (simp add: BUILTIN_TABS_def)
qed

end
