(* ===== verification/TimeRange.thy ===== *)
theory TimeRange
  imports UiHooks JsValues
begin

text \<open>
  Calendar dates as JavaScript reads and prints them, and the time range filter of the audit log
  (\<open>audit_log/auditLogListConfig.ts\<close>, \<open>ui/filters/TimeRangeControl.tsx\<close>). An instant is its number of
  milliseconds since 1970 in UTC, a local day the number of days since then. The browser's time zone is the
  parameters \<open>day_start\<close> and \<open>day_end\<close>, the instants \<open>setHours\<close> gives for the first and the last millisecond of a local
  day, and \<open>day_of\<close>, the local day of an instant;
  locale \<open>local_time\<close> says what is used of them, and \<open>fixed_start\<close>, \<open>fixed_day\<close> are a zone of constant offset.
\<close>

section \<open>The civil calendar\<close>

datatype civil = Civil (civil_year: int) (civil_month: int) (civil_day: int)

instantiation civil :: linorder
begin

definition less_civil :: "civil \<Rightarrow> civil \<Rightarrow> bool" where
  "less_civil a b \<longleftrightarrow> civil_year a < civil_year b \<or> civil_year a = civil_year b \<and>
     (civil_month a < civil_month b \<or> civil_month a = civil_month b \<and> civil_day a < civil_day b)"

definition less_eq_civil :: "civil \<Rightarrow> civil \<Rightarrow> bool" where
  "less_eq_civil a b \<longleftrightarrow> a < b \<or> a = (b :: civil)"

instance
  by standard (auto simp: less_civil_def less_eq_civil_def intro: civil.expand)

end

definition leap_year :: "int \<Rightarrow> bool" where
  "leap_year y \<longleftrightarrow> 4 dvd y \<and> (\<not> 100 dvd y \<or> 400 dvd y)"

definition month_days :: "int \<Rightarrow> int \<Rightarrow> int" where
  "month_days y m = (if m = 2 then (if leap_year y then 29 else 28)
     else if m \<in> {4, 6, 9, 11} then 30 else 31)"

definition valid_civil :: "civil \<Rightarrow> bool" where
  "valid_civil c \<longleftrightarrow> 1 \<le> civil_month c \<and> civil_month c \<le> 12
     \<and> 1 \<le> civil_day c \<and> civil_day c \<le> month_days (civil_year c) (civil_month c)"

text \<open>Days before 1 January of a year, before the first of a month within it, and since 1970.\<close>

definition days_before_year :: "int \<Rightarrow> int" where
  "days_before_year y = 365 * (y - 1) + (y - 1) div 4 - (y - 1) div 100 + (y - 1) div 400"

definition days_before_month :: "int \<Rightarrow> int \<Rightarrow> int" where
  "days_before_month y m = sum_list (map (month_days y) [1..m - 1])"

definition day_number :: "civil \<Rightarrow> int" where
  "day_number c = days_before_year (civil_year c) + days_before_month (civil_year c) (civil_month c)
     + (civil_day c - 1) - 719162"

definition year_of_day :: "int \<Rightarrow> int" where
  "year_of_day n = (let k = n + 719162; g = 400 * k div 146097 + 1 in
     if k < days_before_year g then g - 1 else if days_before_year (g + 1) \<le> k then g + 1 else g)"

definition month_of_day :: "int \<Rightarrow> int" where
  "month_of_day n = last (filter (\<lambda>m. days_before_month (year_of_day n) m
     \<le> n + 719162 - days_before_year (year_of_day n)) [1..12])"

definition civil_of_day :: "int \<Rightarrow> civil" where
  "civil_of_day n = Civil (year_of_day n) (month_of_day n)
     (n + 719162 - days_before_year (year_of_day n) - days_before_month (year_of_day n) (month_of_day n) + 1)"

lemma div_step:
  assumes "k > (0::int)"
  shows "y div k = (y - 1) div k + of_bool (k dvd y)"
proof (cases "k dvd y")
  case True
  then obtain q where y: "y = k * q" by blast
  have "(y - 1) div k = q - 1"
    by (rule int_div_pos_eq [where r = "k - 1"]) (use assms y in \<open>auto simp: algebra_simps\<close>)
  with True y assms show ?thesis by simp
next
  case False
  have "(y - 1) div k = y div k"
  proof (rule int_div_pos_eq)
    show "y - 1 = k * (y div k) + (y mod k - 1)" by simp
    show "0 \<le> y mod k - 1" using False assms by (simp add: dvd_eq_mod_eq_0 pos_mod_sign int_one_le_iff_zero_less order_less_le)
    show "y mod k - 1 < k" using pos_mod_bound [OF assms, of y] by simp
  qed
  with False show ?thesis by simp
qed

lemma year_length: "days_before_year (y + 1) = days_before_year y + 365 + of_bool (leap_year y)"
proof -
  have bits: "of_bool a - of_bool b + of_bool c = (of_bool (a \<and> (\<not> b \<or> c)) :: int)"
    if "c \<longrightarrow> b" "b \<longrightarrow> a" for a b c
    using that by (cases a; cases b; cases c; simp)
  have "400 dvd y \<longrightarrow> 100 dvd y" "100 dvd y \<longrightarrow> 4 dvd y"
    using dvd_trans [of 100 400 y] dvd_trans [of 4 100 y] by simp_all
  from bits [OF this] have leap: "of_bool (4 dvd y) - of_bool (100 dvd y) + of_bool (400 dvd y)
      = (of_bool (leap_year y) :: int)"
    unfolding leap_year_def .
  have sums: "365 * y + a' - b' + c' = 365 * (y - 1) + a - b + c + 365 + l"
    if "p - q + r = l" "a' = a + p" "b' = b + q" "c' = c + r" for a a' b b' c c' p q r l :: int
    unfolding that(2-4) that(1) [symmetric] by (simp add: algebra_simps)
  have "365 * y + y div 4 - y div 100 + y div 400
      = 365 * (y - 1) + (y - 1) div 4 - (y - 1) div 100 + (y - 1) div 400 + 365 + of_bool (leap_year y)"
    by (rule sums [OF leap]) (rule div_step, simp)+
  moreover have "y + 1 - 1 = y" by simp
  ultimately show ?thesis unfolding days_before_year_def by (simp only:)
qed

lemma month_days_pos: "28 \<le> month_days y m" "month_days y m \<le> 31"
  by (simp_all add: month_days_def)

lemma months_step: "1 \<le> m \<Longrightarrow> days_before_month y (m + 1) = days_before_month y m + month_days y m"
  by (simp add: days_before_month_def upto_rec2)

lemma months_mono:
  assumes "1 \<le> m" and "m < m'"
  shows "days_before_month y m + month_days y m \<le> days_before_month y m'"
  using assms(2)
proof (induction m' rule: int_gr_induct)
  case base
  then show ?case using months_step [OF assms(1), of y] by simp
next
  case (step i)
  with months_step [of i y] month_days_pos(1) [of y i] assms(1) show ?case by simp
qed

lemma year_months: "days_before_month y 13 = 365 + of_bool (leap_year y)"
proof -
  have "[1..12] = [1,2,3,4,5,6,7,8,9,10,11,12::int]" by code_simp
  then show ?thesis by (simp add: days_before_month_def month_days_def)
qed

lemma days_before_year_mono: "y \<le> y' \<Longrightarrow> days_before_year y \<le> days_before_year y'"
proof (induction y' rule: int_ge_induct)
  case (step i)
  then show ?case using year_length [of i] by simp
qed simp

text \<open>A valid day lies in its month, its month in its year.\<close>

lemma day_in_month:
  assumes "valid_civil c"
  shows "days_before_month (civil_year c) (civil_month c) \<le> day_number c + 719162 - days_before_year (civil_year c)"
    and "day_number c + 719162 - days_before_year (civil_year c) < days_before_month (civil_year c) (civil_month c + 1)"
  using assms months_step [of "civil_month c" "civil_year c"] by (simp_all add: valid_civil_def day_number_def)

lemma months_bounds:
  assumes "1 \<le> m" and "m \<le> 13"
  shows "0 \<le> days_before_month y m" and "days_before_month y m \<le> 365 + of_bool (leap_year y)"
proof -
  have one: "days_before_month y 1 = 0" by (simp add: days_before_month_def)
  show "0 \<le> days_before_month y m"
  proof (cases "m = 1")
    case False
    with assms(1) months_mono [of 1 m y] one month_days_pos(1) [of y 1] show ?thesis by simp
  qed (simp add: one)
  show "days_before_month y m \<le> 365 + of_bool (leap_year y)"
  proof (cases "m = 13")
    case False
    with assms months_mono [of m 13 y] month_days_pos(1) [of y m] show ?thesis by (simp add: year_months)
  qed (simp add: year_months)
qed

lemma day_in_year:
  assumes "valid_civil c"
  shows "days_before_year (civil_year c) \<le> day_number c + 719162"
    and "day_number c + 719162 < days_before_year (civil_year c + 1)"
  using assms day_in_month [OF assms] months_bounds [of "civil_month c" "civil_year c"]
    months_bounds [of "civil_month c + 1" "civil_year c"] year_length [of "civil_year c"]
  by (auto simp: valid_civil_def)

text \<open>Days are numbered in the order of the calendar.\<close>

lemma day_number_less:
  assumes "valid_civil a" and "valid_civil b" and "a < b"
  shows "day_number a < day_number b"
proof -
  consider "civil_year a < civil_year b"
    | "civil_year a = civil_year b" "civil_month a < civil_month b"
    | "civil_year a = civil_year b" "civil_month a = civil_month b" "civil_day a < civil_day b"
    using assms(3) by (auto simp: less_civil_def)
  then show ?thesis
  proof cases
    case 1
    then have "days_before_year (civil_year a + 1) \<le> days_before_year (civil_year b)"
      by (intro days_before_year_mono) simp
    with day_in_year(2) [OF assms(1)] day_in_year(1) [OF assms(2)] show ?thesis by simp
  next
    case 2
    have "days_before_month (civil_year a) (civil_month a + 1) \<le> days_before_month (civil_year b) (civil_month b)"
      using 2 months_mono [of "civil_month a" "civil_month b" "civil_year b"]
        months_step [of "civil_month a" "civil_year b"] assms(1) by (auto simp: valid_civil_def)
    with 2 day_in_month(2) [OF assms(1)] day_in_month(1) [OF assms(2)] show ?thesis by simp
  next
    case 3
    then show ?thesis by (simp add: day_number_def)
  qed
qed

lemma day_number_le_iff:
  assumes "valid_civil a" and "valid_civil b"
  shows "day_number a \<le> day_number b \<longleftrightarrow> a \<le> b"
  using day_number_less [OF assms] day_number_less [OF assms(2,1)] by (metis leD leI less_le not_less_iff_gr_or_eq)

lemma year_estimate:
  "146097 * (y - 1) - 699 \<le> 400 * days_before_year y" "400 * days_before_year y \<le> 146097 * (y - 1) + 396"
proof -
  have parts: "\<exists>q r. x = k * q + r \<and> 0 \<le> r \<and> r < k \<and> x div k = q" if "k > 0" for x k :: int
    using that by (metis mult_div_mod_eq pos_mod_bound pos_mod_sign)
  obtain a p where a: "y - 1 = 4 * a + p" "0 \<le> p" "p < 4" "(y - 1) div 4 = a" using parts [of 4 "y - 1"] by auto
  obtain b q where b: "y - 1 = 100 * b + q" "0 \<le> q" "q < 100" "(y - 1) div 100 = b" using parts [of 100 "y - 1"] by auto
  obtain c r where c: "y - 1 = 400 * c + r" "0 \<le> r" "r < 400" "(y - 1) div 400 = c" using parts [of 400 "y - 1"] by auto
  have d: "days_before_year y = 365 * (y - 1) + a - b + c" unfolding days_before_year_def a(4) b(4) c(4) ..
  show "146097 * (y - 1) - 699 \<le> 400 * days_before_year y" "400 * days_before_year y \<le> 146097 * (y - 1) + 396"
    using a(1-3) b(1-3) c(1-3) unfolding d by (simp_all only: right_diff_distrib distrib_left)
qed

lemma last_filter_upto:
  assumes "P a" and "a \<le> (b :: int)"
  shows "a \<le> last (filter P [a..b])" "last (filter P [a..b]) \<le> b" "P (last (filter P [a..b]))"
    and "last (filter P [a..b]) < k \<Longrightarrow> k \<le> b \<Longrightarrow> \<not> P k"
proof -
  let ?xs = "filter P [a..b]"
  have ne: "a \<in> set ?xs" using assms by simp
  then have "last ?xs \<in> set ?xs" by (metis last_in_set list.set(1) empty_iff)
  then show "a \<le> last ?xs" "last ?xs \<le> b" "P (last ?xs)" by auto
  have srt: "sorted ?xs" by (rule sorted_wrt_filter) simp
  show "\<not> P k" if "last ?xs < k" "k \<le> b"
  proof
    assume "P k"
    moreover have "a \<le> k" using that(1) \<open>a \<le> last ?xs\<close> by simp
    ultimately have "k \<in> set ?xs" using that(2) by simp
    then obtain us vs where split: "?xs = us @ k # vs" by (meson split_list)
    then have "k \<le> last ?xs" using srt by (cases "vs = []") (auto simp: sorted_append)
    with that(1) show False by simp
  qed
qed

lemma year_of_day:
  "days_before_year (year_of_day n) \<le> n + 719162" "n + 719162 < days_before_year (year_of_day n + 1)"
proof -
  let ?k = "n + 719162"
  obtain q r where k: "400 * ?k = 146097 * q + r" "0 \<le> r" "r < 146097" "400 * ?k div 146097 = q"
    by (metis mult_div_mod_eq pos_mod_bound pos_mod_sign zero_less_numeral)
  let ?g = "q + 1"
  have y: "year_of_day n = (if ?k < days_before_year ?g then ?g - 1
      else if days_before_year (?g + 1) \<le> ?k then ?g + 1 else ?g)"
    unfolding year_of_day_def Let_def k(4) ..
  have "days_before_year (?g - 1) \<le> ?k" using year_estimate(2) [of "?g - 1"] k(1-3) by simp
  moreover have "?k < days_before_year (?g + 1 + 1)" using year_estimate(1) [of "?g + 1 + 1"] k(1-3) by simp
  moreover have "?g - 1 + 1 = ?g" by simp
  ultimately show "days_before_year (year_of_day n) \<le> ?k" "?k < days_before_year (year_of_day n + 1)"
    unfolding y by (simp_all split: if_split)
qed

lemma civil_of_day_correct: "valid_civil (civil_of_day n)" "day_number (civil_of_day n) = n"
proof -
  let ?y = "year_of_day n" and ?m = "month_of_day n"
  let ?r = "n + 719162 - days_before_year ?y"
  note year = year_of_day [of n]
  have "days_before_month ?y 1 \<le> ?r" using year(1) by (simp add: days_before_month_def)
  note month = last_filter_upto [where P = "\<lambda>m. days_before_month ?y m \<le> ?r" and a = 1 and b = 12, OF this,
      folded month_of_day_def]
  have "?r < days_before_month ?y (?m + 1)"
  proof (cases "?m = 12")
    case True
    with year(2) show ?thesis by (simp add: year_months year_length)
  next
    case False
    with month(2) month(4) [of "?m + 1"] show ?thesis by simp
  qed
  with month(1-3) months_step [of ?m ?y] show "valid_civil (civil_of_day n)"
    by (simp add: civil_of_day_def valid_civil_def)
  show "day_number (civil_of_day n) = n" by (simp add: civil_of_day_def day_number_def)
qed

lemma civil_of_day_number: "valid_civil c \<Longrightarrow> civil_of_day (day_number c) = c"
  using civil_of_day_correct [of "day_number c"] day_number_le_iff [of c "civil_of_day (day_number c)"]
    day_number_le_iff [of "civil_of_day (day_number c)" c] by (metis order_antisym order_refl)

section \<open>Date texts\<close>

definition pad :: "nat \<Rightarrow> nat \<Rightarrow> string" where
  "pad k n = replicate (k - length (nat_text n)) (CHR ''0'') @ nat_text n"

definition is_digit :: "char \<Rightarrow> bool" where
  "is_digit c \<longleftrightarrow> 48 \<le> (of_char c :: nat) \<and> (of_char c :: nat) \<le> 57"

fun digits_value :: "string \<Rightarrow> nat" where
  "digits_value [] = 0"
| "digits_value (c # s) = (of_char c - 48) * 10 ^ length s + digits_value s"

text \<open>\<open>a < b\<close> on strings, and a date in the form \<open>yyyy-mm-dd\<close>.\<close>

fun js_less :: "string \<Rightarrow> string \<Rightarrow> bool" where
  "js_less s [] = False"
| "js_less [] (b # t) = True"
| "js_less (a # s) (b # t) = ((of_char a :: nat) < of_char b \<or> a = b \<and> js_less s t)"

definition date_text :: "civil \<Rightarrow> string" where
  "date_text c = pad 4 (nat (civil_year c)) @ ''-'' @ pad 2 (nat (civil_month c)) @ ''-'' @ pad 2 (nat (civil_day c))"

definition read_date :: "string \<Rightarrow> civil option" where
  "read_date s = (let c = Civil (int (digits_value (take 4 s))) (int (digits_value (take 2 (drop 5 s))))
       (int (digits_value (drop 8 s)))
     in if length s = 10 \<and> s ! 4 = CHR ''-'' \<and> s ! 7 = CHR ''-'' \<and> list_all is_digit (take 4 s)
          \<and> list_all is_digit (take 2 (drop 5 s)) \<and> list_all is_digit (drop 8 s) \<and> valid_civil c
        then Some c else None)"

lemma digits_value_bound: "list_all is_digit s \<Longrightarrow> digits_value s < 10 ^ length s"
proof (induction s)
  case (Cons c s)
  then have "(of_char c :: nat) \<le> 57" by (simp add: is_digit_def)
  then have "(of_char c :: nat) - 48 \<le> 9" by linarith
  then have "(of_char c - 48) * 10 ^ length s \<le> 9 * (10 :: nat) ^ length s" by (rule mult_le_mono1)
  moreover have "digits_value s < 10 ^ length s" using Cons by simp
  ultimately have "(of_char c - 48) * 10 ^ length s + digits_value s < 9 * 10 ^ length s + 10 ^ length s"
    by (rule add_le_less_mono)
  then show ?case by simp
qed simp

lemma js_less_digits:
  "length s = length t \<Longrightarrow> list_all is_digit s \<Longrightarrow> list_all is_digit t \<Longrightarrow>
   js_less s t \<longleftrightarrow> digits_value s < digits_value t"
proof (induction s t rule: js_less.induct)
  case (3 a s b t)
  let ?a = "of_char a - 48 :: nat" and ?b = "of_char b - 48 :: nat" and ?p = "10 ^ length s :: nat"
  have bounds: "digits_value s < ?p" "digits_value t < ?p"
    using 3(2-4) digits_value_bound [of s] digits_value_bound [of t] by simp_all
  have digit: "48 \<le> (of_char a :: nat)" "48 \<le> (of_char b :: nat)" using 3(3,4) by (simp_all add: is_digit_def)
  have less: "x * ?p + u < y * ?p + v" if "x < y" "u < ?p" for x y u v :: nat
  proof -
    have "Suc x * ?p \<le> y * ?p" using that(1) by (intro mult_le_mono1) simp
    with that(2) show ?thesis by simp
  qed
  consider "?a < ?b" | "?b < ?a" | "?a = ?b" by linarith
  then show ?case
  proof cases
    case 1
    with digit have "(of_char a :: nat) < of_char b" by linarith
    with 3(2) less [OF 1 bounds(1), of "digits_value t"] show ?thesis by simp
  next
    case 2
    with digit have "\<not> (of_char a :: nat) < of_char b" "a \<noteq> b" by auto
    with 3(2) less [OF 2 bounds(2), of "digits_value s"] show ?thesis by simp
  next
    case 3
    then have "(of_char a :: nat) = of_char b" using digit by linarith
    then have "a = b" by simp
    with "3.IH" "3.prems" show ?thesis by simp
  qed
qed simp_all

lemma js_less_append:
  "length x = length y \<Longrightarrow> js_less (x @ u) (y @ v) \<longleftrightarrow> js_less x y \<or> x = y \<and> js_less u v"
  by (induction x y rule: js_less.induct) auto

lemma js_less_total: "js_less s t \<or> s = t \<or> js_less t s"
proof (induction s t rule: js_less.induct)
  case (1 s)
  then show ?case by (cases s) simp_all
next
  case (3 a s b t)
  consider "(of_char a :: nat) < of_char b" | "(of_char b :: nat) < of_char a" | "(of_char a :: nat) = of_char b"
    by linarith
  then show ?case using 3 by cases auto
qed simp

lemma digits_value_inj:
  "length s = length t \<Longrightarrow> list_all is_digit s \<Longrightarrow> list_all is_digit t \<Longrightarrow> digits_value s = digits_value t \<Longrightarrow> s = t"
  using js_less_total [of s t] js_less_digits [of s t] js_less_digits [of t s] by auto

lemma read_date_Some:
  assumes "read_date s = Some c"
  shows "valid_civil c" "s = take 4 s @ CHR ''-'' # take 2 (drop 5 s) @ CHR ''-'' # drop 8 s"
    "length (take 4 s) = 4" "length (take 2 (drop 5 s)) = 2" "length (drop 8 s) = 2"
    "list_all is_digit (take 4 s)" "list_all is_digit (take 2 (drop 5 s))" "list_all is_digit (drop 8 s)"
    "c = Civil (int (digits_value (take 4 s))) (int (digits_value (take 2 (drop 5 s)))) (int (digits_value (drop 8 s)))"
proof -
  note r = assms [unfolded read_date_def Let_def, simplified]
  then show "valid_civil c" "list_all is_digit (take 4 s)" "list_all is_digit (take 2 (drop 5 s))"
    "list_all is_digit (drop 8 s)"
    "c = Civil (int (digits_value (take 4 s))) (int (digits_value (take 2 (drop 5 s)))) (int (digits_value (drop 8 s)))"
    by (auto split: if_split_asm)
  have len: "length s = 10" "s ! 4 = CHR ''-''" "s ! 7 = CHR ''-''" using r by (auto split: if_split_asm)
  then show "length (take 4 s) = 4" "length (take 2 (drop 5 s)) = 2" "length (drop 8 s) = 2" by simp_all
  have "s = take 4 s @ drop 4 s" "drop 4 s = s ! 4 # drop 5 s" "drop 5 s = take 2 (drop 5 s) @ drop 7 s"
    "drop 7 s = s ! 7 # drop 8 s"
    using len(1) Cons_nth_drop_Suc [of 4 s] Cons_nth_drop_Suc [of 7 s] append_take_drop_id [of 2 "drop 5 s"]
    by simp_all
  with len(2,3) show "s = take 4 s @ CHR ''-'' # take 2 (drop 5 s) @ CHR ''-'' # drop 8 s" by metis
qed

text \<open>The order of date texts as strings is the order of the days.\<close>

lemma date_text_order:
  assumes "read_date s = Some a" and "read_date t = Some b"
  shows "js_less s t \<longleftrightarrow> a < b" and "s = t \<longleftrightarrow> a = b"
proof -
  note S = read_date_Some [OF assms(1)] and T = read_date_Some [OF assms(2)]
  let ?y = "take 4 s" and ?m = "take 2 (drop 5 s)" and ?d = "drop 8 s"
  let ?y' = "take 4 t" and ?m' = "take 2 (drop 5 t)" and ?d' = "drop 8 t"
  have less: "js_less s t \<longleftrightarrow> js_less ?y ?y' \<or> ?y = ?y' \<and> (js_less ?m ?m' \<or> ?m = ?m' \<and> js_less ?d ?d')"
    by (subst S(2), subst T(2)) (simp add: js_less_append S(3,4) T(3,4) del: length_take length_drop)
  have eq: "?y = ?y' \<longleftrightarrow> digits_value ?y = digits_value ?y'" "?m = ?m' \<longleftrightarrow> digits_value ?m = digits_value ?m'"
    "?d = ?d' \<longleftrightarrow> digits_value ?d = digits_value ?d'"
    using digits_value_inj [of ?y ?y'] digits_value_inj [of ?m ?m'] digits_value_inj [of ?d ?d']
      S(3-8) T(3-8) by metis+
  have lt: "js_less ?y ?y' \<longleftrightarrow> digits_value ?y < digits_value ?y'"
    "js_less ?m ?m' \<longleftrightarrow> digits_value ?m < digits_value ?m'" "js_less ?d ?d' \<longleftrightarrow> digits_value ?d < digits_value ?d'"
    using js_less_digits [of ?y ?y'] js_less_digits [of ?m ?m'] js_less_digits [of ?d ?d'] S(3-8) T(3-8) by metis+
  show "js_less s t \<longleftrightarrow> a < b"
    unfolding less eq lt less_civil_def S(9) T(9) by simp
  have "s = t \<longleftrightarrow> ?y = ?y' \<and> ?m = ?m' \<and> ?d = ?d'" using S(2) T(2) by metis
  then show "s = t \<longleftrightarrow> a = b" unfolding eq S(9) T(9) by simp
qed

section \<open>Instants and local days\<close>

definition ms_per_day :: int where
  "ms_per_day = 86400000"

definition toISOString :: "int \<Rightarrow> string" where
  "toISOString ms = (let r = nat (ms mod ms_per_day) in
     date_text (civil_of_day (ms div ms_per_day)) @ ''T'' @ pad 2 (r div 3600000) @ '':''
       @ pad 2 (r div 60000 mod 60) @ '':'' @ pad 2 (r div 1000 mod 60) @ ''.'' @ pad 3 (r mod 1000) @ ''Z'')"

text \<open>What is used of a time zone: every instant is in the local day \<open>day_of\<close> gives, over any stretch of
  days the clock changes add up to less than twelve hours, and \<open>day_end\<close> is an instant of the day: the one at which its
  clocks show 23:59:59.999, the first such if they are set back later that day, as \<open>setHours\<close> reads a repeated time.\<close>

locale local_time =
  fixes day_start :: "int \<Rightarrow> int"
    and day_end :: "int \<Rightarrow> int"
    and day_of :: "int \<Rightarrow> int"
  assumes in_day: "day_start (day_of t) \<le> t" "t < day_start (day_of t + 1)"
    and drift: "\<bar>(day_start e - day_start d) - (e - d) * ms_per_day\<bar> < 43200000"
    and ends: "day_start d \<le> day_end d" "day_end d < day_start (d + 1)"
begin

lemma day_start_less: "d < e \<Longrightarrow> day_start d < day_start e"
proof -
  assume "d < e"
  then have "1 * ms_per_day \<le> (e - d) * ms_per_day" by (intro mult_right_mono) (simp_all add: ms_per_day_def)
  with drift [of e d] show ?thesis by (simp add: ms_per_day_def abs_less_iff)
qed

lemma day_start_le: "d \<le> e \<Longrightarrow> day_start d \<le> day_start e"
  using day_start_less [of d e] by (cases "d = e") auto

lemma day_of_iff: "day_of t = d \<longleftrightarrow> day_start d \<le> t \<and> t < day_start (d + 1)"
proof
  assume t: "day_start d \<le> t \<and> t < day_start (d + 1)"
  have "\<not> day_of t < d" using day_start_le [of "day_of t + 1" d] in_day(2) [of t] t by auto
  moreover have "\<not> d < day_of t" using day_start_le [of "d + 1" "day_of t"] in_day(1) [of t] t by auto
  ultimately show "day_of t = d" by simp
qed (use in_day in auto)

lemma day_of_start [simp]: "day_of (day_start d) = d"
  by (simp add: day_of_iff day_start_less)

lemma since_day: "day_start d \<le> t \<longleftrightarrow> d \<le> day_of t"
  using day_start_le [of "day_of t + 1" d] day_start_le [of d "day_of t"] in_day [of t] by (cases "d \<le> day_of t") auto

lemma until_day: "t \<le> day_start (d + 1) - 1 \<longleftrightarrow> day_of t \<le> d"
  using since_day [of "d + 1" t] by auto

text \<open>Rounding the distance of two midnights counts the days, clock changes or not.\<close>

lemma rounded_days: "(2 * (day_start e - day_start d) + ms_per_day) div (2 * ms_per_day) = e - d"
proof -
  let ?x = "day_start e - day_start d - (e - d) * ms_per_day"
  have "\<bar>?x\<bar> < 43200000" by (rule drift)
  then show ?thesis
    by (intro int_div_pos_eq [where r = "2 * ?x + ms_per_day"]) (auto simp: ms_per_day_def abs_less_iff algebra_simps)
qed

end

text \<open>A zone at a constant offset from UTC.\<close>

definition fixed_start :: "int \<Rightarrow> int \<Rightarrow> int" where
  "fixed_start off d = d * ms_per_day - off"

definition fixed_day :: "int \<Rightarrow> int \<Rightarrow> int" where
  "fixed_day off t = (t + off) div ms_per_day"

definition fixed_end :: "int \<Rightarrow> int \<Rightarrow> int" where
  "fixed_end off d = fixed_start off (d + 1) - 1"

interpretation fixed_zone: local_time "fixed_start off" "fixed_end off" "fixed_day off"
proof
  fix t d e
  have "(t + off) div ms_per_day * ms_per_day + (t + off) mod ms_per_day = t + off" by simp
  moreover have "0 \<le> (t + off) mod ms_per_day" "(t + off) mod ms_per_day < ms_per_day"
    by (simp_all add: ms_per_day_def)
  ultimately show "fixed_start off (fixed_day off t) \<le> t" "t < fixed_start off (fixed_day off t + 1)"
    by (simp_all only: fixed_start_def fixed_day_def distrib_right)
  show "\<bar>(fixed_start off e - fixed_start off d) - (e - d) * ms_per_day\<bar> < 43200000"
    by (simp add: fixed_start_def algebra_simps)
  show "fixed_start off d \<le> fixed_end off d" "fixed_end off d < fixed_start off (d + 1)"
    by (simp_all add: fixed_start_def fixed_end_def ms_per_day_def)
qed

text \<open>A zone whose clocks go back by an hour at the midnight that ends day \<open>k\<close>: that day has its last hour twice, and the
  end of it is the first of the two.\<close>

definition back_start :: "int \<Rightarrow> int \<Rightarrow> int" where
  "back_start k d = (if d \<le> k then d * ms_per_day else d * ms_per_day + 3600000)"

definition back_end :: "int \<Rightarrow> int \<Rightarrow> int" where
  "back_end k d = (if d = k then (d + 1) * ms_per_day - 1 else back_start k (d + 1) - 1)"

definition back_day :: "int \<Rightarrow> int \<Rightarrow> int" where
  "back_day k t = (if t < back_start k (k + 1) then min k (t div ms_per_day) else (t - 3600000) div ms_per_day)"

interpretation back_zone: local_time "back_start k" "back_end k" "back_day k"
proof
  fix t d e :: int
  obtain q r where t: "t = ms_per_day * q + r" "0 \<le> r" "r < ms_per_day" "t div ms_per_day = q"
    using mult_div_mod_eq [of ms_per_day t] pos_mod_sign [of ms_per_day t] pos_mod_bound [of ms_per_day t]
    by (metis ms_per_day_def zero_less_numeral)
  obtain u v where u: "t - 3600000 = ms_per_day * u + v" "0 \<le> v" "v < ms_per_day" "(t - 3600000) div ms_per_day = u"
    using mult_div_mod_eq [of ms_per_day "t - 3600000"] pos_mod_sign [of ms_per_day "t - 3600000"]
      pos_mod_bound [of ms_per_day "t - 3600000"]
    by (metis ms_per_day_def zero_less_numeral)
  show "back_start k (back_day k t) \<le> t" "t < back_start k (back_day k t + 1)"
    using t(1-3) u(1-3) unfolding back_day_def back_start_def t(4) u(4) by (auto simp: ms_per_day_def min_def)
  show "\<bar>(back_start k e - back_start k d) - (e - d) * ms_per_day\<bar> < 43200000"
    by (simp add: back_start_def algebra_simps)
  show "back_start k d \<le> back_end k d" "back_end k d < back_start k (d + 1)"
    by (simp_all add: back_start_def back_end_def ms_per_day_def)
qed

section \<open>A date written is the date read\<close>

lemma digits_value_snoc: "digits_value (s @ [c]) = 10 * digits_value s + (of_char c - 48)"
  by (induction s) (simp_all add: algebra_simps)

lemma digit_char: "n < 10 \<Longrightarrow> (of_char (char_of (48 + n) :: char) :: nat) = 48 + n"
  by (simp only: of_char_of mod_less)

lemma nat_text_value: "digits_value (nat_text n) = n"
proof (induction n rule: nat_text.induct)
  case (1 n)
  show ?case
  proof (cases "n < 10")
    case True
    then show ?thesis using digit_char [OF True] by (simp add: nat_text.simps [of n])
  next
    case False
    then have "digits_value (nat_text n) = 10 * (n div 10) + n mod 10"
      using 1 digit_char [of "n mod 10"] by (simp add: nat_text.simps [of n] digits_value_snoc)
    then show ?thesis by simp
  qed
qed

lemma nat_text_length: "n < 10 ^ k \<Longrightarrow> 0 < k \<Longrightarrow> length (nat_text n) \<le> k"
proof (induction n arbitrary: k rule: nat_text.induct)
  case (1 n)
  show ?case
  proof (cases "n < 10")
    case False
    from 1(3) obtain j where k: "k = Suc j" by (cases k) auto
    have "0 < j" using 1(2) False k by (cases j) auto
    note k = k this
    with 1(2) have "n div 10 < 10 ^ j" by (simp add: less_mult_imp_div_less mult.commute)
    with 1(1) [OF False _ k(2)] k False show ?thesis by (simp add: nat_text.simps [of n])
  qed (use 1 in \<open>simp add: nat_text.simps [of n]\<close>)
qed

lemma pad_reads:
  assumes "n < 10 ^ k" and "0 < k"
  shows "length (pad k n) = k" "list_all is_digit (pad k n)" "digits_value (pad k n) = n"
proof -
  show "length (pad k n) = k" using nat_text_length [OF assms] by (simp add: pad_def)
  show "list_all is_digit (pad k n)"
    by (auto simp: pad_def is_digit_def list_all_iff dest: nat_text_digits split: if_split_asm)
  have "digits_value (replicate j (CHR ''0'') @ s) = digits_value s" for j s
    by (induction j) simp_all
  then show "digits_value (pad k n) = n" by (simp add: pad_def nat_text_value)
qed

lemma read_date_text:
  assumes "valid_civil c" and "0 \<le> civil_year c" and "civil_year c \<le> 9999"
  shows "read_date (date_text c) = Some c"
proof -
  let ?y = "pad 4 (nat (civil_year c))" and ?m = "pad 2 (nat (civil_month c))" and ?d = "pad 2 (nat (civil_day c))"
  have bounds: "nat (civil_year c) < 10 ^ 4" "nat (civil_month c) < 10 ^ 2" "nat (civil_day c) < 10 ^ 2"
    using assms month_days_pos(2) [of "civil_year c" "civil_month c"] by (simp_all add: valid_civil_def nat_less_iff)
  note y = pad_reads [OF bounds(1) zero_less_numeral] and m = pad_reads [OF bounds(2) zero_less_numeral]
    and d = pad_reads [OF bounds(3) zero_less_numeral]
  have parts: "take 4 (date_text c) = ?y" "take 2 (drop 5 (date_text c)) = ?m" "drop 8 (date_text c) = ?d"
    "length (date_text c) = 10" "date_text c ! 4 = CHR ''-''" "date_text c ! 7 = CHR ''-''"
    by (simp_all add: date_text_def y(1) m(1) d(1) nth_append)
  have "Civil (int (nat (civil_year c))) (int (nat (civil_month c))) (int (nat (civil_day c))) = c"
    using assms by (cases c) (simp add: valid_civil_def)
  then show ?thesis
    unfolding read_date_def Let_def parts(1-3) y(3) m(3) d(3) using parts(4-6) y(2) m(2) d(2) assms(1) by simp
qed

section \<open>The time range filter\<close>

datatype time_range_value = Last7 | Last14 | Last30 | Last90 | CustomRange

definition TIME_RANGE_PRESETS :: "time_range_value list" where
  "TIME_RANGE_PRESETS = [Last7, Last14, Last30, Last90]"

definition DEFAULT_TIME_RANGE :: time_range_value where
  "DEFAULT_TIME_RANGE = Last14"

fun preset_days :: "time_range_value \<Rightarrow> int" where
  "preset_days Last7 = 7"
| "preset_days Last14 = 14"
| "preset_days Last30 = 30"
| "preset_days Last90 = 90"
| "preset_days CustomRange = 14"

record time_range =
  tr_range :: time_range_value
  tr_customFrom :: string
  tr_customTo :: string

definition DEFAULT_TIME_RANGE_STATE :: time_range where
  "DEFAULT_TIME_RANGE_STATE = \<lparr>tr_range = DEFAULT_TIME_RANGE, tr_customFrom = [], tr_customTo = []\<rparr>"

definition isTimeRangeActive :: "time_range \<Rightarrow> bool" where
  "isTimeRangeActive v = (if tr_range v = CustomRange then truthy (tr_customFrom v) \<and> truthy (tr_customTo v)
     else tr_range v \<noteq> DEFAULT_TIME_RANGE)"

record time_range_params =
  tp_from :: int
  tp_to :: int
  tp_days :: int

text \<open>The bounds as instants; the code passes \<open>toISOString\<close> of them on. A custom date that is not a date makes
  that throw, which is the result \<open>None\<close>.\<close>

definition timeRangeToApiParams ::
  "(int \<Rightarrow> int) \<Rightarrow> (int \<Rightarrow> int) \<Rightarrow> (int \<Rightarrow> int) \<Rightarrow> time_range \<Rightarrow> int \<Rightarrow> time_range_params option" where
  "timeRangeToApiParams day_start day_end day_of v nowMs =
     (if tr_range v = CustomRange \<and> truthy (tr_customFrom v) \<and> truthy (tr_customTo v)
      then (case (read_date (tr_customFrom v), read_date (tr_customTo v)) of
          (Some a, Some b) \<Rightarrow>
            (let lo = day_start (day_number a); hi = day_start (day_number b);
                 days = max 1 (min 90 ((2 * (hi - lo) + ms_per_day) div (2 * ms_per_day) + 1))
             in Some \<lparr>tp_from = day_start (day_of lo), tp_to = day_end (day_of hi), tp_days = days\<rparr>)
        | _ \<Rightarrow> None)
      else (let days = preset_days (if tr_range v = CustomRange then DEFAULT_TIME_RANGE else tr_range v)
            in Some \<lparr>tp_from = day_start (day_of (nowMs - (days - 1) * ms_per_day)), tp_to = nowMs, tp_days = days\<rparr>))"

datatype range_label = OneDay string | RangeText string string | PresetLabel time_range_value

definition timeRangeLabel :: "time_range \<Rightarrow> range_label" where
  "timeRangeLabel v = (if tr_range v = CustomRange \<and> truthy (tr_customFrom v) \<and> truthy (tr_customTo v)
     then if tr_customFrom v = tr_customTo v then OneDay (tr_customFrom v)
       else RangeText (tr_customFrom v) (tr_customTo v)
     else PresetLabel (if tr_range v = CustomRange then DEFAULT_TIME_RANGE else tr_range v))"

section \<open>The control\<close>

record range_control =
  rc_open :: bool
  rc_draftFrom :: string
  rc_draftTo :: string

definition todayIso :: "int \<Rightarrow> string" where
  "todayIso nowMs = take 10 (toISOString nowMs)"

definition or_else :: "string \<Rightarrow> string \<Rightarrow> string" where
  "or_else s d = (if truthy s then s else d)"

definition range_control_mount :: "int \<Rightarrow> time_range \<Rightarrow> range_control" where
  "range_control_mount nowMs v = \<lparr>rc_open = False, rc_draftFrom = or_else (tr_customFrom v) (todayIso nowMs),
     rc_draftTo = or_else (tr_customTo v) (todayIso nowMs)\<rparr>"

definition selectPreset :: "time_range_value \<Rightarrow> range_control \<Rightarrow> range_control \<times> time_range" where
  "selectPreset preset c = (c\<lparr>rc_open := False\<rparr>, \<lparr>tr_range = preset, tr_customFrom = [], tr_customTo = []\<rparr>)"

definition applyCustomRange :: "range_control \<Rightarrow> range_control \<times> time_range" where
  "applyCustomRange c = (c\<lparr>rc_open := False\<rparr>,
     \<lparr>tr_range = CustomRange, tr_customFrom = rc_draftFrom c, tr_customTo = rc_draftTo c\<rparr>)"

definition apply_disabled :: "range_control \<Rightarrow> bool" where
  "apply_disabled c \<longleftrightarrow> \<not> truthy (rc_draftFrom c) \<or> \<not> truthy (rc_draftTo c) \<or> js_less (rc_draftTo c) (rc_draftFrom c)"

definition range_open_change :: "int \<Rightarrow> bool \<Rightarrow> time_range \<Rightarrow> range_control \<Rightarrow> range_control" where
  "range_open_change nowMs opens v c = (if opens
     then c\<lparr>rc_open := True, rc_draftFrom := or_else (tr_customFrom v) (todayIso nowMs),
            rc_draftTo := or_else (tr_customTo v) (todayIso nowMs)\<rparr>
     else c\<lparr>rc_open := False\<rparr>)"

datatype range_event = OpenChange int bool | TypeFrom string | TypeTo string | PickPreset time_range_value
  | ApplyCustom | ResetRange

text \<open>A step of the control and the value its parent keeps. The preset rows offer the presets only.\<close>

definition range_step :: "range_control \<times> time_range \<Rightarrow> range_event \<Rightarrow> range_control \<times> time_range" where
  "range_step s e = (case s of (c, v) \<Rightarrow> case e of
      OpenChange nowMs opens \<Rightarrow> (range_open_change nowMs opens v c, v)
    | TypeFrom t \<Rightarrow> (c\<lparr>rc_draftFrom := t\<rparr>, v)
    | TypeTo t \<Rightarrow> (c\<lparr>rc_draftTo := t\<rparr>, v)
    | PickPreset p \<Rightarrow> if p \<in> set TIME_RANGE_PRESETS then selectPreset p c else s
    | ApplyCustom \<Rightarrow> if apply_disabled c then s else applyCustomRange c
    | ResetRange \<Rightarrow> (c, \<lparr>tr_range = DEFAULT_TIME_RANGE, tr_customFrom = [], tr_customTo = []\<rparr>))"

text \<open>A date input holds nothing or a date.\<close>

definition date_input :: "string \<Rightarrow> bool" where
  "date_input s \<longleftrightarrow> s = [] \<or> read_date s \<noteq> None"

fun typed_dates :: "range_event \<Rightarrow> bool" where
  "typed_dates (OpenChange nowMs opens) = (year_of_day (nowMs div ms_per_day) \<in> {0..9999})"
| "typed_dates (TypeFrom t) = date_input t"
| "typed_dates (TypeTo t) = date_input t"
| "typed_dates e = True"

definition range_ok :: "range_control \<times> time_range \<Rightarrow> bool" where
  "range_ok s \<longleftrightarrow> date_input (rc_draftFrom (fst s)) \<and> date_input (rc_draftTo (fst s))
     \<and> (if tr_range (snd s) = CustomRange
        then \<exists>a b. read_date (tr_customFrom (snd s)) = Some a \<and> read_date (tr_customTo (snd s)) = Some b \<and> a \<le> b
        else tr_customFrom (snd s) = [] \<and> tr_customTo (snd s) = [])"

lemma read_date_Nil [simp]: "read_date [] = None"
  by (simp add: read_date_def Let_def)

lemma todayIso_text:
  assumes "year_of_day (nowMs div ms_per_day) \<in> {0..9999}"
  shows "todayIso nowMs = date_text (civil_of_day (nowMs div ms_per_day))"
    and "read_date (todayIso nowMs) = Some (civil_of_day (nowMs div ms_per_day))"
proof -
  let ?c = "civil_of_day (nowMs div ms_per_day)"
  have r: "read_date (date_text ?c) = Some ?c"
    using assms civil_of_day_correct(1) [of "nowMs div ms_per_day"] by (intro read_date_text) (simp_all add: civil_of_day_def)
  have len: "length s = 10" if "read_date s \<noteq> None" for s
    using that by (auto simp: read_date_def Let_def split: if_split_asm)
  show t: "todayIso nowMs = date_text ?c"
    using len [of "date_text ?c"] r by (simp add: todayIso_def toISOString_def Let_def)
  show "read_date (todayIso nowMs) = Some ?c" unfolding t by (rule r)
qed

lemma range_step_ok:
  assumes "range_ok s" and "typed_dates e"
  shows "range_ok (range_step s e)"
proof (cases s)
  case (Pair c v)
  show ?thesis
  proof (cases e)
    case (OpenChange nowMs opens)
    have "date_input (or_else d (todayIso nowMs))" if "date_input d" for d
      using that todayIso_text(2) [of nowMs] assms(2) OpenChange by (auto simp: or_else_def date_input_def truthy_def)
    moreover have "date_input (tr_customFrom v)" "date_input (tr_customTo v)"
      using assms(1) Pair by (auto simp: range_ok_def date_input_def split: if_split_asm)
    ultimately show ?thesis
      using assms(1) Pair OpenChange
      by (simp add: range_ok_def range_step_def range_open_change_def split: if_split_asm)
  next
    case ApplyCustom
    show ?thesis
    proof (cases "apply_disabled c")
      case False
      then obtain a b where d: "read_date (rc_draftFrom c) = Some a" "read_date (rc_draftTo c) = Some b"
        using assms(1) Pair by (auto simp: range_ok_def apply_disabled_def date_input_def)
      then have "\<not> b < a" using False date_text_order(1) [OF d(2,1)] by (simp add: apply_disabled_def)
      then have "a \<le> b" by (rule leI)
      with d False assms(1) Pair ApplyCustom show ?thesis
        by (simp add: range_ok_def range_step_def applyCustomRange_def)
    qed (use assms Pair ApplyCustom in \<open>simp add: range_step_def\<close>)
  qed (use assms Pair in \<open>auto simp: range_ok_def range_step_def selectPreset_def TIME_RANGE_PRESETS_def DEFAULT_TIME_RANGE_def\<close>)
qed

lemma range_run_ok: "range_ok s \<Longrightarrow> list_all typed_dates es \<Longrightarrow> range_ok (foldl range_step s es)"
  by (induction es arbitrary: s) (simp_all add: range_step_ok)

section \<open>What a range covers\<close>

lemma custom_range_params:
  assumes "local_time day_start day_end day_of"
    and "tr_range v = CustomRange" "read_date (tr_customFrom v) = Some a" "read_date (tr_customTo v) = Some b"
  shows "timeRangeToApiParams day_start day_end day_of v nowMs
    = Some \<lparr>tp_from = day_start (day_number a), tp_to = day_end (day_number b),
            tp_days = max 1 (min 90 (day_number b - day_number a + 1))\<rparr>"
proof -
  have "truthy (tr_customFrom v)" "truthy (tr_customTo v)" using assms(3,4) by (auto simp: truthy_def)
  then show ?thesis
    using assms(2-4) local_time.rounded_days [OF assms(1)] local_time.day_of_start [OF assms(1)]
    by (simp add: timeRangeToApiParams_def Let_def)
qed

lemma preset_range_params:
  assumes "tr_range v \<noteq> CustomRange"
  shows "timeRangeToApiParams day_start day_end day_of v nowMs
    = Some \<lparr>tp_from = day_start (day_of (nowMs - (preset_days (tr_range v) - 1) * ms_per_day)), tp_to = nowMs,
            tp_days = preset_days (tr_range v)\<rparr>"
  using assms by (simp add: timeRangeToApiParams_def Let_def)

definition in_range :: "time_range_params \<Rightarrow> int \<Rightarrow> bool" where
  "in_range p t \<longleftrightarrow> tp_from p \<le> t \<and> t \<le> tp_to p"



text \<open>Where the clocks go back at the last midnight of the range, its last hour comes twice, and the range has it once: the
  instants of that day it leaves out are those of the repetition.\<close>

theorem repeated_hour_missed:
  assumes "read_date f = Some a" "read_date g = Some b" "a \<le> b" "k = day_number b"
  shows "\<exists>q. timeRangeToApiParams (back_start k) (back_end k) (back_day k)
       \<lparr>tr_range = CustomRange, tr_customFrom = f, tr_customTo = g\<rparr> nowMs = Some q
     \<and> (\<forall>t. (back_day k t = k \<and> \<not> in_range q t) = ((k + 1) * ms_per_day \<le> t \<and> t < (k + 1) * ms_per_day + 3600000))"
proof -
  let ?v = "\<lparr>tr_range = CustomRange, tr_customFrom = f, tr_customTo = g\<rparr>"
  have le: "day_number a \<le> k"
    using assms(3,4) day_number_le_iff [OF read_date_Some(1) [OF assms(1)] read_date_Some(1) [OF assms(2)]] by simp
  have day: "back_day k t = k \<longleftrightarrow> k * ms_per_day \<le> t \<and> t < (k + 1) * ms_per_day + 3600000" for t
    by (simp add: back_zone.day_of_iff back_start_def)
  have lo: "day_number a * ms_per_day \<le> k * ms_per_day" using le by (simp add: ms_per_day_def)
  have q: "timeRangeToApiParams (back_start k) (back_end k) (back_day k) ?v nowMs
      = Some \<lparr>tp_from = day_number a * ms_per_day, tp_to = (k + 1) * ms_per_day - 1,
             tp_days = max 1 (min 90 (k - day_number a + 1))\<rparr>"
    using custom_range_params [OF back_zone.local_time_axioms, of ?v a b k nowMs] assms(1,2) le
    unfolding assms(4) [symmetric] by (simp add: back_start_def back_end_def)
  have "(back_day k t = k \<and> \<not> in_range \<lparr>tp_from = day_number a * ms_per_day, tp_to = (k + 1) * ms_per_day - 1, tp_days = n\<rparr> t)
      = ((k + 1) * ms_per_day \<le> t \<and> t < (k + 1) * ms_per_day + 3600000)" for t n
    unfolding day in_range_def time_range_params.simps using lo by (auto simp: ms_per_day_def)
  with q show ?thesis by blast
qed

theorem repeated_hour_missed_witness:
  "\<exists>q. timeRangeToApiParams (back_start 20513) (back_end 20513) (back_day 20513)
       \<lparr>tr_range = CustomRange, tr_customFrom = ''2026-03-01'', tr_customTo = ''2026-03-01''\<rparr> 0 = Some q
     \<and> \<not> in_range q (20514 * ms_per_day)"
proof -
  have "read_date ''2026-03-01'' = Some (Civil 2026 3 1)" "day_number (Civil 2026 3 1) = 20513" by code_simp+
  then obtain q where "timeRangeToApiParams (back_start 20513) (back_end 20513) (back_day 20513)
       \<lparr>tr_range = CustomRange, tr_customFrom = ''2026-03-01'', tr_customTo = ''2026-03-01''\<rparr> 0 = Some q"
    and q: "\<And>t. (back_day 20513 t = 20513 \<and> \<not> in_range q t)
        = ((20513 + 1) * ms_per_day \<le> t \<and> t < (20513 + 1) * ms_per_day + 3600000)"
    using repeated_hour_missed [of "''2026-03-01''" "Civil 2026 3 1" "''2026-03-01''" "Civil 2026 3 1" 20513 0] by fastforce
  moreover have "\<not> in_range q (20514 * ms_per_day)" using q [of "20514 * ms_per_day"] by simp
  ultimately show ?thesis by blast
qed

text \<open>Whatever is opened, picked, typed and applied in the control, the value it hands on is a preset or a
  pair of dates in order: the bounds exist, the first is not after the last, the day count is
  between 1 and 90, and the value counts as active exactly when it is not the default, so the mark of
  the control and the chips of the sections agree.\<close>

theorem time_range_control:
  assumes "local_time day_start day_end day_of"
    and "list_all typed_dates es" and "year_of_day (t0 div ms_per_day) \<in> {0..9999}"
    and "s = foldl range_step (range_control_mount t0 DEFAULT_TIME_RANGE_STATE, DEFAULT_TIME_RANGE_STATE) es"
  shows "isTimeRangeActive (snd s) = (tr_range (snd s) \<noteq> DEFAULT_TIME_RANGE)
    \<and> (\<exists>q. timeRangeToApiParams day_start day_end day_of (snd s) nowMs = Some q \<and> tp_from q \<le> tp_to q
         \<and> tp_days q \<in> {1..90})"
proof -
  have "range_ok (range_control_mount t0 DEFAULT_TIME_RANGE_STATE, DEFAULT_TIME_RANGE_STATE)"
    using todayIso_text(2) [OF assms(3)]
    by (simp add: range_ok_def range_control_mount_def DEFAULT_TIME_RANGE_STATE_def DEFAULT_TIME_RANGE_def
        or_else_def date_input_def)
  then have ok: "range_ok s" unfolding assms(4) by (rule range_run_ok [OF _ assms(2)])
  show ?thesis
  proof (cases "tr_range (snd s) = CustomRange")
    case True
    with ok obtain a b where d: "read_date (tr_customFrom (snd s)) = Some a" "read_date (tr_customTo (snd s)) = Some b"
      "a \<le> b" by (auto simp: range_ok_def)
    have "day_number a \<le> day_number b"
      using d(3) day_number_le_iff [OF read_date_Some(1) [OF d(1)] read_date_Some(1) [OF d(2)]] by simp
    then have "day_start (day_number a) \<le> day_end (day_number b)"
      using local_time.day_start_le [OF assms(1), of "day_number a" "day_number b"]
        local_time.ends(1) [OF assms(1), of "day_number b"] by simp
    moreover have "truthy (tr_customFrom (snd s))" "truthy (tr_customTo (snd s))" using d by (auto simp: truthy_def)
    ultimately show ?thesis
      using custom_range_params [OF assms(1) True d(1,2)] True by (simp add: isTimeRangeActive_def DEFAULT_TIME_RANGE_def)
  next
    case False
    have "1 \<le> preset_days r" "preset_days r \<le> 90" for r by (cases r; simp)+
    moreover from this have "nowMs - (preset_days r - 1) * ms_per_day \<le> nowMs" for r by (simp add: ms_per_day_def)
    then have "day_start (day_of (nowMs - (preset_days r - 1) * ms_per_day)) \<le> nowMs" for r
      using local_time.in_day(1) [OF assms(1)] order_trans by blast
    ultimately show ?thesis
      using preset_range_params [OF False] False by (simp add: isTimeRangeActive_def)
  qed
qed

theorem time_range_control_witness:
  "isTimeRangeActive (snd (foldl range_step (range_control_mount 0 DEFAULT_TIME_RANGE_STATE, DEFAULT_TIME_RANGE_STATE)
      [OpenChange 0 True, TypeFrom ''1969-12-30'', ApplyCustom]))"
proof -
  let ?es = "[OpenChange 0 True, TypeFrom ''1969-12-30'', ApplyCustom]"
  have y: "year_of_day (0 div ms_per_day) = 1970" and d: "date_input ''1969-12-30''" by code_simp+
  then have "list_all typed_dates ?es" "year_of_day (0 div ms_per_day) \<in> {0..9999}" by simp_all
  moreover have "tr_range (snd (foldl range_step (range_control_mount 0 DEFAULT_TIME_RANGE_STATE, DEFAULT_TIME_RANGE_STATE) ?es))
      = CustomRange"
  proof -
    have c: "civil_of_day (0 div ms_per_day) = Civil 1970 1 1" "read_date ''1969-12-30'' = Some (Civil 1969 12 30)"
      by code_simp+
    have today: "read_date (todayIso 0) = Some (Civil 1970 1 1)" using todayIso_text(2) [of 0] y c(1) by simp
    then have "\<not> js_less (todayIso 0) ''1969-12-30''" "truthy (todayIso 0)"
      using date_text_order(1) [OF today c(2)] by (auto simp: less_civil_def truthy_def)
    then show ?thesis
      by (simp add: range_step_def range_open_change_def applyCustomRange_def apply_disabled_def or_else_def
          DEFAULT_TIME_RANGE_STATE_def)
  qed
  ultimately show ?thesis
    using time_range_control [OF fixed_zone.local_time_axioms _ _ refl, of ?es 0 0 0] by (simp add: DEFAULT_TIME_RANGE_def)
qed

text \<open>The control takes its "today" from the UTC date, the bounds are local days. East of Greenwich, in the
  first \<open>off\<close> milliseconds of a local day, it offers yesterday as the latest date; opened then and applied
  as it is, the range holds only yesterday's instants, and so nothing of the present day.\<close>

theorem today_is_utc:
  assumes "0 < off" "off < ms_per_day" "(nowMs + off) mod ms_per_day < off"
    and "year_of_day (nowMs div ms_per_day) \<in> {0..9999}"
    and "s = foldl range_step (range_control_mount t0 DEFAULT_TIME_RANGE_STATE, DEFAULT_TIME_RANGE_STATE)
       [OpenChange nowMs True, ApplyCustom]"
  shows "todayIso nowMs = date_text (civil_of_day (fixed_day off nowMs - 1))
    \<and> (\<exists>q. timeRangeToApiParams (fixed_start off) (fixed_end off) (fixed_day off) (snd s) nowMs = Some q
         \<and> (\<forall>t. in_range q t = (fixed_day off t = fixed_day off nowMs - 1)))"
proof -
  let ?c = "civil_of_day (nowMs div ms_per_day)"
  have day: "nowMs div ms_per_day = fixed_day off nowMs - 1"
  proof -
    have "nowMs + off = (nowMs + off) div ms_per_day * ms_per_day + (nowMs + off) mod ms_per_day" by simp
    then have "nowMs = ms_per_day * (fixed_day off nowMs - 1) + (ms_per_day - off + (nowMs + off) mod ms_per_day)"
      by (simp add: fixed_day_def algebra_simps)
    moreover have "0 \<le> (nowMs + off) mod ms_per_day" by (simp add: ms_per_day_def)
    ultimately show ?thesis using assms(2,3)
      by (intro int_div_pos_eq [where r = "ms_per_day - off + (nowMs + off) mod ms_per_day"]) simp_all
  qed
  note today = todayIso_text [OF assms(4)]
  have "snd s = \<lparr>tr_range = CustomRange, tr_customFrom = todayIso nowMs, tr_customTo = todayIso nowMs\<rparr>"
  proof -
    have "\<not> js_less (todayIso nowMs) (todayIso nowMs)" using date_text_order(1) [OF today(2) today(2)] by simp
    moreover have "truthy (todayIso nowMs)" using today(2) by (auto simp: truthy_def)
    ultimately show ?thesis
      unfolding assms(5) by (simp add: range_step_def range_open_change_def applyCustomRange_def apply_disabled_def
          or_else_def DEFAULT_TIME_RANGE_STATE_def)
  qed
  then have "timeRangeToApiParams (fixed_start off) (fixed_end off) (fixed_day off) (snd s) nowMs
      = Some \<lparr>tp_from = fixed_start off (day_number ?c), tp_to = fixed_start off (day_number ?c + 1) - 1, tp_days = 1\<rparr>"
    using custom_range_params [OF fixed_zone.local_time_axioms, of "snd s" ?c ?c off nowMs] today(2) by (simp add: fixed_end_def)
  moreover have "(fixed_start off (fixed_day off nowMs - 1) \<le> t \<and> t \<le> fixed_start off (fixed_day off nowMs - 1 + 1) - 1)
      = (fixed_day off t = fixed_day off nowMs - 1)" for t
    unfolding fixed_zone.since_day fixed_zone.until_day by auto
  ultimately show ?thesis
    using today(1) civil_of_day_correct(2) [of "nowMs div ms_per_day"] unfolding in_range_def day by simp
qed

theorem today_is_utc_witness:
  "todayIso (- 3600000) = ''1969-12-31'' \<and> fixed_day 19800000 (- 3600000) = 0"
proof -
  have "year_of_day (- 3600000 div ms_per_day) = 1969" "fixed_day 19800000 (- 3600000) = 0"
    "civil_of_day (- 1) = Civil 1969 12 31" by code_simp+
  moreover have "date_text (Civil 1969 12 31) = ''1969-12-31''"
    by (simp add: date_text_def pad_def nat_text.simps) code_simp
  ultimately show ?thesis using today_is_utc [of 19800000 "- 3600000", OF _ _ _ _ refl] by (simp add: ms_per_day_def)
qed

end
