(* ===== verification/AuditFilters.thy ===== *)
theory AuditFilters
  imports TimeRange Authorization PolicyHelpers ApiClient QueryClient
begin

text \<open>
  The filters of the audit log: the searchable picker (\<open>ui/filters/GroupedSearchSelect.tsx\<close>), the options of
  its two uses (\<open>AuthorizationFilterBar.tsx\<close>, \<open>securityLogEventTypes.ts\<close>), and for the four lists
  (\<open>All\<close>/\<open>My\<close> \<open>AuthorizationLogSection.tsx\<close> and \<open>SecurityLogSection.tsx\<close>) the stored filters, the request they
  make, the chips and the empty states. The flag \<open>mine\<close> is the "My activity" variant of a list.
\<close>

section \<open>GroupedSearchSelect\<close>

record search_option =
  so_value :: string
  so_label :: string
  so_sublabel :: "string option"
  so_destructive :: bool

record option_group =
  og_key :: string
  og_label :: string
  og_options :: "search_option list"

record picker =
  pk_open :: bool
  pk_query :: string
  pk_highlighted :: int

definition picker_mount :: picker where
  "picker_mount = \<lparr>pk_open = False, pk_query = [], pk_highlighted = - 1\<rparr>"

definition triggerLabel :: "option_group list \<Rightarrow> string \<Rightarrow> string \<Rightarrow> string \<Rightarrow> string" where
  "triggerLabel groups allValue allLabel v =
     (case find (\<lambda>o1. so_value o1 = v) (concat (map og_options groups)) of
        Some o1 \<Rightarrow> if v = allValue then allLabel else so_label o1
      | None \<Rightarrow> allLabel)"

definition option_matches :: "string \<Rightarrow> search_option \<Rightarrow> bool" where
  "option_matches q o1 \<longleftrightarrow> js_includes (js_lower (so_label o1)) q \<or> js_includes (js_lower (so_value o1)) q
     \<or> (case so_sublabel o1 of Some s \<Rightarrow> js_includes (js_lower s) q | None \<Rightarrow> False)"

definition filteredGroups :: "option_group list \<Rightarrow> string \<Rightarrow> option_group list" where
  "filteredGroups groups query = (let q = js_lower (js_trim query) in
     if q = [] then groups
     else filter (\<lambda>g. length (og_options g) > 0)
       (map (\<lambda>g. g\<lparr>og_options := filter (option_matches q) (og_options g)\<rparr>) groups))"

definition flatOptions :: "option_group list \<Rightarrow> string \<Rightarrow> search_option list" where
  "flatOptions groups query = concat (map og_options (filteredGroups groups query))"

datatype picker_event = PkOpenChange bool | PkQuery string | PkArrowDown | PkArrowUp | PkEnter | PkEscape
  | PkHover nat | PkClick nat | PkAll | PkGroup string

text \<open>What the picker tells its parent: a value, or a whole group.\<close>

datatype picker_choice = Chosen string | GroupChosen string

definition close_picker :: "picker \<Rightarrow> picker" where
  "close_picker p = p\<lparr>pk_open := False, pk_query := []\<rparr>"

definition picker_enter :: "option_group list \<Rightarrow> picker \<Rightarrow> picker \<times> picker_choice option" where
  "picker_enter groups p = (let os = flatOptions groups (pk_query p); i = pk_highlighted p in
     if 0 \<le> i \<and> i < int (length os) then (close_picker p, Some (Chosen (so_value (os ! nat i)))) else (p, None))"

definition picker_step ::
  "option_group list \<Rightarrow> string \<Rightarrow> bool \<Rightarrow> picker \<Rightarrow> picker_event \<Rightarrow> picker \<times> picker_choice option" where
  "picker_step groups allValue group_picks p e = (let os = flatOptions groups (pk_query p); n = int (length os) in
     case e of
       PkOpenChange nxt \<Rightarrow> (p\<lparr>pk_open := nxt, pk_query := [], pk_highlighted := - 1\<rparr>, None)
     | PkQuery q \<Rightarrow> (p\<lparr>pk_query := q, pk_highlighted := - 1\<rparr>, None)
     | PkArrowDown \<Rightarrow> (p\<lparr>pk_highlighted := min (pk_highlighted p + 1) (n - 1)\<rparr>, None)
     | PkArrowUp \<Rightarrow> (p\<lparr>pk_highlighted := max (pk_highlighted p - 1) 0\<rparr>, None)
     | PkEnter \<Rightarrow> picker_enter groups p
     | PkEscape \<Rightarrow> (p\<lparr>pk_open := False\<rparr>, None)
     | PkHover i \<Rightarrow> if i < length os then (p\<lparr>pk_highlighted := int i\<rparr>, None) else (p, None)
     | PkClick i \<Rightarrow> if i < length os then (close_picker p, Some (Chosen (so_value (os ! i)))) else (p, None)
     | PkAll \<Rightarrow> (close_picker p, Some (Chosen allValue))
     | PkGroup k \<Rightarrow> if group_picks \<and> k \<in> og_key ` set (filteredGroups groups (pk_query p))
         then (close_picker p, Some (GroupChosen k)) else (p, None))"

lemma flat_option_of_group:
  "o1 \<in> set (flatOptions groups q) \<Longrightarrow> \<exists>g \<in> set groups. o1 \<in> set (og_options g)"
  by (auto simp: flatOptions_def filteredGroups_def Let_def split: if_split_asm)

lemma group_of_filtered: "g \<in> set (filteredGroups groups q) \<Longrightarrow> \<exists>g' \<in> set groups. og_key g = og_key g'"
  by (auto simp: filteredGroups_def Let_def split: if_split_asm)

definition picker_ok :: "picker \<Rightarrow> bool" where
  "picker_ok p \<longleftrightarrow> - 1 \<le> pk_highlighted p"

interpretation picker: event_machine "\<lambda>p e. fst (picker_step groups allValue group_picks p e)" picker_ok
  by unfold_locales
    (auto simp: picker_ok_def picker_step_def picker_enter_def close_picker_def Let_def split: picker_event.split)

lemma picker_choices:
  assumes "picker_step groups allValue group_picks p e = (p', Some ch)"
  shows "pk_query p' = [] \<and> \<not> pk_open p' \<and> (case ch of
      Chosen v \<Rightarrow> v = allValue \<or> (\<exists>o1 \<in> set (flatOptions groups (pk_query p)). so_value o1 = v)
    | GroupChosen k \<Rightarrow> group_picks \<and> k \<in> og_key ` set groups)"
  using assms group_of_filtered
  by (cases e) (force simp: picker_step_def picker_enter_def close_picker_def Let_def split: if_split_asm)+

section \<open>Options\<close>

definition AUTHORIZATION_RESOURCE_TYPES :: "string list" where
  "AUTHORIZATION_RESOURCE_TYPES =
     [''users'', ''policies'', ''permissions'', ''security_audit'', ''rate_limits'', ''*'']"

definition actionGroups :: "string list \<Rightarrow> string list \<Rightarrow> option_group list" where
  "actionGroups extraResourceTypes extraActions =
     (let allActions = permission_values @ extraActions;
          resourceTypes = AUTHORIZATION_RESOURCE_TYPES @ extraResourceTypes
      in filter (\<lambda>g. length (og_options g) > 0) (map (\<lambda>rt.
           \<lparr>og_key = rt, og_label = formatResourceTypeLabel rt,
            og_options = map (\<lambda>a. \<lparr>so_value = a, so_label = formatPolicyActionLabel a, so_sublabel = None,
                so_destructive = isDestructiveAction a\<rparr>)
              (filter (\<lambda>a. js_starts_with a (rt @ '':'')) allActions)\<rparr>) resourceTypes))"

definition SECURITY_EVENT_TYPES :: "string list" where
  "SECURITY_EVENT_TYPES = [''login'', ''logout'', ''logout_all'', ''session_revoked'', ''signup'',
     ''oauth2_login_success'', ''password_reset_requested'', ''password_reset_confirmed'',
     ''account_verification_requested'', ''account_verified'', ''account_locked'',
     ''refresh_token_reuse_detected'', ''account_deleted'', ''account_purged'', ''account_reactivated'',
     ''policy_assigned'', ''policy_revoked'', ''policy_action_revoked'', ''permission_granted'',
     ''permission_revoked'', ''user_role_changed'']"

definition SECURITY_EVENT_TYPE_GROUPS :: "(string \<times> string list) list" where
  "SECURITY_EVENT_TYPE_GROUPS = [
     (''signIn'', [''login'', ''oauth2_login_success'', ''refresh_token_reuse_detected'']),
     (''sessions'', [''logout'', ''logout_all'', ''session_revoked'']),
     (''account'', [''signup'', ''account_verification_requested'', ''account_verified'', ''account_locked'',
        ''account_deleted'', ''account_purged'', ''account_reactivated'']),
     (''password'', [''password_reset_requested'', ''password_reset_confirmed'']),
     (''accessChanges'', [''policy_assigned'', ''policy_revoked'', ''policy_action_revoked'',
        ''permission_granted'', ''permission_revoked'', ''user_role_changed''])]"

definition eventGroups :: "(string \<Rightarrow> string) \<Rightarrow> option_group list" where
  "eventGroups t = map (\<lambda>(k, types). \<lparr>og_key = k, og_label = t (''security.filterBar.eventGroups.'' @ k),
     og_options = map (\<lambda>v. \<lparr>so_value = v, so_label = t (''security.filterBar.eventLabels.'' @ v),
        so_sublabel = Some v, so_destructive = False\<rparr>) types\<rparr>) SECURITY_EVENT_TYPE_GROUPS"

text \<open>\<open>value.replace(/[_-]+/g, " ")\<close> and the capital.\<close>

fun spaced :: "bool \<Rightarrow> string \<Rightarrow> string" where
  "spaced in_run [] = []"
| "spaced in_run (c # s) = (if c = CHR ''_'' \<or> c = CHR ''-''
     then (if in_run then spaced True s else CHR '' '' # spaced True s) else c # spaced False s)"

definition humanizeSecurityEventType :: "string \<Rightarrow> string" where
  "humanizeSecurityEventType v = (let label = js_trim (spaced False v) in
     case label of [] \<Rightarrow> v | c # s \<Rightarrow> char_upper c # s)"

lemma event_values:
  "map so_value (concat (map og_options (eventGroups t))) = concat (map snd SECURITY_EVENT_TYPE_GROUPS)"
  by (simp add: eventGroups_def SECURITY_EVENT_TYPE_GROUPS_def)

lemma event_types_grouped: "mset (concat (map snd SECURITY_EVENT_TYPE_GROUPS)) = mset SECURITY_EVENT_TYPES"
  by code_simp

lemma action_values:
  "set (map so_value (concat (map og_options (actionGroups [] [])))) = set permission_values"
  by code_simp

section \<open>List configuration\<close>

definition AUDIT_PAGE_SIZE :: int where
  "AUDIT_PAGE_SIZE = 25"

definition AUDIT_ALL_VALUE :: string where
  "AUDIT_ALL_VALUE = []"

definition totalPagesFor :: "int \<Rightarrow> int" where
  "totalPagesFor n = max 1 (- ((- n) div AUDIT_PAGE_SIZE))"

definition toBoolFilter_audit :: "string \<Rightarrow> bool option" where
  "toBoolFilter_audit v = (if v = AUDIT_ALL_VALUE then None else Some (v = ''true''))"

record 'e log_page =
  lp_rows :: "'e list"
  lp_total :: int

text \<open>\<open>Number\<close> of the \<open>x-total-count\<close> header is \<open>None\<close> when it is missing or no finite number.\<close>

definition toPageResult :: "'e list \<Rightarrow> int option \<Rightarrow> 'e log_page" where
  "toPageResult res_data header = \<lparr>lp_rows = res_data, lp_total = (case header of Some n \<Rightarrow> n | None \<Rightarrow> 0)\<rparr>"

lemma int_div_parts: "k > 0 \<Longrightarrow> \<exists>q r. x = k * q + r \<and> 0 \<le> r \<and> r < k \<and> x div k = (q :: int)"
  by (metis mult_div_mod_eq pos_mod_bound pos_mod_sign)

lemma totalPagesFor_covers:
  assumes "0 \<le> i" and "i < n"
  shows "i div AUDIT_PAGE_SIZE + 1 \<le> totalPagesFor n" and "(totalPagesFor n - 1) * AUDIT_PAGE_SIZE < n"
proof -
  obtain q r where n: "- n = 25 * q + r" "0 \<le> r" "r < 25" "- n div 25 = q" using int_div_parts [of 25 "- n"] by auto
  obtain a b where i: "i = 25 * a + b" "0 \<le> b" "b < 25" "i div 25 = a" using int_div_parts [of 25 i] by auto
  have pages: "totalPagesFor n = max 1 (- q)" unfolding totalPagesFor_def AUDIT_PAGE_SIZE_def n(4) ..
  have "a < - q" using n(1-3) i(1-3) assms by linarith
  moreover have "(- q - 1) * 25 < n" using n(1-3) by (simp add: algebra_simps)
  ultimately show "i div AUDIT_PAGE_SIZE + 1 \<le> totalPagesFor n" "(totalPagesFor n - 1) * AUDIT_PAGE_SIZE < n"
    unfolding pages AUDIT_PAGE_SIZE_def i(4) using assms by (simp_all add: max_def)
qed

section \<open>Authorization decisions\<close>

record log_filters =
  lf_search :: string
  lf_sort :: sort_state
  lf_time :: time_range

record authorization_filters = log_filters +
  af_action :: string
  af_resourceType :: string
  af_allowed :: string

definition log_sort_default :: sort_state where
  "log_sort_default = \<lparr>sort_key = ''created_at'', sort_dir = Desc\<rparr>"

definition authorization_defaults :: authorization_filters where
  "authorization_defaults = \<lparr>lf_search = [], lf_sort = log_sort_default, lf_time = DEFAULT_TIME_RANGE_STATE,
     af_action = AUDIT_ALL_VALUE, af_resourceType = AUDIT_ALL_VALUE, af_allowed = AUDIT_ALL_VALUE\<rparr>"

definition dir_text :: "sort_direction \<Rightarrow> string" where
  "dir_text d = (case d of Asc \<Rightarrow> ''asc'' | Desc \<Rightarrow> ''desc'')"

definition toggle_log_sort :: "string \<Rightarrow> 'x log_filters_scheme \<Rightarrow> 'x log_filters_scheme" where
  "toggle_log_sort key f = f\<lparr>lf_sort := nextSortState (lf_sort f) key\<rparr>"

definition authorization_reset_key :: "bool \<Rightarrow> string \<Rightarrow> time_range_params \<Rightarrow> authorization_filters \<Rightarrow> string" where
  "authorization_reset_key mine debouncedSearch q f = js_join ''|'' ((if mine then [] else [debouncedSearch])
     @ [sort_key (lf_sort f), dir_text (sort_dir (lf_sort f)), af_action f, af_resourceType f, af_allowed f,
        toISOString (tp_from q), toISOString (tp_to q)])"

definition authorization_params :: "bool \<Rightarrow> int \<Rightarrow> string \<Rightarrow> time_range_params \<Rightarrow> authorization_filters \<Rightarrow> authorization_log_params" where
  "authorization_params mine page debouncedSearch q f =
     \<lparr>al_limit = Some AUDIT_PAGE_SIZE, al_offset = Some ((page - 1) * AUDIT_PAGE_SIZE),
      al_search = (if mine then None else Some debouncedSearch),
      al_sortBy = Some (sort_key (lf_sort f)), al_sortDir = Some (dir_text (sort_dir (lf_sort f))),
      al_from = Some (toISOString (tp_from q)), al_to = Some (toISOString (tp_to q)),
      al_action = or_undefined (af_action f), al_resourceType = or_undefined (af_resourceType f),
      al_allowed = toBoolFilter_audit (af_allowed f)\<rparr>"

definition authorization_request :: "bool \<Rightarrow> int \<Rightarrow> string \<Rightarrow> time_range_params \<Rightarrow> authorization_filters \<Rightarrow> http_request" where
  "authorization_request mine page debouncedSearch q f =
     (if mine then getMyAuthorizationAuditLogApi else getAuthorizationAuditLogApi)
       (authorization_params mine page debouncedSearch q f)"

text \<open>The group header of the action picker, an action of it, and the drawer's "only this action".\<close>

definition onSelectGroup :: "string \<Rightarrow> authorization_filters \<Rightarrow> authorization_filters" where
  "onSelectGroup groupKey f = f\<lparr>af_resourceType := groupKey, af_action := AUDIT_ALL_VALUE\<rparr>"

definition setAction :: "string \<Rightarrow> authorization_filters \<Rightarrow> authorization_filters" where
  "setAction v f = f\<lparr>af_action := v\<rparr>"

definition isRangeActive :: "time_range \<Rightarrow> bool" where
  "isRangeActive v \<longleftrightarrow> tr_range v \<noteq> DEFAULT_TIME_RANGE
     \<or> (tr_range v = CustomRange \<and> truthy (tr_customFrom v) \<and> truthy (tr_customTo v))"

datatype authorization_chip = RangeChip | SearchChip | ActionChip | ResourceTypeChip | AllowedChip

definition authorization_chips :: "bool \<Rightarrow> authorization_filters \<Rightarrow> authorization_chip list" where
  "authorization_chips mine f = (if isRangeActive (lf_time f) then [RangeChip] else [])
     @ (if \<not> mine \<and> truthy (lf_search f) then [SearchChip] else [])
     @ (if af_action f \<noteq> AUDIT_ALL_VALUE then [ActionChip]
        else if af_resourceType f \<noteq> AUDIT_ALL_VALUE then [ResourceTypeChip] else [])
     @ (if af_allowed f \<noteq> AUDIT_ALL_VALUE then [AllowedChip] else [])"

fun clear_authorization_chip :: "authorization_chip \<Rightarrow> authorization_filters \<Rightarrow> authorization_filters" where
  "clear_authorization_chip RangeChip f = f\<lparr>lf_time := DEFAULT_TIME_RANGE_STATE\<rparr>"
| "clear_authorization_chip SearchChip f = f\<lparr>lf_search := []\<rparr>"
| "clear_authorization_chip ActionChip f = f\<lparr>af_action := AUDIT_ALL_VALUE\<rparr>"
| "clear_authorization_chip ResourceTypeChip f = f\<lparr>af_resourceType := AUDIT_ALL_VALUE\<rparr>"
| "clear_authorization_chip AllowedChip f = f\<lparr>af_allowed := AUDIT_ALL_VALUE\<rparr>"

definition clear_all_authorization :: "bool \<Rightarrow> authorization_filters \<Rightarrow> authorization_filters" where
  "clear_all_authorization mine f = f\<lparr>lf_search := (if mine then lf_search f else []), af_action := AUDIT_ALL_VALUE,
     af_resourceType := AUDIT_ALL_VALUE, af_allowed := AUDIT_ALL_VALUE, lf_time := DEFAULT_TIME_RANGE_STATE\<rparr>"

datatype empty_message = EmptyRange int | EmptySearch | EmptyFiltered
datatype empty_action = ShowLast90Days | ClearFilters

text \<open>What an empty list says and offers; \<open>has_filters\<close> is \<open>hasNonRangeFilters\<close>.\<close>

definition empty_state :: "bool \<Rightarrow> string \<Rightarrow> int \<Rightarrow> empty_message \<times> empty_action option" where
  "empty_state has_filters search days =
     (if \<not> has_filters then (EmptyRange days, if days < 90 then Some ShowLast90Days else None)
      else (if truthy search then EmptySearch else EmptyFiltered, Some ClearFilters))"

definition authorization_has_filters :: "bool \<Rightarrow> authorization_filters \<Rightarrow> bool" where
  "authorization_has_filters mine f \<longleftrightarrow> \<not> mine \<and> truthy (lf_search f) \<or> af_action f \<noteq> AUDIT_ALL_VALUE
     \<or> af_resourceType f \<noteq> AUDIT_ALL_VALUE \<or> af_allowed f \<noteq> AUDIT_ALL_VALUE"

section \<open>Security events\<close>

record security_filters = log_filters +
  sf_eventType :: string
  sf_ipAddress :: string
  sf_success :: string

definition security_defaults :: security_filters where
  "security_defaults = \<lparr>lf_search = [], lf_sort = log_sort_default, lf_time = DEFAULT_TIME_RANGE_STATE,
     sf_eventType = AUDIT_ALL_VALUE, sf_ipAddress = AUDIT_ALL_VALUE, sf_success = AUDIT_ALL_VALUE\<rparr>"

definition security_reset_key :: "bool \<Rightarrow> string \<Rightarrow> string \<Rightarrow> time_range_params \<Rightarrow> security_filters \<Rightarrow> string" where
  "security_reset_key mine debouncedSearch debouncedIpAddress q f = js_join ''|'' ((if mine then [] else [debouncedSearch])
     @ [sort_key (lf_sort f), dir_text (sort_dir (lf_sort f)), sf_eventType f, debouncedIpAddress, sf_success f,
        toISOString (tp_from q), toISOString (tp_to q)])"

definition security_params ::
  "bool \<Rightarrow> int \<Rightarrow> string \<Rightarrow> string \<Rightarrow> time_range_params \<Rightarrow> security_filters \<Rightarrow> security_log_params" where
  "security_params mine page debouncedSearch debouncedIpAddress q f =
     \<lparr>al_limit = Some AUDIT_PAGE_SIZE, al_offset = Some ((page - 1) * AUDIT_PAGE_SIZE),
      al_search = (if mine then None else Some debouncedSearch),
      al_sortBy = Some (sort_key (lf_sort f)), al_sortDir = Some (dir_text (sort_dir (lf_sort f))),
      al_from = Some (toISOString (tp_from q)), al_to = Some (toISOString (tp_to q)),
      al_eventType = or_undefined (sf_eventType f), al_ipAddress = or_undefined debouncedIpAddress,
      al_success = toBoolFilter_audit (sf_success f)\<rparr>"

definition security_request :: "bool \<Rightarrow> int \<Rightarrow> string \<Rightarrow> string \<Rightarrow> time_range_params \<Rightarrow> security_filters \<Rightarrow> http_request" where
  "security_request mine page debouncedSearch debouncedIpAddress q f =
     (if mine then getMySecurityAuditLogApi else getSecurityAuditLogApi)
       (security_params mine page debouncedSearch debouncedIpAddress q f)"

text \<open>The chart above the list asks for the same bounds.\<close>

definition trend_request :: "bool \<Rightarrow> string \<Rightarrow> time_range_params \<Rightarrow> http_request" where
  "trend_request mine debouncedSearch q =
     (if mine then getMyLoginTrendApi (Some (tp_days q)) (Some (toISOString (tp_from q))) (Some (toISOString (tp_to q)))
      else getLoginTrendApi (Some (tp_days q)) (or_undefined debouncedSearch)
        (Some (toISOString (tp_from q))) (Some (toISOString (tp_to q))))"

datatype security_chip = SecRangeChip | SecSearchChip | EventTypeChip | IpChip | SuccessChip

definition security_chips :: "bool \<Rightarrow> security_filters \<Rightarrow> security_chip list" where
  "security_chips mine f = (if isRangeActive (lf_time f) then [SecRangeChip] else [])
     @ (if \<not> mine \<and> truthy (lf_search f) then [SecSearchChip] else [])
     @ (if sf_eventType f \<noteq> AUDIT_ALL_VALUE then [EventTypeChip] else [])
     @ (if truthy (sf_ipAddress f) then [IpChip] else [])
     @ (if sf_success f \<noteq> AUDIT_ALL_VALUE then [SuccessChip] else [])"

fun clear_security_chip :: "security_chip \<Rightarrow> security_filters \<Rightarrow> security_filters" where
  "clear_security_chip SecRangeChip f = f\<lparr>lf_time := DEFAULT_TIME_RANGE_STATE\<rparr>"
| "clear_security_chip SecSearchChip f = f\<lparr>lf_search := []\<rparr>"
| "clear_security_chip EventTypeChip f = f\<lparr>sf_eventType := AUDIT_ALL_VALUE\<rparr>"
| "clear_security_chip IpChip f = f\<lparr>sf_ipAddress := []\<rparr>"
| "clear_security_chip SuccessChip f = f\<lparr>sf_success := AUDIT_ALL_VALUE\<rparr>"

definition clear_all_security :: "bool \<Rightarrow> security_filters \<Rightarrow> security_filters" where
  "clear_all_security mine f = f\<lparr>lf_search := (if mine then lf_search f else []), sf_eventType := AUDIT_ALL_VALUE,
     sf_ipAddress := [], sf_success := AUDIT_ALL_VALUE, lf_time := DEFAULT_TIME_RANGE_STATE\<rparr>"

definition security_has_filters :: "bool \<Rightarrow> security_filters \<Rightarrow> bool" where
  "security_has_filters mine f \<longleftrightarrow> \<not> mine \<and> truthy (lf_search f) \<or> sf_eventType f \<noteq> AUDIT_ALL_VALUE
     \<or> truthy (sf_ipAddress f) \<or> sf_success f \<noteq> AUDIT_ALL_VALUE"

section \<open>Chips\<close>

text \<open>Clicking the cross of one shown chip after the other.\<close>

fun click_chips :: "('f \<Rightarrow> 'c list) \<Rightarrow> ('c \<Rightarrow> 'f \<Rightarrow> 'f) \<Rightarrow> 'f \<Rightarrow> 'c list \<Rightarrow> 'f option" where
  "click_chips chips clear f [] = Some f"
| "click_chips chips clear f (c # cs) = (if c \<in> set (chips f) then click_chips chips clear (clear c f) cs else None)"

locale filter_chips =
  fixes chips :: "'f \<Rightarrow> 'c list"
    and clear :: "'c \<Rightarrow> 'f \<Rightarrow> 'f"
    and clear_all :: "'f \<Rightarrow> 'f"
    and active :: "'f \<Rightarrow> nat"
    and ok :: "'f \<Rightarrow> bool"
  assumes click_one: "ok f \<Longrightarrow> c \<in> set (chips f) \<Longrightarrow>
      ok (clear c f) \<and> active f = Suc (active (clear c f)) \<and> clear_all (clear c f) = clear_all f"
    and none_active: "ok f \<Longrightarrow> chips f = [] \<longleftrightarrow> active f = 0"
    and all_clear: "ok f \<Longrightarrow> active f = 0 \<Longrightarrow> clear_all f = f"
begin

lemma clicks: "ok f \<Longrightarrow> click_chips chips clear f cs = Some f' \<Longrightarrow>
  ok f' \<and> active f = length cs + active f' \<and> clear_all f' = clear_all f"
proof (induction cs arbitrary: f)
  case (Cons c cs)
  then have c: "c \<in> set (chips f)" and rest: "click_chips chips clear (clear c f) cs = Some f'"
    by (simp_all split: if_split_asm)
  from click_one [OF Cons.prems(1) c] Cons.IH [OF _ rest] show ?case by simp
qed simp

lemma clicked_away:
  "ok f \<Longrightarrow> click_chips chips clear f cs = Some f' \<Longrightarrow> chips f' = [] \<Longrightarrow> f' = clear_all f \<and> length cs = active f"
  using clicks [of f cs f'] none_active [of f'] all_clear [of f'] by simp

lemma can_click_away: "ok f \<Longrightarrow> \<exists>cs f'. click_chips chips clear f cs = Some f' \<and> chips f' = []"
proof (induction "active f" arbitrary: f)
  case 0
  then have "chips f = []" using none_active by simp
  then show ?case by (intro exI [of _ "[]"] exI [of _ f]) simp
next
  case (Suc n)
  then obtain c where c: "c \<in> set (chips f)" using none_active [of f] by (cases "chips f") auto
  have "n = active (clear c f)" "ok (clear c f)" using Suc(2) click_one [OF Suc.prems c] by simp_all
  from Suc(1) [OF this] obtain cs f' where
    "click_chips chips clear (clear c f) cs = Some f'" "chips f' = []" by blast
  with c show ?case by (intro exI [of _ "c # cs"] exI [of _ f']) simp
qed

end

definition authorization_active :: "bool \<Rightarrow> authorization_filters \<Rightarrow> nat" where
  "authorization_active mine f = of_bool (isRangeActive (lf_time f)) + of_bool (\<not> mine \<and> truthy (lf_search f))
     + of_bool (af_action f \<noteq> AUDIT_ALL_VALUE) + of_bool (af_resourceType f \<noteq> AUDIT_ALL_VALUE) + of_bool (af_allowed f \<noteq> AUDIT_ALL_VALUE)"

definition security_active :: "bool \<Rightarrow> security_filters \<Rightarrow> nat" where
  "security_active mine f = of_bool (isRangeActive (lf_time f)) + of_bool (\<not> mine \<and> truthy (lf_search f))
     + of_bool (sf_eventType f \<noteq> AUDIT_ALL_VALUE) + of_bool (truthy (sf_ipAddress f)) + of_bool (sf_success f \<noteq> AUDIT_ALL_VALUE)"

text \<open>The control leaves no dates with a preset, so a range without a chip is the default.\<close>

definition default_range_plain :: "'x log_filters_scheme \<Rightarrow> bool" where
  "default_range_plain f \<longleftrightarrow> (tr_range (lf_time f) = DEFAULT_TIME_RANGE \<longrightarrow> lf_time f = DEFAULT_TIME_RANGE_STATE)"

lemma control_leaves_plain: "range_ok (c, lf_time f) \<Longrightarrow> default_range_plain f"
  by (cases "lf_time f")
    (auto simp: range_ok_def default_range_plain_def DEFAULT_TIME_RANGE_STATE_def DEFAULT_TIME_RANGE_def split: if_split_asm)

lemma inactive_range: "default_range_plain f \<Longrightarrow> \<not> isRangeActive (lf_time f) \<Longrightarrow> lf_time f = DEFAULT_TIME_RANGE_STATE"
  by (simp add: default_range_plain_def isRangeActive_def)

lemma default_inactive [simp]: "\<not> isRangeActive DEFAULT_TIME_RANGE_STATE"
  by (simp add: isRangeActive_def DEFAULT_TIME_RANGE_STATE_def DEFAULT_TIME_RANGE_def)

lemmas chip_defs = AUDIT_ALL_VALUE_def truthy_def default_range_plain_def

interpretation authorization_chips: filter_chips "authorization_chips mine" clear_authorization_chip
  "clear_all_authorization mine" "authorization_active mine" default_range_plain
proof
  fix c and f :: authorization_filters assume ok: "default_range_plain f"
  show "default_range_plain (clear_authorization_chip c f)
      \<and> authorization_active mine f = Suc (authorization_active mine (clear_authorization_chip c f))
      \<and> clear_all_authorization mine (clear_authorization_chip c f) = clear_all_authorization mine f"
    if "c \<in> set (authorization_chips mine f)"
    using ok that by (cases c)
      (auto simp: authorization_chips_def authorization_active_def clear_all_authorization_def chip_defs split: if_split_asm)
  show "authorization_chips mine f = [] \<longleftrightarrow> authorization_active mine f = 0"
    by (simp add: authorization_chips_def authorization_active_def)
  show "clear_all_authorization mine f = f" if "authorization_active mine f = 0"
    using that inactive_range [OF ok]
    by (cases f) (auto simp: authorization_active_def clear_all_authorization_def chip_defs)
qed

interpretation security_chips: filter_chips "security_chips mine" clear_security_chip
  "clear_all_security mine" "security_active mine" default_range_plain
proof
  fix c and f :: security_filters assume ok: "default_range_plain f"
  show "default_range_plain (clear_security_chip c f)
      \<and> security_active mine f = Suc (security_active mine (clear_security_chip c f))
      \<and> clear_all_security mine (clear_security_chip c f) = clear_all_security mine f"
    if "c \<in> set (security_chips mine f)"
    using ok that by (cases c)
      (auto simp: security_chips_def security_active_def clear_all_security_def chip_defs split: if_split_asm)
  show "security_chips mine f = [] \<longleftrightarrow> security_active mine f = 0"
    by (simp add: security_chips_def security_active_def)
  show "clear_all_security mine f = f" if "security_active mine f = 0"
    using that inactive_range [OF ok]
    by (cases f) (auto simp: security_active_def clear_all_security_def chip_defs)
qed

text \<open>C26. The chips of the audit log tell the truth about its filters: clicking shown chips away in any order ends,
  after as many clicks as filters are set, in exactly the filters "Clear filters" sets, and with none set
  there is no chip; for both logs and both scopes.\<close>

theorem chips_reach_clear_all:
  assumes "default_range_plain f" and "default_range_plain g"
  shows "(click_chips (authorization_chips mine) clear_authorization_chip f cs = Some f' \<and> authorization_chips mine f' = []
        \<longrightarrow> f' = clear_all_authorization mine f \<and> length cs = authorization_active mine f)
    \<and> (\<exists>cs f'. click_chips (authorization_chips mine) clear_authorization_chip f cs = Some f' \<and> authorization_chips mine f' = [])
    \<and> (click_chips (security_chips mine) clear_security_chip g ds = Some g' \<and> security_chips mine g' = []
        \<longrightarrow> g' = clear_all_security mine g \<and> length ds = security_active mine g)
    \<and> (\<exists>cs g'. click_chips (security_chips mine) clear_security_chip g cs = Some g' \<and> security_chips mine g' = [])"
  using authorization_chips.clicked_away [OF assms(1)] authorization_chips.can_click_away [OF assms(1)]
    security_chips.clicked_away [OF assms(2)] security_chips.can_click_away [OF assms(2)] by blast

theorem chips_reach_clear_all_witness:
  "click_chips (authorization_chips False) clear_authorization_chip
     (authorization_defaults\<lparr>af_action := ''users:read_own'', af_allowed := ''true''\<rparr>) [AllowedChip, ActionChip]
   = Some (clear_all_authorization False authorization_defaults)"
proof -
  let ?f = "authorization_defaults\<lparr>af_action := ''users:read_own'', af_allowed := ''true''\<rparr>"
  have c: "click_chips (authorization_chips False) clear_authorization_chip ?f [AllowedChip, ActionChip] = Some authorization_defaults"
    "authorization_chips False authorization_defaults = []"
    by code_simp+
  have "default_range_plain ?f" "default_range_plain security_defaults"
    by (simp_all add: default_range_plain_def authorization_defaults_def security_defaults_def)
  from chips_reach_clear_all [OF this, of False "[AllowedChip, ActionChip]" authorization_defaults "[]" security_defaults] c
  have "authorization_defaults = clear_all_authorization False ?f" by blast
  moreover have "clear_all_authorization False ?f = clear_all_authorization False authorization_defaults"
    by (simp add: clear_all_authorization_def)
  ultimately show ?thesis using c(1) by simp
qed

text \<open>Choosing a whole resource type and then one action of another keeps both filters in the request, while the
  chips and the picker show only the action; "All" in the picker and the action's chip leave the resource
  type behind. And an event type set from a row that the picker does not list is active while the picker
  says that all events are shown.\<close>

theorem hidden_resource_filter:
  assumes "rt \<noteq> AUDIT_ALL_VALUE" and "a \<noteq> AUDIT_ALL_VALUE" and "ty \<noteq> AUDIT_ALL_VALUE" "ty \<notin> set SECURITY_EVENT_TYPES"
  shows "al_action (authorization_params mine page ds q (setAction a (onSelectGroup rt f))) = Some a
    \<and> al_resourceType (authorization_params mine page ds q (setAction a (onSelectGroup rt f))) = Some rt
    \<and> ResourceTypeChip \<notin> set (authorization_chips mine (setAction a (onSelectGroup rt f)))
    \<and> al_resourceType (authorization_params mine page ds q (setAction AUDIT_ALL_VALUE (setAction a (onSelectGroup rt f)))) = Some rt
    \<and> triggerLabel (eventGroups t) AUDIT_ALL_VALUE allEvents ty = allEvents
    \<and> al_eventType (security_params mine page ds ip q (security_defaults\<lparr>sf_eventType := ty\<rparr>)) = Some ty"
proof (intro conjI)
  have "ty \<notin> so_value ` set (concat (map og_options (eventGroups t)))"
    using assms(4) event_values [of t] mset_eq_setD [OF event_types_grouped] by (metis set_map)
  then have "find (\<lambda>o1. so_value o1 = ty) (concat (map og_options (eventGroups t))) = None"
    unfolding find_None_iff by blast
  then show "triggerLabel (eventGroups t) AUDIT_ALL_VALUE allEvents ty = allEvents" by (simp add: triggerLabel_def)
qed (use assms in \<open>simp_all add: authorization_params_def security_params_def setAction_def onSelectGroup_def
    authorization_chips_def AUDIT_ALL_VALUE_def or_undefined_def truthy_def\<close>)

theorem hidden_resource_filter_witness:
  "al_resourceType (authorization_params False 1 [] \<lparr>tp_from = 0, tp_to = 0, tp_days = 1\<rparr>
     (setAction ''users:read_own'' (onSelectGroup ''policies'' authorization_defaults))) = Some ''policies''
   \<and> al_eventType (security_params False 1 [] [] \<lparr>tp_from = 0, tp_to = 0, tp_days = 1\<rparr>
     (security_defaults\<lparr>sf_eventType := ''login_success''\<rparr>)) = Some ''login_success''"
  using hidden_resource_filter [of "''policies''" "''users:read_own''" "''login_success''" False 1 "[]"
      "\<lparr>tp_from = 0, tp_to = 0, tp_days = 1\<rparr>" authorization_defaults id "[]" "[]"]
  by (simp add: AUDIT_ALL_VALUE_def SECURITY_EVENT_TYPES_def)

end
