(* ===== verification/AuditLog.thy ===== *)
theory AuditLog
  imports AuditFilters
begin

text \<open>
  The audit log page: its two rows of tabs with their deep links (\<open>audit_log/AuditLogPage.tsx\<close>), the details
  drawer that walks through a list across its pages (the four \<open>*LogSection.tsx\<close> files), and the readable
  details of a change of access (\<open>security_log/securityAccessChangeDetails.ts\<close>).
\<close>

section \<open>Category and scope\<close>

text \<open>The parts of the address bar and of the store the page reads and writes.\<close>

record audit_page =
  ap_urlCategory :: "string option"
  ap_urlScope :: "string option"
  ap_storedCategory :: "string option"
  ap_storedScope :: "string option"

definition initialCategory :: "audit_page \<Rightarrow> string" where
  "initialCategory p = (case ap_urlCategory p of Some c \<Rightarrow> c
     | None \<Rightarrow> (case ap_storedCategory p of Some c \<Rightarrow> c | None \<Rightarrow> ''authorization''))"

definition requestedScope :: "audit_page \<Rightarrow> string" where
  "requestedScope p = (case ap_urlScope p of Some c \<Rightarrow> c
     | None \<Rightarrow> (case ap_storedScope p of Some c \<Rightarrow> c | None \<Rightarrow> ''mine''))"

definition initialScope :: "auth_state \<Rightarrow> audit_page \<Rightarrow> string" where
  "initialScope s p =
     (if requestedScope p \<noteq> ''all''
         \<or> (if initialCategory p = ''authorization'' then can s (OneAction ''policies:read'')
            else can s (OneAction ''security_audit:read''))
      then requestedScope p else ''mine'')"

definition setCategory :: "string \<Rightarrow> audit_page \<Rightarrow> audit_page" where
  "setCategory v p = p\<lparr>ap_storedCategory := Some v, ap_urlCategory := Some v\<rparr>"

definition setScope :: "string \<Rightarrow> audit_page \<Rightarrow> audit_page" where
  "setScope v p = p\<lparr>ap_storedScope := Some v, ap_urlScope := Some v\<rparr>"

text \<open>The triggers of the scope tabs, and the panel shown. Both rows of tabs are keyed by what they start with.\<close>

datatype log_view = MyAuthorizationLog | AllAuthorizationLog | MySecurityLog | AllSecurityLog

definition scope_permission :: "string \<Rightarrow> string" where
  "scope_permission category = (if category = ''authorization'' then ''policies:read'' else ''security_audit:read'')"

definition scope_tabs :: "auth_state \<Rightarrow> string \<Rightarrow> string list" where
  "scope_tabs s category = ''mine'' # (if can s (OneAction (scope_permission category)) then [''all''] else [])"

definition audit_view :: "auth_state \<Rightarrow> audit_page \<Rightarrow> log_view option" where
  "audit_view s p =
     (let all_open = IfCan s (OneAction (scope_permission (initialCategory p))) None () = Children in
      if initialCategory p = ''authorization''
      then (if initialScope s p = ''mine'' then Some MyAuthorizationLog
            else if initialScope s p = ''all'' \<and> all_open then Some AllAuthorizationLog else None)
      else if initialCategory p = ''security''
      then (if initialScope s p = ''mine'' then Some MySecurityLog
            else if initialScope s p = ''all'' \<and> all_open then Some AllSecurityLog else None)
      else None)"

fun view_permission :: "log_view \<Rightarrow> string option" where
  "view_permission AllAuthorizationLog = Some ''policies:read''"
| "view_permission AllSecurityLog = Some ''security_audit:read''"
| "view_permission _ = None"

definition log_view_of :: "string \<Rightarrow> string \<Rightarrow> log_view" where
  "log_view_of category scope = (if category = ''authorization''
     then (if scope = ''all'' then AllAuthorizationLog else MyAuthorizationLog)
     else (if scope = ''all'' then AllSecurityLog else MySecurityLog))"

definition known_page :: "audit_page \<Rightarrow> bool" where
  "known_page p \<longleftrightarrow> initialCategory p \<in> {''authorization'', ''security''} \<and> requestedScope p \<in> {''mine'', ''all''}"

text \<open>C23. The log of all users is shown only to a caller with its permission, whatever the address bar or the store
  says. A page with known tabs always shows a list, the requested one if its scope is open to the caller
  and the caller's own otherwise, and choosing a tab that is offered shows it. The two categories share one scope: what is
  chosen in one is shown in the other too, where it is open to the caller; where it is not, the caller's own log is shown,
  and going back shows what was shown before.\<close>

theorem audit_log_view:
  assumes "known_page p" and "c \<in> {''authorization'', ''security''}" and "sc \<in> set (scope_tabs s (initialCategory p))"
  shows "audit_view s p = Some (log_view_of (initialCategory p)
        (if requestedScope p \<in> set (scope_tabs s (initialCategory p)) then requestedScope p else ''mine''))
    \<and> (\<forall>q v a. audit_view s q = Some v \<and> view_permission v = Some a \<longrightarrow> can s (OneAction a))
    \<and> audit_view s (setScope sc p) = Some (log_view_of (initialCategory p) sc)
    \<and> audit_view s (setCategory c p) = Some (log_view_of c
        (if requestedScope p \<in> set (scope_tabs s c) then requestedScope p else ''mine''))
    \<and> audit_view s (setCategory c (setScope sc p)) = Some (log_view_of c (if sc \<in> set (scope_tabs s c) then sc else ''mine''))
    \<and> audit_view s (setCategory (initialCategory p) (setCategory c p)) = audit_view s p"
proof (intro conjI allI impI)
  have view: "audit_view s q = Some (log_view_of (initialCategory q)
        (if requestedScope q \<in> set (scope_tabs s (initialCategory q)) then requestedScope q else ''mine''))"
    if "known_page q" for q
    using that unfolding known_page_def
    by (auto simp: audit_view_def Let_def initialScope_def scope_tabs_def scope_permission_def IfCan_children log_view_of_def)
  show "audit_view s p = Some (log_view_of (initialCategory p)
        (if requestedScope p \<in> set (scope_tabs s (initialCategory p)) then requestedScope p else ''mine''))"
    by (rule view [OF assms(1)])
  have c: "initialCategory (setCategory c p) = c" "requestedScope (setCategory c p) = requestedScope p"
    "initialCategory (setScope sc p) = initialCategory p" "requestedScope (setScope sc p) = sc"
    by (simp_all add: initialCategory_def requestedScope_def setCategory_def setScope_def split: option.split)
  have c': "initialCategory (setCategory d q) = d" "requestedScope (setCategory d q) = requestedScope q"
    "requestedScope (setScope sc q) = sc" for d q
    by (simp_all add: initialCategory_def requestedScope_def setCategory_def setScope_def split: option.split)
  have k: "known_page (setScope sc p)" "known_page (setCategory c p)" "known_page (setCategory c (setScope sc p))"
    "known_page (setCategory (initialCategory p) (setCategory c p))"
    using assms unfolding known_page_def c c' by (auto simp: scope_tabs_def split: if_split_asm)
  show "audit_view s (setCategory c (setScope sc p)) = Some (log_view_of c (if sc \<in> set (scope_tabs s c) then sc else ''mine''))"
    using view [OF k(3)] by (simp add: c')
  show "audit_view s (setCategory (initialCategory p) (setCategory c p)) = audit_view s p"
    using view [OF k(4)] view [OF assms(1)] by (simp add: c')
  show "audit_view s (setScope sc p) = Some (log_view_of (initialCategory p) sc)"
    using view [OF k(1)] assms(3) by (simp add: c)
  show "audit_view s (setCategory c p) = Some (log_view_of c
        (if requestedScope p \<in> set (scope_tabs s c) then requestedScope p else ''mine''))"
    using view [OF k(2)] by (simp add: c)
next
  fix q v a
  assume "audit_view s q = Some v \<and> view_permission v = Some a"
  then show "can s (OneAction a)"
    by (cases v) (auto simp: audit_view_def Let_def scope_permission_def IfCan_children split: if_split_asm)
qed

theorem audit_log_view_witness:
  "audit_view auth_initial (setCategory ''security''
     \<lparr>ap_urlCategory = None, ap_urlScope = Some ''all'', ap_storedCategory = None, ap_storedScope = None\<rparr>)
   = Some MySecurityLog"
proof -
  let ?p = "\<lparr>ap_urlCategory = None, ap_urlScope = Some ''all'', ap_storedCategory = None, ap_storedScope = None\<rparr>"
  have "known_page ?p" by (simp add: known_page_def initialCategory_def requestedScope_def)
  moreover have "scope_tabs auth_initial c = [''mine'']" for c by (simp add: scope_tabs_def can_def auth_initial_def)
  ultimately show ?thesis
    using audit_log_view [of ?p "''security''" "''mine''" auth_initial]
    by (simp add: requestedScope_def log_view_of_def)
qed

section \<open>The details drawer\<close>

text \<open>What a list query gives its section in a render.\<close>

record 'e log_query =
  lq_data :: "'e log_page option"
  lq_isFetching :: bool
  lq_isPlaceholderData :: bool

record 'e drawer =
  dr_openGlobalIndex :: "int option"
  dr_openEntry :: "'e option"

definition drawer_closed :: "'e drawer" where
  "drawer_closed = \<lparr>dr_openGlobalIndex = None, dr_openEntry = None\<rparr>"

text \<open>\<open>data?.rows[i]\<close>.\<close>

definition row_at :: "'e log_query \<Rightarrow> int \<Rightarrow> 'e option" where
  "row_at q i = (case lq_data q of
      Some d \<Rightarrow> if 0 \<le> i \<and> i < int (length (lp_rows d)) then Some (lp_rows d ! nat i) else None
    | None \<Rightarrow> None)"

definition or_entry :: "'e option \<Rightarrow> 'e option \<Rightarrow> 'e option" where
  "or_entry a b = (case a of Some e \<Rightarrow> Some e | None \<Rightarrow> b)"

definition drawerEntry :: "int \<Rightarrow> 'e log_query \<Rightarrow> 'e drawer \<Rightarrow> 'e option" where
  "drawerEntry page q d = (case dr_openGlobalIndex d of
      Some i \<Rightarrow> if i div AUDIT_PAGE_SIZE + 1 = page \<and> \<not> lq_isPlaceholderData q \<and> \<not> lq_isFetching q
        then or_entry (row_at q (i mod AUDIT_PAGE_SIZE)) (dr_openEntry d) else dr_openEntry d
    | None \<Rightarrow> dr_openEntry d)"

fun findIndex :: "('e \<Rightarrow> bool) \<Rightarrow> 'e list \<Rightarrow> nat option" where
  "findIndex p [] = None"
| "findIndex p (x # xs) = (if p x then Some 0 else map_option Suc (findIndex p xs))"

definition onRowClick :: "('e \<Rightarrow> 'k) \<Rightarrow> int \<Rightarrow> 'e log_query \<Rightarrow> 'e \<Rightarrow> 'e drawer \<Rightarrow> 'e drawer" where
  "onRowClick row_id page q row d =
     (case Option.bind (lq_data q) (\<lambda>p. findIndex (\<lambda>r. row_id r = row_id row) (lp_rows p)) of
        Some k \<Rightarrow> \<lparr>dr_openGlobalIndex = Some ((page - 1) * AUDIT_PAGE_SIZE + int k), dr_openEntry = Some row\<rparr>
      | None \<Rightarrow> d)"

text \<open>Both arrows give the drawer and the page afterwards.\<close>

definition onPrevious :: "int \<Rightarrow> 'e log_query \<Rightarrow> 'e drawer \<Rightarrow> 'e drawer \<times> int" where
  "onPrevious page q d = (case dr_openGlobalIndex d of
      None \<Rightarrow> (d, page)
    | Some i \<Rightarrow> if i \<le> 0 then (d, page)
        else let n = i - 1; nextPage = n div AUDIT_PAGE_SIZE + 1; d1 = d\<lparr>dr_openGlobalIndex := Some n\<rparr> in
          if nextPage \<noteq> page then (d1, nextPage)
          else (d1\<lparr>dr_openEntry := or_entry (row_at q (n mod AUDIT_PAGE_SIZE)) (dr_openEntry d)\<rparr>, page))"

definition onNext :: "int \<Rightarrow> 'e log_query \<Rightarrow> 'e drawer \<Rightarrow> 'e drawer \<times> int" where
  "onNext page q d = (case (dr_openGlobalIndex d, lq_data q) of
      (Some i, Some p) \<Rightarrow> if i \<ge> lp_total p - 1 then (d, page)
        else let n = i + 1; nextPage = n div AUDIT_PAGE_SIZE + 1; d1 = d\<lparr>dr_openGlobalIndex := Some n\<rparr> in
          if nextPage \<noteq> page then (d1, nextPage)
          else (d1\<lparr>dr_openEntry := or_entry (row_at q (n mod AUDIT_PAGE_SIZE)) (dr_openEntry d)\<rparr>, page)
    | _ \<Rightarrow> (d, page))"

definition canGoPrevious :: "'e drawer \<Rightarrow> bool" where
  "canGoPrevious d = (case dr_openGlobalIndex d of Some i \<Rightarrow> i > 0 | None \<Rightarrow> False)"

definition canGoNext :: "'e log_query \<Rightarrow> 'e drawer \<Rightarrow> bool" where
  "canGoNext q d = (case (dr_openGlobalIndex d, lq_data q) of
      (Some i, Some p) \<Rightarrow> i < lp_total p - 1 | _ \<Rightarrow> False)"

text \<open>A list whose entries do not change while the drawer is open: a page is on its way, shown, or shown while it
  is fetched again. The page the arrows lead to may be in the cache (\<open>cached\<close>).\<close>

datatype page_phase = Loading | Settled | Refetching

definition log_query_of :: "'e list \<Rightarrow> int \<Rightarrow> page_phase \<Rightarrow> 'e log_query" where
  "log_query_of es page ph = \<lparr>lq_data = (if ph = Loading then None
       else Some (toPageResult (take (nat AUDIT_PAGE_SIZE) (drop (nat ((page - 1) * AUDIT_PAGE_SIZE)) es)) (Some (int (length es))))),
     lq_isFetching = (ph \<noteq> Settled), lq_isPlaceholderData = False\<rparr>"

record 'e drawer_state =
  ds_page :: int
  ds_phase :: page_phase
  ds_drawer :: "'e drawer"

datatype 'e drawer_event = ClickRow 'e | GoPrevious bool | GoNext bool | CloseDrawer | PageArrives | PageRefetches
  | TurnPage int bool

definition moved :: "bool \<Rightarrow> 'e drawer \<times> int \<Rightarrow> 'e drawer_state \<Rightarrow> 'e drawer_state" where
  "moved cached r s = \<lparr>ds_page = snd r, ds_phase = (if snd r = ds_page s then ds_phase s
     else if cached then Settled else Loading), ds_drawer = fst r\<rparr>"

text \<open>While the drawer is open it covers the list: rows and page buttons are not reachable.\<close>

definition drawer_step :: "('e \<Rightarrow> 'k) \<Rightarrow> 'e list \<Rightarrow> 'e drawer_state \<Rightarrow> 'e drawer_event \<Rightarrow> 'e drawer_state" where
  "drawer_step row_id es s e = (let q = log_query_of es (ds_page s) (ds_phase s); d = ds_drawer s in case e of
      ClickRow row \<Rightarrow> if dr_openGlobalIndex d = None \<and> (\<exists>p. lq_data q = Some p \<and> row \<in> set (lp_rows p))
        then s\<lparr>ds_drawer := onRowClick row_id (ds_page s) q row d\<rparr> else s
    | GoPrevious cached \<Rightarrow> if canGoPrevious d then moved cached (onPrevious (ds_page s) q d) s else s
    | GoNext cached \<Rightarrow> if canGoNext q d then moved cached (onNext (ds_page s) q d) s else s
    | CloseDrawer \<Rightarrow> s\<lparr>ds_drawer := drawer_closed\<rparr>
    | PageArrives \<Rightarrow> s\<lparr>ds_phase := Settled\<rparr>
    | PageRefetches \<Rightarrow> if ds_phase s = Settled then s\<lparr>ds_phase := Refetching\<rparr> else s
    | TurnPage p cached \<Rightarrow> if dr_openGlobalIndex d = None \<and> 1 \<le> p \<and> p \<le> totalPagesFor (int (length es))
        then moved cached (d, p) s else s)"

definition drawer_ok :: "'e list \<Rightarrow> 'e drawer_state \<Rightarrow> bool" where
  "drawer_ok es s \<longleftrightarrow> 1 \<le> ds_page s \<and> (case dr_openGlobalIndex (ds_drawer s) of
      None \<Rightarrow> dr_openEntry (ds_drawer s) = None
    | Some i \<Rightarrow> 0 \<le> i \<and> i < int (length es) \<and> ds_page s = i div AUDIT_PAGE_SIZE + 1
        \<and> (\<exists>x. dr_openEntry (ds_drawer s) = Some x \<and> x \<in> set es))"

lemma row_at_log:
  assumes "1 \<le> page" and "ph \<noteq> Loading" and "0 \<le> k" and "k < AUDIT_PAGE_SIZE"
  shows "row_at (log_query_of es page ph) k = (if (page - 1) * AUDIT_PAGE_SIZE + k < int (length es)
     then Some (es ! nat ((page - 1) * AUDIT_PAGE_SIZE + k)) else None)"
proof -
  let ?o = "(page - 1) * AUDIT_PAGE_SIZE"
  have o: "0 \<le> ?o" using assms(1) by (simp add: AUDIT_PAGE_SIZE_def)
  have len: "k < int (length (take (nat AUDIT_PAGE_SIZE) (drop (nat ?o) es))) \<longleftrightarrow> ?o + k < int (length es)"
    using assms(3,4) o by (auto simp: AUDIT_PAGE_SIZE_def)
  have "take (nat AUDIT_PAGE_SIZE) (drop (nat ?o) es) ! nat k = es ! nat (?o + k)" if "?o + k < int (length es)"
    using assms(3,4) o that by (simp add: nat_add_distrib)
  then show ?thesis
    using assms(2,3) len by (simp add: row_at_def log_query_of_def toPageResult_def)
qed

lemma row_at_index:
  assumes "ph \<noteq> Loading" and "0 \<le> i" and "i < int (length es)"
  shows "row_at (log_query_of es (i div AUDIT_PAGE_SIZE + 1) ph) (i mod AUDIT_PAGE_SIZE) = Some (es ! nat i)"
proof -
  have "0 \<le> i div AUDIT_PAGE_SIZE" using assms(2) by (simp add: AUDIT_PAGE_SIZE_def pos_imp_zdiv_nonneg_iff)
  moreover have "0 \<le> i mod AUDIT_PAGE_SIZE" "i mod AUDIT_PAGE_SIZE < AUDIT_PAGE_SIZE" by (simp_all add: AUDIT_PAGE_SIZE_def)
  moreover have "(i div AUDIT_PAGE_SIZE + 1 - 1) * AUDIT_PAGE_SIZE + i mod AUDIT_PAGE_SIZE = i" by simp
  ultimately show ?thesis using row_at_log [of "i div AUDIT_PAGE_SIZE + 1" ph "i mod AUDIT_PAGE_SIZE" es] assms by simp
qed

lemma row_at_loading: "row_at (log_query_of es page Loading) k = None"
  by (simp add: row_at_def log_query_of_def)

lemma findIndex_Some: "findIndex p xs = Some k \<Longrightarrow> k < length xs \<and> p (xs ! k)"
  by (induction xs arbitrary: k) (auto split: if_split_asm)

lemma findIndex_None: "findIndex p xs = None \<longleftrightarrow> (\<forall>x \<in> set xs. \<not> p x)"
  by (induction xs) auto

lemma clicked_row:
  assumes "lq_data (log_query_of es page ph) = Some p" and "row \<in> set (lp_rows p)" and "1 \<le> page"
  obtains i where "onRowClick row_id page (log_query_of es page ph) row d
      = \<lparr>dr_openGlobalIndex = Some i, dr_openEntry = Some row\<rparr>"
    and "0 \<le> i" "i < int (length es)" "page = i div AUDIT_PAGE_SIZE + 1" "row_id (es ! nat i) = row_id row"
proof -
  let ?o = "nat ((page - 1) * AUDIT_PAGE_SIZE)" and ?id = "\<lambda>r. row_id r = row_id row"
  have rows: "lp_rows p = take (nat AUDIT_PAGE_SIZE) (drop ?o es)" "lq_data (log_query_of es page ph) = Some p"
    using assms(1) by (auto simp: log_query_of_def toPageResult_def split: if_split_asm)
  obtain k where k: "findIndex ?id (lp_rows p) = Some k"
    using findIndex_None [of ?id "lp_rows p"] assms(2) by (cases "findIndex ?id (lp_rows p)") auto
  note found = findIndex_Some [OF k]
  let ?i = "(page - 1) * AUDIT_PAGE_SIZE + int k"
  have k25: "int k < AUDIT_PAGE_SIZE" "?o + k < length es" using found rows by (auto simp: AUDIT_PAGE_SIZE_def)
  have o: "int ?o = (page - 1) * AUDIT_PAGE_SIZE" using assms(3) by (simp add: AUDIT_PAGE_SIZE_def)
  have nat_i: "nat ?i = ?o + k" using o by linarith
  show thesis
  proof (rule that [of ?i])
    show "onRowClick row_id page (log_query_of es page ph) row d
      = \<lparr>dr_openGlobalIndex = Some ?i, dr_openEntry = Some row\<rparr>"
      using k rows(2) by (simp add: onRowClick_def)
    show "0 \<le> ?i" "?i < int (length es)" using o k25 by linarith+
    show "page = ?i div AUDIT_PAGE_SIZE + 1"
      using k25(1) by (simp add: AUDIT_PAGE_SIZE_def div_add1_eq)
    show "row_id (es ! nat ?i) = row_id row" using found rows(1) unfolding nat_i by auto
  qed
qed

lemma rows_in:
  assumes "lq_data (log_query_of es page ph) = Some p" and "x \<in> set (lp_rows p)"
  shows "x \<in> set es"
proof -
  have "x \<in> set (take (nat AUDIT_PAGE_SIZE) (drop (nat ((page - 1) * AUDIT_PAGE_SIZE)) es))"
    using assms by (auto simp: log_query_of_def toPageResult_def split: if_split_asm)
  then show ?thesis by (meson in_set_takeD in_set_dropD)
qed

lemma row_at_in: "row_at (log_query_of es page ph) k = Some y \<Longrightarrow> y \<in> set es"
  by (auto simp: row_at_def split: option.split_asm if_split_asm intro!: rows_in [where es = es] nth_mem)

lemma drawer_step_ok: "drawer_ok es s \<Longrightarrow> drawer_ok es (drawer_step row_id es s e)"
proof -
  assume ok: "drawer_ok es s"
  let ?q = "log_query_of es (ds_page s) (ds_phase s)"
  have entry: "dr_openEntry (ds_drawer s) = Some x \<Longrightarrow> x \<in> set es \<Longrightarrow>
      \<exists>y. or_entry (row_at ?q k) (dr_openEntry (ds_drawer s)) = Some y \<and> y \<in> set es" for k x
    by (auto simp: or_entry_def split: option.split dest: row_at_in)
  have data: "lp_total p = int (length es)" if "lq_data ?q = Some p" for p
    using that by (auto simp: log_query_of_def toPageResult_def split: if_split_asm)
  show ?thesis
  proof (cases e)
    case (ClickRow row)
    show ?thesis
    proof (cases "dr_openGlobalIndex (ds_drawer s) = None \<and> (\<exists>p. lq_data ?q = Some p \<and> row \<in> set (lp_rows p))")
      case True
      then obtain p where p: "lq_data ?q = Some p" "row \<in> set (lp_rows p)" by blast
      have "row \<in> set es" by (rule rows_in [OF p])
      moreover have "1 \<le> ds_page s" using ok by (simp add: drawer_ok_def)
      ultimately show ?thesis using True ClickRow
        by (auto simp: drawer_step_def drawer_ok_def elim!: clicked_row [OF p, of row_id "ds_drawer s"])
    next
      case False
      with ok ClickRow show ?thesis by (auto simp: drawer_step_def Let_def)
    qed
  next
    case (GoPrevious cached)
    then show ?thesis using ok entry
      by (cases "dr_openGlobalIndex (ds_drawer s)")
        (auto simp: drawer_step_def drawer_ok_def canGoPrevious_def onPrevious_def moved_def Let_def AUDIT_PAGE_SIZE_def)
  next
    case (GoNext cached)
    then show ?thesis using ok entry data
      by (cases "dr_openGlobalIndex (ds_drawer s)"; cases "lq_data ?q")
        (auto simp: drawer_step_def drawer_ok_def canGoNext_def onNext_def moved_def Let_def AUDIT_PAGE_SIZE_def)
  qed (use ok in \<open>auto simp: drawer_step_def drawer_ok_def drawer_closed_def moved_def Let_def split: option.split option.split_asm\<close>)
qed

interpretation drawer: event_machine "drawer_step row_id es" "drawer_ok es"
  by unfold_locales (rule drawer_step_ok)

definition drawer_mount :: "'e drawer_state" where
  "drawer_mount = \<lparr>ds_page = 1, ds_phase = Loading, ds_drawer = drawer_closed\<rparr>"

definition shown_entry :: "'e list \<Rightarrow> 'e drawer_state \<Rightarrow> 'e option" where
  "shown_entry es s = drawerEntry (ds_page s) (log_query_of es (ds_page s) (ds_phase s)) (ds_drawer s)"

lemma drawer_mount_ok: "drawer_ok es drawer_mount"
  by (simp add: drawer_ok_def drawer_mount_def drawer_closed_def)

lemma settled_entry:
  assumes "drawer_ok es s" and "dr_openGlobalIndex (ds_drawer s) = Some i" and "ds_phase s = Settled"
  shows "shown_entry es s = Some (es ! nat i)"
proof -
  have "ds_page s = i div AUDIT_PAGE_SIZE + 1" "0 \<le> i" "i < int (length es)" using assms(1,2) by (auto simp: drawer_ok_def)
  then show ?thesis
    using assms(2,3) row_at_index [of Settled i es]
    by (simp add: shown_entry_def drawerEntry_def or_entry_def) (simp add: log_query_of_def)
qed

lemma next_index:
  assumes "dr_openGlobalIndex (ds_drawer s) = Some i" and "ds_phase s \<noteq> Loading" and "i + 1 < int (length es)"
  shows "dr_openGlobalIndex (ds_drawer (drawer_step row_id es s (GoNext cached))) = Some (i + 1)"
  using assms
  by (auto simp: drawer_step_def canGoNext_def onNext_def moved_def Let_def log_query_of_def toPageResult_def split: if_split)

lemma previous_index:
  assumes "dr_openGlobalIndex (ds_drawer s) = Some i" and "0 < i"
  shows "dr_openGlobalIndex (ds_drawer (drawer_step row_id es s (GoPrevious cached))) = Some (i - 1)"
  using assms by (auto simp: drawer_step_def canGoPrevious_def onPrevious_def moved_def Let_def)

lemma arrives: "drawer_step row_id es s PageArrives = s\<lparr>ds_phase := Settled\<rparr>"
  by (simp add: drawer_step_def Let_def)

lemma step_then_arrives:
  assumes "drawer_ok es s" and "dr_openGlobalIndex (ds_drawer (drawer_step row_id es s e)) = Some j"
  shows "shown_entry es (drawer_step row_id es (drawer_step row_id es s e) PageArrives) = Some (es ! nat j)"
  using drawer_step_ok [OF drawer_step_ok [OF assms(1)], of row_id row_id e PageArrives] assms(2)
  by (intro settled_entry) (simp_all add: arrives)

text \<open>C10. The drawer walks through the whole list. In every reachable state an open drawer stands at an index of
  the list, on the page the table shows, and shows an entry; once its page has arrived that entry is the
  one at the index. The previous arrow is offered exactly where there is a preceding entry. The next arrow is offered exactly
  where there is a following one, except while the page it has just crossed into is still loading: then it is not offered at all.
  Each arrow, where offered, leads to its neighbour across the border of a page, cached or not, as soon as the page has arrived.\<close>

theorem drawer_walks_log:
  assumes "s = foldl (drawer_step row_id es) drawer_mount evs" and "dr_openGlobalIndex (ds_drawer s) = Some i"
  shows "0 \<le> i \<and> i < int (length es) \<and> ds_page s = i div AUDIT_PAGE_SIZE + 1 \<and> ds_page s \<le> totalPagesFor (int (length es))
    \<and> shown_entry es s \<noteq> None \<and> (ds_phase s = Settled \<longrightarrow> shown_entry es s = Some (es ! nat i))
    \<and> (canGoPrevious (ds_drawer s) \<longleftrightarrow> 0 < i)
    \<and> (ds_phase s \<noteq> Loading \<longrightarrow>
        canGoNext (log_query_of es (ds_page s) (ds_phase s)) (ds_drawer s) = (i + 1 < int (length es)))
    \<and> (ds_phase s = Loading \<longrightarrow> \<not> canGoNext (log_query_of es (ds_page s) (ds_phase s)) (ds_drawer s))
    \<and> (ds_phase s \<noteq> Loading \<and> i + 1 < int (length es) \<longrightarrow>
        shown_entry es (foldl (drawer_step row_id es) s [GoNext cached, PageArrives]) = Some (es ! nat (i + 1)))
    \<and> (0 < i \<longrightarrow> shown_entry es (foldl (drawer_step row_id es) s [GoPrevious cached, PageArrives]) = Some (es ! nat (i - 1)))"
proof -
  have ok: "drawer_ok es s" unfolding assms(1) by (rule drawer.run_inv [OF drawer_mount_ok])
  then have i: "0 \<le> i" "i < int (length es)" "ds_page s = i div AUDIT_PAGE_SIZE + 1"
    and entry: "\<exists>x. dr_openEntry (ds_drawer s) = Some x" using assms(2) by (auto simp: drawer_ok_def)
  have "shown_entry es s \<noteq> None"
    using entry assms(2) by (auto simp: shown_entry_def drawerEntry_def or_entry_def split: option.split)
  moreover have "canGoPrevious (ds_drawer s) \<longleftrightarrow> 0 < i" using assms(2) by (simp add: canGoPrevious_def)
  moreover have "canGoNext (log_query_of es (ds_page s) (ds_phase s)) (ds_drawer s) = (i + 1 < int (length es))"
    if "ds_phase s \<noteq> Loading" using assms(2) that by (auto simp: canGoNext_def log_query_of_def toPageResult_def)
  moreover have "\<not> canGoNext (log_query_of es (ds_page s) (ds_phase s)) (ds_drawer s)"
    if "ds_phase s = Loading" using that by (simp add: canGoNext_def log_query_of_def split: option.split)
  moreover have "shown_entry es (foldl (drawer_step row_id es) s [GoNext cached, PageArrives]) = Some (es ! nat (i + 1))"
    if "ds_phase s \<noteq> Loading" "i + 1 < int (length es)"
    using step_then_arrives [OF ok next_index [OF assms(2) that]] by simp
  moreover have "shown_entry es (foldl (drawer_step row_id es) s [GoPrevious cached, PageArrives]) = Some (es ! nat (i - 1))"
    if "0 < i" using step_then_arrives [OF ok previous_index [OF assms(2) that]] by simp
  ultimately show ?thesis
    using i settled_entry [OF ok assms(2)] totalPagesFor_covers(1) [OF i(1,2)] by simp
qed

theorem drawer_walks_log_witness:
  "shown_entry [7, 8 :: nat] (foldl (drawer_step id [7, 8])
     (foldl (drawer_step id [7, 8]) drawer_mount [PageArrives, ClickRow 7]) [GoNext True, PageArrives]) = Some 8"
proof -
  let ?s = "foldl (drawer_step id [7, 8 :: nat]) drawer_mount [PageArrives, ClickRow 7]"
  have s: "dr_openGlobalIndex (ds_drawer ?s) = Some 0" "ds_phase ?s = Settled"
    by (simp_all add: drawer_mount_def drawer_closed_def drawer_step_def log_query_of_def toPageResult_def onRowClick_def AUDIT_PAGE_SIZE_def)
  show ?thesis using drawer_walks_log [OF refl s(1), of True] s(2) by simp
qed

text \<open>When the arrows have crossed the border of a page and that page is fetched again (on the next focus of the
  window, say), the drawer falls back to the entry it showed before the crossing while its position says the
  next index: the entry of the border row is remembered, the one of the new page is not.\<close>

theorem drawer_refetch_shows_other:
  assumes "distinct es" and "length es > 25"
    and "s = foldl (drawer_step id es) drawer_mount
       [PageArrives, ClickRow (es ! 24), GoNext cached, PageArrives, PageRefetches]"
  shows "dr_openGlobalIndex (ds_drawer s) = Some 25 \<and> shown_entry es s = Some (es ! 24) \<and> es ! 24 \<noteq> es ! 25"
proof -
  let ?row = "es ! 24" and ?q = "log_query_of es 1 Settled"
  have rows: "lq_data ?q = Some \<lparr>lp_rows = take 25 es, lp_total = int (length es)\<rparr>"
    by (simp add: log_query_of_def toPageResult_def AUDIT_PAGE_SIZE_def)
  have in_rows: "?row \<in> set (take 25 es)"
    using assms(2) nth_mem [of 24 "take 25 es"] by simp
  obtain k where k: "findIndex (\<lambda>r. id r = id ?row) (take 25 es) = Some k"
    using findIndex_None [of "\<lambda>r. id r = id ?row" "take 25 es"] in_rows
    by (cases "findIndex (\<lambda>r. id r = id ?row) (take 25 es)") auto
  then have "k = 24"
    using findIndex_Some [OF k] assms(1,2) nth_eq_iff_index_eq [OF assms(1), of k 24] by auto
  with k rows have click: "onRowClick id 1 ?q ?row drawer_closed = \<lparr>dr_openGlobalIndex = Some 24, dr_openEntry = Some ?row\<rparr>"
    by (simp add: onRowClick_def AUDIT_PAGE_SIZE_def)
  define s1 where "s1 = foldl (drawer_step id es) drawer_mount [PageArrives, ClickRow ?row]"
  have s1: "s1 = \<lparr>ds_page = 1, ds_phase = Settled, ds_drawer = \<lparr>dr_openGlobalIndex = Some 24, dr_openEntry = Some ?row\<rparr>\<rparr>"
    using click in_rows rows unfolding s1_def by (simp add: drawer_mount_def drawer_step_def Let_def) (simp add: drawer_closed_def)
  have s: "s = foldl (drawer_step id es) s1 [GoNext cached, PageArrives, PageRefetches]"
    unfolding assms(3) s1_def by simp
  have nxt: "drawer_step id es s1 (GoNext cached) = \<lparr>ds_page = 2, ds_phase = if cached then Settled else Loading,
      ds_drawer = \<lparr>dr_openGlobalIndex = Some 25, dr_openEntry = Some ?row\<rparr>\<rparr>"
    using assms(2) rows unfolding s1
    by (simp add: drawer_step_def canGoNext_def onNext_def moved_def Let_def AUDIT_PAGE_SIZE_def)
  have "s = \<lparr>ds_page = 2, ds_phase = Refetching, ds_drawer = \<lparr>dr_openGlobalIndex = Some 25, dr_openEntry = Some ?row\<rparr>\<rparr>"
    unfolding s by (simp add: nxt arrives) (simp add: drawer_step_def Let_def)
  moreover have "es ! 24 \<noteq> es ! 25" using assms(1,2) by (simp add: nth_eq_iff_index_eq)
  ultimately show ?thesis by (simp add: shown_entry_def drawerEntry_def log_query_of_def)
qed

theorem drawer_refetch_shows_other_witness:
  "shown_entry [0..<26] (foldl (drawer_step id [0..<26]) drawer_mount
     [PageArrives, ClickRow ([0..<26] ! 24), GoNext False, PageArrives, PageRefetches]) = Some ([0..<26] ! 24)"
  using drawer_refetch_shows_other [OF _ _ refl, of "[0..<26]" False] by simp

text \<open>The drawer follows the index, not the entry it was opened on: when the open page is fetched again and
  entries were added before it, the drawer shows another entry than the one clicked, without a sign of it.\<close>

theorem drawer_follows_index:
  assumes "distinct (added @ es)" and "added \<noteq> []" and "i < length es" and "i < 25"
    and "d = \<lparr>dr_openGlobalIndex = Some (int i), dr_openEntry = Some (es ! i)\<rparr>"
  shows "drawerEntry 1 (log_query_of es 1 Settled) d = Some (es ! i)
    \<and> drawerEntry 1 (log_query_of (added @ es) 1 Settled) d = Some ((added @ es) ! i)
    \<and> (added @ es) ! i \<noteq> es ! i"
proof -
  let ?s = "\<lambda>xs. \<lparr>ds_page = 1, ds_phase = Settled, ds_drawer = d\<lparr>dr_openEntry := Some (xs ! 0)\<rparr>\<rparr>"
  have row: "row_at (log_query_of xs 1 Settled) (int i) = Some (xs ! i)" if "i < length xs" for xs
    using row_at_log [of 1 Settled "int i" xs] assms(4) that by (simp add: AUDIT_PAGE_SIZE_def)
  have "drawerEntry 1 (log_query_of xs 1 Settled) d = Some (xs ! i)" if "i < length xs" for xs
    using row [OF that] assms(4) by (simp add: drawerEntry_def assms(5) AUDIT_PAGE_SIZE_def or_entry_def log_query_of_def)
  moreover have "es ! i = (added @ es) ! (length added + i)" by simp
  then have "(added @ es) ! i \<noteq> es ! i"
    using assms(1-3) nth_eq_iff_index_eq [OF assms(1), of i "length added + i"] by simp
  ultimately show ?thesis using assms(3) by simp
qed

theorem drawer_follows_index_witness:
  "drawerEntry 1 (log_query_of [9, 1, 2 :: nat] 1 Settled)
     \<lparr>dr_openGlobalIndex = Some 0, dr_openEntry = Some 1\<rparr> = Some 9"
  using drawer_follows_index [of "[9]" "[1, 2 :: nat]" 0, OF _ _ _ _ refl] by simp

section \<open>Details of a change of access\<close>

record security_entry =
  se_event_type :: string
  se_user_email :: "string option"
  se_event_metadata :: "json option"

definition stringValue :: "json option \<Rightarrow> string option" where
  "stringValue v = (case v of Some (JStr s) \<Rightarrow> if truthy (js_trim s) then Some s else None | _ \<Rightarrow> None)"

text \<open>A detail is the key of its label with its value.\<close>

definition detail_field :: "json option \<Rightarrow> string \<Rightarrow> string \<Rightarrow> (string \<times> string) list" where
  "detail_field m label key = (case stringValue (json_field key m) of Some v \<Rightarrow> [(label, v)] | None \<Rightarrow> [])"

definition detail_target :: "security_entry \<Rightarrow> (string \<times> string) list" where
  "detail_target e = (case se_user_email e of
      Some u \<Rightarrow> if truthy u then [(''security.drawer.targetUser'', u)] else [] | None \<Rightarrow> [])"

text \<open>Per event type: the key of the actor, and the further fields with their labels.\<close>

definition access_change_fields :: "string \<Rightarrow> (string \<times> (string \<times> string) list) option" where
  "access_change_fields ty =
     (if ty = ''policy_assigned'' then Some (''assigned_by'', [(''security.drawer.policy'', ''policy_name'')])
      else if ty = ''policy_revoked'' then Some (''revoked_by'', [(''security.drawer.policy'', ''policy_name'')])
      else if ty = ''policy_action_revoked'' then Some (''revoked_by'',
        [(''security.drawer.policy'', ''policy_name''), (''security.drawer.action'', ''action'')])
      else if ty = ''permission_granted'' then Some (''granted_by'',
        [(''security.drawer.action'', ''action''), (''security.drawer.resourceType'', ''resource_type'')])
      else if ty = ''permission_revoked'' then Some (''revoked_by'',
        [(''security.drawer.action'', ''action''), (''security.drawer.resourceType'', ''resource_type'')])
      else if ty = ''user_role_changed'' then Some (''changed_by'',
        [(''security.drawer.oldRole'', ''old_role''), (''security.drawer.newRole'', ''new_role'')])
      else None)"

definition securityAccessChangeDetails :: "security_entry \<Rightarrow> (string \<times> string) list" where
  "securityAccessChangeDetails e = (let m = se_event_metadata e in
     if \<not> json_truthy m then []
     else case access_change_fields (se_event_type e) of
         Some (actor, fs) \<Rightarrow> detail_target e @ detail_field m ''security.drawer.actor'' actor
           @ concat (map (\<lambda>(label, key). detail_field m label key) fs)
       | None \<Rightarrow> [])"

text \<open>The one-line summary: the key of its text and the values put into it, \<open>-\<close> where one is missing.\<close>

definition summary_value :: "json option \<Rightarrow> string \<Rightarrow> string" where
  "summary_value m key = (case stringValue (json_field key m) of Some v \<Rightarrow> v | None \<Rightarrow> ''-'')"

definition summary_keys :: "string \<Rightarrow> (string \<times> string list) option" where
  "summary_keys ty =
     (if ty = ''policy_assigned'' then Some (''security.details.policyAssigned'', [''policy_name'', ''assigned_by''])
      else if ty = ''policy_revoked'' then Some (''security.details.policyRevoked'', [''policy_name'', ''revoked_by''])
      else if ty = ''policy_action_revoked''
        then Some (''security.details.policyActionRevoked'', [''action'', ''policy_name'', ''revoked_by''])
      else if ty = ''permission_granted''
        then Some (''security.details.permissionGranted'', [''action'', ''resource_type'', ''granted_by''])
      else if ty = ''permission_revoked''
        then Some (''security.details.permissionRevoked'', [''action'', ''resource_type'', ''revoked_by''])
      else if ty = ''user_role_changed''
        then Some (''security.details.roleChanged'', [''old_role'', ''new_role'', ''changed_by''])
      else None)"

definition securityAccessChangeSummary :: "security_entry \<Rightarrow> (string \<times> string list) option" where
  "securityAccessChangeSummary e =
     (if securityAccessChangeDetails e = [] then None
      else map_option (\<lambda>(label, keys). (label, map (summary_value (se_event_metadata e)) keys)) (summary_keys (se_event_type e)))"

lemma detail_field_value: "(l, v) \<in> set (detail_field m label key) \<Longrightarrow> v = summary_value m key \<and> js_trim v \<noteq> []"
  by (auto simp: detail_field_def summary_value_def stringValue_def truthy_def
      split: option.split_asm json.split_asm if_split_asm)

lemma access_changes_group:
  "access_change_fields ty \<noteq> None \<longleftrightarrow> ty \<in> set (the (map_of SECURITY_EVENT_TYPE_GROUPS ''accessChanges''))"
  by (simp add: access_change_fields_def SECURITY_EVENT_TYPE_GROUPS_def)

lemma same_keys:
  assumes "access_change_fields ty = Some (actor, fs)"
  obtains label keys where "summary_keys ty = Some (label, keys)" "insert actor (snd ` set fs) \<subseteq> set keys"
  using assms by (auto simp: access_change_fields_def summary_keys_def split: if_split_asm)

text \<open>A summary is shown exactly for an entry with details, and every value of the details except the target's
  address stands in it.\<close>

theorem access_change_summary:
  "(securityAccessChangeSummary e \<noteq> None \<longleftrightarrow> securityAccessChangeDetails e \<noteq> [])
   \<and> (\<forall>label vs l v. securityAccessChangeSummary e = Some (label, vs) \<and> (l, v) \<in> set (securityAccessChangeDetails e)
        \<longrightarrow> v \<in> set vs \<or> se_user_email e = Some v)"
proof (cases "access_change_fields (se_event_type e)")
  case None
  then have "securityAccessChangeDetails e = []" by (simp add: securityAccessChangeDetails_def Let_def)
  then show ?thesis by (simp add: securityAccessChangeSummary_def)
next
  case (Some af)
  then obtain actor fs where fs: "access_change_fields (se_event_type e) = Some (actor, fs)" by (cases af) auto
  obtain label keys where keys: "summary_keys (se_event_type e) = Some (label, keys)"
    "insert actor (snd ` set fs) \<subseteq> set keys" by (rule same_keys [OF fs])
  have "v \<in> summary_value (se_event_metadata e) ` set keys \<or> se_user_email e = Some v"
    if "(l, v) \<in> set (securityAccessChangeDetails e)" for l v
    using that fs keys(2)
    by (auto simp: securityAccessChangeDetails_def Let_def detail_target_def
        split: if_split_asm option.split_asm dest!: detail_field_value intro!: imageI)
  then show ?thesis using keys(1) by (auto simp: securityAccessChangeSummary_def)
qed

end
