(* ===== verification/DataTable.thy ===== *)
theory DataTable
  imports UiHooks
begin

text \<open>
  The table of every management list (\<open>ui/DataTable\<close>): which of its four faces it shows, how its rows are
  numbered, what a click, a key or a checkbox of a row does, and how the header sorts and selects. The
  selection itself belongs to the caller; the bookkeeping of \<open>DataTableSelection.ts\<close> is in UiHooks. Labels
  are looked up by a parameter \<open>t\<close>; class names and column widths are left out.
\<close>

section \<open>DataTable.tsx\<close>

record data_table_column =
  col_key :: string
  col_header :: string
  col_sortable :: bool

datatype 'r table_face =
    TableSkeleton nat
  | TableAlert string
  | TableEmpty string
  | TableRows "('r \<times> int option) list"

definition DataTable ::
  "(string \<Rightarrow> string) \<Rightarrow> 'r list option \<Rightarrow> bool \<Rightarrow> bool \<Rightarrow> string option \<Rightarrow> string option \<Rightarrow> nat \<Rightarrow> int option
    \<Rightarrow> 'r table_face" where
  "DataTable t rows isLoading isError errorMessage emptyMessage skeletonRowCount startIndex =
     (if isLoading then TableSkeleton skeletonRowCount
      else if isError then TableAlert (case errorMessage of Some m \<Rightarrow> m | None \<Rightarrow> t ''failedToLoadData'')
      else (case rows of
          None \<Rightarrow> TableEmpty (case emptyMessage of Some m \<Rightarrow> m | None \<Rightarrow> t ''noDataAvailable'')
        | Some rs \<Rightarrow> if rs = [] then TableEmpty (case emptyMessage of Some m \<Rightarrow> m | None \<Rightarrow> t ''noDataAvailable'')
            else TableRows (map (\<lambda>(i, r). (r, map_option (\<lambda>s. s + int i + 1) startIndex)) (enumerate 0 rs))))"

section \<open>DataTableRow.tsx\<close>

record row_props =
  rp_selectable :: bool
  rp_disabled :: bool
  rp_rowClickSelects :: bool
  rp_isSelected :: bool
  rp_opens :: bool

datatype row_effect = NoRowEffect | ToggleSelection | OpenRow

definition clickToSelectActive :: "row_props \<Rightarrow> bool" where
  "clickToSelectActive p \<longleftrightarrow> rp_selectable p \<and> rp_rowClickSelects p \<and> \<not> rp_disabled p"

text \<open>The flag says whether the click hit a control inside the row.\<close>

definition handleRowClick :: "row_props \<Rightarrow> bool \<Rightarrow> row_effect" where
  "handleRowClick p interactive =
     (if \<not> clickToSelectActive p \<and> \<not> rp_opens p then NoRowEffect
      else if interactive then NoRowEffect
      else if clickToSelectActive p then ToggleSelection
      else if rp_opens p then OpenRow else NoRowEffect)"

definition handleRowKeyDown :: "row_props \<Rightarrow> bool \<Rightarrow> string \<Rightarrow> row_effect" where
  "handleRowKeyDown p interactive key =
     (if \<not> rp_opens p \<or> interactive then NoRowEffect
      else if key \<noteq> ''Enter'' \<and> key \<noteq> '' '' then NoRowEffect else OpenRow)"

definition checkbox_change :: "row_props \<Rightarrow> row_effect" where
  "checkbox_change p = (if \<not> rp_selectable p \<or> rp_disabled p then NoRowEffect else ToggleSelection)"

definition checkbox_checked :: "row_props \<Rightarrow> bool" where
  "checkbox_checked p \<longleftrightarrow> \<not> rp_disabled p \<and> rp_isSelected p"

section \<open>DataTableSortableHeader.tsx and DataTableSortIndicator.tsx\<close>

datatype header_check = Checked | Indeterminate | Unchecked

definition header_checkbox :: "'k list \<Rightarrow> 'k set \<Rightarrow> header_check" where
  "header_checkbox keys sel = (if isAllSelected keys sel then Checked
     else if isSomeSelected keys sel then Indeterminate else Unchecked)"

datatype aria_sort = SortNone | Ascending | Descending

definition ariaSortFor :: "data_table_column \<Rightarrow> sort_state option \<Rightarrow> aria_sort option" where
  "ariaSortFor col srt =
     (if \<not> col_sortable col then None
      else case srt of
          None \<Rightarrow> Some SortNone
        | Some s \<Rightarrow> if sort_key s \<noteq> col_key col then Some SortNone
            else Some (if sort_dir s = Asc then Ascending else Descending))"

datatype sort_icon = ArrowUp | ArrowDown | ArrowUpDown

definition renderHeaderCell :: "data_table_column \<Rightarrow> sort_state option \<Rightarrow> string \<times> sort_icon option" where
  "renderHeaderCell col srt =
     (col_header col,
      if \<not> col_sortable col then None
      else case srt of
          None \<Rightarrow> Some ArrowUpDown
        | Some s \<Rightarrow> if sort_key s = col_key col then Some (if sort_dir s = Asc then ArrowUp else ArrowDown)
            else Some ArrowUpDown)"

text \<open>The sort key a click on a header, or a key pressed on it, asks for.\<close>

definition header_click :: "data_table_column \<Rightarrow> string option" where
  "header_click col = (if col_sortable col then Some (col_key col) else None)"

definition header_key :: "data_table_column \<Rightarrow> string \<Rightarrow> string option" where
  "header_key col key = (if col_sortable col \<and> (key = ''Enter'' \<or> key = '' '') then Some (col_key col) else None)"

section \<open>The selection under the table's events\<close>

text \<open>What reaches the caller's selection: a click on a row of the list or on its checkbox, and the header's
  checkbox. The header one covers every row on screen but the disabled ones.\<close>

datatype table_event = TableClick nat bool | TableCheck nat | TableCheckAll

record ('r, 'k) table_props =
  tb_rowKey :: "'r \<Rightarrow> 'k"
  tb_rows :: "'r list option"
  tb_selectable :: bool
  tb_rowClickSelects :: bool
  tb_disabledKeys :: "'k set"

definition row_props_of :: "('r, 'k) table_props \<Rightarrow> 'k set \<Rightarrow> 'r \<Rightarrow> row_props" where
  "row_props_of b sel r = \<lparr>rp_selectable = tb_selectable b, rp_disabled = tb_rowKey b r \<in> tb_disabledKeys b,
     rp_rowClickSelects = tb_rowClickSelects b, rp_isSelected = tb_rowKey b r \<in> sel, rp_opens = False\<rparr>"

definition table_keys :: "('r, 'k) table_props \<Rightarrow> 'k list" where
  "table_keys b = allKeysOnScreen (tb_rowKey b) (tb_rows b) (tb_disabledKeys b)"

definition table_row :: "('r, 'k) table_props \<Rightarrow> nat \<Rightarrow> 'r option" where
  "table_row b n = (case tb_rows b of
      Some rs \<Rightarrow> if n < length rs then Some (rs ! n) else None | None \<Rightarrow> None)"

definition applied :: "row_effect \<Rightarrow> 'k \<Rightarrow> 'k set \<Rightarrow> 'k set" where
  "applied e k sel = (if e = ToggleSelection then toggleRow k sel else sel)"

fun table_step :: "('r, 'k) table_props \<Rightarrow> 'k set \<Rightarrow> table_event \<Rightarrow> 'k set" where
  "table_step b sel (TableClick n interactive) = (case table_row b n of
      Some r \<Rightarrow> applied (handleRowClick (row_props_of b sel r) interactive) (tb_rowKey b r) sel | None \<Rightarrow> sel)"
| "table_step b sel (TableCheck n) = (case table_row b n of
      Some r \<Rightarrow> applied (checkbox_change (row_props_of b sel r)) (tb_rowKey b r) sel | None \<Rightarrow> sel)"
| "table_step b sel TableCheckAll =
     (if tb_selectable b \<and> table_row b 0 \<noteq> None then toggleAll (table_keys b) sel else sel)"

lemma table_keys_iff: "k \<in> set (table_keys b) \<longleftrightarrow>
    k \<notin> tb_disabledKeys b \<and> (\<exists>n r. table_row b n = Some r \<and> tb_rowKey b r = k)"
proof (cases "tb_rows b")
  case (Some rs)
  have "(\<exists>n r. table_row b n = Some r \<and> tb_rowKey b r = k) \<longleftrightarrow> (\<exists>n < length rs. tb_rowKey b (rs ! n) = k)"
    using Some by (auto simp: table_row_def split: if_split_asm)
  also have "\<dots> \<longleftrightarrow> k \<in> tb_rowKey b ` set rs"
    by (metis imageE imageI in_set_conv_nth)
  finally show ?thesis using Some by (auto simp: table_keys_def allKeysOnScreen_def)
qed (simp add: table_keys_def allKeysOnScreen_def table_row_def)

lemma applied_frame: "k' \<noteq> k \<Longrightarrow> k' \<in> applied e k sel \<longleftrightarrow> k' \<in> sel"
  by (auto simp: applied_def toggleRow_def)

lemma table_step_frame:
  assumes "k \<notin> set (table_keys b)"
  shows "k \<in> table_step b sel e \<longleftrightarrow> k \<in> sel"
proof -
  have off: "tb_rowKey b r \<in> tb_disabledKeys b" if "table_row b n = Some r" "tb_rowKey b r = k" for n r
    using assms that by (auto simp: table_keys_iff)
  show ?thesis
  proof (cases e)
    case (TableClick n c)
    then show ?thesis
      using off by (auto simp: applied_def toggleRow_def row_props_of_def handleRowClick_def clickToSelectActive_def
          split: option.splits if_splits)
  next
    case (TableCheck n)
    then show ?thesis
      using off by (auto simp: applied_def toggleRow_def row_props_of_def checkbox_change_def split: option.splits if_splits)
  qed (use assms in \<open>simp add: toggleAll_frame\<close>)
qed

interpretation table_selection: event_machine "table_step b" "\<lambda>sel. sel \<inter> tb_disabledKeys b = {} \<and> sel - set (table_keys b) = sel0"
  for b :: "('r, 'k) table_props" and sel0
  by unfold_locales (auto simp: table_step_frame table_keys_iff)

lemma checkbox_reflects:
  "checkbox_checked (row_props_of b sel r) \<longleftrightarrow> tb_rowKey b r \<notin> tb_disabledKeys b \<and> tb_rowKey b r \<in> sel"
  by (auto simp: checkbox_checked_def row_props_of_def)

lemma isSomeSelected_iff: "isSomeSelected keys sel \<longleftrightarrow> set keys \<inter> sel \<noteq> {} \<and> \<not> set keys \<subseteq> sel"
proof -
  have "selectedOnScreenCount keys sel > 0 \<longleftrightarrow> set keys \<inter> sel \<noteq> {}"
    by (auto simp: selectedOnScreenCount_def filter_empty_conv)
  then show ?thesis by (auto simp: isSomeSelected_def isAllSelected_iff)
qed

lemma header_checkbox_reflects: "header_checkbox (table_keys b) sel =
    (if set (table_keys b) \<inter> sel = {} then Unchecked
     else if set (table_keys b) \<subseteq> sel then Checked else Indeterminate)"
  by (cases "table_keys b") (auto simp: header_checkbox_def isAllSelected_iff isSomeSelected_iff)

text \<open>Whatever the user clicks in a table, in whatever order, a disabled row is never selected and a key that is
  not on screen keeps its state, so a selection survives paging and filtering; the header's box then turns
  all enabled rows on or, when all are on, off, and shows the state the rows' own boxes show.\<close>

theorem table_selection_sound:
  fixes b :: "('r, 'k) table_props"
  assumes "sel \<inter> tb_disabledKeys b = {}"
  defines "sel' \<equiv> \<lambda>es. foldl (table_step b) sel es"
  shows "sel' es \<inter> tb_disabledKeys b = {} \<and> sel' es - set (table_keys b) = sel - set (table_keys b)
    \<and> (header_checkbox (table_keys b) (sel' es) = Checked
        \<longleftrightarrow> table_keys b \<noteq> [] \<and> (\<forall>r \<in> set (case tb_rows b of Some rs \<Rightarrow> rs | None \<Rightarrow> []).
              tb_rowKey b r \<notin> tb_disabledKeys b \<longrightarrow> checkbox_checked (row_props_of b (sel' es) r)))
    \<and> (tb_selectable b \<and> table_keys b \<noteq> [] \<longrightarrow>
        sel' (es @ [TableCheckAll]) = (if set (table_keys b) \<subseteq> sel' es then sel' es - set (table_keys b)
                                       else sel' es \<union> set (table_keys b)))"
proof -
  let ?inv = "\<lambda>s. s \<inter> tb_disabledKeys b = {} \<and> s - set (table_keys b) = sel - set (table_keys b)"
  have run: "?inv (sel' es)"
    using table_selection.run_inv [of sel b "sel - set (table_keys b)" es] assms(1) unfolding sel'_def by blast
  let ?rs = "case tb_rows b of Some rs \<Rightarrow> rs | None \<Rightarrow> []"
  have keys: "set (table_keys b) = {k \<in> tb_rowKey b ` set ?rs. k \<notin> tb_disabledKeys b}"
    by (auto simp: table_keys_def allKeysOnScreen_def split: option.splits)
  have boxes: "set (table_keys b) \<subseteq> sel' es \<longleftrightarrow> (\<forall>r \<in> set ?rs. tb_rowKey b r \<notin> tb_disabledKeys b \<longrightarrow>
      checkbox_checked (row_props_of b (sel' es) r))"
    unfolding keys checkbox_reflects by blast
  have "header_checkbox (table_keys b) (sel' es) = Checked \<longleftrightarrow> table_keys b \<noteq> [] \<and> set (table_keys b) \<subseteq> sel' es"
    by (auto simp: header_checkbox_def isAllSelected_iff)
  moreover have "sel' (es @ [TableCheckAll]) = (if set (table_keys b) \<subseteq> sel' es then sel' es - set (table_keys b)
      else sel' es \<union> set (table_keys b))" if on: "tb_selectable b" "table_keys b \<noteq> []"
  proof -
    obtain k where "k \<in> set (table_keys b)" using on(2) by (cases "table_keys b") auto
    then obtain n r where "table_row b n = Some r" by (auto simp: table_keys_iff)
    then have "table_row b 0 \<noteq> None" by (auto simp: table_row_def split: option.splits if_split_asm)
    then show ?thesis using on by (simp add: sel'_def toggleAll_eq isAllSelected_iff)
  qed
  ultimately show ?thesis using run unfolding boxes [symmetric] by simp
qed

theorem table_selection_sound_witness:
  "foldl (table_step \<lparr>tb_rowKey = id, tb_rows = Some [1, 2, 3::int], tb_selectable = True, tb_rowClickSelects = True,
      tb_disabledKeys = {2}\<rparr>) {7} [TableClick 1 False, TableClick 2 False, TableCheckAll] \<inter> {2} = {}"
  using table_selection_sound [of "{7}" "\<lparr>tb_rowKey = id, tb_rows = Some [1, 2, 3::int], tb_selectable = True,
      tb_rowClickSelects = True, tb_disabledKeys = {2}\<rparr>" "[TableClick 1 False, TableClick 2 False, TableCheckAll]"]
  by simp

text \<open>Rows show real rows only once they have arrived without an error, numbered by their position in the whole list.\<close>

lemma table_rows_numbered:
  "DataTable t rows ld err em mm n (Some start) = TableRows xs \<Longrightarrow> k < length xs \<Longrightarrow>
     \<exists>rs. rows = Some rs \<and> length xs = length rs \<and> xs ! k = (rs ! k, Some (start + int k + 1)) \<and> \<not> ld \<and> \<not> err"
  by (auto simp: DataTable_def nth_enumerate_eq split: if_split_asm option.splits)

text \<open>After a click on a sortable header exactly that column is announced as sorted, ascending unless it was
  ascending before, and the arrow agrees with the announcement on every column.\<close>

lemma header_sorts:
  assumes "header_click col = Some k"
  shows "ariaSortFor col (Some (nextSortState s k)) =
      Some (if ariaSortFor col (Some s) = Some Ascending then Descending else Ascending)"
    and "col_sortable col' \<Longrightarrow> col_key col' \<noteq> col_key col \<Longrightarrow>
      ariaSortFor col' (Some (nextSortState s k)) = Some SortNone"
  using assms by (auto simp: header_click_def ariaSortFor_def nextSortState_def split: if_split_asm)

lemma header_icon_agrees: "snd (renderHeaderCell col srt) =
    map_option (\<lambda>a. case a of SortNone \<Rightarrow> ArrowUpDown | Ascending \<Rightarrow> ArrowUp | Descending \<Rightarrow> ArrowDown) (ariaSortFor col srt)"
  by (auto simp: renderHeaderCell_def ariaSortFor_def split: option.split)

end
