(* ===== verification/ActiveSessions.thy ===== *)
theory ActiveSessions
  imports DataTable Mutations
begin

text \<open>
  The card that lists the caller's own login sessions and ends them (\<open>active_sessions\<close>): the labels read off a
  user agent, and the card as a machine driven by its query, its dialogs and the answers of its four
  mutations, which are those of Mutations and SessionLifecycle. The requests it sends are logged in order.
\<close>

section \<open>parseUserAgent.ts\<close>

text \<open>\<open>/pattern/i.test(ua)\<close> for a pattern of plain ASCII characters.\<close>

definition ua_has :: "string \<Rightarrow> string \<Rightarrow> bool" where
  "ua_has ua pattern = js_includes (js_lower ua) (js_lower pattern)"

definition ua_browser :: "i18n \<Rightarrow> string \<Rightarrow> string" where
  "ua_browser i ua =
     (if ua_has ua ''edg/'' then ''Edge''
      else if ua_has ua ''opr/'' \<or> ua_has ua ''opera'' then ''Opera''
      else if ua_has ua ''chrome'' \<or> ua_has ua ''crios'' then ''Chrome''
      else if ua_has ua ''firefox'' \<or> ua_has ua ''fxios'' then ''Firefox''
      else if ua_has ua ''safari'' then ''Safari''
      else i18n_t i ''dashboard:parseUserAgent.unknownBrowser'' (JObj []))"

definition ua_os :: "i18n \<Rightarrow> string \<Rightarrow> string" where
  "ua_os i ua =
     (if ua_has ua ''windows'' then ''Windows''
      else if ua_has ua ''iphone'' \<or> ua_has ua ''ipad'' \<or> ua_has ua ''ipod'' then ''iOS''
      else if ua_has ua ''mac os x'' then ''macOS''
      else if ua_has ua ''android'' then ''Android''
      else if ua_has ua ''linux'' then ''Linux''
      else i18n_t i ''dashboard:parseUserAgent.unknownOS'' (JObj []))"

definition parseUserAgent :: "i18n \<Rightarrow> string option \<Rightarrow> string" where
  "parseUserAgent i userAgent = (case userAgent of
      None \<Rightarrow> i18n_t i ''dashboard:parseUserAgent.unknownDevice'' (JObj [])
    | Some ua \<Rightarrow> if ua = [] then i18n_t i ''dashboard:parseUserAgent.unknownDevice'' (JObj [])
        else i18n_t i ''dashboard:parseUserAgent.deviceLabel''
               (JObj [(''browser'', JStr (ua_browser i ua)), (''os'', JStr (ua_os i ua))]))"

datatype device_category = Mobile | Tablet | Desktop

definition deviceCategoryFor :: "string option \<Rightarrow> device_category" where
  "deviceCategoryFor userAgent = (case userAgent of
      None \<Rightarrow> Desktop
    | Some ua \<Rightarrow> if ua = [] then Desktop
        else if ua_has ua ''ipad'' \<or> ua_has ua ''tablet'' then Tablet
        else if ua_has ua ''mobi'' \<or> ua_has ua ''iphone'' \<or> ua_has ua ''ipod'' \<or> ua_has ua ''android'' then Mobile
        else Desktop)"

text \<open>The icon and the label agree: a tablet or phone icon for everything called iOS.\<close>

lemma ios_is_handheld:
  assumes "ua_os i ua = ''iOS''" and "i18n_t i ''dashboard:parseUserAgent.unknownOS'' (JObj []) \<noteq> ''iOS''"
  shows "deviceCategoryFor (Some ua) = (if ua_has ua ''ipad'' \<or> ua_has ua ''tablet'' then Tablet else Mobile)"
proof -
  have "ua_has ua ''iphone'' \<or> ua_has ua ''ipad'' \<or> ua_has ua ''ipod''"
    using assms by (auto simp: ua_os_def split: if_split_asm)
  moreover have "ua \<noteq> []" using calculation by (auto simp: ua_has_def js_lower_def char_lower_def)
  ultimately show ?thesis by (auto simp: deviceCategoryFor_def)
qed

section \<open>The state of the card\<close>

record session_read =
  sn_id :: int
  sn_ip_address :: "string option"
  sn_city :: "string option"
  sn_country :: "string option"
  sn_user_agent :: "string option"
  sn_created_at :: string
  sn_last_used_at :: string
  sn_is_current :: bool

datatype mutation_status = Idle | Pending | Settled

record sessions_card =
  sc_sessions :: "session_read list option"
  sc_ending :: "session_read option"
  sc_lastEnding :: "session_read option"
  sc_selected :: "int set"
  sc_rowClickSelects :: bool
  sc_bulkEnding :: bool
  sc_logoutAllConfirmOpen :: bool
  sc_logout :: mutation_status
  sc_logoutAll :: mutation_status
  sc_revoking :: "int option"
  sc_bulkRevoking :: "int list option"
  sc_client :: client
  sc_sent :: "http_request list"
  sc_left :: bool

definition sessions_mount :: "client \<Rightarrow> sessions_card" where
  "sessions_mount c = \<lparr>sc_sessions = None, sc_ending = None, sc_lastEnding = None, sc_selected = {},
     sc_rowClickSelects = False, sc_bulkEnding = False, sc_logoutAllConfirmOpen = False, sc_logout = Idle,
     sc_logoutAll = Idle, sc_revoking = None, sc_bulkRevoking = None, sc_client = c, sc_sent = [], sc_left = False\<rparr>"

definition currentSessionId :: "sessions_card \<Rightarrow> int option" where
  "currentSessionId s = map_option sn_id
     (Option.bind (sc_sessions s) (List.find sn_is_current))"

definition disabledSessionKeys :: "sessions_card \<Rightarrow> int set" where
  "disabledSessionKeys s = (case currentSessionId s of Some i \<Rightarrow> {i} | None \<Rightarrow> {})"

definition dialogSession :: "sessions_card \<Rightarrow> session_read option" where
  "dialogSession s = (case sc_ending s of Some x \<Rightarrow> Some x | None \<Rightarrow> sc_lastEnding s)"

text \<open>What a render derives from the state it finds.\<close>

definition remember_ending :: "sessions_card \<Rightarrow> sessions_card" where
  "remember_ending s = (case sc_ending s of
      Some x \<Rightarrow> if sc_lastEnding s \<noteq> Some x then s\<lparr>sc_lastEnding := Some x\<rparr> else s | None \<Rightarrow> s)"

definition several :: "sessions_card \<Rightarrow> bool" where
  "several s \<longleftrightarrow> (case sc_sessions s of Some rs \<Rightarrow> length rs > 1 | None \<Rightarrow> False)"

definition sessions_table :: "sessions_card \<Rightarrow> (session_read, int) table_props" where
  "sessions_table s = \<lparr>tb_rowKey = sn_id, tb_rows = sc_sessions s, tb_selectable = several s,
     tb_rowClickSelects = sc_rowClickSelects s, tb_disabledKeys = disabledSessionKeys s\<rparr>"

text \<open>The spinner on a row's button and on the dialog's, each of which blocks the button.\<close>

definition row_busy :: "sessions_card \<Rightarrow> session_read \<Rightarrow> bool" where
  "row_busy s x \<longleftrightarrow> sn_is_current x \<and> sc_logout s = Pending \<or> \<not> sn_is_current x \<and> sc_revoking s = Some (sn_id x)"

definition dialog_busy :: "sessions_card \<Rightarrow> bool" where
  "dialog_busy s \<longleftrightarrow> (case sc_ending s of
      Some x \<Rightarrow> if sn_is_current x then sc_logout s = Pending else sc_revoking s \<noteq> None
    | None \<Rightarrow> sc_revoking s \<noteq> None)"

section \<open>Its handlers\<close>

definition send :: "http_request list \<Rightarrow> sessions_card \<Rightarrow> sessions_card" where
  "send rs s = s\<lparr>sc_sent := sc_sent s @ rs\<rparr>"

definition handleConfirm :: "sessions_card \<Rightarrow> sessions_card" where
  "handleConfirm s = (case sc_ending s of
      None \<Rightarrow> s
    | Some x \<Rightarrow> if sn_is_current x then (send [logoutApi] s)\<lparr>sc_logout := Pending, sc_ending := None\<rparr>
        else (send [revokeSessionApi (sn_id x)] s)\<lparr>sc_revoking := Some (sn_id x)\<rparr>)"

definition card_toast :: "string \<Rightarrow> toast_type \<Rightarrow> client \<Rightarrow> client" where
  "card_toast title ty c = c\<lparr>shown := shown c @ [\<lparr>shown_title = title, shown_description = None, shown_type = ty\<rparr>]\<rparr>"

definition revoke_settled :: "i18n \<Rightarrow> 'd outcome \<Rightarrow> sessions_card \<Rightarrow> sessions_card" where
  "revoke_settled i r s = (case sc_revoking s of
      None \<Rightarrow> s
    | Some sid \<Rightarrow> (case useRevokeSessionMutation i (\<lambda>rq. r) sid (sc_client s) of
          (Inr d, c) \<Rightarrow> s\<lparr>sc_revoking := None, sc_ending := None,
            sc_client := card_toast (i18n_t i ''activeSessionsCard.sessionEndedToast'' (JObj [])) ToastSuccess c\<rparr>
        | (Inl m, c) \<Rightarrow> s\<lparr>sc_revoking := None, sc_ending := None, sc_client := card_toast m ToastError c\<rparr>))"

text \<open>The spread of the selection has an order, that of its insertions; it is a parameter.\<close>

definition handleBulkConfirm :: "int list \<Rightarrow> sessions_card \<Rightarrow> sessions_card" where
  "handleBulkConfirm ids s = (if distinct ids \<and> set ids = sc_selected s
     then (send (map revokeSessionApi ids) s)\<lparr>sc_bulkRevoking := Some ids\<rparr> else s)"

definition bulk_errors :: "session_revoke_result list \<Rightarrow> nat" where
  "bulk_errors results = length (filter (\<lambda>r. sr_status r = ItemError) results)"

definition bulk_toast :: "i18n \<Rightarrow> session_revoke_result list \<Rightarrow> client \<Rightarrow> client" where
  "bulk_toast i results =
     (let errorCount = bulk_errors results; successCount = length results - errorCount in
      card_toast
        (if errorCount = 0
         then i18n_t i ''activeSessionsCard.bulkEndSuccessToast'' (JObj [(''count'', JNum (int successCount))])
         else i18n_t i ''activeSessionsCard.bulkEndPartialToast''
                (JObj [(''success'', JNum (int successCount)), (''error'', JNum (int errorCount))]))
        (if errorCount = 0 then ToastSuccess else ToastWarning))"

definition bulk_settled :: "i18n \<Rightarrow> (http_request \<Rightarrow> 'd outcome) \<Rightarrow> sessions_card \<Rightarrow> sessions_card" where
  "bulk_settled i srv s = (case sc_bulkRevoking s of
      None \<Rightarrow> s
    | Some ids \<Rightarrow> (case useBulkRevokeSessionsMutation i srv ids (sc_client s) of
        (results, c) \<Rightarrow> s\<lparr>sc_bulkRevoking := None, sc_selected := {}, sc_bulkEnding := False,
          sc_client := bulk_toast i results c\<rparr>))"

text \<open>Both logouts lead to the login page whatever the answer was.\<close>

definition logout_settled :: "i18n \<Rightarrow> (js_error + json) \<Rightarrow> sessions_card \<Rightarrow> sessions_card" where
  "logout_settled i r s = (if sc_logout s = Pending
     then s\<lparr>sc_logout := Settled, sc_client := snd (useLogoutMutation i r (sc_client s)), sc_left := True\<rparr> else s)"

definition logout_all_settled :: "i18n \<Rightarrow> (js_error + json) \<Rightarrow> sessions_card \<Rightarrow> sessions_card" where
  "logout_all_settled i r s = (if sc_logoutAll s = Pending
     then s\<lparr>sc_logoutAll := Settled, sc_client := snd (useLogoutAllMutation i r (sc_client s)), sc_left := True\<rparr> else s)"

section \<open>The card as a machine\<close>

text \<open>An open dialog covers the page: only its own buttons are reachable. A dialog can be dismissed at any
  time, while its confirm button is blocked by its spinner. After the card has left for the login page it
  takes no further event.\<close>

datatype 'd card_event =
    SessionsArrive "session_read list"
  | ClickEnd session_read | ConfirmEnd | CancelEnd
  | InTable table_event | ToggleSelectMode | ClearSelection
  | OpenBulk | ConfirmBulk "int list" | CancelBulk
  | OpenLogoutAll | ConfirmLogoutAll | CancelLogoutAll
  | RevokeSettles "'d outcome" | BulkSettles "http_request \<Rightarrow> 'd outcome"
  | LogoutSettles "js_error + json" | LogoutAllSettles "js_error + json"

definition uncovered :: "sessions_card \<Rightarrow> bool" where
  "uncovered s \<longleftrightarrow> sc_ending s = None \<and> \<not> sc_bulkEnding s \<and> \<not> sc_logoutAllConfirmOpen s"

fun card_react :: "i18n \<Rightarrow> sessions_card \<Rightarrow> 'd card_event \<Rightarrow> sessions_card" where
  "card_react i s (SessionsArrive rs) = s\<lparr>sc_sessions := Some rs\<rparr>"
| "card_react i s (ClickEnd x) = (if uncovered s \<and> \<not> row_busy s x \<and> (\<exists>rs. sc_sessions s = Some rs \<and> x \<in> set rs)
     then s\<lparr>sc_ending := Some x\<rparr> else s)"
| "card_react i s ConfirmEnd = (if sc_ending s \<noteq> None \<and> \<not> dialog_busy s then handleConfirm s else s)"
| "card_react i s CancelEnd = s\<lparr>sc_ending := None\<rparr>"
| "card_react i s (InTable e) =
     (if uncovered s then s\<lparr>sc_selected := table_step (sessions_table s) (sc_selected s) e\<rparr> else s)"
| "card_react i s ToggleSelectMode =
     (if uncovered s \<and> several s then s\<lparr>sc_rowClickSelects := \<not> sc_rowClickSelects s\<rparr> else s)"
| "card_react i s ClearSelection = (if uncovered s \<and> several s then s\<lparr>sc_selected := {}\<rparr> else s)"
| "card_react i s OpenBulk =
     (if uncovered s \<and> several s \<and> sc_selected s \<noteq> {} then s\<lparr>sc_bulkEnding := True\<rparr> else s)"
| "card_react i s (ConfirmBulk ids) =
     (if sc_bulkEnding s \<and> sc_bulkRevoking s = None then handleBulkConfirm ids s else s)"
| "card_react i s CancelBulk = s\<lparr>sc_bulkEnding := False\<rparr>"
| "card_react i s OpenLogoutAll =
     (if uncovered s \<and> sc_logoutAll s \<noteq> Pending then s\<lparr>sc_logoutAllConfirmOpen := True\<rparr> else s)"
| "card_react i s ConfirmLogoutAll = (if sc_logoutAllConfirmOpen s \<and> sc_logoutAll s \<noteq> Pending
     then (send [logoutAllApi] s)\<lparr>sc_logoutAll := Pending, sc_logoutAllConfirmOpen := False\<rparr> else s)"
| "card_react i s CancelLogoutAll = s\<lparr>sc_logoutAllConfirmOpen := False\<rparr>"
| "card_react i s (RevokeSettles r) = revoke_settled i r s"
| "card_react i s (BulkSettles srv) = bulk_settled i srv s"
| "card_react i s (LogoutSettles r) = logout_settled i r s"
| "card_react i s (LogoutAllSettles r) = logout_all_settled i r s"

definition card_step :: "i18n \<Rightarrow> sessions_card \<Rightarrow> 'd card_event \<Rightarrow> sessions_card" where
  "card_step i s e = (if sc_left s then s else remember_ending (card_react i s e))"

text \<open>The server's lists mark the session of this browser, and no other, as the current one.\<close>

definition lists_current :: "int \<Rightarrow> session_read list \<Rightarrow> bool" where
  "lists_current cur rs \<longleftrightarrow> (\<forall>x \<in> set rs. sn_is_current x \<longleftrightarrow> sn_id x = cur)"

fun arrival_ok :: "int \<Rightarrow> 'd card_event \<Rightarrow> bool" where
  "arrival_ok cur (SessionsArrive rs) = lists_current cur rs"
| "arrival_ok cur _ = True"

definition other_device_requests :: "int \<Rightarrow> http_request set" where
  "other_device_requests cur = insert logoutApi (insert logoutAllApi (revokeSessionApi ` (- {cur})))"

definition card_ok :: "int \<Rightarrow> sessions_card \<Rightarrow> bool" where
  "card_ok cur s \<longleftrightarrow>
     (\<forall>rs. sc_sessions s = Some rs \<longrightarrow> lists_current cur rs)
   \<and> (\<forall>x. sc_ending s = Some x \<longrightarrow> (sn_is_current x \<longleftrightarrow> sn_id x = cur) \<and> sc_lastEnding s = Some x)
   \<and> cur \<notin> sc_selected s
   \<and> set (sc_sent s) \<subseteq> other_device_requests cur"

lemma current_disabled:
  assumes "lists_current cur rs" and "sc_sessions s = Some rs" and "cur \<in> sn_id ` set rs"
  shows "cur \<in> disabledSessionKeys s"
proof -
  obtain x where x: "x \<in> set rs" "sn_is_current x" using assms by (auto simp: lists_current_def)
  then obtain y where y: "List.find sn_is_current rs = Some y" by (cases "List.find sn_is_current rs") (auto simp: find_None_iff)
  then have "y \<in> set rs" "sn_is_current y" by (auto simp: find_Some_iff)
  then show ?thesis using assms y by (simp add: disabledSessionKeys_def currentSessionId_def lists_current_def)
qed

lemma current_off_table:
  assumes "\<forall>rs. sc_sessions s = Some rs \<longrightarrow> lists_current cur rs"
  shows "cur \<notin> set (table_keys (sessions_table s))"
proof (cases "sc_sessions s")
  case (Some rs)
  then show ?thesis using assms current_disabled [of cur rs s]
    by (auto simp: table_keys_def allKeysOnScreen_def sessions_table_def)
qed (simp add: table_keys_def allKeysOnScreen_def sessions_table_def)

text \<open>What an answer leaves alone.\<close>

lemma revoke_settled_frame:
  "sc_sessions (revoke_settled i r s) = sc_sessions s" "sc_lastEnding (revoke_settled i r s) = sc_lastEnding s"
  "sc_selected (revoke_settled i r s) = sc_selected s" "sc_sent (revoke_settled i r s) = sc_sent s"
  "sc_ending (revoke_settled i r s) = (if sc_revoking s = None then sc_ending s else None)"
  by (simp_all add: revoke_settled_def split: option.split prod.split sum.split)

lemma bulk_settled_frame:
  "sc_sessions (bulk_settled i srv s) = sc_sessions s" "sc_lastEnding (bulk_settled i srv s) = sc_lastEnding s"
  "sc_selected (bulk_settled i srv s) = (if sc_bulkRevoking s = None then sc_selected s else {})"
  "sc_sent (bulk_settled i srv s) = sc_sent s" "sc_ending (bulk_settled i srv s) = sc_ending s"
  by (simp_all add: bulk_settled_def split: option.split prod.split)

lemma card_step_ok: "card_ok cur s \<Longrightarrow> arrival_ok cur e \<Longrightarrow> card_ok cur (card_step i s e)"
proof -
  assume ok: "card_ok cur s" and arr: "arrival_ok cur e"
  have keep: "cur \<notin> table_step (sessions_table s) (sc_selected s) t" for t
    using ok by (auto simp: card_ok_def table_step_frame [OF current_off_table])
  note defs = card_ok_def remember_ending_def other_device_requests_def
  show ?thesis
  proof (cases "sc_left s")
    case False
    then show ?thesis
      using ok arr keep unfolding card_step_def
      by (cases e) (auto simp: defs handleConfirm_def handleBulkConfirm_def send_def revoke_settled_frame bulk_settled_frame
          logout_settled_def logout_all_settled_def lists_current_def split: option.splits if_splits)
  qed (use ok in \<open>simp add: card_step_def\<close>)
qed

interpretation sessions_cards: fed_machine "card_step i" "arrival_ok cur" "card_ok cur" for i cur
  by unfold_locales (rule card_step_ok)

lemma revokeSessionApi_inj: "revokeSessionApi m = revokeSessionApi n \<Longrightarrow> m = n"
  by (auto simp: revokeSessionApi_def http_send_def dest: int_text_inj)

lemma revoke_is_no_logout: "revokeSessionApi m \<noteq> logoutApi" "revokeSessionApi m \<noteq> logoutAllApi"
  by (auto simp: revokeSessionApi_def logoutApi_def logoutAllApi_def http_send_def)

text \<open>C11. The session of this browser is never sent to the endpoint that refuses it: whatever the user clicks, in rows,
  checkboxes, row-click mode or dialogs, and however the lists arrive, the card only ever revokes other
  sessions. Ending a row that is free sends exactly the request its session needs: the ordinary logout for
  this device, the revocation of that session for another.\<close>

theorem current_device_never_revoked:
  fixes es :: "'d card_event list"
  assumes "\<forall>e \<in> set es. arrival_ok cur e"
    and "s = foldl (card_step i) (sessions_mount c) es"
    and "sc_sessions s = Some rs" and "x \<in> set rs"
    and "uncovered s" and "\<not> sc_left s" and "sc_revoking s = None" and "sc_logout s \<noteq> Pending"
  shows "revokeSessionApi cur \<notin> set (sc_sent s) \<and> cur \<notin> sc_selected s
    \<and> sc_sent (foldl (card_step i) s [ClickEnd x, ConfirmEnd :: 'd card_event])
        = sc_sent s @ [if sn_id x = cur then logoutApi else revokeSessionApi (sn_id x)]"
proof -
  have "card_ok cur (sessions_mount c)" by (simp add: card_ok_def sessions_mount_def)
  then have ok: "card_ok cur s"
    unfolding assms(2) using assms(1) by (intro sessions_cards.fed_run_inv) auto
  then have "revokeSessionApi cur \<notin> set (sc_sent s) \<and> cur \<notin> sc_selected s"
    using revokeSessionApi_inj revoke_is_no_logout by (fastforce simp: card_ok_def other_device_requests_def)
  moreover have "sn_is_current x \<longleftrightarrow> sn_id x = cur" using ok assms(3,4) by (auto simp: card_ok_def lists_current_def)
  ultimately show ?thesis
    using assms(3-) by (simp add: card_step_def remember_ending_def row_busy_def dialog_busy_def handleConfirm_def send_def)
qed

definition example_session :: "int \<Rightarrow> bool \<Rightarrow> session_read" where
  "example_session k cur = \<lparr>sn_id = k, sn_ip_address = None, sn_city = None, sn_country = None, sn_user_agent = None,
     sn_created_at = [], sn_last_used_at = [], sn_is_current = cur\<rparr>"

theorem current_device_never_revoked_witness:
  "sc_sent (foldl (card_step untranslated) (sessions_mount client_initial)
     [SessionsArrive [example_session 1 True, example_session 2 False], ClickEnd (example_session 2 False),
      ConfirmEnd :: nat card_event]) = [revokeSessionApi 2]"
proof -
  let ?rs = "[example_session 1 True, example_session 2 False]"
  let ?s = "foldl (card_step untranslated) (sessions_mount client_initial) [SessionsArrive ?rs :: nat card_event]"
  have "sc_sent (foldl (card_step untranslated) ?s [ClickEnd (example_session 2 False), ConfirmEnd :: nat card_event])
      = sc_sent ?s @ [revokeSessionApi 2]"
    using current_device_never_revoked [of "[SessionsArrive ?rs :: nat card_event]" 1 ?s untranslated client_initial ?rs
        "example_session 2 False"]
    by (simp add: lists_current_def example_session_def card_step_def remember_ending_def sessions_mount_def uncovered_def)
  then show ?thesis by (simp add: card_step_def remember_ending_def sessions_mount_def)
qed

text \<open>The toast after the bulk action counts every requested session once: as ended or as failed.\<close>

lemma bulk_results_counted:
  "fst (useBulkRevokeSessionsMutation i srv ids c) = rs \<Longrightarrow>
     length rs = length ids \<and> bulk_errors rs \<le> length rs
     \<and> (bulk_errors rs = 0 \<longleftrightarrow> (\<forall>k \<in> set ids. \<exists>d. srv (revokeSessionApi k) = Inr d))"
proof -
  have "sr_status (session_result i k r) = ItemError \<longleftrightarrow> (\<nexists>d. r = Inr d)" for k and r :: "'a outcome"
    by (cases r) (simp_all add: session_result_def)
  then show "fst (useBulkRevokeSessionsMutation i srv ids c) = rs \<Longrightarrow> ?thesis"
    by (auto simp: useBulkRevokeSessionsMutation_def bulk_errors_def filter_empty_conv) (metis (no_types))
qed

text \<open>The dialog keeps the wording of the session it was opened for while it closes.\<close>

lemma dialog_keeps_session:
  "card_ok cur s \<Longrightarrow> \<not> sc_left s \<Longrightarrow> sc_ending s = Some x \<Longrightarrow> dialogSession (card_step i s CancelEnd) = Some x"
  by (auto simp: card_ok_def card_step_def remember_ending_def dialogSession_def)

text \<open>The selection is not pruned when the list is fetched again: a session that has ended elsewhere stays
  selected without a row, is counted, and is sent along with the bulk request. And the answer to one
  revocation closes the dialog that is open when it arrives, also one opened for another session meanwhile.\<close>

theorem ended_session_stays_selected:
  "sc_selected (card_step i s (SessionsArrive rs)) = sc_selected s
   \<and> (let s1 = foldl (card_step i) (sessions_mount c)
          [SessionsArrive [example_session 1 True, example_session 2 False, example_session 3 False],
           InTable (TableCheck 1), InTable (TableCheck 2),
           SessionsArrive [example_session 1 True, example_session 3 False],
           OpenBulk, ConfirmBulk [2, 3] :: 'd card_event]
      in sc_sent s1 = [revokeSessionApi 2, revokeSessionApi 3])
   \<and> (let s2 = foldl (card_step i) (sessions_mount c)
          [SessionsArrive [example_session 1 True, example_session 2 False, example_session 3 False],
           ClickEnd (example_session 2 False), ConfirmEnd, CancelEnd, ClickEnd (example_session 3 False), RevokeSettles r]
      in sc_ending s2 = None \<and> sc_sent s2 = [revokeSessionApi 2])"
proof (intro conjI)
  show "sc_selected (card_step i s (SessionsArrive rs)) = sc_selected s"
    by (simp add: card_step_def remember_ending_def split: option.split)
next
  let ?rs = "[example_session 1 True, example_session 2 False, example_session 3 False]"
  let ?a = "(sessions_mount c)\<lparr>sc_sessions := Some ?rs\<rparr>"
  have t: "table_step (sessions_table (?a\<lparr>sc_selected := sel\<rparr>)) sel (TableCheck k)
      = toggleRow (int k + 1) sel" if "k = 1 \<or> k = 2" for k sel
    using that by (auto simp: table_row_def sessions_table_def applied_def checkbox_change_def row_props_of_def several_def
        example_session_def disabledSessionKeys_def currentSessionId_def sessions_mount_def)
  note st = card_step_def remember_ending_def
  have "sc_selected (foldl (card_step i) (sessions_mount c) [SessionsArrive ?rs, InTable (TableCheck 1), InTable (TableCheck 2) :: 'd card_event])
      = {2, 3}"
    using t [of 1 "{}"] t [of 2 "{2}"]
    by (simp add: st uncovered_def sessions_mount_def toggleRow_def insert_commute)
  then show "let s1 = foldl (card_step i) (sessions_mount c)
          [SessionsArrive ?rs, InTable (TableCheck 1), InTable (TableCheck 2),
           SessionsArrive [example_session 1 True, example_session 3 False],
           OpenBulk, ConfirmBulk [2, 3] :: 'd card_event]
      in sc_sent s1 = [revokeSessionApi 2, revokeSessionApi 3]"
    by (simp add: st uncovered_def sessions_mount_def several_def handleBulkConfirm_def send_def Let_def)
next
  show "let s2 = foldl (card_step i) (sessions_mount c)
          [SessionsArrive [example_session 1 True, example_session 2 False, example_session 3 False],
           ClickEnd (example_session 2 False), ConfirmEnd, CancelEnd, ClickEnd (example_session 3 False), RevokeSettles r]
      in sc_ending s2 = None \<and> sc_sent s2 = [revokeSessionApi 2]"
    by (simp add: card_step_def remember_ending_def sessions_mount_def uncovered_def row_busy_def dialog_busy_def
        handleConfirm_def send_def example_session_def revoke_settled_frame Let_def)
qed

end
