(* ===== verification/Preferences.thy ===== *)
theory Preferences
  imports SessionLifecycle ApiClient
begin

text \<open>
  The preferences a browser keeps: colour mode, font size, language mode with its lazily loaded packs, brand
  colour, and the online flag with its banner (\<open>store\<close>, \<open>translations/translations.ts\<close>,
  \<open>account_settings/AppearanceCard.tsx\<close>, \<open>ui/network/OfflineBanner.tsx\<close>). Each store keeps, beside its own
  value, the entry of the local storage it owns and the attribute of the document it sets. What the browser
  says of itself (its language, its colour scheme) is a parameter.
\<close>

section \<open>themeStore.ts\<close>

datatype color_mode = Light | Dark

fun color_text :: "color_mode \<Rightarrow> string" where
  "color_text Light = ''light''"
| "color_text Dark = ''dark''"

record theme_store =
  th_colorMode :: color_mode
  th_stored :: "string option"
  th_darkClass :: bool

text \<open>\<open>prefersDark\<close> is \<open>None\<close> where \<open>matchMedia\<close> does not exist.\<close>

definition getInitialColorMode :: "bool option \<Rightarrow> string option \<Rightarrow> color_mode" where
  "getInitialColorMode prefersDark stored =
     (if stored = Some ''light'' then Light else if stored = Some ''dark'' then Dark
      else (case prefersDark of None \<Rightarrow> Light | Some d \<Rightarrow> if d then Dark else Light))"

definition theme_load :: "bool option \<Rightarrow> string option \<Rightarrow> theme_store" where
  "theme_load prefersDark stored = (let m = getInitialColorMode prefersDark stored in
     \<lparr>th_colorMode = m, th_stored = stored, th_darkClass = (m = Dark)\<rparr>)"

definition setColorMode :: "color_mode \<Rightarrow> theme_store \<Rightarrow> theme_store" where
  "setColorMode m s = \<lparr>th_colorMode = m, th_stored = Some (color_text m), th_darkClass = (m = Dark)\<rparr>"

definition toggleColorMode :: "theme_store \<Rightarrow> theme_store" where
  "toggleColorMode s = (let m = (if th_colorMode s = Dark then Light else Dark) in
     \<lparr>th_colorMode = m, th_stored = Some (color_text m), th_darkClass = (m = Dark)\<rparr>)"

section \<open>fontSizeStore.ts\<close>

datatype font_size = Small | Medium | Large

fun font_text :: "font_size \<Rightarrow> string" where
  "font_text Small = ''small''"
| "font_text Medium = ''medium''"
| "font_text Large = ''large''"

definition FONT_SIZES :: "font_size list" where
  "FONT_SIZES = [Small, Medium, Large]"

text \<open>\<open>FONT_SIZE_PERCENT\<close>, in thousandths.\<close>

fun FONT_SIZE_PERCENT :: "font_size \<Rightarrow> nat" where
  "FONT_SIZE_PERCENT Small = 875"
| "FONT_SIZE_PERCENT Medium = 1000"
| "FONT_SIZE_PERCENT Large = 1125"

record font_store =
  fs_fontSize :: font_size
  fs_stored :: "string option"
  fs_root :: nat

definition getInitialFontSize :: "string option \<Rightarrow> font_size" where
  "getInitialFontSize stored =
     (if stored = Some ''small'' then Small else if stored = Some ''medium'' then Medium
      else if stored = Some ''large'' then Large else Medium)"

definition font_load :: "string option \<Rightarrow> font_store" where
  "font_load stored = (let f = getInitialFontSize stored in
     \<lparr>fs_fontSize = f, fs_stored = stored, fs_root = FONT_SIZE_PERCENT f\<rparr>)"

definition setFontSize :: "font_size \<Rightarrow> font_store \<Rightarrow> font_store" where
  "setFontSize f s = \<lparr>fs_fontSize = f, fs_stored = Some (font_text f), fs_root = FONT_SIZE_PERCENT f\<rparr>"

definition increaseFontSize :: "font_store \<Rightarrow> font_store" where
  "increaseFontSize s = setFontSize
     (FONT_SIZES ! nat (min (index_of (fs_fontSize s) FONT_SIZES + 1) (int (length FONT_SIZES) - 1))) s"

definition decreaseFontSize :: "font_store \<Rightarrow> font_store" where
  "decreaseFontSize s = setFontSize (FONT_SIZES ! nat (max (index_of (fs_fontSize s) FONT_SIZES - 1) 0)) s"

section \<open>languageStore.ts and loadLanguage\<close>

datatype language = En | Hi | Mr | Gu

definition SUPPORTED_LANGUAGES :: "language list" where
  "SUPPORTED_LANGUAGES = [En, Hi, Mr, Gu]"

fun language_text :: "language \<Rightarrow> string" where
  "language_text En = ''en''"
| "language_text Hi = ''hi''"
| "language_text Mr = ''mr''"
| "language_text Gu = ''gu''"

text \<open>A mode is a language for everything, or one for the pages under English navigation.\<close>

datatype language_mode = EnMode | HiMode | MrMode | GuMode | EnHiMode | EnMrMode | EnGuMode

definition LANGUAGE_MODES :: "language_mode list" where
  "LANGUAGE_MODES = [EnMode, HiMode, MrMode, GuMode, EnHiMode, EnMrMode, EnGuMode]"

fun mode_text :: "language_mode \<Rightarrow> string" where
  "mode_text EnMode = ''en''"
| "mode_text HiMode = ''hi''"
| "mode_text MrMode = ''mr''"
| "mode_text GuMode = ''gu''"
| "mode_text EnHiMode = ''en+hi''"
| "mode_text EnMrMode = ''en+mr''"
| "mode_text EnGuMode = ''en+gu''"

text \<open>The language of the navigation and that of the pages.\<close>

fun resolveLanguages :: "language_mode \<Rightarrow> language \<times> language" where
  "resolveLanguages EnMode = (En, En)"
| "resolveLanguages HiMode = (Hi, Hi)"
| "resolveLanguages MrMode = (Mr, Mr)"
| "resolveLanguages GuMode = (Gu, Gu)"
| "resolveLanguages EnHiMode = (En, Hi)"
| "resolveLanguages EnMrMode = (En, Mr)"
| "resolveLanguages EnGuMode = (En, Gu)"

definition isLanguageMode :: "string option \<Rightarrow> bool" where
  "isLanguageMode v \<longleftrightarrow> (case v of Some s \<Rightarrow> s \<in> mode_text ` set LANGUAGE_MODES | None \<Rightarrow> False)"

definition mode_named :: "string \<Rightarrow> language_mode option" where
  "mode_named s = List.find (\<lambda>m. mode_text m = s) LANGUAGE_MODES"

fun plain_mode :: "language \<Rightarrow> language_mode" where
  "plain_mode En = EnMode"
| "plain_mode Hi = HiMode"
| "plain_mode Mr = MrMode"
| "plain_mode Gu = GuMode"

definition getInitialMode :: "string \<Rightarrow> string option \<Rightarrow> language_mode" where
  "getInitialMode browser stored = (case Option.bind stored mode_named of
      Some m \<Rightarrow> m
    | None \<Rightarrow> (case List.find (\<lambda>l. language_text l = take 2 browser) SUPPORTED_LANGUAGES of
        Some l \<Rightarrow> plain_mode l | None \<Rightarrow> EnMode))"

text \<open>The store with \<open>languageLoadVersion\<close>, the loads on their way, the packs present, and i18next's language.\<close>

record language_store =
  la_mode :: language_mode
  la_chrome :: language
  la_page :: language
  la_revision :: nat
  la_stored :: "string option"
  la_htmlLang :: language
  la_version :: nat
  la_loading :: "(nat \<times> language) list"
  la_packs :: "language set"
  la_current :: language

definition applyMode :: "language_mode \<Rightarrow> language_store \<Rightarrow> language_store" where
  "applyMode m s = (let page = snd (resolveLanguages m); v = la_version s + 1 in
     s\<lparr>la_htmlLang := page, la_version := v, la_loading := la_loading s @ [(v, page)]\<rparr>)"

definition setMode :: "language_mode \<Rightarrow> language_store \<Rightarrow> language_store" where
  "setMode m s = (applyMode m (s\<lparr>la_stored := Some (mode_text m)\<rparr>))
     \<lparr>la_mode := m, la_chrome := fst (resolveLanguages m), la_page := snd (resolveLanguages m)\<rparr>"

definition language_load :: "string \<Rightarrow> string option \<Rightarrow> language_store" where
  "language_load browser stored = (let m = getInitialMode browser stored in
     applyMode m \<lparr>la_mode = m, la_chrome = fst (resolveLanguages m), la_page = snd (resolveLanguages m),
       la_revision = 0, la_stored = stored, la_htmlLang = En, la_version = 0, la_loading = [],
       la_packs = {En}, la_current = En\<rparr>)"

text \<open>A load settles: \<open>ok\<close> says whether its pack could be fetched, which matters only when it was not present.
  A rejected load does nothing more.\<close>

definition load_settles :: "nat \<Rightarrow> bool \<Rightarrow> language_store \<Rightarrow> language_store" where
  "load_settles v ok s = (case map_of (la_loading s) v of
      None \<Rightarrow> s
    | Some l \<Rightarrow>
        let s1 = s\<lparr>la_loading := filter (\<lambda>e. fst e \<noteq> v) (la_loading s)\<rparr> in
        if ok \<or> l \<in> la_packs s then
          let s2 = s1\<lparr>la_packs := insert l (la_packs s)\<rparr> in
          if v = la_version s then s2\<lparr>la_current := l, la_revision := la_revision s + 1\<rparr> else s2
        else s1)"

datatype language_event = ChooseMode language_mode | LoadSettles nat bool

fun language_step :: "language_store \<Rightarrow> language_event \<Rightarrow> language_store" where
  "language_step s (ChooseMode m) = setMode m s"
| "language_step s (LoadSettles v ok) = load_settles v ok s"

lemma mode_named_text: "mode_named (mode_text m) = Some m"
  by (cases m) (simp_all add: mode_named_def LANGUAGE_MODES_def)

lemma mode_named_iff: "isLanguageMode v \<longleftrightarrow> Option.bind v mode_named \<noteq> None"
proof (cases v)
  case (Some t)
  then show ?thesis
    using find_None_iff [of "\<lambda>m. mode_text m = t" LANGUAGE_MODES] by (auto simp: isLanguageMode_def mode_named_def)
qed (simp add: isLanguageMode_def)

text \<open>What the store shows always agrees with the mode; a pack is present before the pages use its language; and
  versions identify the loads on their way.\<close>

definition language_ok :: "language_store \<Rightarrow> bool" where
  "language_ok s \<longleftrightarrow> (la_chrome s, la_page s) = resolveLanguages (la_mode s) \<and> la_htmlLang s = la_page s
     \<and> la_current s \<in> la_packs s \<and> En \<in> la_packs s
     \<and> (\<forall>e \<in> set (la_loading s). fst e \<le> la_version s)
     \<and> (\<forall>l. (la_version s, l) \<in> set (la_loading s) \<longrightarrow> l = la_page s)"

lemma load_settles_ok: "language_ok s \<Longrightarrow> language_ok (load_settles v ok s)"
  by (auto simp: language_ok_def load_settles_def Let_def split: option.split dest: map_of_SomeD)

lemma setMode_ok: "language_ok s \<Longrightarrow> language_ok (setMode m s)"
  by (auto simp: language_ok_def setMode_def applyMode_def Let_def)

lemma language_step_ok: "language_ok s \<Longrightarrow> language_ok (language_step s e)"
  by (cases e) (simp_all add: load_settles_ok setMode_ok)

interpretation languages: event_machine language_step language_ok
  by unfold_locales (rule language_step_ok)

lemma language_load_ok: "language_ok (language_load browser stored)"
  by (auto simp: language_ok_def language_load_def applyMode_def Let_def)

text \<open>Once the pages speak the language of the newest choice, nothing but a new choice changes that.\<close>

definition settled :: "language_store \<Rightarrow> bool" where
  "settled s \<longleftrightarrow> la_current s = la_page s \<and> (\<forall>l. (la_version s, l) \<notin> set (la_loading s))"

lemma settled_stays:
  assumes "language_ok s" and "settled s" and "\<forall>e \<in> set es. \<exists>v ok. e = LoadSettles v ok"
  shows "settled (foldl language_step s es) \<and> la_mode (foldl language_step s es) = la_mode s"
  using assms
proof (induction es arbitrary: s)
  case (Cons e es)
  obtain v ok where e: "e = LoadSettles v ok" using Cons.prems(3) by auto
  have "settled (load_settles v ok s) \<and> la_mode (load_settles v ok s) = la_mode s"
    using Cons.prems(1,2)
    by (auto simp: settled_def load_settles_def Let_def split: option.split dest: map_of_SomeD)
  then show ?case using Cons.IH [of "load_settles v ok s"] Cons.prems load_settles_ok [of s] e by auto
qed simp

lemma newest_load_settles:
  assumes "language_ok s" and "map_of (la_loading s) (la_version s) = Some l"
  shows "settled (load_settles (la_version s) True s)" "la_mode (load_settles (la_version s) True s) = la_mode s"
  using assms map_of_SomeD [OF assms(2)]
  by (auto simp: settled_def load_settles_def Let_def language_ok_def)

text \<open>The newest choice is on its way, whatever else settles.\<close>

definition under_way :: "language_store \<Rightarrow> bool" where
  "under_way s \<longleftrightarrow> map_of (la_loading s) (la_version s) \<noteq> None"

lemma choice_under_way: "language_ok s \<Longrightarrow> under_way (setMode m s)"
proof -
  assume "language_ok s"
  then have "map_of (la_loading s) (la_version s + 1) = None"
    by (force simp: language_ok_def map_of_eq_None_iff)
  then show ?thesis by (simp add: under_way_def setMode_def applyMode_def Let_def map_add_def)
qed

lemma other_load_settles:
  assumes "v \<noteq> la_version s"
  shows "under_way (load_settles v ok s) = under_way s" "la_version (load_settles v ok s) = la_version s"
    "la_mode (load_settles v ok s) = la_mode s"
proof -
  have "map_of (filter (\<lambda>e. fst e \<noteq> v) xs) k = map_of xs k" if "k \<noteq> v" for xs :: "(nat \<times> language) list" and k
    using that by (induction xs) auto
  then show "under_way (load_settles v ok s) = under_way s" "la_version (load_settles v ok s) = la_version s"
    "la_mode (load_settles v ok s) = la_mode s"
    using assms by (auto simp: under_way_def load_settles_def Let_def split: option.split)
qed

lemma load_settles_version: "la_version (load_settles v ok s) = la_version s"
  by (simp add: load_settles_def Let_def split: option.split)

lemma others_settle:
  assumes "\<forall>e \<in> set es. \<exists>v ok. e = LoadSettles v ok" and "\<forall>ok. LoadSettles (la_version s) ok \<notin> set es" and "under_way s"
  shows "under_way (foldl language_step s es) \<and> la_version (foldl language_step s es) = la_version s
    \<and> la_mode (foldl language_step s es) = la_mode s"
  using assms
proof (induction es arbitrary: s)
  case (Cons e es)
  obtain v ok where e: "e = LoadSettles v ok" "v \<noteq> la_version s" using Cons.prems(1,2) by auto
  then show ?case
    using Cons.IH [of "load_settles v ok s"] Cons.prems other_load_settles [OF e(2), of ok] by auto
qed simp

lemma loads_keep_version: "\<forall>e \<in> set es. \<exists>v ok. e = LoadSettles v ok \<Longrightarrow>
    la_version (foldl language_step s es) = la_version s"
  by (induction es arbitrary: s) (auto simp: load_settles_version)

text \<open>C15. However often the language is chosen and in whatever order the packs arrive, once the load of the newest
  choice has succeeded the texts of the pages are in its language and stay so, whatever older loads still come in.
  The texts of the pages never use a language whose pack is not there: a choice leaves them in the language they are in,
  and what arrives before its own pack moves them only to a language whose pack has come. The navigation, the numerals and
  the document's attribute do not wait: they name the new language from the choice on, with its pack or without it.\<close>

theorem language_follows_choice:
  assumes "b = foldl language_step (language_load browser stored) es"
    and "c = language_step b (ChooseMode m)" and "s = foldl language_step c loads1"
    and "\<forall>e \<in> set (loads1 @ loads2). \<exists>v ok. e = LoadSettles v ok"
    and "\<forall>ok. LoadSettles (la_version s) ok \<notin> set loads1"
    and "t = foldl language_step s (LoadSettles (la_version s) True # loads2)"
  shows "la_current t = snd (resolveLanguages m) \<and> la_page t = snd (resolveLanguages m)
    \<and> la_chrome t = fst (resolveLanguages m) \<and> la_htmlLang t = la_page t \<and> la_current t \<in> la_packs t
    \<and> la_current s \<in> la_packs s \<and> la_page s = la_page t \<and> la_chrome s = la_chrome t \<and> la_htmlLang s = la_page s
    \<and> la_current b \<in> la_packs b \<and> la_current c = la_current b \<and> la_packs c = la_packs b
    \<and> la_page c = la_page t \<and> la_chrome c = la_chrome t \<and> la_htmlLang c = la_page c"
proof -
  let ?b = "foldl language_step (language_load browser stored) es"
  have okb: "language_ok ?b" by (rule languages.run_inv) (rule language_load_ok)
  have b: "b = ?b" and c: "c = setMode m ?b" and s: "s = foldl language_step (setMode m ?b) loads1"
    using assms(1-3) by simp_all
  have at_once: "la_current c = la_current b" "la_packs c = la_packs b" "la_page c = snd (resolveLanguages m)"
    "la_chrome c = fst (resolveLanguages m)" "la_htmlLang c = la_page c"
    by (simp_all add: b c setMode_def applyMode_def Let_def)
  have loads: "\<forall>e \<in> set loads1. \<exists>v ok. e = LoadSettles v ok" "\<forall>e \<in> set loads2. \<exists>v ok. e = LoadSettles v ok"
    using assms(4) by auto
  have v: "la_version s = la_version (setMode m ?b)" unfolding s by (rule loads_keep_version) (rule loads(1))
  have "under_way s \<and> la_version s = la_version (setMode m ?b) \<and> la_mode s = la_mode (setMode m ?b)"
    unfolding s by (rule others_settle) (use loads assms(5) v choice_under_way [OF okb] in auto)
  then obtain l where l: "map_of (la_loading s) (la_version s) = Some l" and m: "la_mode s = m"
    by (auto simp: under_way_def setMode_def applyMode_def Let_def)
  have s_ok: "language_ok s" unfolding s by (rule languages.run_inv) (rule setMode_ok [OF okb])
  note now = newest_load_settles [OF s_ok l]
  have "settled t \<and> la_mode t = m"
    using settled_stays [OF load_settles_ok [OF s_ok] now(1), of loads2] loads(2) assms(6) now(2) m by simp
  moreover have "language_ok t"
    unfolding assms(6) by (rule languages.run_inv [OF s_ok])
  ultimately show ?thesis using s_ok m okb at_once unfolding b
    by (auto simp: settled_def language_ok_def dest: sym [of "(_, _)"])
qed

theorem language_follows_choice_witness:
  "la_current (foldl language_step (language_load ''en-US'' None)
     [ChooseMode HiMode, ChooseMode EnMrMode, LoadSettles 3 True, LoadSettles 2 True]) = Mr"
proof -
  let ?b = "foldl language_step (language_load ''en-US'' None) [ChooseMode HiMode]"
  let ?s = "foldl language_step (language_step ?b (ChooseMode EnMrMode)) []"
  have "\<forall>e \<in> set ([] @ [LoadSettles 2 True]). \<exists>v ok. e = LoadSettles v ok" by auto
  moreover have "la_version ?s = 3" by (simp add: language_load_def setMode_def applyMode_def Let_def)
  ultimately show ?thesis
    using language_follows_choice [of ?b "''en-US''" None "[ChooseMode HiMode]" _ EnMrMode ?s "[]" "[LoadSettles 2 True]",
        OF refl refl refl _ _ refl]
    by simp
qed

text \<open>A pack that cannot be fetched leaves the choice half done: mode, storage, attribute and navigation say the new
  language while the texts of the pages stay in the old one, and nothing tries again.\<close>

theorem failed_pack_half_switch:
  "let s = foldl language_step (language_load ''en'' None) [LoadSettles 1 True, ChooseMode HiMode, LoadSettles 2 False]
   in la_mode s = HiMode \<and> la_stored s = Some ''hi'' \<and> la_htmlLang s = Hi \<and> la_chrome s = Hi
      \<and> la_current s = En \<and> la_loading s = []"
  by (simp add: language_load_def setMode_def applyMode_def load_settles_def Let_def
      getInitialMode_def SUPPORTED_LANGUAGES_def)

section \<open>Preferences survive a reload\<close>

lemma toggleColorMode_twice: "th_colorMode (toggleColorMode (toggleColorMode s)) = th_colorMode s"
  by (cases "th_colorMode s") (simp_all add: toggleColorMode_def Let_def)

lemma font_steps:
  "fs_fontSize (increaseFontSize s) = (case fs_fontSize s of Small \<Rightarrow> Medium | _ \<Rightarrow> Large)"
  "fs_fontSize (decreaseFontSize s) = (case fs_fontSize s of Large \<Rightarrow> Medium | _ \<Rightarrow> Small)"
  by (simp_all add: increaseFontSize_def decreaseFontSize_def setFontSize_def FONT_SIZES_def split: font_size.split)

text \<open>A tab loaded after any of the preferences was changed starts where the other one was, whatever the browser
  itself prefers; the attribute of the document always says what the store says.\<close>

theorem preferences_survive_reload:
  "th_colorMode (theme_load d (th_stored (setColorMode c t))) = c
   \<and> th_colorMode (theme_load d (th_stored (toggleColorMode t))) = (if th_colorMode t = Dark then Light else Dark)
   \<and> fs_fontSize (font_load (fs_stored (setFontSize f u))) = f
   \<and> fs_fontSize (font_load (fs_stored (increaseFontSize u))) = (case fs_fontSize u of Small \<Rightarrow> Medium | _ \<Rightarrow> Large)
   \<and> fs_fontSize (font_load (fs_stored (decreaseFontSize u))) = (case fs_fontSize u of Large \<Rightarrow> Medium | _ \<Rightarrow> Small)
   \<and> la_mode (language_load b (la_stored (foldl language_step l (ChooseMode m # map (\<lambda>(v, ok). LoadSettles v ok) ls)))) = m
   \<and> th_darkClass (theme_load d x) = (th_colorMode (theme_load d x) = Dark)
   \<and> fs_root (font_load x) = FONT_SIZE_PERCENT (fs_fontSize (font_load x))"
proof (intro conjI)
  show "th_colorMode (theme_load d (th_stored (setColorMode c t))) = c"
    by (cases c) (simp_all add: theme_load_def setColorMode_def getInitialColorMode_def Let_def)
  show "th_colorMode (theme_load d (th_stored (toggleColorMode t))) = (if th_colorMode t = Dark then Light else Dark)"
    by (simp add: theme_load_def toggleColorMode_def getInitialColorMode_def Let_def)
  have font: "fs_fontSize (font_load (Some (font_text g))) = g" for g
    by (cases g) (simp_all add: font_load_def getInitialFontSize_def Let_def)
  then show "fs_fontSize (font_load (fs_stored (setFontSize f u))) = f" by (simp add: setFontSize_def)
  have same: "fs_stored (increaseFontSize u) = Some (font_text (fs_fontSize (increaseFontSize u)))"
    "fs_stored (decreaseFontSize u) = Some (font_text (fs_fontSize (decreaseFontSize u)))"
    by (simp_all add: increaseFontSize_def decreaseFontSize_def setFontSize_def)
  show "fs_fontSize (font_load (fs_stored (increaseFontSize u))) = (case fs_fontSize u of Small \<Rightarrow> Medium | _ \<Rightarrow> Large)"
    "fs_fontSize (font_load (fs_stored (decreaseFontSize u))) = (case fs_fontSize u of Large \<Rightarrow> Medium | _ \<Rightarrow> Small)"
    unfolding same font by (rule font_steps)+
  have "la_stored (foldl language_step s (map (\<lambda>(v, ok). LoadSettles v ok) ls)) = la_stored s" for s
    by (induction ls arbitrary: s) (auto simp: load_settles_def Let_def split: option.split)
  then show "la_mode (language_load b (la_stored (foldl language_step l (ChooseMode m # map (\<lambda>(v, ok). LoadSettles v ok) ls)))) = m"
    by (simp add: setMode_def applyMode_def language_load_def getInitialMode_def mode_named_text Let_def)
qed (simp_all add: theme_load_def font_load_def Let_def)

section \<open>appearanceStore.ts and AppearanceCard.tsx\<close>

record appearance_store =
  br_brandColor :: "string option"
  br_stored :: "string option"

definition appearance_load :: "string option \<Rightarrow> appearance_store" where
  "appearance_load stored = \<lparr>br_brandColor = stored, br_stored = stored\<rparr>"

definition setBrandColor :: "string option \<Rightarrow> appearance_store \<Rightarrow> appearance_store" where
  "setBrandColor hex s = \<lparr>br_brandColor = hex,
     br_stored = (case hex of Some h \<Rightarrow> if truthy h then Some h else None | None \<Rightarrow> None)\<rparr>"

definition is_hex :: "char \<Rightarrow> bool" where
  "is_hex c \<longleftrightarrow> c \<in> set ''0123456789abcdefABCDEF''"

definition HEX_RE :: "string \<Rightarrow> bool" where
  "HEX_RE s \<longleftrightarrow> length s = 7 \<and> hd s = CHR ''#'' \<and> list_all is_hex (tl s)"

text \<open>The card, with the pending commit of its timer, the store it edits and the requests it has sent.\<close>

record appearance_card =
  ac_draftBrand :: string
  ac_commit :: "string option"
  ac_store :: appearance_store
  ac_sent :: "http_request list"
  ac_saving :: bool

definition appearance_mount :: "string \<Rightarrow> appearance_store \<Rightarrow> appearance_card" where
  "appearance_mount dflt s = \<lparr>ac_draftBrand = (case br_brandColor s of Some b \<Rightarrow> b | None \<Rightarrow> dflt),
     ac_commit = None, ac_store = s, ac_sent = [], ac_saving = False\<rparr>"

definition isAtDefault :: "string \<Rightarrow> appearance_card \<Rightarrow> bool" where
  "isAtDefault dflt c \<longleftrightarrow> br_brandColor (ac_store c) = None \<and> ac_draftBrand c = dflt"

definition handleBrandPick :: "string \<Rightarrow> appearance_card \<Rightarrow> appearance_card" where
  "handleBrandPick hex c = (let c1 = c\<lparr>ac_draftBrand := hex\<rparr> in
     if \<not> HEX_RE hex then c1 else c1\<lparr>ac_commit := Some hex\<rparr>)"

definition commit_fires :: "appearance_card \<Rightarrow> appearance_card" where
  "commit_fires c = (case ac_commit c of
      None \<Rightarrow> c | Some hex \<Rightarrow> c\<lparr>ac_commit := None, ac_store := setBrandColor (Some hex) (ac_store c)\<rparr>)"

definition brand_request :: "string option \<Rightarrow> http_request" where
  "brand_request b = updateMyAccountApi
     \<lparr>up_name = None, up_password = None, up_current_password = None, up_brand_color = Some b\<rparr>"

text \<open>The Save button is blocked while saving and for an invalid draft.\<close>

definition handleSave :: "appearance_card \<Rightarrow> appearance_card" where
  "handleSave c = (if \<not> HEX_RE (ac_draftBrand c) \<or> ac_saving c then c
     else c\<lparr>ac_commit := None, ac_store := setBrandColor (Some (ac_draftBrand c)) (ac_store c),
            ac_sent := ac_sent c @ [brand_request (Some (ac_draftBrand c))], ac_saving := True\<rparr>)"

definition handleReset :: "string \<Rightarrow> appearance_card \<Rightarrow> appearance_card" where
  "handleReset dflt c = (if isAtDefault dflt c \<or> ac_saving c then c
     else c\<lparr>ac_commit := None, ac_draftBrand := dflt, ac_store := setBrandColor None (ac_store c),
            ac_sent := ac_sent c @ [brand_request None], ac_saving := True\<rparr>)"

datatype appearance_event = PickBrand string | CommitFires | SaveBrand | ResetBrand | BrandSettles

fun appearance_step :: "string \<Rightarrow> appearance_card \<Rightarrow> appearance_event \<Rightarrow> appearance_card" where
  "appearance_step dflt c (PickBrand hex) = handleBrandPick hex c"
| "appearance_step dflt c CommitFires = commit_fires c"
| "appearance_step dflt c SaveBrand = handleSave c"
| "appearance_step dflt c ResetBrand = handleReset dflt c"
| "appearance_step dflt c BrandSettles = c\<lparr>ac_saving := False\<rparr>"

definition valid_brand :: "string option \<Rightarrow> bool" where
  "valid_brand b \<longleftrightarrow> (\<forall>h. b = Some h \<longrightarrow> HEX_RE h)"

definition appearance_ok :: "appearance_card \<Rightarrow> bool" where
  "appearance_ok c \<longleftrightarrow> valid_brand (br_brandColor (ac_store c)) \<and> br_stored (ac_store c) = br_brandColor (ac_store c)
     \<and> valid_brand (ac_commit c) \<and> set (ac_sent c) \<subseteq> {brand_request b | b. valid_brand b}"

lemma HEX_RE_truthy: "HEX_RE h \<Longrightarrow> truthy h"
  by (cases h) (auto simp: HEX_RE_def truthy_def)

lemma appearance_step_ok: "appearance_ok c \<Longrightarrow> appearance_ok (appearance_step dflt c e)"
  by (cases e) (auto simp: appearance_ok_def handleBrandPick_def commit_fires_def handleSave_def handleReset_def
      setBrandColor_def valid_brand_def HEX_RE_truthy Let_def split: option.split)

interpretation appearance_cards: event_machine "appearance_step dflt" appearance_ok for dflt
  by unfold_locales (rule appearance_step_ok)

text \<open>Whatever is typed, dragged, saved or reset, only \<open>null\<close> and six-digit hex colours reach the page's theme, the
  local storage and the server; and a settled save leaves the draft in all three.\<close>

theorem brand_colour_valid:
  assumes "valid_brand stored"
    and c: "c = foldl (appearance_step dflt) (appearance_mount dflt (appearance_load stored)) es"
  shows "valid_brand (br_brandColor (ac_store c)) \<and> br_stored (ac_store c) = br_brandColor (ac_store c)
    \<and> (\<forall>r \<in> set (ac_sent c). \<exists>b. valid_brand b \<and> r = brand_request b)
    \<and> (\<not> ac_saving c \<and> HEX_RE (ac_draftBrand c) \<longrightarrow>
        (let c' = foldl (appearance_step dflt) c [SaveBrand, CommitFires] in
         br_brandColor (ac_store c') = Some (ac_draftBrand c)
         \<and> ac_sent c' = ac_sent c @ [brand_request (Some (ac_draftBrand c))]))"
proof -
  have "appearance_ok (appearance_mount dflt (appearance_load stored))"
    using assms(1) by (simp add: appearance_ok_def appearance_mount_def appearance_load_def valid_brand_def)
  then have "appearance_ok c" unfolding c by (rule appearance_cards.run_inv)
  then show ?thesis
    by (auto simp: appearance_ok_def handleSave_def commit_fires_def setBrandColor_def Let_def)
qed

theorem brand_colour_valid_witness:
  "br_brandColor (ac_store (foldl (appearance_step ''#b5533c'') (appearance_mount ''#b5533c'' (appearance_load None))
     [PickBrand ''#2563eb'', PickBrand ''#2563'', CommitFires])) = Some ''#2563eb'' \<and> HEX_RE ''#2563eb''"
  using brand_colour_valid [of None "foldl (appearance_step ''#b5533c'') (appearance_mount ''#b5533c'' (appearance_load None))
      [PickBrand ''#2563eb'', PickBrand ''#2563'', CommitFires]" "''#b5533c''"
      "[PickBrand ''#2563eb'', PickBrand ''#2563'', CommitFires]"]
  by (simp add: valid_brand_def appearance_mount_def appearance_load_def handleBrandPick_def commit_fires_def
      setBrandColor_def HEX_RE_def is_hex_def)

section \<open>networkStatusStore.ts and OfflineBanner.tsx\<close>

record offline_banner =
  ob_isOnline :: bool
  ob_lastSeenOnline :: bool
  ob_showReconnected :: bool
  ob_timer :: bool

definition banner_mount :: "bool option \<Rightarrow> offline_banner" where
  "banner_mount onLine = (let o1 = (case onLine of Some b \<Rightarrow> b | None \<Rightarrow> True) in
     \<lparr>ob_isOnline = o1, ob_lastSeenOnline = o1, ob_showReconnected = False, ob_timer = False\<rparr>)"

text \<open>A render after the flag changed, with the timer its effect arms or clears.\<close>

definition banner_render :: "offline_banner \<Rightarrow> offline_banner" where
  "banner_render b = (if ob_isOnline b \<noteq> ob_lastSeenOnline b
     then b\<lparr>ob_lastSeenOnline := ob_isOnline b, ob_showReconnected := ob_isOnline b, ob_timer := ob_isOnline b\<rparr> else b)"

datatype banner_event = GoesOnline | GoesOffline | BannerTimeout

fun banner_step :: "offline_banner \<Rightarrow> banner_event \<Rightarrow> offline_banner" where
  "banner_step b GoesOnline = banner_render (b\<lparr>ob_isOnline := True\<rparr>)"
| "banner_step b GoesOffline = banner_render (b\<lparr>ob_isOnline := False\<rparr>)"
| "banner_step b BannerTimeout = (if ob_timer b then b\<lparr>ob_showReconnected := False, ob_timer := False\<rparr> else b)"

datatype banner_face = NoBanner | BackOnline | Offline

definition banner_shows :: "offline_banner \<Rightarrow> banner_face" where
  "banner_shows b = (if ob_isOnline b \<and> \<not> ob_showReconnected b then NoBanner
     else if ob_isOnline b then BackOnline else Offline)"

definition banner_ok :: "offline_banner \<Rightarrow> bool" where
  "banner_ok b \<longleftrightarrow> ob_lastSeenOnline b = ob_isOnline b \<and> ob_showReconnected b = ob_timer b
     \<and> (ob_showReconnected b \<longrightarrow> ob_isOnline b)"

lemma banner_step_ok: "banner_ok b \<Longrightarrow> banner_ok (banner_step b e)"
  by (cases e) (auto simp: banner_ok_def banner_render_def)

interpretation banners: event_machine banner_step banner_ok
  by unfold_locales (rule banner_step_ok)

text \<open>The banner says offline exactly while the browser is, and the notice that the connection is back always has
  a timer that takes it away.\<close>

lemma banner_truthful:
  "let b = foldl banner_step (banner_mount o1) es in
     (banner_shows b = Offline \<longleftrightarrow> \<not> ob_isOnline b) \<and> (banner_shows b = BackOnline \<longrightarrow> ob_timer b)
     \<and> banner_shows (banner_step b BannerTimeout) = (if ob_isOnline b then NoBanner else Offline)"
proof -
  have "banner_ok (banner_mount o1)" by (simp add: banner_ok_def banner_mount_def Let_def)
  then have "banner_ok (foldl banner_step (banner_mount o1) es)" by (rule banners.run_inv)
  then show ?thesis by (auto simp: banner_ok_def banner_shows_def Let_def)
qed

end
