(* ===== verification/PermissionsPage.thy ===== *)
theory PermissionsPage
  imports AuditFilters Navigation UsersPage EffectiveGrants PolicyHelpers
begin

text \<open>
  The permissions page (\<open>permissions\<close>): the catalogue filtered, counted and grouped by resource type, the
  stat tiles and quick filters, the filter chips, the groups that open and close, and the details of one
  action with its links. The catalogue and the usage list are what their queries hold in a render;
  \<open>localeCompare\<close> is a parameter \<open>le\<close>.
\<close>

section \<open>What the page reads\<close>

record permission_entry =
  pe_action :: string
  pe_resource_type :: string
  pe_description :: string

record permission_usage =
  pu_action :: string
  pu_policies :: "(string \<times> int) list"
  pu_policy_user_count :: int
  pu_direct_grant_count :: int
  pu_total_user_count :: int

datatype permission_quick = QAll | QDestructive | QPolicy | QDirect | QUnused

definition PERMISSIONS_ALL_VALUE :: string where
  "PERMISSIONS_ALL_VALUE = []"

record permissions_ui =
  pm_search :: string
  pm_resourceType :: string
  pm_quickFilter :: permission_quick
  pm_expandedTypes :: "string list"

definition usePermissionsUiStore :: "permissions_ui session_ui_store" where
  "usePermissionsUiStore = createSessionUiStore \<lparr>pm_search = [], pm_resourceType = PERMISSIONS_ALL_VALUE,
     pm_quickFilter = QAll, pm_expandedTypes = []\<rparr>"

text \<open>The two queries in a render.\<close>

record permissions_data =
  pd_catalog :: "permission_entry list option"
  pd_usage :: "permission_usage list option"
  pd_isUsageLoading :: bool
  pd_isUsageError :: bool

record permissions_page =
  pp_search :: string
  pp_ui :: permissions_ui

definition permissions_mount :: "string option \<Rightarrow> permissions_ui \<Rightarrow> permissions_page" where
  "permissions_mount param u = \<lparr>pp_search = (case param of Some v \<Rightarrow> v | None \<Rightarrow> pm_search u), pp_ui = u\<rparr>"

definition permissions_setSearch :: "string \<Rightarrow> permissions_page \<Rightarrow> permissions_page" where
  "permissions_setSearch v p = p\<lparr>pp_search := v, pp_ui := (pp_ui p)\<lparr>pm_search := v\<rparr>\<rparr>"

definition setResourceType :: "string \<Rightarrow> permissions_page \<Rightarrow> permissions_page" where
  "setResourceType v p = p\<lparr>pp_ui := (pp_ui p)\<lparr>pm_resourceType := v\<rparr>\<rparr>"

definition setQuickFilter :: "(permission_quick \<Rightarrow> permission_quick) \<Rightarrow> permissions_page \<Rightarrow> permissions_page" where
  "setQuickFilter f p = p\<lparr>pp_ui := (pp_ui p)\<lparr>pm_quickFilter := f (pm_quickFilter (pp_ui p))\<rparr>\<rparr>"

definition clearAllFilters :: "permissions_page \<Rightarrow> permissions_page" where
  "clearAllFilters p = setQuickFilter (\<lambda>_. QAll) (setResourceType PERMISSIONS_ALL_VALUE (permissions_setSearch [] p))"

definition usageReady :: "permissions_data \<Rightarrow> bool" where
  "usageReady d \<longleftrightarrow> \<not> pd_isUsageLoading d \<and> \<not> pd_isUsageError d"

definition effectiveQuickFilter :: "permissions_data \<Rightarrow> permissions_page \<Rightarrow> permission_quick" where
  "effectiveQuickFilter d p = (let q = pm_quickFilter (pp_ui p) in
     if usageReady d \<or> q = QAll \<or> q = QDestructive then q else QAll)"

text \<open>The effect that gives up a quick filter it cannot evaluate.\<close>

definition drop_unready_filter :: "permissions_data \<Rightarrow> permissions_page \<Rightarrow> permissions_page" where
  "drop_unready_filter d p =
     (if \<not> usageReady d \<and> pm_quickFilter (pp_ui p) \<in> {QPolicy, QDirect, QUnused}
      then setQuickFilter (\<lambda>_. QAll) p else p)"

section \<open>The list\<close>

text \<open>\<open>new Map(usage.map((u) => [u.action, u]))\<close>: the last entry of an action counts.\<close>

definition usageFor :: "permissions_data \<Rightarrow> string \<Rightarrow> permission_usage option" where
  "usageFor d a = map_of (rev (map (\<lambda>u. (pu_action u, u)) (case pd_usage d of Some us \<Rightarrow> us | None \<Rightarrow> []))) a"

definition quick_matches :: "permissions_data \<Rightarrow> permission_quick \<Rightarrow> permission_entry \<Rightarrow> bool" where
  "quick_matches d q e = (case q of
      QAll \<Rightarrow> True
    | QDestructive \<Rightarrow> isDestructiveAction (pe_action e)
    | QPolicy \<Rightarrow> (case usageFor d (pe_action e) of Some u \<Rightarrow> length (pu_policies u) > 0 | None \<Rightarrow> False)
    | QDirect \<Rightarrow> (case usageFor d (pe_action e) of Some u \<Rightarrow> pu_direct_grant_count u > 0 | None \<Rightarrow> False)
    | QUnused \<Rightarrow> (case usageFor d (pe_action e) of Some u \<Rightarrow> pu_total_user_count u = 0 | None \<Rightarrow> False))"

definition catalog_of :: "permissions_data \<Rightarrow> permission_entry list" where
  "catalog_of d = (case pd_catalog d of Some c \<Rightarrow> c | None \<Rightarrow> [])"

definition text_matches :: "string \<Rightarrow> permission_entry \<Rightarrow> bool" where
  "text_matches query e \<longleftrightarrow> query = [] \<or> js_includes (js_lower (pe_action e)) query
     \<or> js_includes (js_lower (pe_description e)) query \<or> js_includes (js_lower (pe_resource_type e)) query"

definition permission_shown :: "permissions_data \<Rightarrow> permissions_page \<Rightarrow> string \<Rightarrow> permission_entry \<Rightarrow> bool" where
  "permission_shown d p dq e \<longleftrightarrow>
     (let rt = pm_resourceType (pp_ui p); q = effectiveQuickFilter d p in
      if rt \<noteq> PERMISSIONS_ALL_VALUE \<and> pe_resource_type e \<noteq> rt then False
      else if pd_isUsageLoading d \<and> q \<noteq> QAll \<and> q \<noteq> QDestructive then False
      else if \<not> quick_matches d q e then False
      else text_matches (js_lower (js_trim dq)) e)"

definition filtered_permissions ::
  "(string \<Rightarrow> string \<Rightarrow> bool) \<Rightarrow> permissions_data \<Rightarrow> permissions_page \<Rightarrow> string \<Rightarrow> permission_entry list" where
  "filtered_permissions le d p dq =
     js_sort (\<lambda>a b. le (pe_action a) (pe_action b)) (filter (permission_shown d p dq) (catalog_of d))"

definition permission_groups ::
  "(string \<Rightarrow> string \<Rightarrow> bool) \<Rightarrow> permissions_data \<Rightarrow> permissions_page \<Rightarrow> string \<Rightarrow> (string \<times> permission_entry list) list" where
  "permission_groups le d p dq = groupByResourceType pe_resource_type (filtered_permissions le d p dq)"

definition hasSearchOrFilters :: "permissions_data \<Rightarrow> permissions_page \<Rightarrow> bool" where
  "hasSearchOrFilters d p \<longleftrightarrow> truthy (pp_search p) \<or> pm_resourceType (pp_ui p) \<noteq> PERMISSIONS_ALL_VALUE
     \<or> effectiveQuickFilter d p \<noteq> QAll"

definition quickFilterCounts :: "permissions_data \<Rightarrow> permissions_page \<Rightarrow> permission_quick \<Rightarrow> nat" where
  "quickFilterCounts d p q =
     (let rt = pm_resourceType (pp_ui p);
          inType = (if rt = PERMISSIONS_ALL_VALUE then catalog_of d else filter (\<lambda>e. pe_resource_type e = rt) (catalog_of d))
      in length (filter (quick_matches d q) inType))"

datatype permission_tile = TileTotal | TileDestructive | TileUnused

definition activeStatTile :: "permissions_data \<Rightarrow> permissions_page \<Rightarrow> permission_tile option" where
  "activeStatTile d p =
     (if effectiveQuickFilter d p = QDestructive then Some TileDestructive
      else if effectiveQuickFilter d p = QUnused then Some TileUnused
      else if \<not> hasSearchOrFilters d p then Some TileTotal else None)"

definition toggle_quick :: "permission_quick \<Rightarrow> permission_quick \<Rightarrow> permission_quick" where
  "toggle_quick q v = (if v = q then QAll else q)"

definition tile_click :: "permission_tile \<Rightarrow> permissions_page \<Rightarrow> permissions_page" where
  "tile_click t p = (case t of
      TileTotal \<Rightarrow> clearAllFilters p
    | TileDestructive \<Rightarrow> setQuickFilter (toggle_quick QDestructive) p
    | TileUnused \<Rightarrow> setQuickFilter (toggle_quick QUnused) p)"

section \<open>Groups that open and close\<close>

definition toggleTypeExpanded :: "string \<Rightarrow> permissions_page \<Rightarrow> permissions_page" where
  "toggleTypeExpanded ty p = p\<lparr>pp_ui := (pp_ui p)\<lparr>pm_expandedTypes :=
     (if ty \<in> set (pm_expandedTypes (pp_ui p)) then filter (\<lambda>t. t \<noteq> ty) (js_distinct (pm_expandedTypes (pp_ui p)))
      else js_distinct (pm_expandedTypes (pp_ui p)) @ [ty])\<rparr>\<rparr>"

definition expandAll :: "string list \<Rightarrow> permissions_page \<Rightarrow> permissions_page" where
  "expandAll types p = p\<lparr>pp_ui := (pp_ui p)\<lparr>pm_expandedTypes := types\<rparr>\<rparr>"

definition collapseAll :: "permissions_page \<Rightarrow> permissions_page" where
  "collapseAll p = p\<lparr>pp_ui := (pp_ui p)\<lparr>pm_expandedTypes := []\<rparr>\<rparr>"

definition isExpanded :: "permissions_data \<Rightarrow> permissions_page \<Rightarrow> string \<Rightarrow> bool" where
  "isExpanded d p ty \<longleftrightarrow> hasSearchOrFilters d p \<or> ty \<in> set (pm_expandedTypes (pp_ui p))"

definition allOpen :: "permissions_data \<Rightarrow> permissions_page \<Rightarrow> string list \<Rightarrow> bool" where
  "allOpen d p types \<longleftrightarrow> types \<noteq> [] \<and>
     (\<forall>ty \<in> set types. ty \<in> set (pm_expandedTypes (pp_ui p)) \<or> hasSearchOrFilters d p)"

definition noneOpen :: "permissions_data \<Rightarrow> permissions_page \<Rightarrow> bool" where
  "noneOpen d p \<longleftrightarrow> pm_expandedTypes (pp_ui p) = [] \<and> \<not> hasSearchOrFilters d p"

definition expandDisabled :: "permissions_data \<Rightarrow> permissions_page \<Rightarrow> string list \<Rightarrow> bool" where
  "expandDisabled d p types \<longleftrightarrow> allOpen d p types \<or> types = []"

text \<open>The header line of a group.\<close>

definition group_header :: "permissions_data \<Rightarrow> permission_entry list \<Rightarrow> nat \<times> nat option \<times> nat" where
  "group_header d es = (length (filter (\<lambda>e. isDestructiveAction (pe_action e)) es),
     if pd_isUsageError d then None else Some (length (filter (quick_matches d QPolicy) es)),
     length es)"

lemma quick_changed:
  "effectiveQuickFilter d (setQuickFilter f p)
     = (let q = f (pm_quickFilter (pp_ui p)) in if usageReady d \<or> q = QAll \<or> q = QDestructive then q else QAll)"
  "pm_resourceType (pp_ui (setQuickFilter f p)) = pm_resourceType (pp_ui p)"
  "pp_search (setQuickFilter f p) = pp_search p" "pm_expandedTypes (pp_ui (setQuickFilter f p)) = pm_expandedTypes (pp_ui p)"
  "quickFilterCounts d (setQuickFilter f p) = quickFilterCounts d p"
  by (simp_all add: effectiveQuickFilter_def setQuickFilter_def quickFilterCounts_def fun_eq_iff)

lemma cleared:
  "pp_search (clearAllFilters p) = []" "pm_search (pp_ui (clearAllFilters p)) = []"
  "pm_resourceType (pp_ui (clearAllFilters p)) = PERMISSIONS_ALL_VALUE"
  "pm_quickFilter (pp_ui (clearAllFilters p)) = QAll"
  "pm_expandedTypes (pp_ui (clearAllFilters p)) = pm_expandedTypes (pp_ui p)"
  by (simp_all add: clearAllFilters_def setQuickFilter_def setResourceType_def permissions_setSearch_def)

lemma shown_without_search:
  assumes "js_trim dq = []"
  shows "permission_shown d p dq e \<longleftrightarrow>
    (pm_resourceType (pp_ui p) = PERMISSIONS_ALL_VALUE \<or> pe_resource_type e = pm_resourceType (pp_ui p))
    \<and> quick_matches d (effectiveQuickFilter d p) e"
proof -
  have "\<not> (pd_isUsageLoading d \<and> effectiveQuickFilter d p \<noteq> QAll \<and> effectiveQuickFilter d p \<noteq> QDestructive)"
    by (auto simp: effectiveQuickFilter_def usageReady_def Let_def split: if_split_asm)
  then show ?thesis using assms by (auto simp: permission_shown_def text_matches_def js_lower_def Let_def)
qed

lemma listed_count:
  assumes "js_trim dq = []"
  shows "length (filtered_permissions le d p dq) = quickFilterCounts d p (effectiveQuickFilter d p)"
proof -
  let ?rt = "pm_resourceType (pp_ui p)" and ?q = "quick_matches d (effectiveQuickFilter d p)"
  have "permission_shown d p dq = (\<lambda>e. (?rt = PERMISSIONS_ALL_VALUE \<or> pe_resource_type e = ?rt) \<and> ?q e)"
    by (rule ext) (rule shown_without_search [OF assms])
  then have "length (filtered_permissions le d p dq)
      = length (filter (\<lambda>e. (?rt = PERMISSIONS_ALL_VALUE \<or> pe_resource_type e = ?rt) \<and> ?q e) (catalog_of d))"
    by (simp add: filtered_permissions_def)
  then show ?thesis by (simp add: quickFilterCounts_def Let_def conj_commute)
qed

text \<open>The numbers on the quick filters are the numbers of rows they give: whichever of the offered filters is chosen,
  with no search text the page then lists exactly as many actions as its button says, each once and under
  its own resource type, and nothing is listed twice or lost by the grouping.\<close>

theorem quick_filter_counts_true:
  assumes "js_trim dq = []" and "usageReady d \<or> q = QAll \<or> q = QDestructive"
    and "p' = setQuickFilter (\<lambda>_. q) p"
  shows "length (filtered_permissions le d p' dq) = quickFilterCounts d p q
    \<and> mset (concat (map snd (permission_groups le d p' dq))) = mset (filtered_permissions le d p' dq)
    \<and> (\<forall>(ty, es) \<in> set (permission_groups le d p' dq). es \<noteq> [] \<and> (\<forall>e \<in> set es. pe_resource_type e = ty \<and> quick_matches d q e))
    \<and> quickFilterCounts d p q \<le> quickFilterCounts d p QAll"
proof -
  have q: "effectiveQuickFilter d p' = q" using assms(2,3) by (simp add: quick_changed(1))
  have "length (filtered_permissions le d p' dq) = quickFilterCounts d p q"
    using listed_count [OF assms(1), of le d p'] q by (simp add: assms(3) quick_changed)
  moreover have "mset (concat (map snd (permission_groups le d p' dq))) = mset (filtered_permissions le d p' dq)"
    unfolding permission_groups_def by (rule resource_groups.nothing_lost)
  moreover have "es \<noteq> [] \<and> (\<forall>e \<in> set es. pe_resource_type e = ty \<and> quick_matches d q e)"
    if g: "(ty, es) \<in> set (permission_groups le d p' dq)" for ty es
  proof -
    note g = g [unfolded permission_groups_def]
    have m: "mset es = mset (filter (\<lambda>x. pe_resource_type x = ty) (filtered_permissions le d p' dq))"
      by (rule resource_groups.groups_bucket [OF g])
    have "set es = set (filter (\<lambda>x. pe_resource_type x = ty) (filtered_permissions le d p' dq))"
      using m by (rule mset_eq_setD)
    then show ?thesis
      using resource_groups.bucket_nonempty [OF g] q
      by (auto simp: filtered_permissions_def shown_without_search [OF assms(1)])
  qed
  moreover have "quickFilterCounts d p q \<le> quickFilterCounts d p QAll"
    by (simp add: quickFilterCounts_def quick_matches_def [of d QAll] Let_def)
  ultimately show ?thesis by blast
qed

definition sample_permissions :: permissions_data where
  "sample_permissions = \<lparr>pd_catalog = Some [\<lparr>pe_action = ''users:delete_any'', pe_resource_type = ''users'', pe_description = ''x''\<rparr>,
       \<lparr>pe_action = ''policies:read'', pe_resource_type = ''policies'', pe_description = ''y''\<rparr>],
     pd_usage = Some [\<lparr>pu_action = ''users:delete_any'', pu_policies = [], pu_policy_user_count = 0,
       pu_direct_grant_count = 2, pu_total_user_count = 2\<rparr>], pd_isUsageLoading = False, pd_isUsageError = False\<rparr>"

definition fresh_permissions_page :: permissions_page where
  "fresh_permissions_page = permissions_mount None (ui_state usePermissionsUiStore)"

theorem quick_filter_counts_true_witness:
  "length (filtered_permissions string_le sample_permissions (setQuickFilter (\<lambda>_. QDirect) fresh_permissions_page) []) = 1"
proof -
  have "quickFilterCounts sample_permissions fresh_permissions_page QDirect = 1"
    by (simp add: quickFilterCounts_def sample_permissions_def fresh_permissions_page_def permissions_mount_def
        usePermissionsUiStore_def createSessionUiStore_def catalog_of_def quick_matches_def usageFor_def)
  moreover have "js_trim [] = []" "usageReady sample_permissions"
    by (simp_all add: js_trim_def js_trim_start_def js_trim_end_def usageReady_def sample_permissions_def)
  ultimately show ?thesis
    using quick_filter_counts_true [of "[]" sample_permissions QDirect _ fresh_permissions_page string_le, OF _ _ refl] by simp
qed

section \<open>PermissionsFilterBar.tsx: the chips\<close>

datatype permissions_chip = PSearchChip | PTypeChip | PQuickChip

definition permissions_chips :: "permissions_data \<Rightarrow> permissions_page \<Rightarrow> permissions_chip list" where
  "permissions_chips d p = (if truthy (pp_search p) then [PSearchChip] else [])
     @ (if pm_resourceType (pp_ui p) \<noteq> PERMISSIONS_ALL_VALUE then [PTypeChip] else [])
     @ (if effectiveQuickFilter d p \<noteq> QAll then [PQuickChip] else [])"

fun clear_permissions_chip :: "permissions_chip \<Rightarrow> permissions_page \<Rightarrow> permissions_page" where
  "clear_permissions_chip PSearchChip p = permissions_setSearch [] p"
| "clear_permissions_chip PTypeChip p = setResourceType PERMISSIONS_ALL_VALUE p"
| "clear_permissions_chip PQuickChip p = setQuickFilter (\<lambda>_. QAll) p"

definition permissions_active :: "permissions_data \<Rightarrow> permissions_page \<Rightarrow> nat" where
  "permissions_active d p = of_bool (truthy (pp_search p)) + of_bool (pm_resourceType (pp_ui p) \<noteq> PERMISSIONS_ALL_VALUE)
     + of_bool (effectiveQuickFilter d p \<noteq> QAll)"

text \<open>The page after its effect has run: the filter it keeps is the one in effect; and an empty search is kept empty.\<close>

definition permissions_settled :: "permissions_data \<Rightarrow> permissions_page \<Rightarrow> bool" where
  "permissions_settled d p \<longleftrightarrow> effectiveQuickFilter d p = pm_quickFilter (pp_ui p)
     \<and> (pp_search p = [] \<longrightarrow> pm_search (pp_ui p) = [])"

lemma drop_unready_settles: "(pp_search p = [] \<longrightarrow> pm_search (pp_ui p) = []) \<Longrightarrow> permissions_settled d (drop_unready_filter d p)"
  by (cases "pm_quickFilter (pp_ui p)")
    (auto simp: permissions_settled_def drop_unready_filter_def effectiveQuickFilter_def setQuickFilter_def Let_def)

interpretation permissions_chips: filter_chips "permissions_chips d" clear_permissions_chip clearAllFilters
  "permissions_active d" "permissions_settled d" for d
proof
  fix c and p :: permissions_page assume ok: "permissions_settled d p"
  note defs = permissions_chips_def permissions_active_def permissions_settled_def effectiveQuickFilter_def
    permissions_setSearch_def setResourceType_def setQuickFilter_def clearAllFilters_def truthy_def
  show "permissions_settled d (clear_permissions_chip c p)
      \<and> permissions_active d p = Suc (permissions_active d (clear_permissions_chip c p))
      \<and> clearAllFilters (clear_permissions_chip c p) = clearAllFilters p"
    if "c \<in> set (permissions_chips d p)"
    using ok that by (cases c) (auto simp: defs split: if_split_asm)
  show "permissions_chips d p = [] \<longleftrightarrow> permissions_active d p = 0"
    by (simp add: permissions_chips_def permissions_active_def)
  show "clearAllFilters p = p" if "permissions_active d p = 0"
    using ok that by (cases p; cases "pp_ui p") (auto simp: defs split: if_split_asm)
qed

section \<open>PermissionsStatsCard.tsx\<close>

definition unused_tile :: "permissions_data \<Rightarrow> nat option" where
  "unused_tile d = (case pd_catalog d of
      None \<Rightarrow> None
    | Some c \<Rightarrow> if pd_isUsageError d \<or> pd_usage d = None then None
        else Some (length (filter (\<lambda>e. (case usageFor d (pe_action e) of Some u \<Rightarrow> pu_total_user_count u | None \<Rightarrow> 0) = 0) c)))"

definition destructive_tile :: "permissions_data \<Rightarrow> nat option" where
  "destructive_tile d = map_option (\<lambda>c. length (filter (\<lambda>e. isDestructiveAction (pe_action e)) c)) (pd_catalog d)"

text \<open>The destructive tile says what its filter lists. The unused one also counts actions the usage list does not
  mention, which the filter it sets leaves out: the two agree exactly when every action has its entry.\<close>

theorem unused_tile_overcounts:
  assumes "unused_tile d = Some n" and "pm_resourceType (pp_ui p) = PERMISSIONS_ALL_VALUE"
  shows "n = quickFilterCounts d p QUnused + length (filter (\<lambda>e. usageFor d (pe_action e) = None) (catalog_of d))
    \<and> destructive_tile d = Some (quickFilterCounts d p QDestructive)"
proof -
  obtain c where c: "pd_catalog d = Some c" using assms(1) by (auto simp: unused_tile_def split: option.split_asm)
  have split: "length (filter (\<lambda>e. (case u e of Some x \<Rightarrow> t x | None \<Rightarrow> 0) = (0::int)) xs)
      = length (filter (\<lambda>e. case u e of Some x \<Rightarrow> t x = 0 | None \<Rightarrow> False) xs) + length (filter (\<lambda>e. u e = None) xs)"
    for u :: "permission_entry \<Rightarrow> permission_usage option" and t xs
    by (induction xs) (auto split: option.split)
  have "quick_matches d QUnused = (\<lambda>e. case usageFor d (pe_action e) of Some u \<Rightarrow> pu_total_user_count u = 0 | None \<Rightarrow> False)"
    "quick_matches d QDestructive = (\<lambda>e. isDestructiveAction (pe_action e))"
    by (simp_all add: fun_eq_iff quick_matches_def)
  then show ?thesis
    using assms c split [where u = "\<lambda>e. usageFor d (pe_action e)" and t = pu_total_user_count and xs = c]
    by (simp add: unused_tile_def destructive_tile_def quickFilterCounts_def catalog_of_def split: if_split_asm)
qed

theorem unused_tile_overcounts_witness:
  "unused_tile sample_permissions = Some 1 \<and> quickFilterCounts sample_permissions fresh_permissions_page QUnused = 0"
proof -
  have t: "unused_tile sample_permissions = Some 1"
    by (simp add: unused_tile_def sample_permissions_def usageFor_def)
  have "length (filter (\<lambda>e. usageFor sample_permissions (pe_action e) = None) (catalog_of sample_permissions)) = 1"
    by (simp add: sample_permissions_def catalog_of_def usageFor_def)
  then show ?thesis
    using unused_tile_overcounts [OF t, of fresh_permissions_page] t
    by (simp add: fresh_permissions_page_def permissions_mount_def usePermissionsUiStore_def createSessionUiStore_def)
qed

text \<open>While a search or filter is set every group is open whatever the caller does: neither the button that
  collapses all groups, which is enabled, nor a click on a group closes any. What was opened by hand comes
  back when the filters are cleared.\<close>

theorem collapse_all_without_effect:
  assumes "hasSearchOrFilters d p"
  shows "\<not> noneOpen d p \<and> (\<forall>ty. isExpanded d (collapseAll p) ty \<and> isExpanded d (toggleTypeExpanded t p) ty)
    \<and> (\<forall>ty. isExpanded d (clearAllFilters p) ty \<longleftrightarrow> ty \<in> set (pm_expandedTypes (pp_ui p)))
    \<and> (\<forall>ty. \<not> isExpanded d (clearAllFilters (collapseAll p)) ty)"
proof -
  have same: "hasSearchOrFilters d (p\<lparr>pp_ui := (pp_ui p)\<lparr>pm_expandedTypes := x\<rparr>\<rparr>) = hasSearchOrFilters d p" for x
    by (simp add: hasSearchOrFilters_def effectiveQuickFilter_def)
  have "\<not> hasSearchOrFilters d (clearAllFilters q)" for q
    by (simp add: hasSearchOrFilters_def effectiveQuickFilter_def cleared truthy_def)
  then show ?thesis
    using assms same by (simp add: noneOpen_def isExpanded_def collapseAll_def toggleTypeExpanded_def cleared)
qed

theorem collapse_all_without_effect_witness:
  "isExpanded sample_permissions (collapseAll (permissions_setSearch ''x'' fresh_permissions_page)) ''users''"
  using collapse_all_without_effect [of sample_permissions "permissions_setSearch ''x'' fresh_permissions_page" "''users''"]
  by (simp add: hasSearchOrFilters_def permissions_setSearch_def truthy_def)

section \<open>PermissionDetailsDialog.tsx\<close>

record dialog_query =
  dq_loading :: bool
  dq_error :: bool

text \<open>What the two parts of "held by" show. A count with a destination is a link.\<close>

datatype holders_view = HoldersLoading | HoldersUnavailable | HoldersUnknown | HeldByNobody
  | HeldBy "(string \<times> int \<times> string option) list"

datatype policies_view = PoliciesLoading | PoliciesUnavailable | PoliciesUnknown | NoPolicies
  | GrantingPolicies "(string \<times> int \<times> string option) list"

definition holder_href :: "string \<Rightarrow> string \<Rightarrow> string" where
  "holder_href action source = ''/users?permission='' @ encodeURIComponent action @ ''&permission_source='' @ source"

definition holders_shown :: "auth_state \<Rightarrow> dialog_query \<Rightarrow> permission_entry \<Rightarrow> permission_usage option \<Rightarrow> holders_view" where
  "holders_shown s q e usage =
     (if dq_loading q then HoldersLoading else if dq_error q then HoldersUnavailable
      else case usage of None \<Rightarrow> HoldersUnknown
        | Some u \<Rightarrow> if pu_total_user_count u = 0 then HeldByNobody
            else HeldBy (map (\<lambda>(source, n). (source, n,
                   if can s (OneAction (PERM ''USERS_LIST_ALL'')) \<and> n > 0 then Some (holder_href (pe_action e) source) else None))
                 [(''policy'', pu_policy_user_count u), (''direct'', pu_direct_grant_count u)]))"

definition policies_shown :: "auth_state \<Rightarrow> dialog_query \<Rightarrow> permission_usage option \<Rightarrow> policies_view" where
  "policies_shown s q usage =
     (if dq_loading q \<or> dq_error q then (if dq_loading q then PoliciesLoading else PoliciesUnavailable)
      else case usage of None \<Rightarrow> PoliciesUnknown
        | Some u \<Rightarrow> if pu_policies u = [] then NoPolicies
            else GrantingPolicies (map (\<lambda>(name, n). (name, n,
                   if can s (OneAction (PERM ''POLICIES_READ'')) then Some ''/policies'' else None)) (pu_policies u)))"

text \<open>The address bar of a destination: what stands after the question mark, split and decoded.\<close>

definition form_decode :: "string \<Rightarrow> string" where
  "form_decode s = decodeURIComponent (map (\<lambda>c. if c = CHR ''+'' then CHR '' '' else c) s)"

fun split_pair :: "string \<Rightarrow> string \<times> string" where
  "split_pair s = (case js_split (CHR ''='') s of
      [] \<Rightarrow> ([], []) | k # vs \<Rightarrow> (form_decode k, form_decode (js_join ''='' vs)))"

definition params_of :: "string \<Rightarrow> url_params" where
  "params_of dest = map split_pair (js_split (CHR ''&'') (drop (length (path_of dest) + 1) dest))"

lemma js_split_single: "c \<notin> set s \<Longrightarrow> js_split c s = [s]"
  by (induction c s rule: js_split.induct) auto

lemma form_decode_encode [simp]: "form_decode (encodeURIComponent s) = s"
proof -
  have "map (\<lambda>c. if c = CHR ''+'' then CHR '' '' else c) (encodeURIComponent s) = encodeURIComponent s"
    using encodeURIComponent_no_delimiter [of "CHR ''+''" s] by (auto simp: url_delimiter_def intro!: map_idI)
  then show ?thesis by (simp add: form_decode_def)
qed

lemma holder_params:
  assumes "source = ''policy'' \<or> source = ''direct''"
  shows "params_of (holder_href a source) = [(''permission'', a), (''permission_source'', source)]"
proof -
  have p: "path_of (holder_href a source) = ''/users''" by (simp add: holder_href_def path_of_def)
  have d: "CHR ''&'' \<notin> set (encodeURIComponent a)" "CHR ''='' \<notin> set (encodeURIComponent a)"
    using encodeURIComponent_no_delimiter [of _ a] by (auto simp: url_delimiter_def)
  have plain: "form_decode w = w" if "w \<in> {''permission'', ''permission_source'', ''policy'', ''direct''}" for w
  proof -
    have "encodeURIComponent w = w" using that
      by (auto simp: encodeURIComponent_def encode_char_def uri_unreserved_def)
    then show ?thesis by (metis form_decode_encode)
  qed
  have q: "drop (length (path_of (holder_href a source)) + 1) (holder_href a source)
      = (''permission='' @ encodeURIComponent a) @ CHR ''&'' # ''permission_source='' @ source"
    unfolding p by (simp add: holder_href_def)
  have s1: "js_split (CHR ''='') (''permission'' @ CHR ''='' # encodeURIComponent a) = [''permission'', encodeURIComponent a]"
    by (subst js_split_append) (simp_all add: js_split_single d)
  have s2: "js_split (CHR ''='') (''permission_source'' @ CHR ''='' # source) = [''permission_source'', source]"
    using assms by (subst js_split_append) (auto simp: js_split_single)
  have "js_split (CHR ''&'') ((''permission='' @ encodeURIComponent a) @ CHR ''&'' # ''permission_source='' @ source)
      = [''permission='' @ encodeURIComponent a, ''permission_source='' @ source]"
    using assms d by (subst js_split_append) (auto simp: js_split_single)
  then show ?thesis
    unfolding params_of_def q using s1 s2 plain assms by auto
qed

text \<open>Every link of the dialog leads to a page that lets the caller in. A link on a number of holders opens the
  users page on exactly that permission and that source, whatever characters the action has; with no other
  filter set there, its first request asks the server for just these.\<close>

theorem permission_links_open:
  assumes "router_law match" and "isAuthenticated s = Some True"
  shows "(\<forall>rows source n dest. holders_shown s q e usage = HeldBy rows \<longrightarrow> (source, n, Some dest) \<in> set rows \<longrightarrow>
        opens s match dest \<and> n > 0
        \<and> (let f = users_filters_mount useUsersUiStore (params_of dest) in
           permission_filter f = pe_action e \<and> permissionSource f = Some source
           \<and> activeFilters (users_page_mount f) =
               no_users_filters\<lparr>uq_search := Some [], uq_permission := or_undefined (pe_action e),
                 uq_permissionSource := Some source\<rparr>))
    \<and> (\<forall>rows name n dest. policies_shown s q usage = GrantingPolicies rows \<longrightarrow> (name, n, Some dest) \<in> set rows \<longrightarrow>
        opens s match dest)"
proof (intro conjI allI impI)
  fix rows source n dest
  assume h: "holders_shown s q e usage = HeldBy rows" "(source, n, Some dest) \<in> set rows"
  then obtain u where can: "can s (OneAction (PERM ''USERS_LIST_ALL''))" and n: "n > 0"
    and dest: "dest = holder_href (pe_action e) source" and source: "source = ''policy'' \<or> source = ''direct''"
    by (auto simp: holders_shown_def split: if_split_asm option.split_asm)
  have path: "path_of dest = ''/users''" by (simp add: dest holder_href_def path_of_def)
  have "guard_of dest = Some (OneAction (PERM ''USERS_LIST_ALL''))" "static_path (path_of dest)"
    unfolding guard_of_def path by (simp_all add: ROUTES_def static_path_def)
  then show "opens s match dest" using guard_of_opens [OF assms(1) _ _ assms(2)] can by blast
  show "n > 0" by (rule n)
  let ?f = "users_filters_mount useUsersUiStore (params_of dest)"
  note ps = holder_params [OF source, of "pe_action e", folded dest]
  have f: "permission_filter ?f = pe_action e" "permissionSource ?f = Some source" "policy_filter ?f = []" "uf_search ?f = []"
    using source by (auto simp: ps permission_filter_def permissionSource_def policy_filter_def users_filters_mount_def url_get_def
        useUsersUiStore_def createSessionUiStore_def USERS_ALL_VALUE_def)
  then show "let f = ?f in permission_filter f = pe_action e \<and> permissionSource f = Some source
           \<and> activeFilters (users_page_mount f) =
               no_users_filters\<lparr>uq_search := Some [], uq_permission := or_undefined (pe_action e),
                 uq_permissionSource := Some source\<rparr>"
    by (simp add: activeFilters_def users_page_mount_def Let_def no_users_filters_def)
      (simp add: users_filters_mount_def useUsersUiStore_def createSessionUiStore_def USERS_ALL_VALUE_def or_undefined_def
        users_toBoolFilter_def)
next
  fix rows name n dest
  assume h: "policies_shown s q usage = GrantingPolicies rows" "(name, n, Some dest) \<in> set rows"
  then have dest: "dest = ''/policies''" and can: "can s (OneAction (PERM ''POLICIES_READ''))"
    by (auto simp: policies_shown_def split: if_split_asm option.split_asm)
  have path: "path_of dest = ''/policies''" by (simp add: dest path_of_def)
  have g: "guard_of dest = Some (AnyOf [PERM ''POLICIES_READ'', PERM ''POLICIES_CREATE''])" "static_path (path_of dest)"
    unfolding guard_of_def path by (simp_all add: ROUTES_def static_path_def)
  have "can s (AnyOf [PERM ''POLICIES_READ'', PERM ''POLICIES_CREATE''])"
    using can by (simp add: can_def split: if_split_asm)
  then show "opens s match dest" using guard_of_opens [OF assms(1) g(1,2) assms(2)] by blast
qed

theorem permission_links_open_witness:
  "opens (auth_initial\<lparr>isAuthenticated := Some True, permissions := [PERM ''USERS_LIST_ALL'']\<rparr>) exact_match
     (holder_href ''users:read'' ''direct'')"
proof -
  let ?s = "auth_initial\<lparr>isAuthenticated := Some True, permissions := [PERM ''USERS_LIST_ALL'']\<rparr>"
  let ?e = "\<lparr>pe_action = ''users:read'', pe_resource_type = ''users'', pe_description = ''x''\<rparr>"
  let ?u = "\<lparr>pu_action = ''users:read'', pu_policies = [], pu_policy_user_count = 0, pu_direct_grant_count = 2, pu_total_user_count = 2\<rparr>"
  let ?rows = "[(''policy'', 0, None), (''direct'', 2, Some (holder_href ''users:read'' ''direct''))]"
  have can: "can ?s (OneAction (PERM ''USERS_LIST_ALL''))" by (simp add: can_def)
  have rows: "holders_shown ?s \<lparr>dq_loading = False, dq_error = False\<rparr> ?e (Some ?u) = HeldBy ?rows"
    unfolding holders_shown_def by (simp add: can)
  have "isAuthenticated ?s = Some True" by simp
  from permission_links_open [OF exact_match_law this, THEN conjunct1, rule_format, OF rows, of "''direct''" 2] show ?thesis
    by simp
qed

end
