(* ===== verification/RateLimits.thy ===== *)
theory RateLimits
  imports AuditFilters Mutations DataTable
begin

text \<open>
  The rate limits page (\<open>rate_limits\<close>): its stored filters with the stat tiles that set several of them at
  once, the request, the chips, the endpoint picker, the comparison of entries, and the confirmed reset of a
  counter with its guard against double clicks.
\<close>

section \<open>Filters\<close>

datatype rate_kind = AllKinds | AtLimit | LoginLockouts

fun kind_text :: "rate_kind \<Rightarrow> string option" where
  "kind_text AllKinds = None"
| "kind_text AtLimit = Some ''at_limit''"
| "kind_text LoginLockouts = Some ''login_lockouts''"

definition RATE_ALL_VALUE :: string where
  "RATE_ALL_VALUE = []"

record rate_limits_ui =
  ru_endpoint :: string
  ru_identifier :: string
  ru_scope :: string
  ru_sort :: sort_state
  ru_kind :: rate_kind

definition useRateLimitsUiStore :: "rate_limits_ui session_ui_store" where
  "useRateLimitsUiStore = createSessionUiStore \<lparr>ru_endpoint = [], ru_identifier = [], ru_scope = RATE_ALL_VALUE,
     ru_sort = \<lparr>sort_key = ''endpoint'', sort_dir = Asc\<rparr>, ru_kind = AllKinds\<rparr>"

definition setEndpoint :: "string \<Rightarrow> rate_limits_ui \<Rightarrow> rate_limits_ui" where
  "setEndpoint v u = u\<lparr>ru_endpoint := v, ru_kind :=
     (if v = ''login_lock'' then LoginLockouts else if ru_kind u = LoginLockouts then AllKinds else ru_kind u)\<rparr>"

definition setIdentifier :: "string \<Rightarrow> rate_limits_ui \<Rightarrow> rate_limits_ui" where
  "setIdentifier v u = u\<lparr>ru_identifier := v\<rparr>"

definition setScope_rate :: "string \<Rightarrow> rate_limits_ui \<Rightarrow> rate_limits_ui" where
  "setScope_rate v u = u\<lparr>ru_scope := v\<rparr>"

definition toggleSort_rate :: "string \<Rightarrow> rate_limits_ui \<Rightarrow> rate_limits_ui" where
  "toggleSort_rate key u = u\<lparr>ru_sort := nextSortState (ru_sort u) key\<rparr>"

definition onFilterTotal :: "rate_limits_ui \<Rightarrow> rate_limits_ui" where
  "onFilterTotal u = u\<lparr>ru_endpoint := [], ru_identifier := [], ru_scope := [], ru_kind := AllKinds\<rparr>"

definition onFilterAtLimit :: "rate_limits_ui \<Rightarrow> rate_limits_ui" where
  "onFilterAtLimit u = u\<lparr>ru_endpoint := [], ru_identifier := [], ru_scope := [],
     ru_kind := (if ru_kind u = AtLimit then AllKinds else AtLimit)\<rparr>"

definition onFilterLoginLockouts :: "rate_limits_ui \<Rightarrow> rate_limits_ui" where
  "onFilterLoginLockouts u = (let active = (ru_kind u = LoginLockouts) in
     u\<lparr>ru_kind := (if active then AllKinds else LoginLockouts), ru_endpoint := (if active then [] else ''login_lock''),
       ru_identifier := [], ru_scope := []\<rparr>)"

text \<open>The scope segment switches off when its active option is chosen again.\<close>

definition scope_segment :: "string \<Rightarrow> rate_limits_ui \<Rightarrow> rate_limits_ui" where
  "scope_segment nxt u = setScope_rate (if ru_scope u = nxt then RATE_ALL_VALUE else nxt) u"

datatype rate_filter_event = RfEndpoint string | RfIdentifier string | RfScope string | RfSort string
  | RfTotal | RfAtLimit | RfLockouts

fun rate_filter_step :: "rate_limits_ui \<Rightarrow> rate_filter_event \<Rightarrow> rate_limits_ui" where
  "rate_filter_step u (RfEndpoint v) = setEndpoint v u"
| "rate_filter_step u (RfIdentifier v) = setIdentifier v u"
| "rate_filter_step u (RfScope v) = scope_segment v u"
| "rate_filter_step u (RfSort k) = toggleSort_rate k u"
| "rate_filter_step u RfTotal = onFilterTotal u"
| "rate_filter_step u RfAtLimit = onFilterAtLimit u"
| "rate_filter_step u RfLockouts = onFilterLoginLockouts u"

section \<open>The request and the page\<close>

definition RATE_PAGE_SIZE :: int where
  "RATE_PAGE_SIZE = 10"

definition rate_totalPagesFor :: "int \<Rightarrow> int \<Rightarrow> int" where
  "rate_totalPagesFor n pageSize = max 1 (- ((- n) div pageSize))"

definition rate_limits_request :: "int \<Rightarrow> string \<Rightarrow> rate_limits_ui \<Rightarrow> http_request" where
  "rate_limits_request page debouncedIdentifier u = listRateLimitsApi
     \<lparr>rl_page = Some page, rl_scope = or_undefined (ru_scope u), rl_endpoint = or_undefined (ru_endpoint u),
      rl_identifier = or_undefined debouncedIdentifier, rl_pageSize = Some RATE_PAGE_SIZE, rl_kind = kind_text (ru_kind u),
      rl_sortBy = Some (if sort_key (ru_sort u) = ''requests'' then ''count'' else sort_key (ru_sort u)),
      rl_sortDir = Some (case sort_dir (ru_sort u) of Asc \<Rightarrow> ''asc'' | Desc \<Rightarrow> ''desc'')\<rparr>"

definition rate_reset_key :: "string \<Rightarrow> rate_limits_ui \<Rightarrow> string" where
  "rate_reset_key debouncedIdentifier u = js_join ''|'' [ru_endpoint u, debouncedIdentifier, ru_scope u,
     (case kind_text (ru_kind u) of None \<Rightarrow> ''all'' | Some k \<Rightarrow> k)]"

definition rate_hasFilters :: "rate_limits_ui \<Rightarrow> bool" where
  "rate_hasFilters u \<longleftrightarrow> truthy (ru_endpoint u) \<or> truthy (ru_identifier u) \<or> truthy (ru_scope u) \<or> ru_kind u \<noteq> AllKinds"

section \<open>RateLimitsFilterBar.tsx\<close>

definition RATE_LIMIT_ENDPOINTS :: "string list" where
  "RATE_LIMIT_ENDPOINTS = [''login'', ''login_lock'', ''signup'', ''oauth2_login'', ''oauth2_callback'',
     ''get_current_user'', ''logout'', ''logout_all'', ''list_sessions'', ''revoke_session'',
     ''password_reset_request'', ''password_reset_confirm'', ''verify_account'', ''verify_account_request'',
     ''account_delete_confirm'']"

definition endpointGroups :: "string \<Rightarrow> option_group list" where
  "endpointGroups label = [\<lparr>og_key = ''endpoints'', og_label = label, og_options =
     map (\<lambda>e. \<lparr>so_value = e, so_label = e, so_sublabel = None, so_destructive = False\<rparr>) RATE_LIMIT_ENDPOINTS\<rparr>]"

datatype rate_chip = RcEndpoint | RcIdentifier | RcScope

definition rate_chips :: "rate_limits_ui \<Rightarrow> rate_chip list" where
  "rate_chips u = (if truthy (ru_endpoint u) then [RcEndpoint] else [])
     @ (if truthy (ru_identifier u) then [RcIdentifier] else []) @ (if truthy (ru_scope u) then [RcScope] else [])"

fun clear_rate_chip :: "rate_chip \<Rightarrow> rate_limits_ui \<Rightarrow> rate_limits_ui" where
  "clear_rate_chip RcEndpoint u = setEndpoint RATE_ALL_VALUE u"
| "clear_rate_chip RcIdentifier u = setIdentifier [] u"
| "clear_rate_chip RcScope u = setScope_rate RATE_ALL_VALUE u"

definition clear_all_rate :: "rate_limits_ui \<Rightarrow> rate_limits_ui" where
  "clear_all_rate u = setScope_rate RATE_ALL_VALUE (setIdentifier [] (setEndpoint RATE_ALL_VALUE u))"

text \<open>The lockout view and the lockout endpoint go together.\<close>

definition rate_ok :: "rate_limits_ui \<Rightarrow> bool" where
  "rate_ok u \<longleftrightarrow> (ru_kind u = LoginLockouts \<longleftrightarrow> ru_endpoint u = ''login_lock'')"

lemmas rate_defs = setEndpoint_def setIdentifier_def setScope_rate_def scope_segment_def toggleSort_rate_def
  onFilterTotal_def onFilterAtLimit_def onFilterLoginLockouts_def RATE_ALL_VALUE_def Let_def

lemma rate_filter_step_ok: "rate_ok u \<Longrightarrow> rate_ok (rate_filter_step u e)"
  by (cases e) (auto simp: rate_ok_def rate_defs)

interpretation rate_filters: event_machine rate_filter_step rate_ok
  by unfold_locales (rule rate_filter_step_ok)

definition rate_active :: "rate_limits_ui \<Rightarrow> nat" where
  "rate_active u = of_bool (truthy (ru_endpoint u)) + of_bool (truthy (ru_identifier u)) + of_bool (truthy (ru_scope u))"

interpretation rate_chips: filter_chips rate_chips clear_rate_chip clear_all_rate rate_active rate_ok
proof
  fix c and u :: rate_limits_ui assume ok: "rate_ok u"
  show "rate_ok (clear_rate_chip c u) \<and> rate_active u = Suc (rate_active (clear_rate_chip c u))
      \<and> clear_all_rate (clear_rate_chip c u) = clear_all_rate u"
    if "c \<in> set (rate_chips u)"
    using ok that by (cases c) (auto simp: rate_chips_def rate_active_def clear_all_rate_def rate_ok_def rate_defs split: if_split_asm)
  show "rate_chips u = [] \<longleftrightarrow> rate_active u = 0"
    by (simp add: rate_chips_def rate_active_def)
  show "clear_all_rate u = u" if "rate_active u = 0"
    using ok that by (cases u) (auto simp: rate_active_def clear_all_rate_def rate_ok_def rate_defs truthy_def)
qed

text \<open>However the tiles, the picker, the search and the scope segment are used, the lockout view and the lockout
  endpoint are on together or not at all; a tile clicked twice shows everything; clicking the chips away ends
  where "Clear filters" does, which is the unfiltered page except that the at-limit view stays; and from
  there the message of an empty list speaks of filters exactly if that view is on.\<close>

theorem rate_filters_consistent:
  assumes "u = foldl rate_filter_step (ui_state useRateLimitsUiStore) es"
  shows "(ru_kind u = LoginLockouts \<longleftrightarrow> ru_endpoint u = ''login_lock'')
    \<and> onFilterLoginLockouts (onFilterLoginLockouts (onFilterTotal u)) = onFilterTotal u
    \<and> onFilterAtLimit (onFilterAtLimit (onFilterTotal u)) = onFilterTotal u
    \<and> (\<forall>cs u'. click_chips rate_chips clear_rate_chip u cs = Some u' \<longrightarrow> rate_chips u' = [] \<longrightarrow> u' = clear_all_rate u)
    \<and> clear_all_rate u = (onFilterTotal u)\<lparr>ru_kind := (if ru_kind u = AtLimit then AtLimit else AllKinds)\<rparr>
    \<and> (rate_hasFilters (clear_all_rate u) \<longleftrightarrow> ru_kind u = AtLimit)"
proof -
  have "rate_ok (ui_state useRateLimitsUiStore)"
    by (simp add: rate_ok_def useRateLimitsUiStore_def createSessionUiStore_def)
  then have ok: "rate_ok u" unfolding assms by (rule rate_filters.run_inv)
  have "clear_all_rate u = (onFilterTotal u)\<lparr>ru_kind := (if ru_kind u = AtLimit then AtLimit else AllKinds)\<rparr>"
    by (cases "ru_kind u") (simp_all add: clear_all_rate_def rate_defs)
  then show ?thesis
    using ok rate_chips.clicked_away [OF ok] by (auto simp: rate_ok_def rate_defs rate_hasFilters_def truthy_def)
qed

theorem rate_filters_consistent_witness:
  "ru_kind (foldl rate_filter_step (ui_state useRateLimitsUiStore) [RfLockouts, RfEndpoint ''login'']) \<noteq> LoginLockouts"
proof -
  let ?u = "foldl rate_filter_step (ui_state useRateLimitsUiStore) [RfLockouts, RfEndpoint ''login'']"
  have "ru_endpoint ?u = ''login''" by (simp add: rate_defs)
  then show ?thesis using conjunct1 [OF rate_filters_consistent [OF refl, of "[RfLockouts, RfEndpoint ''login'']"]] by simp
qed

text \<open>The picker offers no endpoint of the application itself, though these are limited as well; a filter set to
  one would read "all endpoints".\<close>

definition APP_RATE_LIMITED :: "string list" where
  "APP_RATE_LIMITED = [''career_knowledge_create'', ''career_knowledge_update'', ''career_knowledge_search'']"

theorem own_endpoints_not_offered:
  "so_value ` set (flatOptions (endpointGroups l) q) \<inter> set APP_RATE_LIMITED = {}
   \<and> map (triggerLabel (endpointGroups l) RATE_ALL_VALUE allLabel) APP_RATE_LIMITED = replicate 3 allLabel"
proof -
  have "so_value ` set (flatOptions (endpointGroups l) q) \<subseteq> set RATE_LIMIT_ENDPOINTS"
    using flat_option_of_group [of _ "endpointGroups l" q] by (fastforce simp: endpointGroups_def)
  moreover have "set RATE_LIMIT_ENDPOINTS \<inter> set APP_RATE_LIMITED = {}"
    by (simp add: RATE_LIMIT_ENDPOINTS_def APP_RATE_LIMITED_def)
  ultimately show ?thesis
    by (auto simp: triggerLabel_def endpointGroups_def RATE_LIMIT_ENDPOINTS_def APP_RATE_LIMITED_def eval_nat_numeral)
qed

section \<open>sortRateLimitEntries.ts\<close>

record rate_limit_entry =
  re_key :: string
  re_endpoint :: string
  re_scope :: string
  re_identifier :: string
  re_count :: int
  re_limit :: int
  re_resets_in_seconds :: "int option"

text \<open>A value to compare: texts by code unit, numbers with an infinity for "no expiry". Only one kind occurs
  under one key.\<close>

datatype sort_value = SvText string | SvNumber int | SvInfinity

fun sv_less :: "sort_value \<Rightarrow> sort_value \<Rightarrow> bool" where
  "sv_less (SvText a) (SvText b) = js_less a b"
| "sv_less (SvNumber a) (SvNumber b) = (a < b)"
| "sv_less (SvNumber a) SvInfinity = True"
| "sv_less _ _ = False"

definition SORT_VALUE :: "string \<Rightarrow> (rate_limit_entry \<Rightarrow> sort_value) option" where
  "SORT_VALUE key =
     (if key = ''endpoint'' then Some (\<lambda>e. SvText (re_endpoint e))
      else if key = ''scope'' then Some (\<lambda>e. SvText (re_scope e))
      else if key = ''identifier'' then Some (\<lambda>e. SvText (re_identifier e))
      else if key = ''requests'' then Some (\<lambda>e. SvNumber (re_count e))
      else if key = ''resets_at'' then Some (\<lambda>e. case re_resets_in_seconds e of Some n \<Rightarrow> SvNumber n | None \<Rightarrow> SvInfinity)
      else None)"

text \<open>The comparator answers at most zero.\<close>

definition entry_le :: "sort_direction \<Rightarrow> (rate_limit_entry \<Rightarrow> sort_value) \<Rightarrow> rate_limit_entry \<Rightarrow> rate_limit_entry \<Rightarrow> bool" where
  "entry_le d val a b = (if d = Asc then \<not> sv_less (val b) (val a) else \<not> sv_less (val a) (val b))"

definition sortRateLimitEntries :: "rate_limit_entry list \<Rightarrow> sort_state \<Rightarrow> rate_limit_entry list" where
  "sortRateLimitEntries entries srt = (case SORT_VALUE (sort_key srt) of
      None \<Rightarrow> entries | Some val \<Rightarrow> js_sort (entry_le (sort_dir srt) val) entries)"

lemma js_less_irrefl: "\<not> js_less a a"
  by (induction a) auto

lemma js_less_asym: "js_less a b \<Longrightarrow> \<not> js_less b a"
  by (induction a b rule: js_less.induct) auto

lemma js_less_linear: "js_less a b \<or> a = b \<or> js_less b a"
proof (induction a b rule: js_less.induct)
  case (3 a s b t)
  have "(of_char a :: nat) = of_char b \<Longrightarrow> a = b" by simp
  with 3 show ?case by (cases "(of_char a :: nat)" "of_char b :: nat" rule: linorder_cases) auto
next
  case (1 s)
  then show ?case by (cases s) auto
qed simp_all

lemma js_less_trans: "js_less a b \<Longrightarrow> js_less b c \<Longrightarrow> js_less a c"
proof (induction a c arbitrary: b rule: js_less.induct)
  case (3 x s y t)
  then obtain z u where "b = z # u" by (cases b) auto
  with 3 show ?case by auto
next
  case (1 s)
  then show ?case by simp
next
  case (2 b t)
  then show ?case by simp
qed

text \<open>Under each key only comparable values occur.\<close>

definition same_kind :: "sort_value \<Rightarrow> sort_value \<Rightarrow> bool" where
  "same_kind v w \<longleftrightarrow> (case (v, w) of (SvText _, SvText _) \<Rightarrow> True | (SvText _, _) \<Rightarrow> False | (_, SvText _) \<Rightarrow> False | _ \<Rightarrow> True)"

lemma SORT_VALUE_kind: "SORT_VALUE key = Some val \<Longrightarrow> same_kind (val a) (val b)"
  by (auto simp: SORT_VALUE_def same_kind_def split: if_split_asm option.split)

lemma sv_order:
  assumes "same_kind a b" and "same_kind b c" and "\<not> sv_less b a" and "\<not> sv_less c b"
  shows "\<not> sv_less c a"
proof -
  have plain: "\<not> js_less z x" if "\<not> js_less y x" "\<not> js_less z y" for x y z
    using that js_less_linear [of y x] js_less_linear [of z y] js_less_trans js_less_asym by metis
  show ?thesis
    using assms by (cases a; cases b; cases c) (auto simp: same_kind_def dest: plain)
qed

lemma sv_asym: "sv_less a b \<Longrightarrow> \<not> sv_less b a"
  by (cases a; cases b) (auto dest: js_less_asym)

lemma entry_le_preorder: "SORT_VALUE key = Some val \<Longrightarrow> total_preorder (entry_le d val)"
proof -
  assume val: "SORT_VALUE key = Some val"
  note kind = SORT_VALUE_kind [OF val]
  have "\<not> sv_less (val z) (val x)" if "\<not> sv_less (val y) (val x)" "\<not> sv_less (val z) (val y)" for x y z
    using sv_order [OF kind kind that] .
  note trans = this
  have total: "\<not> sv_less (val y) (val x) \<or> \<not> sv_less (val x) (val y)" for x y using sv_asym by blast
  have "total_preorder (\<lambda>a b. \<not> sv_less (val b) (val a))"
    unfolding total_preorder_def by (intro conjI allI impI total) (rule trans)
  moreover have "total_preorder (\<lambda>a b. \<not> sv_less (val a) (val b))"
    unfolding total_preorder_def by (intro conjI allI impI total) (rule trans)
  moreover have "entry_le Asc val = (\<lambda>a b. \<not> sv_less (val b) (val a))" "entry_le Desc val = (\<lambda>a b. \<not> sv_less (val a) (val b))"
    by (simp_all add: fun_eq_iff entry_le_def)
  ultimately show ?thesis by (cases d) simp_all
qed

text \<open>Sorting a page loses and doubles nothing; by expiry ascending, the counters that never expire come last,
  descending they come first; and a column without a value leaves the order alone.\<close>

theorem rate_entries_sorted:
  assumes "SORT_VALUE (sort_key srt) = Some val"
  shows "mset (sortRateLimitEntries es srt) = mset es
    \<and> sorted_wrt (entry_le (sort_dir srt) val) (sortRateLimitEntries es srt)
    \<and> (sort_key srt = ''resets_at'' \<longrightarrow> sorted_wrt (\<lambda>a b. if sort_dir srt = Asc
          then re_resets_in_seconds a = None \<longrightarrow> re_resets_in_seconds b = None
          else re_resets_in_seconds b = None \<longrightarrow> re_resets_in_seconds a = None) (sortRateLimitEntries es srt))"
proof (intro conjI impI)
  show "mset (sortRateLimitEntries es srt) = mset es" using assms by (simp add: sortRateLimitEntries_def)
  show s: "sorted_wrt (entry_le (sort_dir srt) val) (sortRateLimitEntries es srt)"
    using assms sorted_js_sort [OF entry_le_preorder [OF assms]] by (simp add: sortRateLimitEntries_def)
  assume "sort_key srt = ''resets_at''"
  then have val: "val = (\<lambda>e. case re_resets_in_seconds e of Some n \<Rightarrow> SvNumber n | None \<Rightarrow> SvInfinity)"
    using assms by (simp add: SORT_VALUE_def)
  show "sorted_wrt (\<lambda>a b. if sort_dir srt = Asc
          then re_resets_in_seconds a = None \<longrightarrow> re_resets_in_seconds b = None
          else re_resets_in_seconds b = None \<longrightarrow> re_resets_in_seconds a = None) (sortRateLimitEntries es srt)"
    by (rule sorted_wrt_mono_rel [OF _ s]) (auto simp: entry_le_def val split: if_split_asm option.split_asm)
qed

section \<open>Resetting a counter\<close>

text \<open>Part of the page around the confirmation: the entry asked about, the guard (a ref, so written at once), the
  mutation as it is (\<open>rs_in_flight\<close>) and as the last render saw it, and what has been sent and answered. A
  click that only writes the ref causes no render; every change of state does, and the effect that clears
  the guard follows a render in which the entry is another one.\<close>

record reset_page =
  rs_resettingEntry :: "rate_limit_entry option"
  rs_submitGuard :: bool
  rs_in_flight :: "string option"
  rs_isPending :: bool
  rs_sent :: "http_request list"
  rs_answered :: nat
  rs_client :: client

definition reset_mount :: "client \<Rightarrow> reset_page" where
  "reset_mount c = \<lparr>rs_resettingEntry = None, rs_submitGuard = False, rs_in_flight = None, rs_isPending = False,
     rs_sent = [], rs_answered = 0, rs_client = c\<rparr>"

definition reset_render :: "reset_page \<Rightarrow> reset_page" where
  "reset_render s = s\<lparr>rs_isPending := (rs_in_flight s \<noteq> None)\<rparr>"

definition set_resetting :: "rate_limit_entry option \<Rightarrow> reset_page \<Rightarrow> reset_page" where
  "set_resetting x s = reset_render (s\<lparr>rs_resettingEntry := x,
     rs_submitGuard := (if x = rs_resettingEntry s then rs_submitGuard s else False)\<rparr>)"

text \<open>The handler of the render before the click: it sees the entry and the pending flag of that render.\<close>

definition handleConfirmReset :: "reset_page \<Rightarrow> reset_page" where
  "handleConfirmReset s = (case rs_resettingEntry s of
      None \<Rightarrow> s
    | Some e \<Rightarrow> if rs_submitGuard s \<or> rs_isPending s then s
        else s\<lparr>rs_submitGuard := True, rs_in_flight := Some (re_key e), rs_sent := rs_sent s @ [resetRateLimitApi (re_key e)]\<rparr>)"

definition reset_toast :: "string \<Rightarrow> toast_type \<Rightarrow> client \<Rightarrow> client" where
  "reset_toast title ty c = c\<lparr>shown := shown c @ [\<lparr>shown_title = title, shown_description = None, shown_type = ty\<rparr>]\<rparr>"

definition reset_settles :: "i18n \<Rightarrow> json outcome \<Rightarrow> reset_page \<Rightarrow> reset_page" where
  "reset_settles i r s = (case rs_in_flight s of
      None \<Rightarrow> s
    | Some key \<Rightarrow>
        (let s1 = s\<lparr>rs_in_flight := None, rs_answered := rs_answered s + 1\<rparr> in
         case useResetRateLimitMutation i (\<lambda>rq. r) key (rs_client s) of
           (Inr d, c) \<Rightarrow> set_resetting None (s1\<lparr>rs_client := reset_toast (i18n_t i ''page.resetToast'' (JObj [])) ToastSuccess c\<rparr>)
         | (Inl m, c) \<Rightarrow> set_resetting None (s1\<lparr>rs_client := reset_toast
             (case r of Inl e \<Rightarrow> if isForbiddenError e then i18n_t i ''page.resetForbidden'' (JObj []) else m | Inr d \<Rightarrow> m)
             ToastError c\<rparr>)))"

datatype reset_event = RequestReset rate_limit_entry | ConfirmReset | CancelReset | PageRenders | ResetSettles "json outcome"

text \<open>The dialog covers the table, so a row's button is only reachable while it is closed.\<close>

fun reset_step :: "i18n \<Rightarrow> reset_page \<Rightarrow> reset_event \<Rightarrow> reset_page" where
  "reset_step i s (RequestReset e) = (if rs_resettingEntry s = None then set_resetting (Some e) s else s)"
| "reset_step i s ConfirmReset = handleConfirmReset s"
| "reset_step i s CancelReset = set_resetting None s"
| "reset_step i s PageRenders = reset_render s"
| "reset_step i s (ResetSettles r) = reset_settles i r s"

definition reset_ok :: "reset_page \<Rightarrow> bool" where
  "reset_ok s \<longleftrightarrow> length (rs_sent s) = rs_answered s + of_bool (rs_in_flight s \<noteq> None)
     \<and> (rs_in_flight s \<noteq> None \<longrightarrow> rs_submitGuard s \<or> rs_isPending s)
     \<and> (rs_isPending s \<longrightarrow> rs_in_flight s \<noteq> None)
     \<and> (rs_submitGuard s \<longrightarrow> rs_resettingEntry s \<noteq> None \<and> rs_in_flight s \<noteq> None)"

lemma reset_settles_cases:
  obtains (none) "rs_in_flight s = None" "reset_settles i r s = s"
  | (answered) key c where "rs_in_flight s = Some key"
      "reset_settles i r s = set_resetting None (s\<lparr>rs_in_flight := None, rs_answered := rs_answered s + 1, rs_client := c\<rparr>)"
proof (cases "rs_in_flight s")
  case (Some key)
  have "\<exists>c. reset_settles i r s = set_resetting None (s\<lparr>rs_in_flight := None, rs_answered := rs_answered s + 1, rs_client := c\<rparr>)"
    using Some by (auto simp: reset_settles_def Let_def split: prod.split sum.split)
  then show thesis using answered [OF Some] by blast
qed (simp add: none reset_settles_def)

lemma reset_step_ok: "reset_ok s \<Longrightarrow> reset_ok (reset_step i s e)"
proof (cases e)
  case (ResetSettles r)
  assume ok: "reset_ok s"
  have "reset_ok (reset_settles i r s)"
  proof (rule reset_settles_cases [of s i r])
  qed (use ok in \<open>auto simp: reset_ok_def set_resetting_def reset_render_def\<close>)
  then show ?thesis by (simp add: ResetSettles)
qed (auto simp: reset_ok_def set_resetting_def reset_render_def handleConfirmReset_def split: option.split)

interpretation resets: event_machine "reset_step i" reset_ok for i
  by unfold_locales (rule reset_step_ok)

text \<open>C27. However fast the confirm button is clicked, and however the dialog is dismissed and opened again while a
  request is under way, at most one deletion is in flight: every one sent before has been answered. A second
  click adds nothing, and a page at rest sends the deletion of exactly the entry confirmed.\<close>

theorem reset_not_doubled:
  assumes "s = foldl (reset_step i) (reset_mount c) es"
  shows "rs_answered s \<le> length (rs_sent s) \<and> length (rs_sent s) \<le> rs_answered s + 1
    \<and> rs_sent (foldl (reset_step i) s [ConfirmReset, ConfirmReset]) = rs_sent (reset_step i s ConfirmReset)
    \<and> (rs_in_flight s = None \<and> rs_resettingEntry s = None \<longrightarrow>
        rs_sent (foldl (reset_step i) s [RequestReset e, ConfirmReset]) = rs_sent s @ [resetRateLimitApi (re_key e)])"
proof -
  have "reset_ok (reset_mount c)" by (simp add: reset_ok_def reset_mount_def)
  then have ok: "reset_ok s" unfolding assms by (rule resets.run_inv)
  then show ?thesis
    by (auto simp: reset_ok_def handleConfirmReset_def set_resetting_def reset_render_def split: option.split)
qed

definition example_limit :: "string \<Rightarrow> rate_limit_entry" where
  "example_limit k = \<lparr>re_key = k, re_endpoint = ''login'', re_scope = ''ip'', re_identifier = ''1.2.3.4'', re_count = 5,
     re_limit = 5, re_resets_in_seconds = None\<rparr>"

theorem reset_not_doubled_witness:
  "rs_sent (foldl (reset_step untranslated) (reset_mount client_initial)
     [RequestReset (example_limit ''a''), ConfirmReset, ConfirmReset]) = [resetRateLimitApi ''a'']"
proof -
  let ?s = "foldl (reset_step untranslated) (reset_mount client_initial) [RequestReset (example_limit ''a'')]"
  have "rs_sent (foldl (reset_step untranslated) ?s [ConfirmReset, ConfirmReset]) = rs_sent (reset_step untranslated ?s ConfirmReset)"
    using reset_not_doubled [OF refl, of untranslated client_initial "[RequestReset (example_limit ''a'')]"] by blast
  then show ?thesis
    by (simp add: reset_mount_def set_resetting_def reset_render_def handleConfirmReset_def example_limit_def)
qed

end
