(* ===== verification/BulkDialog.thy ===== *)
theory BulkDialog
  imports BulkMutations PermissionsPage PolicyHelpers
begin

text \<open>
  The bulk access dialog of the users page, \<open>users/bulk\<close>: three tabs from which policies, permissions or a
  role are given to or taken from every selected user, the report of the last run, the list of the selected
  users, and the toolbar that opens the dialog. The dialog stays mounted while it is closed, so its fields
  outlive it. What its queries hold is an input of each step (\<open>bulk_env\<close>); \<open>JSON.parse\<close> and the
  comparison of names are parameters; the requests of a run are those of theory BulkMutations.
\<close>

section \<open>What the dialog reads\<close>

datatype bulk_tab = PoliciesTab_bulk | PermissionsTab_bulk | RolesTab_bulk

text \<open>\<open>lastAction\<close>.\<close>

datatype bulk_op = OpAssignPolicy | OpRemovePolicy | OpGrantPermission | OpRevokePermission | OpSetRole

record bulk_env =
  be_auth :: auth_state
  be_policies :: "policy_read list option"
  be_catalog :: "permission_entry list option"
  be_myPolicies :: "policy_read list option"
  be_myPermissions :: "grant list option"

text \<open>A mutation as the component observes it: the run it waits for, and the data of the last success, with
  the run it belongs to standing for the identity of the object.\<close>

record bulk_run =
  br_pending :: "nat option"
  br_data :: "(nat \<times> bulk_response) option"

definition idle_run :: bulk_run where
  "idle_run = \<lparr>br_pending = None, br_data = None\<rparr>"

record bulk_access =
  ba_isOpen :: bool
  ba_userEmails :: "string list"
  ba_initialTab :: bulk_tab
  ba_tab :: bulk_tab
  ba_selectedUsersOpen :: bool
  ba_resultOpen :: bool
  ba_selectedUserSearch :: string
  ba_selectedUserPage :: int
  ba_selectedPolicies :: "string list"
  ba_policySearch :: string
  ba_permissions :: "string list"
  ba_expanded :: "string list"
  ba_conditions :: string
  ba_role :: string
  ba_error :: bool
  ba_lastAction :: "bulk_op option"
  ba_runs :: "bulk_op \<Rightarrow> bulk_run"
  ba_nextRun :: nat
  ba_initializedCatalog :: bool

definition bulk_access_mount :: "bool \<Rightarrow> string list \<Rightarrow> bulk_tab \<Rightarrow> bulk_access" where
  "bulk_access_mount isOpen userEmails initialTab =
     \<lparr>ba_isOpen = isOpen, ba_userEmails = userEmails, ba_initialTab = initialTab,
      ba_tab = (if isOpen then initialTab else PoliciesTab_bulk), ba_selectedUsersOpen = False, ba_resultOpen = False,
      ba_selectedUserSearch = [], ba_selectedUserPage = 1, ba_selectedPolicies = [], ba_policySearch = [],
      ba_permissions = [], ba_expanded = [], ba_conditions = [], ba_role = [], ba_error = False,
      ba_lastAction = None, ba_runs = (\<lambda>_. idle_run), ba_nextRun = 0, ba_initializedCatalog = False\<rparr>"

section \<open>What the dialog offers\<close>

definition bulk_self :: "bulk_env \<Rightarrow> bulk_access \<Rightarrow> bool" where
  "bulk_self env s \<longleftrightarrow> length (ba_userEmails s) = 1 \<and> Some (hd (ba_userEmails s)) = profile_email (be_auth env)"

text \<open>The caller's own grants, only if the caller is the whole selection.\<close>

definition bulk_grants :: "bulk_env \<Rightarrow> bulk_access \<Rightarrow> string list option" where
  "bulk_grants env s = (if bulk_self env s
     then Some (buildEffectiveGrantKeySet (case be_myPolicies env of Some ps \<Rightarrow> ps | None \<Rightarrow> [])
       (case be_myPermissions env of Some ds \<Rightarrow> ds | None \<Rightarrow> []))
     else None)"

definition availablePolicies :: "bulk_env \<Rightarrow> bulk_access \<Rightarrow> policy_read list" where
  "availablePolicies env s = filter (\<lambda>p. canGrantPolicy (pol_actions p) (can (be_auth env))
       \<and> (case bulk_grants env s of None \<Rightarrow> True | Some keys \<Rightarrow> \<not> policyAddsNothingNew p keys))
     (case be_policies env of Some ps \<Rightarrow> ps | None \<Rightarrow> [])"

definition availablePermissions :: "bulk_env \<Rightarrow> bulk_access \<Rightarrow> permission_entry list" where
  "availablePermissions env s = filter (\<lambda>e. canGrantAction (pe_action e) (can (be_auth env))
       \<and> (case bulk_grants env s of None \<Rightarrow> True
          | Some keys \<Rightarrow> \<not> isAlreadyEffectivelyGranted keys (pe_action e) (pe_resource_type e)))
     (case be_catalog env of Some es \<Rightarrow> es | None \<Rightarrow> [])"

definition permissionGroups :: "bulk_env \<Rightarrow> bulk_access \<Rightarrow> (string \<times> permission_entry list) list" where
  "permissionGroups env s = group_by pe_resource_type (availablePermissions env s)"

definition bulk_shownPolicies :: "bulk_env \<Rightarrow> bulk_access \<Rightarrow> policy_read list" where
  "bulk_shownPolicies env s = (let query = js_lower (js_trim (ba_policySearch s)) in
     filter (\<lambda>p. \<not> truthy query \<or> js_includes (js_lower (pol_name p)) query
       \<or> (case pol_description p of Some d \<Rightarrow> js_includes (js_lower d) query | None \<Rightarrow> False))
     (availablePolicies env s))"

definition bulk_policyGroups ::
  "(string \<Rightarrow> string \<Rightarrow> bool) \<Rightarrow> bulk_env \<Rightarrow> bulk_access \<Rightarrow> (string \<times> policy_read list) list" where
  "bulk_policyGroups le env s = groupPoliciesByResourceType le (bulk_shownPolicies env s)"

definition entry_key :: "permission_entry \<Rightarrow> string" where
  "entry_key e = pe_action e @ ''::'' @ pe_resource_type e"

definition bulk_allExpanded :: "bulk_env \<Rightarrow> bulk_access \<Rightarrow> bool" where
  "bulk_allExpanded env s = (let names = map fst (permissionGroups env s)
     in names \<noteq> [] \<and> (\<forall>n \<in> set names. n \<in> set (ba_expanded s)))"

definition ROLE_OPTIONS :: "string list" where
  "ROLE_OPTIONS = [''user'', ''admin'', ''system'']"

definition visibleRoles :: "auth_state \<Rightarrow> string list" where
  "visibleRoles a = filter (\<lambda>r. r \<noteq> ''system'' \<or> can a (OneAction ''users:assign_system_role'')) ROLE_OPTIONS"

section \<open>The selected users\<close>

definition filteredSelectedUsers :: "bulk_access \<Rightarrow> string list" where
  "filteredSelectedUsers s =
     filter (\<lambda>e. js_includes (js_lower e) (js_lower (js_trim (ba_selectedUserSearch s)))) (ba_userEmails s)"

definition selectedUserPages :: "bulk_access \<Rightarrow> int" where
  "selectedUserPages s = max 1 (- ((- int (length (filteredSelectedUsers s))) div 50))"

definition visibleSelectedUsers :: "bulk_access \<Rightarrow> string list" where
  "visibleSelectedUsers s =
     take 50 (drop (nat ((ba_selectedUserPage s - 1) * 50)) (filteredSelectedUsers s))"

section \<open>The report\<close>

definition bulk_result :: "bulk_access \<Rightarrow> (nat \<times> bulk_response) option" where
  "bulk_result s = br_data (ba_runs s (case ba_lastAction s of Some a \<Rightarrow> a | None \<Rightarrow> OpSetRole))"

text \<open>\<open>key.split("::")\<close>.\<close>

fun split_colons :: "string \<Rightarrow> string list" where
  "split_colons (c # d # s) = (if c = CHR '':'' \<and> d = CHR '':'' then [] # split_colons s
     else (case split_colons (d # s) of [] \<Rightarrow> [[c]] | p # ps \<Rightarrow> (c # p) # ps))"
| "split_colons s = [s]"

fun key_parts :: "string list \<Rightarrow> string \<times> string option" where
  "key_parts (a # r # _) = (a, Some r)"
| "key_parts [a] = (a, None)"
| "key_parts [] = ([], None)"

definition resultOperationLabel :: "bulk_access \<Rightarrow> string \<times> string" where
  "resultOperationLabel s =
     (let actions = js_join '', '' (map (\<lambda>k. fst (key_parts (split_colons k))) (ba_permissions s));
          policies = js_join '', '' (ba_selectedPolicies s) in
      case ba_lastAction s of
        Some OpAssignPolicy \<Rightarrow> (''users:bulkActions.operationAssignPolicy'', policies)
      | Some OpRemovePolicy \<Rightarrow> (''users:bulkActions.operationRemovePolicy'', policies)
      | Some OpGrantPermission \<Rightarrow> (''users:bulkActions.operationGrantPermission'', actions)
      | Some OpRevokePermission \<Rightarrow> (''users:bulkActions.operationRevokePermission'', actions)
      | _ \<Rightarrow> (''users:bulkActions.operationSetRole'', ba_role s))"

definition report_shown :: "bulk_access \<Rightarrow> (nat \<times> bulk_response) option" where
  "report_shown s = (if ba_resultOpen s then bulk_result s else None)"

section \<open>Steps\<close>

datatype bulk_event =
    BulkProps bool "string list" bulk_tab
  | BulkRendered
  | BulkTab bulk_tab
  | BulkPolicySearch string
  | BulkPolicyToggle string bool
  | BulkPermissionToggle string bool
  | BulkGroup string
  | BulkExpandAll
  | BulkCollapseAll
  | BulkConditions string
  | BulkRoleSwitch string bool
  | BulkRunPolicy bool
  | BulkRunPermission bool
  | BulkRunRole
  | BulkSettles bulk_op nat "string + bulk_response"
  | BulkReport bool
  | BulkUsers bool
  | BulkUserSearch string
  | BulkUserPrevious
  | BulkUserNext

datatype bulk_command =
    PolicyRun bool "string list" "string list"
  | PermissionRun bool "string list" "(string \<times> string option) list" "json option"
  | RoleRun "string list" string
  | BulkToast string

definition reset_bulk :: "bulk_tab \<Rightarrow> bulk_access \<Rightarrow> bulk_access" where
  "reset_bulk tab s = s\<lparr>ba_tab := tab, ba_error := False, ba_lastAction := None\<rparr>"

text \<open>\<open>parseConditions\<close>: \<open>undefined\<close>, the parsed value, or \<open>false\<close> when the text does not parse. The value
  \<open>false\<close> is also what the text \<open>false\<close> parses to.\<close>

definition parseConditions :: "(string \<Rightarrow> json_text) \<Rightarrow> bulk_access \<Rightarrow> json option \<times> bulk_access" where
  "parseConditions parse s =
     (if js_trim (ba_conditions s) = [] then (None, s)
      else (case parse (ba_conditions s) of
          Document v \<Rightarrow> (Some v, s)
        | Malformed \<Rightarrow> (Some (JBool False), s\<lparr>ba_error := True\<rparr>)))"

text \<open>\<open>mutate\<close>: the cell waits for a new run and forgets the data of the last.\<close>

definition start_run :: "bulk_op \<Rightarrow> bulk_access \<Rightarrow> bulk_access" where
  "start_run a s = s\<lparr>ba_lastAction := Some a,
     ba_runs := (ba_runs s)(a := \<lparr>br_pending = Some (ba_nextRun s), br_data = None\<rparr>), ba_nextRun := Suc (ba_nextRun s)\<rparr>"

definition runPolicy :: "bool \<Rightarrow> bulk_access \<Rightarrow> bulk_access \<times> bulk_command list" where
  "runPolicy remove s =
     (if ba_selectedPolicies s = [] then (s, [])
      else (start_run (if remove then OpRemovePolicy else OpAssignPolicy) s,
        [PolicyRun remove (ba_userEmails s) (ba_selectedPolicies s)]))"

definition runPermission :: "(string \<Rightarrow> json_text) \<Rightarrow> bool \<Rightarrow> bulk_access \<Rightarrow> bulk_access \<times> bulk_command list" where
  "runPermission parse remove s =
     (if ba_permissions s = [] then (s, [])
      else (let (parsed, s1) = (if remove then (None, s) else parseConditions parse s) in
        if parsed = Some (JBool False) then (s1, [])
        else (start_run (if remove then OpRevokePermission else OpGrantPermission) s1,
          [PermissionRun remove (ba_userEmails s)
             (map (\<lambda>k. key_parts (split_colons k)) (ba_permissions s)) (if remove then None else parsed)])))"

definition runRole :: "bulk_access \<Rightarrow> bulk_access \<times> bulk_command list" where
  "runRole s = (if ba_role s = [] then (s, [])
     else (start_run OpSetRole s, [RoleRun (ba_userEmails s) (ba_role s)]))"

definition run_settles :: "bulk_op \<Rightarrow> nat \<Rightarrow> string + bulk_response \<Rightarrow> bulk_access \<Rightarrow> bulk_access \<times> bulk_command list" where
  "run_settles a n res s =
     (if br_pending (ba_runs s a) \<noteq> Some n then (s, [])
      else (case res of
          Inr d \<Rightarrow> (s\<lparr>ba_runs := (ba_runs s)(a := \<lparr>br_pending = None, br_data = Some (n, d)\<rparr>)\<rparr>, [])
        | Inl m \<Rightarrow> (s\<lparr>ba_runs := (ba_runs s)(a := idle_run)\<rparr>, [BulkToast m])))"

fun bulk_event_step ::
  "(string \<Rightarrow> json_text) \<Rightarrow> bulk_env \<Rightarrow> bulk_access \<Rightarrow> bulk_event \<Rightarrow> bulk_access \<times> bulk_command list" where
  "bulk_event_step parse env s (BulkProps isOpen emails tab) =
     (s\<lparr>ba_isOpen := isOpen, ba_userEmails := emails, ba_initialTab := tab\<rparr>, [])"
| "bulk_event_step parse env s BulkRendered = (s, [])"
| "bulk_event_step parse env s (BulkTab tab) = (reset_bulk tab s, [])"
| "bulk_event_step parse env s (BulkPolicySearch q) = (s\<lparr>ba_policySearch := q\<rparr>, [])"
| "bulk_event_step parse env s (BulkPolicyToggle name checked) =
     (s\<lparr>ba_selectedPolicies := (if checked then ba_selectedPolicies s @ [name]
          else filter (\<lambda>v. v \<noteq> name) (ba_selectedPolicies s))\<rparr>, [])"
| "bulk_event_step parse env s (BulkPermissionToggle key checked) =
     (s\<lparr>ba_permissions := (if checked then ba_permissions s @ [key]
          else filter (\<lambda>v. v \<noteq> key) (ba_permissions s))\<rparr>, [])"
| "bulk_event_step parse env s (BulkGroup name) =
     (s\<lparr>ba_expanded := (if name \<in> set (ba_expanded s) then filter (\<lambda>v. v \<noteq> name) (ba_expanded s)
          else ba_expanded s @ [name])\<rparr>, [])"
| "bulk_event_step parse env s BulkExpandAll = (s\<lparr>ba_expanded := map fst (permissionGroups env s)\<rparr>, [])"
| "bulk_event_step parse env s BulkCollapseAll = (s\<lparr>ba_expanded := []\<rparr>, [])"
| "bulk_event_step parse env s (BulkConditions v) = (s\<lparr>ba_conditions := v\<rparr>, [])"
| "bulk_event_step parse env s (BulkRoleSwitch r checked) = (s\<lparr>ba_role := (if checked then r else [])\<rparr>, [])"
| "bulk_event_step parse env s (BulkRunPolicy remove) = runPolicy remove s"
| "bulk_event_step parse env s (BulkRunPermission remove) = runPermission parse remove s"
| "bulk_event_step parse env s BulkRunRole = runRole s"
| "bulk_event_step parse env s (BulkSettles a n res) = run_settles a n res s"
| "bulk_event_step parse env s (BulkReport isOpen) = (s\<lparr>ba_resultOpen := isOpen\<rparr>, [])"
| "bulk_event_step parse env s (BulkUsers isOpen) = (s\<lparr>ba_selectedUsersOpen := isOpen\<rparr>, [])"
| "bulk_event_step parse env s (BulkUserSearch q) = (s\<lparr>ba_selectedUserSearch := q, ba_selectedUserPage := 1\<rparr>, [])"
| "bulk_event_step parse env s BulkUserPrevious = (s\<lparr>ba_selectedUserPage := ba_selectedUserPage s - 1\<rparr>, [])"
| "bulk_event_step parse env s BulkUserNext = (s\<lparr>ba_selectedUserPage := ba_selectedUserPage s + 1\<rparr>, [])"

text \<open>The arrow keys of the tab list: the tab to activate, if another one.\<close>

definition tabValues :: "bulk_tab list" where
  "tabValues = [PoliciesTab_bulk, PermissionsTab_bulk, RolesTab_bulk]"

definition bulk_tab_key :: "string \<Rightarrow> nat \<Rightarrow> bulk_event option" where
  "bulk_tab_key key current =
     (let target = (if key = ''ArrowRight'' \<or> key = ''ArrowDown'' then (current + 1) mod 3
        else if key = ''ArrowLeft'' \<or> key = ''ArrowUp'' then (current + 2) mod 3
        else if key = ''Home'' then 0 else if key = ''End'' then 2 else current)
      in if target \<noteq> current then Some (BulkTab (tabValues ! target)) else None)"

text \<open>The effects after a commit, each run when what it depends on has changed.\<close>

definition tab_effect :: "bulk_access \<Rightarrow> bulk_access \<Rightarrow> bulk_access" where
  "tab_effect before s =
     (if (ba_isOpen s \<noteq> ba_isOpen before \<or> ba_initialTab s \<noteq> ba_initialTab before) \<and> ba_isOpen s
      then s\<lparr>ba_tab := ba_initialTab s\<rparr> else s)"

definition catalog_effect :: "bulk_env \<Rightarrow> bulk_access \<Rightarrow> bulk_access" where
  "catalog_effect env s =
     (if \<not> ba_initializedCatalog s \<and> permissionGroups env s \<noteq> []
      then s\<lparr>ba_initializedCatalog := True, ba_expanded := map fst (permissionGroups env s)\<rparr> else s)"

definition close_effect :: "bulk_access \<Rightarrow> bulk_access \<Rightarrow> bulk_access" where
  "close_effect before s =
     (if ba_isOpen before \<and> \<not> ba_isOpen s
      then s\<lparr>ba_resultOpen := False, ba_lastAction := None, ba_runs := (\<lambda>_. idle_run)\<rparr> else s)"

definition result_effect :: "bulk_access \<Rightarrow> bulk_access \<Rightarrow> bulk_access" where
  "result_effect before s =
     (if map_option fst (bulk_result s) \<noteq> map_option fst (bulk_result before) \<and> bulk_result s \<noteq> None
      then s\<lparr>ba_resultOpen := True\<rparr> else s)"

definition bulk_step ::
  "(string \<Rightarrow> json_text) \<Rightarrow> bulk_env \<Rightarrow> bulk_access \<Rightarrow> bulk_event \<Rightarrow> bulk_access \<times> bulk_command list" where
  "bulk_step parse env s ev = (let (s1, out) = bulk_event_step parse env s ev in
     (result_effect s (close_effect s (catalog_effect env (tab_effect s s1))), out))"

text \<open>Which controls are there and enabled. A button with \<open>loading\<close> is disabled; a switch reports the
  opposite of what it shows.\<close>

fun bulk_offers :: "bulk_env \<Rightarrow> bulk_access \<Rightarrow> bulk_event \<Rightarrow> bool" where
  "bulk_offers env s (BulkPolicyToggle name checked) =
     (ba_isOpen s \<and> ba_tab s = PoliciesTab_bulk \<and> name \<in> pol_name ` set (bulk_shownPolicies env s)
      \<and> checked = (name \<notin> set (ba_selectedPolicies s)))"
| "bulk_offers env s (BulkPermissionToggle key checked) =
     (ba_isOpen s \<and> ba_tab s = PermissionsTab_bulk
      \<and> key \<in> entry_key ` {e \<in> set (availablePermissions env s). pe_resource_type e \<in> set (ba_expanded s)}
      \<and> checked = (key \<notin> set (ba_permissions s)))"
| "bulk_offers env s (BulkRoleSwitch r checked) =
     (ba_isOpen s \<and> ba_tab s = RolesTab_bulk \<and> r \<in> set (visibleRoles (be_auth env)) \<and> checked = (ba_role s \<noteq> r))"
| "bulk_offers env s (BulkRunPolicy remove) =
     (ba_isOpen s \<and> ba_tab s = PoliciesTab_bulk \<and> ba_selectedPolicies s \<noteq> []
      \<and> br_pending (ba_runs s (if remove then OpRemovePolicy else OpAssignPolicy)) = None
      \<and> (remove \<longrightarrow> IfCan (be_auth env) (OneAction ''policies:revoke'') None () = Children))"
| "bulk_offers env s (BulkRunPermission remove) =
     (ba_isOpen s \<and> ba_tab s = PermissionsTab_bulk \<and> ba_permissions s \<noteq> []
      \<and> br_pending (ba_runs s (if remove then OpRevokePermission else OpGrantPermission)) = None
      \<and> (remove \<longrightarrow> IfCan (be_auth env) (OneAction ''permissions:revoke'') None () = Children))"
| "bulk_offers env s BulkRunRole =
     (ba_isOpen s \<and> ba_tab s = RolesTab_bulk \<and> ba_role s \<noteq> [] \<and> br_pending (ba_runs s OpSetRole) = None)"
| "bulk_offers env s BulkExpandAll = (ba_isOpen s \<and> ba_tab s = PermissionsTab_bulk \<and> \<not> bulk_allExpanded env s)"
| "bulk_offers env s BulkCollapseAll = (ba_isOpen s \<and> ba_tab s = PermissionsTab_bulk \<and> ba_expanded s \<noteq> [])"
| "bulk_offers env s BulkUserPrevious = (selectedUserPages s > 1 \<and> ba_selectedUserPage s > 1)"
| "bulk_offers env s BulkUserNext = (selectedUserPages s > 1 \<and> ba_selectedUserPage s < selectedUserPages s)"
| "bulk_offers env s _ = True"

text \<open>A step of the dialog: an event it offers, in the surroundings of that moment.\<close>

definition bulk_interact ::
  "(string \<Rightarrow> json_text) \<Rightarrow> bulk_access \<Rightarrow> bulk_env \<times> bulk_event \<Rightarrow> bulk_access" where
  "bulk_interact parse s x = (case x of (env, ev) \<Rightarrow>
     if bulk_offers env s ev then fst (bulk_step parse env s ev) else s)"

section \<open>BulkOperationResultList.tsx\<close>

definition status_text :: "item_status \<Rightarrow> string" where
  "status_text st = (case st of ItemSuccess \<Rightarrow> ''success'' | AlreadyHeld \<Rightarrow> ''already_held'' | ItemError \<Rightarrow> ''error'')"

text \<open>The status filter: \<open>None\<close> is "all".\<close>

definition filteredResults :: "string \<Rightarrow> item_status option \<Rightarrow> bulk_item_result list \<Rightarrow> bulk_item_result list" where
  "filteredResults query statusFilter rs = (let normalized = js_lower (js_trim query) in
     filter (\<lambda>r. (statusFilter = None \<or> Some (bi_status r) = statusFilter)
       \<and> (\<not> truthy normalized
          \<or> js_includes (js_lower (bi_user_email r @ '' '' @ bi_identifier r @ '' ''
                @ (case bi_error r of Some e \<Rightarrow> e | None \<Rightarrow> []))) normalized)) rs)"

definition visibleGroups ::
  "string \<Rightarrow> item_status option \<Rightarrow> bulk_item_result list \<Rightarrow> (item_status \<times> bulk_item_result list) list" where
  "visibleGroups query statusFilter rs =
     filter (\<lambda>g. snd g \<noteq> []) (map (\<lambda>st. (st, filter (\<lambda>r. bi_status r = st) (filteredResults query statusFilter rs)))
       [ItemSuccess, AlreadyHeld, ItemError])"

definition result_options :: "bulk_item_result list \<Rightarrow> (item_status option \<times> nat) list" where
  "result_options rs = (None, length rs)
     # map (\<lambda>st. (Some st, length (filter (\<lambda>r. bi_status r = st) rs))) [ItemSuccess, AlreadyHeld, ItemError]"

text \<open>\<open>None\<close> when the list renders nothing; otherwise the groups and whether the "no matches" line shows.\<close>

definition result_list ::
  "string \<Rightarrow> item_status option \<Rightarrow> bulk_item_result list
     \<Rightarrow> ((item_status \<times> bulk_item_result list) list \<times> bool) option" where
  "result_list query statusFilter rs = (if rs = [] then None
     else Some (visibleGroups query statusFilter rs, visibleGroups query statusFilter rs = []))"

text \<open>Every matching row is shown once, under its own status, and the option of a status counts what choosing
  it alone shows.\<close>

lemma result_rows_partitioned:
  "mset (concat (map snd (visibleGroups q st rs))) = mset (filteredResults q st rs)"
  "(k, g) \<in> set (visibleGroups q st rs) \<Longrightarrow> g \<noteq> [] \<and> (\<forall>r \<in> set g. bi_status r = k)"
  "(o', n) \<in> set (result_options rs) \<Longrightarrow> n = length (filteredResults [] o' rs)"
proof -
  have split: "mset xs = mset (filter (\<lambda>r. bi_status r = ItemSuccess) xs) + mset (filter (\<lambda>r. bi_status r = AlreadyHeld) xs)
      + mset (filter (\<lambda>r. bi_status r = ItemError) xs)" for xs :: "bulk_item_result list"
  proof (induction xs)
    case (Cons x xs)
    then show ?case by (cases "bi_status x") simp_all
  qed simp
  have drop: "concat (map snd (filter (\<lambda>g. snd g \<noteq> []) gs)) = concat (map snd gs)"
    for gs :: "(item_status \<times> bulk_item_result list) list"
    by (induction gs) auto
  show "mset (concat (map snd (visibleGroups q st rs))) = mset (filteredResults q st rs)"
    using split [of "filteredResults q st rs"] unfolding visibleGroups_def drop by (simp add: add.assoc)
  show "(k, g) \<in> set (visibleGroups q st rs) \<Longrightarrow> g \<noteq> [] \<and> (\<forall>r \<in> set g. bi_status r = k)"
    by (auto simp: visibleGroups_def split: if_splits)
  show "(o', n) \<in> set (result_options rs) \<Longrightarrow> n = length (filteredResults [] o' rs)"
    by (auto simp: result_options_def filteredResults_def js_trim_def js_trim_start_def js_trim_end_def js_lower_def)
qed

section \<open>BulkActionToolbar.tsx\<close>

definition canOfferSelectAllMatching :: "bool \<Rightarrow> nat \<Rightarrow> nat \<Rightarrow> int \<Rightarrow> bool" where
  "canOfferSelectAllMatching selectAllMatching pageSelectedCount pageRowCount totalMatching \<longleftrightarrow>
     \<not> selectAllMatching \<and> 0 < pageRowCount \<and> pageSelectedCount = pageRowCount \<and> int pageRowCount < totalMatching"

datatype toolbar_button = TbAssignPolicy | TbGrantPermission | TbSetRole | TbClear

text \<open>The buttons that are rendered, and whether they are disabled.\<close>

definition toolbar_buttons :: "auth_state \<Rightarrow> int \<Rightarrow> (toolbar_button \<times> bool) list" where
  "toolbar_buttons a selected = (let noSelection = (selected = 0);
       gated = (\<lambda>action b. if IfCan a (OneAction action) None () = Children then [(b, noSelection)] else []) in
     gated ''policies:assign'' TbAssignPolicy @ gated ''permissions:grant'' TbGrantPermission
     @ gated ''users:assign_role'' TbSetRole @ [(TbClear, noSelection)])"

text \<open>The dialog a button opens, and the tab it opens on, as \<open>UsersPage\<close> passes them.\<close>

definition bulk_initialTab :: "bulk_dialog option \<Rightarrow> bulk_tab" where
  "bulk_initialTab d = (if d = Some BulkPermission then PermissionsTab_bulk
     else if d = Some BulkRole then RolesTab_bulk else PoliciesTab_bulk)"

section \<open>What a run carries\<close>

lemma split_colons_single: "\<not> js_includes s ''::'' \<Longrightarrow> split_colons s = [s]"
  by (induction s rule: split_colons.induct) (auto split: list.split)

lemma split_colons_key:
  "plain_action a \<Longrightarrow> split_colons (a @ ''::'' @ r) = a # split_colons r"
  unfolding plain_action_def
proof (induction a)
  case (Cons c a)
  then have IH: "split_colons (a @ ''::'' @ r) = a # split_colons r" by simp
  show ?case
  proof (cases a)
    case Nil
    with Cons.prems have "c \<noteq> CHR '':''" by auto
    with Nil IH show ?thesis by simp
  next
    case (Cons d as)
    with \<open>\<not> js_includes ((c # a) @ '':'') ''::''\<close> have "\<not> (c = CHR '':'' \<and> d = CHR '':'')" by auto
    with Cons IH show ?thesis by auto
  qed
qed simp

lemma key_parts_entry:
  assumes "plain_action (pe_action e)" "\<not> js_includes (pe_resource_type e) ''::''"
  shows "key_parts (split_colons (entry_key e)) = (pe_action e, Some (pe_resource_type e))"
  using assms unfolding entry_key_def
  by (simp only: split_colons_key split_colons_single key_parts.simps not_False_eq_True)

text \<open>What the account of a moment may grant of what the queries hold at that moment.\<close>

definition grantable_names :: "bulk_env \<Rightarrow> string set" where
  "grantable_names env = pol_name ` {p \<in> set (case be_policies env of Some ps \<Rightarrow> ps | None \<Rightarrow> []).
     canGrantPolicy (pol_actions p) (can (be_auth env))}"

definition grantable_entries :: "bulk_env \<Rightarrow> permission_entry set" where
  "grantable_entries env = {e \<in> set (case be_catalog env of Some es \<Rightarrow> es | None \<Rightarrow> []).
     canGrantAction (pe_action e) (can (be_auth env))}"

text \<open>What was switched on at some moment of a history at which the account could grant it; the account's permissions,
  the policies and the catalogue may be others at every moment.\<close>

definition picked_names :: "(bulk_env \<times> bulk_event) set \<Rightarrow> string set" where
  "picked_names H = {n. \<exists>env. (env, BulkPolicyToggle n True) \<in> H \<and> n \<in> grantable_names env}"

definition picked_entries :: "(bulk_env \<times> bulk_event) set \<Rightarrow> permission_entry set" where
  "picked_entries H = {e. \<exists>env. (env, BulkPermissionToggle (entry_key e) True) \<in> H \<and> e \<in> grantable_entries env}"

definition picked_roles :: "(bulk_env \<times> bulk_event) set \<Rightarrow> string set" where
  "picked_roles H = {r. \<exists>env. (env, BulkRoleSwitch r True) \<in> H \<and> r \<in> set (visibleRoles (be_auth env))}"

definition bulk_ok :: "(bulk_env \<times> bulk_event) set \<Rightarrow> bulk_access \<Rightarrow> bool" where
  "bulk_ok H s \<longleftrightarrow> distinct (ba_selectedPolicies s) \<and> set (ba_selectedPolicies s) \<subseteq> picked_names H
     \<and> distinct (ba_permissions s) \<and> set (ba_permissions s) \<subseteq> entry_key ` picked_entries H
     \<and> (ba_role s = [] \<or> ba_role s \<in> picked_roles H)"

lemmas effect_defs = tab_effect_def catalog_effect_def close_effect_def result_effect_def

lemma effects_frame [simp]:
  "ba_selectedPolicies (tab_effect b s) = ba_selectedPolicies s" "ba_permissions (tab_effect b s) = ba_permissions s"
  "ba_role (tab_effect b s) = ba_role s"
  "ba_selectedPolicies (catalog_effect env s) = ba_selectedPolicies s" "ba_permissions (catalog_effect env s) = ba_permissions s"
  "ba_role (catalog_effect env s) = ba_role s"
  "ba_selectedPolicies (close_effect b s) = ba_selectedPolicies s" "ba_permissions (close_effect b s) = ba_permissions s"
  "ba_role (close_effect b s) = ba_role s"
  "ba_selectedPolicies (result_effect b s) = ba_selectedPolicies s" "ba_permissions (result_effect b s) = ba_permissions s"
  "ba_role (result_effect b s) = ba_role s"
  by (simp_all add: effect_defs)

lemma runs_frame [simp]:
  "ba_selectedPolicies (fst (runPolicy b s)) = ba_selectedPolicies s" "ba_permissions (fst (runPolicy b s)) = ba_permissions s"
  "ba_role (fst (runPolicy b s)) = ba_role s"
  "ba_selectedPolicies (fst (runPermission parse b s)) = ba_selectedPolicies s"
  "ba_permissions (fst (runPermission parse b s)) = ba_permissions s" "ba_role (fst (runPermission parse b s)) = ba_role s"
  "ba_selectedPolicies (fst (runRole s)) = ba_selectedPolicies s" "ba_permissions (fst (runRole s)) = ba_permissions s"
  "ba_role (fst (runRole s)) = ba_role s"
  "ba_selectedPolicies (fst (run_settles o' n res s)) = ba_selectedPolicies s"
  "ba_permissions (fst (run_settles o' n res s)) = ba_permissions s" "ba_role (fst (run_settles o' n res s)) = ba_role s"
  by (simp_all add: runPolicy_def runPermission_def parseConditions_def start_run_def runRole_def run_settles_def
      split: json_text.split sum.split)

lemma bulk_step_frame [simp]:
  "ba_selectedPolicies (fst (bulk_step parse env s ev)) = ba_selectedPolicies (fst (bulk_event_step parse env s ev))"
  "ba_permissions (fst (bulk_step parse env s ev)) = ba_permissions (fst (bulk_event_step parse env s ev))"
  "ba_role (fst (bulk_step parse env s ev)) = ba_role (fst (bulk_event_step parse env s ev))"
  by (simp_all add: bulk_step_def split_beta Let_def)

lemma shown_grantable:
  "pol_name ` set (bulk_shownPolicies env s) \<subseteq> grantable_names env"
  "set (availablePermissions env s) \<subseteq> grantable_entries env"
  by (auto simp: bulk_shownPolicies_def Let_def grantable_names_def grantable_entries_def availablePolicies_def
      availablePermissions_def)

lemma bulk_interact_ok:
  assumes "bulk_ok H s" "x \<in> H"
  shows "bulk_ok H (bulk_interact parse s x)"
proof -
  obtain env ev where x: "x = (env, ev)" by (cases x)
  note shown = shown_grantable [of env s]
  show ?thesis
  proof (cases "bulk_offers env s ev")
    case True
    show ?thesis
    proof (cases ev)
      case (BulkPolicyToggle n c)
      with True shown(1) assms(2) have "c \<Longrightarrow> n \<in> picked_names H" unfolding picked_names_def x by auto
      with BulkPolicyToggle True assms(1) show ?thesis by (auto simp: x bulk_interact_def bulk_ok_def)
    next
      case (BulkPermissionToggle k c)
      with True shown(2) assms(2) have "c \<Longrightarrow> k \<in> entry_key ` picked_entries H" unfolding picked_entries_def x by auto
      with BulkPermissionToggle True assms(1) show ?thesis by (auto simp: x bulk_interact_def bulk_ok_def)
    next
      case (BulkRoleSwitch r c)
      with True assms(2) have "c \<Longrightarrow> r \<in> picked_roles H" unfolding picked_roles_def x by auto
      with BulkRoleSwitch True assms(1) show ?thesis by (auto simp: x bulk_interact_def bulk_ok_def)
    qed (use assms(1) in \<open>auto simp: x bulk_interact_def bulk_ok_def reset_bulk_def\<close>)
  qed (use assms(1) in \<open>simp add: x bulk_interact_def\<close>)
qed

interpretation bulk_dialogs: fed_machine "bulk_interact parse" "\<lambda>x. x \<in> H" "bulk_ok H"
  for parse H
  by unfold_locales (rule bulk_interact_ok)

section \<open>Properties\<close>

text \<open>What a run may carry, given the moments \<open>H\<close> the dialog has been through, the account \<open>a\<close> of now, and the dialog: its
  users, and its picks, which are not empty, are named once, and could each be granted by the account when they were
  switched on.\<close>

fun run_sound :: "(bulk_env \<times> bulk_event) set \<Rightarrow> auth_state \<Rightarrow> bulk_access \<Rightarrow> bulk_command \<Rightarrow> bool" where
  "run_sound H a s (PolicyRun remove es names) \<longleftrightarrow>
     es = ba_userEmails s \<and> names = ba_selectedPolicies s \<and> names \<noteq> [] \<and> distinct names \<and> set names \<subseteq> picked_names H
     \<and> (remove \<longrightarrow> can a (OneAction ''policies:revoke''))"
| "run_sound H a s (PermissionRun remove es actions conditions) \<longleftrightarrow>
     es = ba_userEmails s \<and> length actions = length (ba_permissions s) \<and> actions \<noteq> []
     \<and> set actions \<subseteq> (\<lambda>e. (pe_action e, Some (pe_resource_type e))) ` picked_entries H
     \<and> (remove \<longrightarrow> conditions = None \<and> can a (OneAction ''permissions:revoke''))"
| "run_sound H a s (RoleRun es r) \<longleftrightarrow> es = ba_userEmails s \<and> r = ba_role s \<and> r \<in> picked_roles H"
| "run_sound H a s (BulkToast m) \<longleftrightarrow> True"


definition bulk_admin :: auth_state where
  "bulk_admin = auth_initial\<lparr>isAuthenticated := Some True, profile_email := Some ''a@x'',
     permissions := [''policies:read'', ''policies:revoke'']\<rparr>"

definition bulk_policy :: policy_read where
  "bulk_policy = \<lparr>pol_id = 1, pol_name = ''Readers'', pol_description = None, pol_actions = [''policies:read''],
     pol_resource_type = ''policies'', pol_conditions = None, pol_is_active = True\<rparr>"

definition bulk_scene :: bulk_env where
  "bulk_scene = \<lparr>be_auth = bulk_admin, be_policies = Some [bulk_policy], be_catalog = None, be_myPolicies = None,
     be_myPermissions = None\<rparr>"

lemma bulk_scene_shown [simp]:
  "bulk_grants bulk_scene s = None \<or> ba_userEmails s = [''a@x'']"
  "ba_userEmails s \<noteq> [''a@x''] \<Longrightarrow> ba_policySearch s = [] \<Longrightarrow> bulk_shownPolicies bulk_scene s = [bulk_policy]"
  "permissionGroups bulk_scene s = []"
proof -
  show grants: "bulk_grants bulk_scene s = None \<or> ba_userEmails s = [''a@x'']" for s
    by (cases "ba_userEmails s") (auto simp: bulk_grants_def bulk_self_def bulk_scene_def bulk_admin_def)
  show "ba_userEmails s \<noteq> [''a@x''] \<Longrightarrow> ba_policySearch s = [] \<Longrightarrow> bulk_shownPolicies bulk_scene s = [bulk_policy]"
    using grants [of s] by (auto simp: bulk_shownPolicies_def availablePolicies_def bulk_scene_def bulk_admin_def bulk_policy_def
        js_trim_def js_trim_start_def js_trim_end_def js_lower_def canGrantPolicy_def canGrantAction_def can_iff)
  show "permissionGroups bulk_scene s = []"
    by (simp add: permissionGroups_def availablePermissions_def bulk_scene_def group_by_Nil)
qed

lemma bulk_scene_idle [simp]:
  "be_auth bulk_scene = bulk_admin" "pol_name bulk_policy = ''Readers''"
  "IfCan bulk_admin (OneAction ''policies:revoke'') None () = Children"
  "be_catalog bulk_scene = None"
  by (simp_all add: bulk_scene_def bulk_policy_def IfCan_children can_iff bulk_admin_def)

lemmas bulk_eval = bulk_interact_def bulk_step_def bulk_access_mount_def effect_defs runPolicy_def runRole_def start_run_def
  run_settles_def bulk_result_def idle_run_def reset_bulk_def report_shown_def


text \<open>The picks outlive the permission they were made with: when a push takes the account's permissions away, the switch of a
  picked policy is gone from the list, and the run still names it.\<close>

theorem stale_pick_runs:
  assumes "ba_isOpen s" "ba_tab s = PoliciesTab_bulk" "ba_selectedPolicies s \<noteq> []"
    and "br_pending (ba_runs s OpAssignPolicy) = None"
    and "\<And>p ps. be_policies env = Some ps \<Longrightarrow> p \<in> set ps \<Longrightarrow> \<not> canGrantPolicy (pol_actions p) (can (be_auth env))"
  shows "bulk_shownPolicies env s = [] \<and> bulk_offers env s (BulkRunPolicy False)
    \<and> snd (bulk_step parse env s (BulkRunPolicy False)) = [PolicyRun False (ba_userEmails s) (ba_selectedPolicies s)]"
proof -
  have "availablePolicies env s = []"
    using assms(5) by (cases "be_policies env") (auto simp: availablePolicies_def filter_empty_conv)
  then show ?thesis
    using assms(1-4) by (simp add: bulk_shownPolicies_def bulk_step_def split_beta runPolicy_def)
qed

theorem stale_pick_runs_witness:
  "\<exists>s. snd (bulk_step (\<lambda>_. Malformed) (bulk_scene\<lparr>be_auth := auth_initial\<rparr>) s (BulkRunPolicy False))
      = [PolicyRun False [''b@x''] [''Readers'']]"
proof -
  let ?s = "bulk_interact (\<lambda>_. Malformed) (bulk_access_mount True [''b@x''] PoliciesTab_bulk)
     (bulk_scene, BulkPolicyToggle ''Readers'' True)"
  let ?env = "bulk_scene\<lparr>be_auth := auth_initial\<rparr>"
  have s: "ba_isOpen ?s" "ba_tab ?s = PoliciesTab_bulk" "ba_selectedPolicies ?s = [''Readers'']"
      "ba_userEmails ?s = [''b@x'']" "br_pending (ba_runs ?s OpAssignPolicy) = None"
    by (simp_all add: bulk_eval)
  have "\<not> canGrantPolicy (pol_actions p) (can (be_auth ?env))" if "be_policies ?env = Some ps" "p \<in> set ps" for p ps
    using that by (auto simp: bulk_scene_def bulk_policy_def canGrantPolicy_def canGrantAction_def can_iff auth_initial_def)
  then show ?thesis
    using stale_pick_runs [of ?s ?env "\<lambda>_. Malformed"] s by auto
qed

text \<open>A role run's report comes back unasked: with the report of a later run read and closed, merely
  choosing another tab opens the report dialog again, with the earlier role run's results.\<close>

theorem stale_role_report:
  assumes "ba_isOpen s" and "br_data (ba_runs s OpSetRole) = Some (m, d)"
    and "ba_lastAction s = Some a" and "br_data (ba_runs s a) = Some (n, d')" and "n \<noteq> m"
  shows "report_shown (s\<lparr>ba_resultOpen := False\<rparr>) = None
    \<and> report_shown (fst (bulk_step parse env (s\<lparr>ba_resultOpen := False\<rparr>) (BulkTab t))) = Some (m, d)"
  using assms by (simp add: bulk_eval)

definition role_then_policy :: "(bulk_env \<times> bulk_event) list" where
  "role_then_policy = map (Pair bulk_scene) [BulkRoleSwitch ''user'' True, BulkRunRole, BulkSettles OpSetRole 0 (Inr no_results),
     BulkReport False, BulkTab PoliciesTab_bulk, BulkPolicyToggle ''Readers'' True, BulkRunPolicy False,
     BulkSettles OpAssignPolicy 1 (Inr no_results)]"

theorem stale_role_report_witness:
  "report_shown (fst (bulk_step (\<lambda>_. Malformed) bulk_scene
     ((foldl (bulk_interact (\<lambda>_. Malformed)) (bulk_access_mount True [''b@x''] RolesTab_bulk) role_then_policy)
        \<lparr>ba_resultOpen := False\<rparr>) (BulkTab RolesTab_bulk))) = Some (0, no_results)"
proof -
  let ?s = "foldl (bulk_interact (\<lambda>_. Malformed)) (bulk_access_mount True [''b@x''] RolesTab_bulk) role_then_policy"
  have "ba_isOpen ?s" "br_data (ba_runs ?s OpSetRole) = Some (0, no_results)"
    "ba_lastAction ?s = Some OpAssignPolicy" "br_data (ba_runs ?s OpAssignPolicy) = Some (1, no_results)"
    by (simp_all add: role_then_policy_def bulk_eval visibleRoles_def ROLE_OPTIONS_def)
  from conjunct2 [OF stale_role_report [OF this]] show ?thesis by simp
qed

text \<open>On a selection of only oneself the dialog offers nothing that could be taken away: neither a policy nor a
  direct permission the account holds is among the switches, though the remove buttons are there.\<close>

theorem own_grants_not_removable:
  assumes "bulk_self env s" and "be_myPolicies env = Some mine" and "be_myPermissions env = Some ds"
  shows "(\<forall>p \<in> set mine. p \<notin> set (availablePolicies env s))
    \<and> (\<forall>d \<in> set ds. \<forall>e \<in> set (availablePermissions env s).
         (pe_action e, pe_resource_type e) \<noteq> (g_action d, g_resource_type d))"
proof -
  have held: "hasEffectiveGrant (buildEffectiveGrantKeySet mine ds) a r" if "(a, r) \<in> granted_pairs mine ds" for a r
    using that unfolding hasEffectiveGrant_def set_keys by force
  have "policyAddsNothingNew p (buildEffectiveGrantKeySet mine ds)" if "p \<in> set mine" for p
    unfolding policyAddsNothingNew_def by (intro ballI held) (use that in \<open>unfold granted_pairs_def; blast\<close>)
  moreover have "isAlreadyEffectivelyGranted (buildEffectiveGrantKeySet mine ds) (g_action d) (g_resource_type d)"
    if "d \<in> set ds" for d
    using that by (auto simp: isAlreadyEffectivelyGranted_def granted_pairs_def intro!: held)
  ultimately show ?thesis
    using assms by (auto simp: availablePolicies_def availablePermissions_def bulk_grants_def)
qed

text \<open>Conditions that read \<open>false\<close> do nothing at all: no request, no message.\<close>

lemma false_conditions_ignored:
  assumes "js_trim (ba_conditions s) \<noteq> []" and "parse (ba_conditions s) = Document (JBool False)"
  shows "runPermission parse False s = (s, [])"
  using assms by (simp add: runPermission_def parseConditions_def)

text \<open>A complaint about the conditions stays after they are mended and the permissions are granted.\<close>

lemma conditions_error_stays:
  "ba_error s \<Longrightarrow> ba_error (fst (runPermission parse remove (s\<lparr>ba_conditions := v\<rparr>)))"
  by (auto simp: runPermission_def parseConditions_def start_run_def split: json_text.split)

text \<open>The page number of the list of selected users outlives the selection it was chosen for: with a smaller
  one the list is empty, and it offers no way back.\<close>

lemma selected_users_page_lost:
  assumes "length (ba_userEmails s) \<le> 50" and "2 \<le> ba_selectedUserPage s"
  shows "visibleSelectedUsers s = []" "\<not> bulk_offers env s BulkUserPrevious"
proof -
  have "length (filteredSelectedUsers s) \<le> 50"
    unfolding filteredSelectedUsers_def by (rule order_trans [OF length_filter_le assms(1)])
  moreover from this have "- ((- int (length (filteredSelectedUsers s))) div 50) \<le> 1" by linarith
  ultimately show "visibleSelectedUsers s = []" "\<not> bulk_offers env s BulkUserPrevious"
    using assms(2) by (auto simp: visibleSelectedUsers_def selectedUserPages_def)
qed

end
