(* ===== verification/AccessDialog.thy ===== *)
theory AccessDialog
  imports UserAccess AuditLog PermissionsPage
begin

text \<open>
  What the user access dialog shows and reacts to (\<open>users/dialogs\<close>): the policy and permission lists with
  their filters and counts, the switches and what a click on a row, its text or its switch does, the details
  tab with its link into the audit log, and the dialogs of the users page. State and requests are those of
  theory UserAccess; what the queries hold is an input. A click is where the pointer is: on the switch, on the
  text, or elsewhere on the row; an event that no handler stops reaches the row as well.
\<close>

section \<open>What the dialog reads\<close>

record access_data =
  ax_auth :: auth_state
  ax_email :: "string option"
  ax_systemUser :: bool
  ax_userPolicies :: "policy_read list option"
  ax_userPermissions :: "direct_grant list option"
  ax_allPolicies :: "policy_read list option"
  ax_catalog :: "permission_entry list option"

definition list_or_empty :: "'a list option \<Rightarrow> 'a list" where
  "list_or_empty x = (case x of Some l \<Rightarrow> l | None \<Rightarrow> [])"

definition assignedPolicies :: "access_data \<Rightarrow> policy_read list" where
  "assignedPolicies d = list_or_empty (ax_userPolicies d)"

definition assignedNames :: "access_data \<Rightarrow> string list" where
  "assignedNames d = js_distinct (map pol_name (assignedPolicies d))"

definition directGrants :: "access_data \<Rightarrow> direct_grant list" where
  "directGrants d = list_or_empty (ax_userPermissions d)"

definition effectiveGrantKeys :: "access_data \<Rightarrow> string list" where
  "effectiveGrantKeys d = buildEffectiveGrantKeySet (assignedPolicies d)
     (map (\<lambda>g. \<lparr>g_action = g_action g, g_resource_type = g_resource_type g\<rparr>) (directGrants d))"

definition access_catalog :: "access_data \<Rightarrow> permission_entry list" where
  "access_catalog d = list_or_empty (ax_catalog d)"

definition entry_granted :: "access_data \<Rightarrow> permission_entry \<Rightarrow> bool" where
  "entry_granted d e = isAlreadyEffectivelyGranted (effectiveGrantKeys d) (pe_action e) (pe_resource_type e)"

definition totalGranted :: "access_data \<Rightarrow> nat" where
  "totalGranted d = length (filter (entry_granted d) (access_catalog d))"

section \<open>The lists\<close>

text \<open>\<open>new Map(... .map(policy => [policy.name, policy])).values()\<close>.\<close>

definition access_allPolicies :: "access_data \<Rightarrow> policy_read list" where
  "access_allPolicies d = map snd (foldl (\<lambda>m p. AList.update (pol_name p) p m) []
     (assignedPolicies d @ list_or_empty (ax_allPolicies d)))"

fun filter_keeps :: "access_filter \<Rightarrow> bool \<Rightarrow> bool" where
  "filter_keeps FilterAll on = True"
| "filter_keeps FilterOn on = on"
| "filter_keeps FilterOff on = (\<not> on)"

definition policyRows :: "(string \<Rightarrow> string \<Rightarrow> bool) \<Rightarrow> access_data \<Rightarrow> access_dialog \<Rightarrow> policy_read list" where
  "policyRows le d s = (let query = js_lower (js_trim (ad_polQuery s)) in
     js_sort (\<lambda>a b. le (pol_name a) (pol_name b))
       (filter (\<lambda>p. \<not> truthy query \<or> js_includes (js_lower (pol_name p)) query
            \<or> (case pol_description p of Some t \<Rightarrow> js_includes (js_lower t) query | None \<Rightarrow> False))
         (filter (\<lambda>p. filter_keeps (ad_polFilter s) (pol_name p \<in> set (assignedNames d))) (access_allPolicies d))))"

definition permissionRows :: "access_data \<Rightarrow> access_dialog \<Rightarrow> permission_entry list" where
  "permissionRows d s = (let query = js_lower (js_trim (ad_permQuery s)) in
     filter (\<lambda>e. filter_keeps (ad_permFilter s) (entry_granted d e)
       \<and> (\<not> truthy query \<or> js_includes (js_lower (pe_action e)) query
          \<or> js_includes (js_lower (pe_description e)) query
          \<or> js_includes (js_lower (pe_resource_type e)) query)) (access_catalog d))"

definition access_permissionGroups :: "access_data \<Rightarrow> access_dialog \<Rightarrow> string list" where
  "access_permissionGroups d s =
     filter (\<lambda>g. \<exists>e \<in> set (permissionRows d s). pe_resource_type e = g)
       (js_distinct (map pe_resource_type (access_catalog d)))"

text \<open>The groups as they are rendered, with their items.\<close>

definition permission_sections :: "access_data \<Rightarrow> access_dialog \<Rightarrow> (string \<times> permission_entry list) list" where
  "permission_sections d s =
     map (\<lambda>g. (g, filter (\<lambda>e. pe_resource_type e = g) (permissionRows d s))) (access_permissionGroups d s)"

definition group_open :: "access_dialog \<Rightarrow> string \<Rightarrow> bool" where
  "group_open s g \<longleftrightarrow> g \<notin> set (ad_permClosedGroups s) \<or> truthy (ad_permQuery s)"

definition group_granted :: "access_data \<Rightarrow> permission_entry list \<Rightarrow> nat" where
  "group_granted d items = length (filter (entry_granted d) items)"

fun policy_counts :: "access_data \<Rightarrow> access_filter \<Rightarrow> int" where
  "policy_counts d FilterAll = int (length (access_allPolicies d))"
| "policy_counts d FilterOn = int (length (assignedPolicies d))"
| "policy_counts d FilterOff = int (length (access_allPolicies d)) - int (length (assignedPolicies d))"

fun permission_counts :: "access_data \<Rightarrow> access_filter \<Rightarrow> int" where
  "permission_counts d FilterAll = int (length (access_catalog d))"
| "permission_counts d FilterOn = int (totalGranted d)"
| "permission_counts d FilterOff = int (length (access_catalog d)) - int (totalGranted d)"

text \<open>What a tab's body shows, from the queries' states: loading, an error (forbidden or not), no match, rows.\<close>

datatype body_kind = BodyLoading | BodyForbidden | BodyFailed | BodyNoMatch | BodyRows

definition access_body :: "bool \<Rightarrow> js_error option \<Rightarrow> bool \<Rightarrow> body_kind" where
  "access_body isLoading error no_rows =
     (if isLoading then BodyLoading
      else (case error of
          Some e \<Rightarrow> if isForbiddenError e then BodyForbidden else BodyFailed
        | None \<Rightarrow> if no_rows then BodyNoMatch else BodyRows))"

section \<open>Clicks\<close>

datatype click_target = OnSwitch | OnText | OnRow

datatype access_call = CallTogglePolicy string | CallToggleDirect string string | CallRevokeAction string string

text \<open>The request a call of one of the state's handlers sends.\<close>

definition currentGrant :: "access_data \<Rightarrow> string \<Rightarrow> string \<Rightarrow> direct_grant option" where
  "currentGrant d action resourceType =
     find (\<lambda>g. g_action g = action \<and> g_resource_type g = resourceType) (directGrants d)"

fun access_request :: "translate \<Rightarrow> int \<Rightarrow> access_data \<Rightarrow> access_undo toaster \<Rightarrow> access_call \<Rightarrow> http_request option" where
  "access_request tr now d q (CallTogglePolicy name) =
     togglePolicy (ax_email d) name (name \<in> set (assignedNames d))"
| "access_request tr now d q (CallToggleDirect action resourceType) =
     map_option snd (fst (toggleDirectPermission tr now (ax_email d) action resourceType
       (currentGrant d action resourceType) q))"
| "access_request tr now d q (CallRevokeAction name action) = requestRevokePolicyAction (ax_email d) name action"

subsection \<open>A permission\<close>

definition entry_direct :: "access_data \<Rightarrow> permission_entry \<Rightarrow> bool" where
  "entry_direct d e \<longleftrightarrow> (\<exists>g \<in> set (directGrants d). g_action g = pe_action e \<and> g_resource_type g = pe_resource_type e)"

definition entry_viaPolicy :: "access_data \<Rightarrow> permission_entry \<Rightarrow> bool" where
  "entry_viaPolicy d e \<longleftrightarrow> \<not> entry_direct d e \<and> entry_granted d e"

definition manage_permission :: "access_data \<Rightarrow> permission_entry \<Rightarrow> string" where
  "manage_permission d e = (if entry_direct d e then PERM ''PERMISSIONS_REVOKE'' else PERM ''PERMISSIONS_GRANT'')"

text \<open>The switch: \<open>None\<close> when it is not rendered, else whether it is on and whether it is enabled.\<close>

definition permission_switch :: "access_data \<Rightarrow> permission_entry \<Rightarrow> (bool \<times> bool) option" where
  "permission_switch d e =
     (let callerCannotManageAction = \<not> can (ax_auth d) (OneAction (pe_action e)) in
      if IfCan (ax_auth d) (OneAction (manage_permission d e)) None () = Children
      then Some (entry_direct d e \<or> entry_viaPolicy d e,
                 \<not> (ax_systemUser d \<or> entry_viaPolicy d e \<or> callerCannotManageAction))
      else None)"

definition permission_label :: "access_data \<Rightarrow> permission_entry \<Rightarrow> string" where
  "permission_label d e =
     (if ax_systemUser d then ''users:columns.cannotModifySystemUser''
      else if entry_viaPolicy d e then ''users:accessDialog.comesFromPolicy''
      else if \<not> can (ax_auth d) (OneAction (pe_action e)) then ''users:accessDialog.cannotGrantUnheld''
      else if entry_direct d e then ''users:accessDialog.removeDirect'' else ''users:accessDialog.giveDirect'')"

definition permission_canToggle :: "access_data \<Rightarrow> permission_entry \<Rightarrow> bool" where
  "permission_canToggle d e \<longleftrightarrow> \<not> ax_systemUser d \<and> \<not> entry_viaPolicy d e
     \<and> can (ax_auth d) (OneAction (pe_action e)) \<and> can (ax_auth d) (OneAction (manage_permission d e))"

text \<open>The row ignores a click that comes from the switch; the text handles its own and stops it.\<close>

fun permission_click :: "access_data \<Rightarrow> permission_entry \<Rightarrow> click_target \<Rightarrow> access_call list" where
  "permission_click d e OnSwitch = (case permission_switch d e of
      Some (on, True) \<Rightarrow> [CallToggleDirect (pe_action e) (pe_resource_type e)] | _ \<Rightarrow> [])"
| "permission_click d e _ =
     (if permission_canToggle d e then [CallToggleDirect (pe_action e) (pe_resource_type e)] else [])"

subsection \<open>A policy\<close>

definition policy_assigned :: "access_data \<Rightarrow> policy_read \<Rightarrow> bool" where
  "policy_assigned d p \<longleftrightarrow> pol_name p \<in> set (assignedNames d)"

definition dialog_isSelf :: "access_data \<Rightarrow> bool" where
  "dialog_isSelf d = isSelf (ax_email d) (profile_email (ax_auth d))"

definition selfProtected :: "access_data \<Rightarrow> policy_read \<Rightarrow> bool" where
  "selfProtected d p \<longleftrightarrow> policy_assigned d p \<and> dialog_isSelf d \<and> pol_name p \<in> set PROTECTED_POLICY_NAMES"

definition policy_covered :: "access_data \<Rightarrow> policy_read \<Rightarrow> bool" where
  "policy_covered d p \<longleftrightarrow> \<not> policy_assigned d p \<and> policyAddsNothingNew p (effectiveGrantKeys d)"

definition policy_ungrantable :: "access_data \<Rightarrow> policy_read \<Rightarrow> bool" where
  "policy_ungrantable d p \<longleftrightarrow> \<not> canGrantPolicy (pol_actions p) (can (ax_auth d))"

definition policy_disabled :: "access_data \<Rightarrow> policy_read \<Rightarrow> bool" where
  "policy_disabled d p \<longleftrightarrow> ax_systemUser d \<or> selfProtected d p \<or> policy_covered d p \<or> policy_ungrantable d p"

definition disabledReason :: "access_data \<Rightarrow> policy_read \<Rightarrow> string option" where
  "disabledReason d p =
     (if ax_systemUser d then Some ''users:columns.cannotModifySystemUser''
      else if selfProtected d p then Some ''users:accessDialog.selfProtectedPolicyLocked''
      else if policy_covered d p then Some ''users:accessDialog.policyAlreadyCovered''
      else if policy_ungrantable d p then Some ''users:accessDialog.cannotGrantPolicy'' else None)"

definition policy_permission :: "access_data \<Rightarrow> policy_read \<Rightarrow> string" where
  "policy_permission d p = (if policy_assigned d p then PERM ''POLICIES_REVOKE'' else PERM ''POLICIES_ASSIGN'')"

definition canTogglePolicy :: "access_data \<Rightarrow> policy_read \<Rightarrow> bool" where
  "canTogglePolicy d p \<longleftrightarrow> \<not> policy_disabled d p \<and> \<not> policy_ungrantable d p
     \<and> can (ax_auth d) (OneAction (policy_permission d p))"

text \<open>The switch, and what a click on the header of the policy does; the enabled switch stops its event.\<close>

definition policy_switch :: "access_data \<Rightarrow> policy_read \<Rightarrow> (bool \<times> bool) option" where
  "policy_switch d p =
     (if IfCan (ax_auth d) (OneAction (if policy_assigned d p then ''policies:revoke'' else ''policies:assign'')) None () = Children
      then Some (policy_assigned d p, if disabledReason d p = None then True else \<not> policy_disabled d p) else None)"

fun policy_click :: "access_data \<Rightarrow> policy_read \<Rightarrow> click_target \<Rightarrow> access_call list" where
  "policy_click d p OnSwitch = (case policy_switch d p of
      Some (on, True) \<Rightarrow> [CallTogglePolicy (pol_name p)] | _ \<Rightarrow> [])"
| "policy_click d p _ = (if canTogglePolicy d p then [CallTogglePolicy (pol_name p)] else [])"

subsection \<open>One action of a policy\<close>

definition shown_action_label :: "access_data \<Rightarrow> policy_read \<Rightarrow> string \<Rightarrow> string" where
  "shown_action_label d p action =
     (case find (\<lambda>e. pe_action e = action \<and> pe_resource_type e = pol_resource_type p) (access_catalog d) of
        Some e \<Rightarrow> if truthy (pe_description e) then pe_description e else formatPolicyActionLabel action
      | None \<Rightarrow> formatPolicyActionLabel action)"

definition action_canToggle :: "access_data \<Rightarrow> policy_read \<Rightarrow> bool" where
  "action_canToggle d p \<longleftrightarrow> policy_assigned d p \<and> \<not> ax_systemUser d \<and> \<not> selfProtected d p"

definition action_switch :: "access_data \<Rightarrow> policy_read \<Rightarrow> (bool \<times> bool) option" where
  "action_switch d p =
     (if policy_assigned d p \<and> IfCan (ax_auth d) (OneAction (PERM ''POLICIES_REVOKE'')) None () = Children
      then Some (True, \<not> (ax_systemUser d \<or> selfProtected d p)) else None)"

text \<open>The switch does not stop its event, and the row does not ask where it comes from.\<close>

fun action_click :: "access_data \<Rightarrow> policy_read \<Rightarrow> string \<Rightarrow> click_target \<Rightarrow> access_call list" where
  "action_click d p action OnSwitch = (case action_switch d p of
      Some (on, True) \<Rightarrow> CallRevokeAction (pol_name p) action
        # (if action_canToggle d p then [CallRevokeAction (pol_name p) action] else [])
    | _ \<Rightarrow> [])"
| "action_click d p action _ = (if action_canToggle d p then [CallRevokeAction (pol_name p) action] else [])"

section \<open>The details tab\<close>

definition stat_tiles :: "access_data \<Rightarrow> (nat \<times> access_tab option) list" where
  "stat_tiles d = [(length (assignedPolicies d), Some PoliciesTab), (totalGranted d, Some PermissionsTab),
     (length (directGrants d), None)]"

definition changes_shown :: "access_data \<Rightarrow> bool" where
  "changes_shown d \<longleftrightarrow> dialog_isSelf d \<or> useCan (ax_auth d) (OneAction ''security_audit:read'') None"

text \<open>"View all": the search of the log of all users is set, then the page opened.\<close>

definition view_all_changes :: "string \<Rightarrow> security_filters \<Rightarrow> security_filters \<times> string" where
  "view_all_changes email f = (f\<lparr>lf_search := email\<rparr>, ''/audit-log?category=security&scope=all'')"

definition change_labels :: "(string \<times> string) list" where
  "change_labels = [
     (''policy_assigned'', ''users:accessDialog.changeLog.policyAssigned''),
     (''policy_revoked'', ''users:accessDialog.changeLog.policyRevoked''),
     (''policy_action_revoked'', ''users:accessDialog.changeLog.policyActionRevoked''),
     (''permission_granted'', ''users:accessDialog.changeLog.permissionGranted''),
     (''permission_revoked'', ''users:accessDialog.changeLog.permissionRevoked''),
     (''user_role_changed'', ''users:accessDialog.changeLog.roleChanged'')]"

definition metadata_text :: "json option \<Rightarrow> string \<Rightarrow> string option" where
  "metadata_text m key = (case json_field key m of Some (JStr s) \<Rightarrow> Some s | _ \<Rightarrow> None)"

text \<open>The label's key with the values put into it; an unknown event shows its name.\<close>

definition accessChangeLabel :: "security_entry \<Rightarrow> string + (string \<times> (string \<times> string option) list)" where
  "accessChangeLabel e =
     (let value = metadata_text (se_event_metadata e);
          first = (\<lambda>keys. case filter (\<lambda>v. v \<noteq> None) (map value keys) of [] \<Rightarrow> None | v # vs \<Rightarrow> v) in
      case map_of change_labels (se_event_type e) of
        None \<Rightarrow> Inl (se_event_type e)
      | Some key \<Rightarrow> Inr (key, [(''policyName'', value ''policy_name''), (''action'', value ''action''),
          (''by'', first [''assigned_by'', ''revoked_by'', ''granted_by'', ''changed_by'']),
          (''oldRole'', value ''old_role''), (''newRole'', value ''new_role'')]))"

section \<open>The tabs and the dialogs of the users page\<close>

definition access_tabValues :: "access_tab list" where
  "access_tabValues = [DetailsTab, PoliciesTab, PermissionsTab]"

definition handleTabKeyDown :: "string \<Rightarrow> nat \<Rightarrow> access_tab option" where
  "handleTabKeyDown key currentIndex =
     (let nextIndex = (if key = ''ArrowRight'' \<or> key = ''ArrowDown'' then (currentIndex + 1) mod length access_tabValues
        else if key = ''ArrowLeft'' \<or> key = ''ArrowUp''
        then (currentIndex + length access_tabValues - 1) mod length access_tabValues
        else if key = ''Home'' then 0 else if key = ''End'' then length access_tabValues - 1 else currentIndex)
      in if nextIndex \<noteq> currentIndex then Some (access_tabValues ! nextIndex) else None)"

text \<open>\<open>UsersPageDialogs\<close>: for whom the access dialog is open and whether it is locked.\<close>

definition access_dialog_props :: "users_page \<Rightarrow> (managed_user \<times> access_tab \<times> bool) option" where
  "access_dialog_props p = (case up_accessUser p of
      None \<Rightarrow> None | Some u \<Rightarrow> Some (u, up_accessTab p, mu_role u = ''system''))"

section \<open>AccessResourceCards.tsx\<close>

record access_chip =
  ac_action :: string
  ac_resource_type :: string
  ac_sources :: "string list"

text \<open>The cards with their state; \<open>None\<close> for the text of an empty list.\<close>

definition resource_cards :: "string list \<Rightarrow> access_chip list \<Rightarrow> (string \<times> bool \<times> access_chip list) list option" where
  "resource_cards collapsedTypes items = (if items = [] then None
     else Some (map (\<lambda>(r, grants). (r, r \<notin> set collapsedTypes, grants)) (groupByResourceType ac_resource_type items)))"

definition toggle_card :: "string \<Rightarrow> string list \<Rightarrow> string list" where
  "toggle_card ty collapsed = set_toggle ty collapsed"

section \<open>Steps of the dialog's state\<close>

datatype access_event =
    AccessRender bool access_tab
  | AccessTab access_tab
  | PolicyQuery string
  | PolicyFilter access_filter
  | TogglePolicyRow string
  | ExpandPolicies
  | CollapsePolicies
  | PermissionQuery string
  | PermissionFilter access_filter
  | TogglePermissionGroup string
  | ExpandGroups
  | CollapseGroups
  | CancelConditions
  | ConditionsSaved

fun access_step :: "access_data \<Rightarrow> access_dialog \<Rightarrow> access_event \<Rightarrow> access_dialog" where
  "access_step d s (AccessRender isOpen tab) = access_dialog_render isOpen tab s"
| "access_step d s (AccessTab tab) = s\<lparr>ad_tab := tab\<rparr>"
| "access_step d s (PolicyQuery q) = s\<lparr>ad_polQuery := q\<rparr>"
| "access_step d s (PolicyFilter f) = s\<lparr>ad_polFilter := f\<rparr>"
| "access_step d s (TogglePolicyRow p) = togglePolicyOpen p s"
| "access_step d s ExpandPolicies = expandAllPolicies (ax_allPolicies d) s"
| "access_step d s CollapsePolicies = collapseAllPolicies s"
| "access_step d s (PermissionQuery q) = s\<lparr>ad_permQuery := q\<rparr>"
| "access_step d s (PermissionFilter f) = s\<lparr>ad_permFilter := f\<rparr>"
| "access_step d s (TogglePermissionGroup g) = togglePermGroup g s"
| "access_step d s ExpandGroups = expandAllPermGroups s"
| "access_step d s CollapseGroups = collapseAllPermGroups (map_option (map pe_resource_type) (ax_catalog d)) s"
| "access_step d s CancelConditions = s\<lparr>ad_editingKey := None\<rparr>"
| "access_step d s ConditionsSaved = s\<lparr>ad_editingKey := None\<rparr>"

text \<open>The entry whose conditions are edited, among the items of a group.\<close>

definition conditions_editor :: "access_dialog \<Rightarrow> permission_entry list \<Rightarrow> permission_entry option" where
  "conditions_editor s items = find (\<lambda>e. ad_editingKey s = Some (armKey (pe_action e) (pe_resource_type e))) items"

section \<open>Lists and counts\<close>

lemma named_map:
  fixes ps :: "policy_read list"
  defines "m \<equiv> foldl (\<lambda>m p. AList.update (pol_name p) p m) [] ps"
  shows "distinct (map fst m)" "fst ` set m = pol_name ` set ps" "\<forall>(k, p) \<in> set m. pol_name p = k"
proof -
  have stored: "\<forall>(k, p) \<in> set (AList.update x v m). f p = k"
    if "\<forall>(k, p) \<in> set m. f p = k" "f v = x" for f :: "policy_read \<Rightarrow> string" and x v m
    using that by (induction m) (auto split: if_splits)
  have "distinct (map fst m) \<and> fst ` set m = pol_name ` set ps \<and> (\<forall>(k, p) \<in> set m. pol_name p = k)"
    unfolding m_def
  proof (induction ps rule: rev_induct)
    case (snoc p ps)
    then show ?case
      using stored [of "foldl (\<lambda>m p. AList.update (pol_name p) p m) [] ps" pol_name p]
      by (auto simp: AList.distinct_update AList.dom_update)
  qed simp
  then show "distinct (map fst m)" "fst ` set m = pol_name ` set ps" "\<forall>(k, p) \<in> set m. pol_name p = k" by auto
qed

lemma access_allPolicies_names:
  "distinct (map pol_name (access_allPolicies d))"
  "pol_name ` set (access_allPolicies d) = pol_name ` set (assignedPolicies d) \<union> pol_name ` set (list_or_empty (ax_allPolicies d))"
proof -
  let ?m = "foldl (\<lambda>m p. AList.update (pol_name p) p m) [] (assignedPolicies d @ list_or_empty (ax_allPolicies d))"
  note m = named_map [of "assignedPolicies d @ list_or_empty (ax_allPolicies d)"]
  have "map (\<lambda>x. pol_name (snd x)) ?m = map fst ?m"
    using m(3) by (intro map_cong) auto
  then have names: "map pol_name (access_allPolicies d) = map fst ?m"
    by (simp add: access_allPolicies_def comp_def)
  with m(1) show "distinct (map pol_name (access_allPolicies d))" by simp
  show "pol_name ` set (access_allPolicies d) = pol_name ` set (assignedPolicies d) \<union> pol_name ` set (list_or_empty (ax_allPolicies d))"
    using arg_cong [OF names, of set] m(2) by (simp add: image_Un)
qed

lemma unsearched_rows:
  "js_trim (ad_polQuery s) = [] \<Longrightarrow> length (policyRows le d s)
     = length (filter (\<lambda>p. filter_keeps (ad_polFilter s) (pol_name p \<in> set (assignedNames d))) (access_allPolicies d))"
  "js_trim (ad_permQuery s) = [] \<Longrightarrow>
     permissionRows d s = filter (\<lambda>e. filter_keeps (ad_permFilter s) (entry_granted d e)) (access_catalog d)"
  by (simp_all add: policyRows_def permissionRows_def Let_def js_lower_def)

lemma assigned_rows:
  assumes "distinct (map pol_name (assignedPolicies d))"
  shows "length (filter (\<lambda>p. pol_name p \<in> set (assignedNames d)) (access_allPolicies d)) = length (assignedPolicies d)"
proof -
  let ?on = "filter (\<lambda>p. pol_name p \<in> set (assignedNames d)) (access_allPolicies d)"
  have "length ?on = card (pol_name ` set ?on)"
    using distinct_card [of "map pol_name ?on"] distinct_map_filter [OF access_allPolicies_names(1)] by simp
  also have "pol_name ` set ?on = pol_name ` set (access_allPolicies d) \<inter> pol_name ` set (assignedPolicies d)"
    by (auto simp: assignedNames_def)
  also have "\<dots> = pol_name ` set (assignedPolicies d)"
    unfolding access_allPolicies_names(2) by blast
  also have "card \<dots> = length (assignedPolicies d)"
    using distinct_card [OF assms] by simp
  finally show ?thesis .
qed

lemma rows_of_filter:
  "int (length (filter (\<lambda>x. filter_keeps f (P x)) xs))
     = (case f of FilterAll \<Rightarrow> int (length xs) | FilterOn \<Rightarrow> int (length (filter P xs))
        | FilterOff \<Rightarrow> int (length xs) - int (length (filter P xs)))"
  using sum_length_filter_compl [of P xs] by (cases f) auto

lemma sections_partition:
  "mset (concat (map snd (permission_sections d s))) = mset (permissionRows d s)"
  "distinct (map fst (permission_sections d s))"
  "(g, items) \<in> set (permission_sections d s) \<Longrightarrow> items \<noteq> [] \<and> (\<forall>e \<in> set items. pe_resource_type e = g)"
proof -
  have partition: "mset (concat (map (\<lambda>g. filter (\<lambda>e. f e = g) xs) gs)) = mset (filter (\<lambda>e. f e \<in> set gs) xs)"
    if "distinct gs" for f :: "permission_entry \<Rightarrow> string" and xs gs
    using that
  proof (induction gs)
    case (Cons g gs)
    have "mset (filter (\<lambda>e. f e \<in> set (g # gs)) xs)
        = mset (filter (\<lambda>e. f e = g) xs) + mset (filter (\<lambda>e. f e \<in> set gs) xs)"
      using Cons.prems by (induction xs) auto
    with Cons show ?case by simp
  qed simp
  have rows: "set (permissionRows d s) \<subseteq> set (access_catalog d)"
    by (auto simp: permissionRows_def Let_def)
  have "\<forall>e \<in> set (permissionRows d s). pe_resource_type e \<in> set (access_permissionGroups d s)"
    using rows by (auto simp: access_permissionGroups_def)
  then have all: "filter (\<lambda>e. pe_resource_type e \<in> set (access_permissionGroups d s)) (permissionRows d s) = permissionRows d s"
    by (simp add: filter_id_conv)
  have groups: "distinct (access_permissionGroups d s)" by (simp add: access_permissionGroups_def)
  show "mset (concat (map snd (permission_sections d s))) = mset (permissionRows d s)"
    using partition [OF groups, of pe_resource_type "permissionRows d s"]
    by (simp add: permission_sections_def all comp_def)
  show "distinct (map fst (permission_sections d s))"
    using groups by (simp add: permission_sections_def comp_def)
  show "(g, items) \<in> set (permission_sections d s) \<Longrightarrow> items \<noteq> [] \<and> (\<forall>e \<in> set items. pe_resource_type e = g)"
    by (auto simp: permission_sections_def access_permissionGroups_def filter_empty_conv)
qed

text \<open>The numbers on the filter segments of the dialog are the numbers of rows they give: with nothing searched for,
  choosing all, assigned or not assigned lists exactly as many policies, and likewise for the permissions; and
  whatever is searched for, the groups show every matching permission exactly once, under its own resource type.\<close>

theorem access_counts_true:
  assumes "distinct (map pol_name (assignedPolicies d))"
    and "js_trim (ad_polQuery s) = []" "js_trim (ad_permQuery s) = []"
  shows "int (length (policyRows le d s)) = policy_counts d (ad_polFilter s)
    \<and> int (length (permissionRows d s)) = permission_counts d (ad_permFilter s)
    \<and> mset (concat (map snd (permission_sections d s'))) = mset (permissionRows d s')
    \<and> (\<forall>(g, items) \<in> set (permission_sections d s'). items \<noteq> [] \<and> (\<forall>e \<in> set items. pe_resource_type e = g)
         \<and> group_granted d items \<le> length items)"
proof -
  have "int (length (policyRows le d s)) = policy_counts d (ad_polFilter s)"
    using assigned_rows [OF assms(1)] assms(2)
    by (cases "ad_polFilter s") (simp_all only: unsearched_rows rows_of_filter, simp_all)
  moreover have "int (length (permissionRows d s)) = permission_counts d (ad_permFilter s)"
    using assms(3) by (cases "ad_permFilter s") (simp_all only: unsearched_rows rows_of_filter, simp_all add: totalGranted_def)
  ultimately show ?thesis
    using sections_partition [where d = d and s = s'] by (auto simp: group_granted_def)
qed

definition access_example :: access_data where
  "access_example = \<lparr>ax_auth = auth_initial\<lparr>isAuthenticated := Some True, profile_email := Some ''a@x'',
       permissions := [''users:list_all'', ''users:read_own'', ''permissions:grant'']\<rparr>,
     ax_email = Some ''b@x'', ax_systemUser = False,
     ax_userPolicies = Some [\<lparr>pol_id = 1, pol_name = ''Readers'', pol_description = None, pol_actions = [''users:list_all''],
       pol_resource_type = ''users'', pol_conditions = None, pol_is_active = True\<rparr>],
     ax_userPermissions = Some [], ax_allPolicies = None,
     ax_catalog = Some [\<lparr>pe_action = ''users:read_own'', pe_resource_type = ''users'', pe_description = ''Read own''\<rparr>]\<rparr>"

theorem access_counts_true_witness:
  "int (length (policyRows string_le access_example (access_dialog_mount False\<lparr>ad_polFilter := FilterOn\<rparr>))) = 1"
proof -
  let ?s = "access_dialog_mount False\<lparr>ad_polFilter := FilterOn\<rparr>"
  have "distinct (map pol_name (assignedPolicies access_example))" "js_trim (ad_polQuery ?s) = []" "js_trim (ad_permQuery ?s) = []"
    "policy_counts access_example (ad_polFilter ?s) = 1"
    by (simp_all add: access_example_def assignedPolicies_def list_or_empty_def access_dialog_mount_def
        js_trim_def js_trim_start_def js_trim_end_def)
  then show ?thesis using conjunct1 [OF access_counts_true [of access_example ?s string_le ?s]] by simp
qed

section \<open>What a click sends\<close>

lemma direct_grant_iff: "currentGrant d a r \<noteq> None \<longleftrightarrow> (\<exists>g \<in> set (directGrants d). g_action g = a \<and> g_resource_type g = r)"
  by (auto simp: currentGrant_def find_None_iff)

lemma toggle_direct_request:
  "map_option snd (fst (toggleDirectPermission tr now email a r g q))
     = for_user email (\<lambda>e. if g \<noteq> None then revokePermissionApi e a r else grantPermissionApi e (grant_payload a r None))"
  by (auto simp: toggleDirectPermission_def for_user_def Let_def split: option.split prod.split)

lemma permission_switch_toggle:
  "permission_switch d e = Some (on, True) \<longleftrightarrow> permission_canToggle d e \<and> on = entry_direct d e"
  by (auto simp: permission_switch_def permission_canToggle_def IfCan_children entry_viaPolicy_def)

lemma policy_switch_toggle:
  "policy_switch d p = Some (on, True) \<longleftrightarrow> canTogglePolicy d p \<and> on = policy_assigned d p"
proof -
  have "disabledReason d p = None \<longleftrightarrow> \<not> policy_disabled d p"
    by (simp add: disabledReason_def policy_disabled_def)
  then show ?thesis
    by (auto simp: policy_switch_def canTogglePolicy_def IfCan_children policy_permission_def policy_disabled_def
        PERM_def PERMISSIONS_def)
qed

lemma permission_click_eq:
  "permission_click d e t = (if permission_canToggle d e then [CallToggleDirect (pe_action e) (pe_resource_type e)] else [])"
proof (cases t)
  case OnSwitch
  then show ?thesis
    using permission_switch_toggle [of d e True] permission_switch_toggle [of d e False]
    by (cases "permission_switch d e") (auto split: prod.splits bool.splits)
qed simp_all

lemma policy_click_eq:
  "policy_click d p t = (if canTogglePolicy d p then [CallTogglePolicy (pol_name p)] else [])"
proof (cases t)
  case OnSwitch
  then show ?thesis
    using policy_switch_toggle [of d p True] policy_switch_toggle [of d p False]
    by (cases "policy_switch d p") (auto split: prod.splits bool.splits)
qed simp_all

text \<open>Wherever on the row of a permission or a policy one clicks, the same happens: exactly one request if the switch
  is there and enabled, none otherwise. The request turns round what the row shows - a grant or assignment that
  is there is revoked, one that is not is made - and it is only sent if the caller holds the permission to do
  that and every action concerned, and never for a system user, for access that comes from a policy, or for a
  protected policy of one's own.\<close>

theorem access_clicks_gated:
  assumes "ax_email d = Some m" and "truthy m"
  shows "map (access_request tr now d q) (permission_click d e t)
      = (if \<exists>on. permission_switch d e = Some (on, True)
         then [Some (if entry_direct d e then revokePermissionApi m (pe_action e) (pe_resource_type e)
                     else grantPermissionApi m (grant_payload (pe_action e) (pe_resource_type e) None))] else [])
    \<and> map (access_request tr now d q) (policy_click d p t)
      = (if \<exists>on. policy_switch d p = Some (on, True)
         then [Some ((if policy_assigned d p then revokePolicyApi else assignPolicyApi) m (pol_name p))] else [])
    \<and> (permission_click d e t \<noteq> [] \<longrightarrow> \<not> ax_systemUser d \<and> \<not> entry_viaPolicy d e
        \<and> can (ax_auth d) (OneAction (pe_action e)) \<and> can (ax_auth d) (OneAction (manage_permission d e)))
    \<and> (policy_click d p t \<noteq> [] \<longrightarrow> \<not> ax_systemUser d \<and> \<not> selfProtected d p
        \<and> (\<forall>a \<in> set (pol_actions p). can (ax_auth d) (OneAction a)) \<and> can (ax_auth d) (OneAction (policy_permission d p)))"
proof -
  have "access_request tr now d q (CallToggleDirect (pe_action e) (pe_resource_type e))
      = Some (if entry_direct d e then revokePermissionApi m (pe_action e) (pe_resource_type e)
              else grantPermissionApi m (grant_payload (pe_action e) (pe_resource_type e) None))"
    using assms direct_grant_iff [of d "pe_action e" "pe_resource_type e"]
    by (simp only: access_request.simps toggle_direct_request) (auto simp: for_user_def entry_direct_def)
  moreover have "access_request tr now d q (CallTogglePolicy (pol_name p))
      = Some ((if policy_assigned d p then revokePolicyApi else assignPolicyApi) m (pol_name p))"
    using assms by (simp add: togglePolicy_def for_user_def policy_assigned_def)
  ultimately show ?thesis
    unfolding permission_click_eq policy_click_eq permission_switch_toggle policy_switch_toggle
    by (auto simp: permission_canToggle_def canTogglePolicy_def policy_disabled_def policy_ungrantable_def
        canGrantPolicy_def canGrantAction_def)
qed

theorem access_clicks_gated_witness:
  "map (access_request (\<lambda>k ps. k) 0 access_example toaster_initial)
     (permission_click access_example \<lparr>pe_action = ''users:read_own'', pe_resource_type = ''users'', pe_description = []\<rparr> OnRow)
   = [Some (grantPermissionApi ''b@x'' (grant_payload ''users:read_own'' ''users'' None))]"
proof -
  let ?e = "\<lparr>pe_action = ''users:read_own'', pe_resource_type = ''users'', pe_description = []\<rparr>"
  have off: "\<not> entry_direct access_example ?e"
    by (simp add: entry_direct_def directGrants_def list_or_empty_def access_example_def)
  have "\<not> entry_granted access_example ?e"
    by (simp add: entry_granted_def isAlreadyEffectivelyGranted_def hasEffectiveGrant_def set_keys effectiveGrantKeys_def
        granted_pairs_def access_example_def assignedPolicies_def directGrants_def list_or_empty_def grantKey_def
        WILDCARD_RESOURCE_TYPE_def)
  with off have "permission_canToggle access_example ?e"
    by (simp add: permission_canToggle_def entry_viaPolicy_def manage_permission_def can_iff access_example_def
        PERM_def PERMISSIONS_def)
  then have on: "\<exists>on. permission_switch access_example ?e = Some (on, True)" by (simp add: permission_switch_toggle)
  have "ax_email access_example = Some ''b@x''" "truthy ''b@x''" by (simp_all add: access_example_def)
  from conjunct1 [OF access_clicks_gated [OF this]] on off show ?thesis
    by (simp only: if_True if_False permission_entry.select_convs)
qed

text \<open>The rows of one policy's actions are less careful. One click on the switch of an action sends its revocation
  twice, because the event also reaches the row; and the row itself revokes without the permission to, where the
  switch is not even shown - although there is no undo.\<close>

theorem action_click_doubled:
  assumes "ax_email d = Some m" "truthy m"
    and "policy_assigned d p" "\<not> ax_systemUser d" "\<not> selfProtected d p"
  shows "map (access_request tr now d q) (action_click d p a OnRow) = [Some (revokePolicyActionApi m (pol_name p) a)]
    \<and> (can (ax_auth d) (OneAction ''policies:revoke'') \<longrightarrow>
        map (access_request tr now d q) (action_click d p a OnSwitch)
          = [Some (revokePolicyActionApi m (pol_name p) a), Some (revokePolicyActionApi m (pol_name p) a)])
    \<and> (\<not> can (ax_auth d) (OneAction ''policies:revoke'') \<longrightarrow> action_switch d p = None)"
proof -
  have "action_canToggle d p" using assms by (simp add: action_canToggle_def)
  moreover have "PERM ''POLICIES_REVOKE'' = ''policies:revoke''" by (simp add: PERM_def PERMISSIONS_def)
  ultimately show ?thesis
    using assms by (auto simp: action_switch_def IfCan_children requestRevokePolicyAction_def for_user_def)
qed

theorem action_click_doubled_witness:
  "map (access_request (\<lambda>k ps. k) 0 access_example toaster_initial)
     (action_click access_example (hd (assignedPolicies access_example)) ''users:list_all'' OnRow)
   = [Some (revokePolicyActionApi ''b@x'' ''Readers'' ''users:list_all'')]
   \<and> \<not> can (ax_auth access_example) (OneAction ''policies:revoke'')"
proof -
  let ?p = "hd (assignedPolicies access_example)"
  have "ax_email access_example = Some ''b@x''" "truthy ''b@x''" "policy_assigned access_example ?p"
    "\<not> ax_systemUser access_example" "\<not> selfProtected access_example ?p" and n: "pol_name ?p = ''Readers''"
    and c: "\<not> can (ax_auth access_example) (OneAction ''policies:revoke'')"
    by (simp_all add: access_example_def policy_assigned_def assignedNames_def assignedPolicies_def list_or_empty_def
        selfProtected_def dialog_isSelf_def isSelf_def opt_truthy_def can_iff)
  from conjunct1 [OF action_click_doubled [OF this(1-5)]] c show ?thesis unfolding n by blast
qed

section \<open>The dialog's state\<close>

text \<open>For a caller who may not list the policies, "Expand all" closes every policy of the dialog.\<close>

lemma expand_all_closes: "ax_allPolicies d = None \<Longrightarrow> ad_polOpen (access_step d s ExpandPolicies) = []"
  by (simp add: expandAllPolicies_def)

lemma editing_never: "ad_editingKey s = None \<Longrightarrow> ad_editingKey (access_step d s ev) = None"
  by (cases ev) (auto simp: access_dialog_render_def access_dialog_mount_def togglePolicyOpen_def expandAllPolicies_def
      collapseAllPolicies_def togglePermGroup_def expandAllPermGroups_def collapseAllPermGroups_def)

interpretation access_dialogs: event_machine "access_step d" "\<lambda>s. ad_editingKey s = None" for d
  by unfold_locales (rule editing_never)

text \<open>Nothing ever opens the editor of a direct grant's conditions.\<close>

theorem conditions_editor_unreachable:
  "conditions_editor (foldl (access_step d) (access_dialog_mount b) evs) items = None"
proof -
  have "ad_editingKey (access_dialog_mount b) = None" by (simp add: access_dialog_mount_def)
  from access_dialogs.run_inv [OF this] show ?thesis by (simp add: conditions_editor_def find_None_iff)
qed

section \<open>The link to the log\<close>

definition audit_page_at :: "string \<Rightarrow> string option \<Rightarrow> string option \<Rightarrow> audit_page" where
  "audit_page_at dest storedCategory storedScope =
     \<lparr>ap_urlCategory = url_get ''category'' (params_of dest), ap_urlScope = url_get ''scope'' (params_of dest),
      ap_storedCategory = storedCategory, ap_storedScope = storedScope\<rparr>"

lemma view_all_link:
  "path_of ''/audit-log?category=security&scope=all'' = ''/audit-log''"
  "params_of ''/audit-log?category=security&scope=all'' = [(''category'', ''security''), (''scope'', ''all'')]"
  by code_simp+

text \<open>The link to all changes of a user, shown for oneself or with the permission to read the log, always opens the
  audit log on security events: with the permission on the log of all users, narrowed to that user's address,
  and otherwise, for oneself, on one's own log.\<close>

theorem recent_changes_link:
  assumes "router_law match" and "isAuthenticated (ax_auth d) = Some True" and "changes_shown d"
    and "view_all_changes email f = (f', dest)"
  shows "opens (ax_auth d) match dest
    \<and> audit_view (ax_auth d) (audit_page_at dest c sc)
        = Some (if can (ax_auth d) (OneAction ''security_audit:read'') then AllSecurityLog else MySecurityLog)
    \<and> (\<not> can (ax_auth d) (OneAction ''security_audit:read'') \<longrightarrow> ax_email d = profile_email (ax_auth d))
    \<and> al_search (security_params False page (lf_search f') ip q f') = Some email"
proof -
  have dest: "dest = ''/audit-log?category=security&scope=all''" and f': "f' = f\<lparr>lf_search := email\<rparr>"
    using assms(4) by (auto simp: view_all_changes_def)
  have "opens (ax_auth d) match dest"
    using assms(1,2) by (subst opens_static [where e = "Protected NoPermission ''AuditLogPage''"])
      (auto simp: dest view_all_link ROUTES_def static_path_def arrive_protected)
  then show ?thesis
    using assms(3)
    by (auto simp: dest f' view_all_link audit_page_at_def url_get_def audit_view_def initialCategory_def
        initialScope_def requestedScope_def IfCan_children scope_permission_def security_params_def
        changes_shown_def dialog_isSelf_def isSelf_def useCan_def Let_def)
qed

theorem recent_changes_link_witness:
  "audit_view (auth_initial\<lparr>isAuthenticated := Some True, profile_email := Some ''a@x''\<rparr>)
     (audit_page_at ''/audit-log?category=security&scope=all'' None None) = Some MySecurityLog"
proof -
  let ?d = "access_example\<lparr>ax_auth := auth_initial\<lparr>isAuthenticated := Some True, profile_email := Some ''a@x''\<rparr>,
    ax_email := Some ''a@x''\<rparr>"
  have "isAuthenticated (ax_auth ?d) = Some True" "changes_shown ?d"
    by (simp_all add: changes_shown_def dialog_isSelf_def isSelf_def opt_truthy_def)
  moreover have "\<not> can (ax_auth ?d) (OneAction ''security_audit:read'')"
    by (simp add: can_iff auth_initial_def)
  moreover have "view_all_changes ''a@x'' security_defaults
      = (security_defaults\<lparr>lf_search := ''a@x''\<rparr>, ''/audit-log?category=security&scope=all'')"
    by (simp add: view_all_changes_def)
  ultimately show ?thesis
    using recent_changes_link [OF exact_match_law, of ?d, THEN conjunct2, THEN conjunct1] by fastforce
qed

end
