(* ===== verification/PoliciesView.thy ===== *)
theory PoliciesView
  imports PoliciesPage AuditFilters Navigation
begin

text \<open>
  What the policies page shows: the stat tiles and the filters they set (\<open>PolicyStatsCard.tsx\<close>,
  \<open>PoliciesPageContent.tsx\<close>), the filter bar with its two option lists and its chips
  (\<open>PoliciesFilterBar.tsx\<close>), a policy's card with its gated controls (\<open>PolicyCard.tsx\<close>), and the bodies of
  the list. Texts are translation keys; a control that is not rendered is \<open>None\<close>.
\<close>

section \<open>Tiles\<close>

datatype policy_tile = PolTotal | PolActive | PolInactive | PolDestructive

definition grants_destructive :: "policy_read \<Rightarrow> bool" where
  "grants_destructive p \<longleftrightarrow> (\<exists>a \<in> set (pol_actions p). isDestructiveAction a)"

fun policy_tile_value :: "policy_read list option \<Rightarrow> policy_tile \<Rightarrow> nat option" where
  "policy_tile_value ps PolTotal = map_option length ps"
| "policy_tile_value ps PolActive = map_option (\<lambda>l. length (filter pol_is_active l)) ps"
| "policy_tile_value ps PolInactive = map_option (\<lambda>l. length (filter (\<lambda>p. \<not> pol_is_active p) l)) ps"
| "policy_tile_value ps PolDestructive = map_option (\<lambda>l. length (filter grants_destructive l)) ps"

fun policy_tile_key :: "policy_tile \<Rightarrow> string" where
  "policy_tile_key PolTotal = ''total''"
| "policy_tile_key PolActive = ''active''"
| "policy_tile_key PolInactive = ''inactive''"
| "policy_tile_key PolDestructive = ''destructive''"

definition tile_pressed :: "policies_ui \<Rightarrow> policy_tile \<Rightarrow> bool" where
  "tile_pressed u k \<longleftrightarrow> activeTile u = Some (policy_tile_key k)"

fun policy_tile_click :: "policy_tile \<Rightarrow> policies_ui \<Rightarrow> policies_ui" where
  "policy_tile_click PolTotal u = clearAllFilters u"
| "policy_tile_click PolActive u = u\<lparr>pu_destructiveOnly := False, pu_resourceType := ALL_VALUE, pu_search := [],
     pu_status := ''true''\<rparr>"
| "policy_tile_click PolInactive u = u\<lparr>pu_destructiveOnly := False, pu_resourceType := ALL_VALUE, pu_search := [],
     pu_status := ''false''\<rparr>"
| "policy_tile_click PolDestructive u = u\<lparr>pu_destructiveOnly := \<not> pu_destructiveOnly u\<rparr>"

section \<open>The filter bar\<close>

definition coreTypes :: "string list" where
  "coreTypes = filter (\<lambda>rt. rt \<noteq> ''*'') AUTHORIZATION_RESOURCE_TYPES"

text \<open>\<open>Array.from(m.keys()).filter(...).sort()\<close>; \<open>le\<close> is the order of \<open>sort\<close> on strings.\<close>

definition forkTypes :: "(string \<Rightarrow> string \<Rightarrow> bool) \<Rightarrow> (string \<times> 'v) list \<Rightarrow> string list" where
  "forkTypes le m = js_sort le (filter (\<lambda>rt. rt \<notin> set coreTypes) (map fst m))"

definition action_resource :: "string \<Rightarrow> string" where
  "action_resource action = hd (js_split (CHR '':'') action)"

definition add_action :: "(string \<times> string list) list \<Rightarrow> string \<Rightarrow> (string \<times> string list) list" where
  "add_action m action = (let rt = action_resource action in
     AList.update rt (set_add (case map_of m rt of Some s \<Rightarrow> s | None \<Rightarrow> []) action) m)"

definition byResourceType :: "policy_read list \<Rightarrow> (string \<times> string list) list" where
  "byResourceType ps = foldl add_action [] (concat (map pol_actions ps))"

definition policy_actionGroups :: "(string \<Rightarrow> string \<Rightarrow> bool) \<Rightarrow> policy_read list option \<Rightarrow> option_group list" where
  "policy_actionGroups le allPolicies =
     (let m = byResourceType (case allPolicies of Some l \<Rightarrow> l | None \<Rightarrow> []) in
      filter (\<lambda>g. length (og_options g) > 0) (map (\<lambda>rt.
        \<lparr>og_key = rt, og_label = formatResourceTypeLabel rt,
         og_options = map (\<lambda>a. \<lparr>so_value = a, so_label = formatPolicyActionLabel a, so_sublabel = None,
             so_destructive = isDestructiveAction a\<rparr>)
           (js_sort le (case map_of m rt of Some s \<Rightarrow> s | None \<Rightarrow> []))\<rparr>)
        (coreTypes @ forkTypes le m)))"

definition count_type :: "(string \<times> nat) list \<Rightarrow> policy_read \<Rightarrow> (string \<times> nat) list" where
  "count_type m p = AList.update (pol_resource_type p)
     ((case map_of m (pol_resource_type p) of Some n \<Rightarrow> n | None \<Rightarrow> 0) + 1) m"

text \<open>An option: its value, the label of the type, and the number of policies shown with it.\<close>

definition policy_typeOptions ::
  "(string \<Rightarrow> string \<Rightarrow> bool) \<Rightarrow> policy_read list option \<Rightarrow> (string \<times> string \<times> nat option) list" where
  "policy_typeOptions le allPolicies =
     (let counts = foldl count_type [] (case allPolicies of Some l \<Rightarrow> l | None \<Rightarrow> []) in
      (ALL_VALUE, ''policies:page.allResourceTypes'', None)
        # map (\<lambda>rt. (rt, formatResourceTypeLabel rt, map_of counts rt)) (coreTypes @ forkTypes le counts))"

datatype policies_chip = PolSearchChip | PolTypeChip | PolStatusChip | PolActionChip | PolDestructiveChip

definition policies_chips :: "policies_ui \<Rightarrow> policies_chip list" where
  "policies_chips u = (if truthy (pu_search u) then [PolSearchChip] else [])
     @ (if pu_resourceType u \<noteq> ALL_VALUE then [PolTypeChip] else [])
     @ (if pu_status u \<noteq> ALL_VALUE then [PolStatusChip] else [])
     @ (if pu_containsAction u \<noteq> ALL_VALUE then [PolActionChip] else [])
     @ (if pu_destructiveOnly u then [PolDestructiveChip] else [])"

fun clear_policies_chip :: "policies_chip \<Rightarrow> policies_ui \<Rightarrow> policies_ui" where
  "clear_policies_chip PolSearchChip u = u\<lparr>pu_search := []\<rparr>"
| "clear_policies_chip PolTypeChip u = u\<lparr>pu_resourceType := ALL_VALUE\<rparr>"
| "clear_policies_chip PolStatusChip u = u\<lparr>pu_status := ALL_VALUE\<rparr>"
| "clear_policies_chip PolActionChip u = u\<lparr>pu_containsAction := ALL_VALUE\<rparr>"
| "clear_policies_chip PolDestructiveChip u = u\<lparr>pu_destructiveOnly := False\<rparr>"

text \<open>\<open>clearFilters\<close> of the bar.\<close>

definition policies_clearFilters :: "policies_ui \<Rightarrow> policies_ui" where
  "policies_clearFilters u = u\<lparr>pu_search := [], pu_resourceType := ALL_VALUE, pu_status := ALL_VALUE,
     pu_containsAction := ALL_VALUE, pu_destructiveOnly := False\<rparr>"

section \<open>A card\<close>

definition isProtected :: "policy_read \<Rightarrow> bool" where
  "isProtected p \<longleftrightarrow> pol_name p \<in> set PROTECTED_POLICY_NAMES"

definition canManageCurrentGrant :: "auth_state \<Rightarrow> policy_read \<Rightarrow> bool" where
  "canManageCurrentGrant s p = canGrantPolicy (pol_actions p) (can s)"

text \<open>The edit button: enabled or not. The switch: on or not, enabled or not. The delete button: enabled or
  not.\<close>

definition card_edit :: "auth_state \<Rightarrow> policy_read \<Rightarrow> bool option" where
  "card_edit s p = (if IfCan s (OneAction (PERM ''POLICIES_UPDATE'')) None () = Children
     then Some (\<not> isProtected p) else None)"

definition card_switch :: "auth_state \<Rightarrow> string option \<Rightarrow> policy_read \<Rightarrow> (bool \<times> bool) option" where
  "card_switch s togglingName p = (if IfCan s (OneAction (PERM ''POLICIES_UPDATE'')) None () = Children
     then Some (pol_is_active p,
       \<not> (isProtected p \<or> \<not> canManageCurrentGrant s p \<or> togglingName = Some (pol_name p))) else None)"

definition card_tooltip :: "auth_state \<Rightarrow> policy_read \<Rightarrow> string" where
  "card_tooltip s p =
     (if pol_name p = ''system_superuser'' then ''policies:columns.systemSuperuserAlwaysActive''
      else if isProtected p then ''policies:columns.cannotModifyBaselinePolicy''
      else if \<not> canManageCurrentGrant s p then ''policies:columns.cannotManageGrantWithoutActions''
      else if pol_is_active p then ''policies:columns.deactivate'' else ''policies:columns.activate'')"

definition card_delete :: "auth_state \<Rightarrow> policy_read \<Rightarrow> bool option" where
  "card_delete s p = (if \<not> pol_is_active p \<and> IfCan s (OneAction (PERM ''POLICIES_DELETE'')) None () = Children
     then Some (\<not> (isProtected p \<or> \<not> canManageCurrentGrant s p)) else None)"

text \<open>The badges of a card: inactive, protected, the number of actions, and of the destructive ones.\<close>

definition card_badges :: "policy_read \<Rightarrow> bool \<times> bool \<times> nat \<times> nat option" where
  "card_badges p = (let destructiveCount = length (filter isDestructiveAction (pol_actions p)) in
     (\<not> pol_is_active p, isProtected p, length (pol_actions p),
      if destructiveCount > 0 then Some destructiveCount else None))"

text \<open>A click anywhere on the row or on its button opens or closes it, once; the controls keep their clicks.\<close>

datatype card_target = CardRow | CardButton | CardControls

fun card_click :: "card_target \<Rightarrow> policy_read \<Rightarrow> string set \<Rightarrow> string set" where
  "card_click CardRow p shown_names = toggleOpen (pol_name p) shown_names"
| "card_click CardButton p shown_names = toggleOpen (pol_name p) shown_names"
| "card_click CardControls p shown_names = shown_names"

section \<open>The list\<close>

record policies_query =
  pq_canRead :: bool
  pq_policies :: "policy_read list option"
  pq_total :: "int option"
  pq_isLoading :: bool
  pq_isError :: bool

datatype list_body =
    BodyRestricted
  | BodyLoadingPolicies
  | BodyFailedPolicies
  | BodyNoPolicies string bool bool
  | BodyGroups "(string \<times> policy_read list) list"

text \<open>The body below the page header; \<open>isError\<close> is the page's own, an error with nothing to show. The empty
  state carries its message, whether it offers to clear the filters, and whether to create a policy.\<close>

definition displayIsError :: "policies_query \<Rightarrow> bool" where
  "displayIsError q \<longleftrightarrow> pq_isError q \<and> pq_policies q = None"

definition policies_body ::
  "(string \<Rightarrow> string \<Rightarrow> bool) \<Rightarrow> auth_state \<Rightarrow> policies_query \<Rightarrow> policies_ui \<Rightarrow> optimistic \<Rightarrow> list_body" where
  "policies_body le s q u ov =
     (let filteredPolicies = optimistic_policies (pq_policies q) ov;
          l = (case filteredPolicies of Some l \<Rightarrow> l | None \<Rightarrow> []) in
      if \<not> pq_canRead q then BodyRestricted
      else if pq_isLoading q then BodyLoadingPolicies
      else if displayIsError q then BodyFailedPolicies
      else if length l = 0 then BodyNoPolicies
        (if truthy (pu_search u) then ''policies:page.noPoliciesMatchSearch''
         else if hasSearchOrFilters u then ''policies:page.noPoliciesMatchFilters'' else ''policies:page.noPoliciesYet'')
        (hasSearchOrFilters u)
        (\<not> hasSearchOrFilters u \<and> IfCan s (OneAction (PERM ''POLICIES_CREATE'')) None () = Children)
      else BodyGroups (groupPoliciesByResourceType le l))"

text \<open>The alert above a list that could not be refreshed.\<close>

definition refresh_warning :: "policies_query \<Rightarrow> bool" where
  "refresh_warning q \<longleftrightarrow> pq_canRead q \<and> displayIsError q \<and> pq_policies q \<noteq> None"

section \<open>Chips and tiles\<close>

definition policies_active :: "policies_ui \<Rightarrow> nat" where
  "policies_active u = of_bool (truthy (pu_search u)) + of_bool (pu_resourceType u \<noteq> ALL_VALUE)
     + of_bool (pu_status u \<noteq> ALL_VALUE) + of_bool (pu_containsAction u \<noteq> ALL_VALUE) + of_bool (pu_destructiveOnly u)"

lemma policies_clearFilters_eq: "policies_clearFilters u = clearAllFilters u"
  by (simp add: policies_clearFilters_def clearAllFilters_def)

lemma chip_shown:
  "c \<in> set (policies_chips u) \<longleftrightarrow> (case c of PolSearchChip \<Rightarrow> truthy (pu_search u)
     | PolTypeChip \<Rightarrow> pu_resourceType u \<noteq> ALL_VALUE | PolStatusChip \<Rightarrow> pu_status u \<noteq> ALL_VALUE
     | PolActionChip \<Rightarrow> pu_containsAction u \<noteq> ALL_VALUE | PolDestructiveChip \<Rightarrow> pu_destructiveOnly u)"
  by (cases c) (simp_all add: policies_chips_def)

lemma policies_unfiltered: "policies_active u = 0 \<longleftrightarrow> policies_clearFilters u = u"
  by (cases u) (auto simp: policies_active_def policies_clearFilters_def truthy_def)

interpretation policies_chips: filter_chips policies_chips clear_policies_chip policies_clearFilters
  policies_active "\<lambda>u. True"
proof
  fix c and u :: policies_ui
  show "True \<and> policies_active u = Suc (policies_active (clear_policies_chip c u))
      \<and> policies_clearFilters (clear_policies_chip c u) = policies_clearFilters u" if "c \<in> set (policies_chips u)"
    using that unfolding chip_shown
    by (cases c) (simp_all add: policies_active_def policies_clearFilters_def truthy_def)
  show "policies_chips u = [] \<longleftrightarrow> policies_active u = 0"
    by (simp add: policies_chips_def policies_active_def)
  show "policies_clearFilters u = u" if "policies_active u = 0"
    using that by (simp add: policies_unfiltered)
qed

text \<open>The chips and the tiles of the policies page agree: the chips, clicked away in any order, end in the
  filters the "Total" tile sets, after as many clicks as there are filters; that tile is then the pressed one;
  and the page says it has filters exactly when a chip is shown.\<close>

theorem policies_chips_and_tiles:
  assumes "click_chips policies_chips clear_policies_chip u cs = Some u'" and "policies_chips u' = []"
  shows "u' = policy_tile_click PolTotal u \<and> length cs = policies_active u \<and> tile_pressed u' PolTotal
    \<and> (hasSearchOrFilters u \<longleftrightarrow> policies_chips u \<noteq> [])"
proof -
  have "u' = policies_clearFilters u \<and> length cs = policies_active u"
    using policies_chips.clicked_away [OF TrueI assms] by simp
  moreover have "tile_pressed (clearAllFilters u) PolTotal"
    by (simp add: tile_pressed_def activeTile_def clearAllFilters_def hasSearchOrFilters_def truthy_def ALL_VALUE_def)
  moreover have "hasSearchOrFilters u \<longleftrightarrow> policies_chips u \<noteq> []"
    by (simp add: hasSearchOrFilters_def policies_chips_def)
  ultimately show ?thesis by (simp add: policies_clearFilters_eq)
qed

theorem policies_chips_and_tiles_witness:
  "tile_pressed (policies_ui_initial\<lparr>pu_status := ALL_VALUE\<rparr>) PolTotal
   \<and> hasSearchOrFilters (policies_ui_initial\<lparr>pu_status := ''true''\<rparr>)"
proof -
  have "click_chips policies_chips clear_policies_chip (policies_ui_initial\<lparr>pu_status := ''true''\<rparr>) [PolStatusChip]
      = Some (policies_ui_initial\<lparr>pu_status := ALL_VALUE\<rparr>)"
    and none: "policies_chips (policies_ui_initial\<lparr>pu_status := ALL_VALUE\<rparr>) = []"
    and one: "policies_chips (policies_ui_initial\<lparr>pu_status := ''true''\<rparr>) \<noteq> []"
    by (simp_all add: policies_chips_def policies_ui_initial_def ALL_VALUE_def truthy_def)
  from policies_chips_and_tiles [OF this(1,2)] one show ?thesis by blast
qed

text \<open>The "Active" tile shows as pressed with a filter for an action still on: the number on the tile counts
  all active policies, the list below asks only for those that contain the action. The same holds for
  "Inactive"; and the "Destructive" tile keeps every other filter.\<close>

theorem pressed_tile_narrowed:
  assumes "pu_containsAction u \<noteq> ALL_VALUE"
  shows "tile_pressed (policy_tile_click PolActive u) PolActive \<and> tile_pressed (policy_tile_click PolInactive u) PolInactive
    \<and> lp_containsAction (policies_list_params page d (policy_tile_click PolActive u)) = Some (pu_containsAction u)
    \<and> lp_containsAction (policies_list_params page d (policy_tile_click PolInactive u)) = Some (pu_containsAction u)
    \<and> (\<not> pu_destructiveOnly u \<longrightarrow> tile_pressed (policy_tile_click PolDestructive u) PolDestructive
        \<and> lp_containsAction (policies_list_params page d (policy_tile_click PolDestructive u)) = Some (pu_containsAction u))"
  using assms
  by (simp add: tile_pressed_def activeTile_def policies_list_params_def or_undefined_def truthy_def ALL_VALUE_def)

theorem pressed_tile_narrowed_witness:
  "lp_containsAction (policies_list_params 1 [] (policy_tile_click PolActive
     (policies_ui_initial\<lparr>pu_containsAction := ''users:purge''\<rparr>))) = Some ''users:purge''"
  using pressed_tile_narrowed [of "policies_ui_initial\<lparr>pu_containsAction := ''users:purge''\<rparr>" 1 "[]"]
  by (simp add: ALL_VALUE_def)

section \<open>The option lists\<close>

lemma js_distinct_empty [simp]: "js_distinct xs = [] \<longleftrightarrow> xs = []"
  by (cases xs) simp_all

lemma add_action_lookup:
  "map_of (add_action m a) rt = (if rt = action_resource a
     then Some (set_add (case map_of m rt of Some s \<Rightarrow> s | None \<Rightarrow> []) a) else map_of m rt)"
  by (simp add: add_action_def Let_def update_conv')

lemma add_actions:
  "map_of (foldl add_action [] as) rt =
     (let s = js_distinct (filter (\<lambda>a. action_resource a = rt) as) in if s = [] then None else Some s)"
proof (induction as rule: rev_induct)
  case (snoc a as)
  then show ?case by (auto simp: add_action_lookup Let_def set_add_def js_distinct_snoc filter_empty_conv split: if_split_asm)
qed simp

lemma add_actions_distinct: "distinct (map fst (foldl add_action [] as))"
  by (induction as rule: rev_induct) (simp_all add: add_action_def Let_def distinct_update)

lemma coreTypes_distinct: "distinct coreTypes"
  by (simp add: coreTypes_def AUTHORIZATION_RESOURCE_TYPES_def)

lemma distinct_js_sort [simp]: "distinct (js_sort le xs) \<longleftrightarrow> distinct xs"
  by (metis mset_js_sort mset_eq_imp_distinct_iff)

lemma all_types_distinct: "distinct (map fst m) \<Longrightarrow> distinct (coreTypes @ forkTypes le m)"
  using coreTypes_distinct by (auto simp: forkTypes_def)

lemma all_types_set: "set (coreTypes @ forkTypes le m) = set coreTypes \<union> fst ` set m"
  by (auto simp: forkTypes_def)

lemma fibres: "(\<Union>k \<in> f ` A. (\<lambda>a. (k, a)) ` {a \<in> A. f a = k}) = (\<lambda>a. (f a, a)) ` A"
  by (auto intro: rev_image_eqI)

text \<open>The action picker offers each action that some policy contains exactly once, under the resource type
  its name begins with, and nothing else; no group is empty, and every group has its own type. Whatever order
  \<open>sort\<close> puts them in.\<close>

theorem action_picker_complete:
  "let gs = policy_actionGroups le (Some ps); as = concat (map pol_actions ps) in
     distinct (map so_value (concat (map og_options gs)))
   \<and> set (concat (map (\<lambda>g. map (\<lambda>ao. (og_key g, so_value ao)) (og_options g)) gs)) = (\<lambda>a. (action_resource a, a)) ` set as
   \<and> distinct (map og_key gs) \<and> [] \<notin> og_options ` set gs"
proof -
  let ?as = "concat (map pol_actions ps)"
  let ?m = "byResourceType ps"
  define acts where "acts rt = js_sort le (case map_of ?m rt of Some s \<Rightarrow> s | None \<Rightarrow> [])" for rt
  define grp where "grp rt = \<lparr>og_key = rt, og_label = formatResourceTypeLabel rt,
         og_options = map (\<lambda>a. \<lparr>so_value = a, so_label = formatPolicyActionLabel a, so_sublabel = None,
             so_destructive = isDestructiveAction a\<rparr>) (acts rt)\<rparr>" for rt
  define ts where "ts = filter (\<lambda>rt. length (acts rt) > 0) (coreTypes @ forkTypes le ?m)"
  have gs: "policy_actionGroups le (Some ps) = map grp ts"
    unfolding policy_actionGroups_def Let_def ts_def grp_def acts_def
    by (simp only: filter_map o_def option_group.select_convs length_map option.case)
  have "acts rt = js_sort le (js_distinct (filter (\<lambda>a. action_resource a = rt) ?as))" for rt
    unfolding acts_def byResourceType_def add_actions by (simp add: Let_def)
  then have set_acts: "set (acts rt) = {a \<in> set ?as. action_resource a = rt}"
    and dist_acts: "distinct (acts rt)" for rt by auto
  have keys: "fst ` set ?m = action_resource ` set ?as"
  proof -
    have "rt \<in> fst ` set ?m \<longleftrightarrow> rt \<in> action_resource ` set ?as" for rt
      using add_actions [of ?as rt] map_of_eq_None_iff [of ?m rt]
      by (auto simp: byResourceType_def Let_def filter_empty_conv split: if_split_asm)
    then show ?thesis by blast
  qed
  have dts: "distinct ts"
    unfolding ts_def using all_types_distinct [of ?m le] add_actions_distinct [of ?as]
    by (auto simp: byResourceType_def)
  have ne: "acts rt \<noteq> [] \<longleftrightarrow> rt \<in> action_resource ` set ?as" for rt
  proof -
    have "acts rt \<noteq> [] \<longleftrightarrow> (\<exists>a. a \<in> set (acts rt))" by (cases "acts rt") auto
    then show ?thesis unfolding set_acts by blast
  qed
  have sts: "set ts = action_resource ` set ?as"
    unfolding ts_def set_filter length_greater_0_conv ne all_types_set keys by blast
  have vals: "map so_value (concat (map og_options (map grp xs))) = concat (map acts xs)" for xs
    by (induction xs) (simp_all add: grp_def o_def)
  have "distinct (concat (map acts xs))" if "distinct xs" for xs
    using that by (induction xs) (auto simp: dist_acts set_acts)
  moreover have "set (concat (map (\<lambda>g. map (\<lambda>ao. (og_key g, so_value ao)) (og_options g)) (map grp xs)))
      = (\<Union>rt \<in> set xs. (\<lambda>a. (rt, a)) ` set (acts rt))" for xs
    by (simp add: grp_def image_image)
  moreover have "(\<Union>rt \<in> set ts. (\<lambda>a. (rt, a)) ` set (acts rt)) = (\<lambda>a. (action_resource a, a)) ` set ?as"
    unfolding sts set_acts by (rule fibres)
  moreover have "map og_key (map grp xs) = xs" for xs
    by (induction xs) (simp_all add: grp_def)
  moreover have "[] \<notin> og_options ` set (map grp ts)"
    by (auto simp: grp_def ts_def)
  ultimately show ?thesis unfolding gs Let_def vals using dts by metis
qed

lemma counted:
  "map_of (foldl count_type [] ps) rt =
     (let n = length (filter (\<lambda>p. pol_resource_type p = rt) ps) in if n = 0 then None else Some n)"
proof (induction ps rule: rev_induct)
  case (snoc p ps)
  then show ?case by (auto simp: count_type_def Let_def update_conv' split: if_split_asm)
qed simp

lemma counted_distinct: "distinct (map fst (foldl count_type [] ps))"
  by (induction ps rule: rev_induct) (simp_all add: count_type_def distinct_update)

text \<open>The type picker reaches every policy: each type some policy has is one of its values, no value occurs
  twice, and the number shown with a type is the number of policies that have it; a type shown without a
  number has none.\<close>

theorem type_picker_reaches_all:
  assumes "\<forall>p \<in> set ps. pol_resource_type p \<noteq> []"
  shows "let opts = policy_typeOptions le (Some ps) in
     distinct (map fst opts) \<and> pol_resource_type ` set ps \<subseteq> fst ` set opts
   \<and> (\<forall>(rt, label, n) \<in> set (tl opts). length (filter (\<lambda>p. pol_resource_type p = rt) ps) = (case n of Some k \<Rightarrow> k | None \<Rightarrow> 0))"
proof -
  let ?m = "foldl count_type [] ps"
  have keys: "fst ` set ?m = pol_resource_type ` set ps"
  proof -
    have "rt \<in> fst ` set ?m \<longleftrightarrow> rt \<in> pol_resource_type ` set ps" for rt
      using counted [of ps rt] map_of_eq_None_iff [of ?m rt]
      by (auto simp: Let_def filter_empty_conv split: if_split_asm)
    then show ?thesis by blast
  qed
  have vals: "map fst (policy_typeOptions le (Some ps)) = ALL_VALUE # coreTypes @ forkTypes le ?m"
    by (simp add: policy_typeOptions_def Let_def o_def)
  have all: "set (map fst (policy_typeOptions le (Some ps))) = insert ALL_VALUE (set coreTypes \<union> pol_resource_type ` set ps)"
    unfolding vals using all_types_set [of le ?m] keys by auto
  have "ALL_VALUE \<notin> set coreTypes \<union> pol_resource_type ` set ps"
    using assms by (auto simp: ALL_VALUE_def coreTypes_def AUTHORIZATION_RESOURCE_TYPES_def)
  then have "ALL_VALUE \<notin> set (coreTypes @ forkTypes le ?m)" unfolding all_types_set keys .
  then have "distinct (map fst (policy_typeOptions le (Some ps)))"
    unfolding vals using all_types_distinct [OF counted_distinct [of ps], of le] by simp
  moreover have "pol_resource_type ` set ps \<subseteq> set (map fst (policy_typeOptions le (Some ps)))"
    unfolding all by blast
  moreover have "\<forall>(rt, label, n) \<in> set (tl (policy_typeOptions le (Some ps))).
      length (filter (\<lambda>p. pol_resource_type p = rt) ps) = (case n of Some k \<Rightarrow> k | None \<Rightarrow> 0)"
    by (auto simp: policy_typeOptions_def Let_def counted)
  ultimately show ?thesis by (simp add: Let_def)
qed

theorem type_picker_reaches_all_witness:
  "''*'' \<in> fst ` set (policy_typeOptions string_le (Some [reader_policy]))"
  using type_picker_reaches_all [of "[reader_policy]" string_le] by (simp add: reader_policy_def Let_def)

section \<open>The controls of a card and the list\<close>

text \<open>The controls of a card are enabled exactly where the backend accepts what they send: editing needs the
  permission to update and a policy that is not protected; switching needs, besides, every action of the policy
  and no other change of its status on the way; deleting the same with its own permission, for an inactive
  policy only. A protected policy has no enabled control whatever the caller holds.\<close>

theorem card_controls_gated:
  "(card_edit s p = Some True \<longleftrightarrow> can s (OneAction (PERM ''POLICIES_UPDATE'')) \<and> pol_name p \<notin> set PROTECTED_POLICY_NAMES)
   \<and> (card_switch s t p = Some (on, True) \<longleftrightarrow> on = pol_is_active p \<and> card_edit s p = Some True
        \<and> set (pol_actions p) \<subseteq> set (permissions s) \<and> t \<noteq> Some (pol_name p))
   \<and> (card_delete s p = Some True \<longleftrightarrow> can s (OneAction (PERM ''POLICIES_DELETE'')) \<and> \<not> pol_is_active p
        \<and> pol_name p \<notin> set PROTECTED_POLICY_NAMES \<and> set (pol_actions p) \<subseteq> set (permissions s))"
  by (auto simp: card_edit_def card_switch_def card_delete_def IfCan_children isProtected_def
      canManageCurrentGrant_def canGrantPolicy_iff can_iff)

text \<open>The list shows every policy of the page once, whatever the order of the groups; and the alert for a list
  that could not be refreshed never appears, because the page reports an error only when it has no list.\<close>

theorem policies_list_complete:
  "(policies_body le s q u ov = BodyGroups gs \<longleftrightarrow>
      pq_canRead q \<and> \<not> pq_isLoading q \<and> (\<exists>l. pq_policies q = Some l \<and> l \<noteq> []
        \<and> gs = groupPoliciesByResourceType le (the (optimistic_policies (Some l) ov))
        \<and> mset (map pol_name (concat (map snd gs))) = mset (map pol_name l)))
   \<and> \<not> refresh_warning q"
proof -
  have names: "map pol_name (the (optimistic_policies (Some l) ov)) = map pol_name l" for l
    by (induction l) (auto simp: optimistic_policies_def split: option.split)
  have complete: "mset (map pol_name (concat (map snd (groupPoliciesByResourceType le (the (optimistic_policies (Some l) ov))))))
      = mset (map pol_name l)" for l
    unfolding mset_map policy_groups.nothing_lost by (simp flip: mset_map add: names)
  have "refresh_warning q = False" by (auto simp: refresh_warning_def displayIsError_def)
  then show ?thesis
    using complete
    by (cases "pq_policies q") (auto simp: policies_body_def Let_def displayIsError_def optimistic_policies_def)
qed

end
