(* ===== verification/PolicyDialogs.thy ===== *)
theory PolicyDialogs
  imports PoliciesView PermissionsPage
begin

text \<open>
  The dialogs of the policies page: which one is open and for which policy, and the mutations behind them
  (\<open>PoliciesPage.tsx\<close>); the details dialog with its tabs and the embedded editor
  (\<open>dialogs/PolicyDetailsDialog.tsx\<close>, \<open>PolicyDialogTabs.tsx\<close>, the editor itself is theory PolicyForm), the
  history with its rollback (\<open>PolicyHistorySection.tsx\<close>), and the delete confirmation
  (\<open>PoliciesPageContent.tsx\<close>).

  A mutation hook reports the state of its latest call and runs that call's own callbacks only while no
  newer call or \<open>reset\<close> has replaced it: \<open>observer\<close>, with calls told apart by a number.
\<close>

section \<open>Mutations as a component sees them\<close>

datatype observer = Idle | Pending nat | Failed string

definition observer_error :: "observer \<Rightarrow> string option" where
  "observer_error ob = (case ob of Failed m \<Rightarrow> Some m | _ \<Rightarrow> None)"

definition isPending :: "observer \<Rightarrow> bool" where
  "isPending ob = (case ob of Pending n \<Rightarrow> True | _ \<Rightarrow> False)"

section \<open>The page\<close>

datatype policy_tab = TabDetails | TabEdit

record policy_dialogs =
  pd_formOpen :: bool
  pd_editing :: "policy_read option"
  pd_deleting :: "policy_read option"
  pd_viewing :: "policy_read option"
  pd_initialTab :: policy_tab
  pd_create :: observer
  pd_update :: observer
  pd_delete :: observer
  pd_calls :: nat
  pd_toasts :: "(toast_type \<times> string) list"

definition dialogs_initial :: policy_dialogs where
  "dialogs_initial = \<lparr>pd_formOpen = False, pd_editing = None, pd_deleting = None, pd_viewing = None,
     pd_initialTab = TabDetails, pd_create = Idle, pd_update = Idle, pd_delete = Idle, pd_calls = 0, pd_toasts = []\<rparr>"

definition openCreateForm :: "policy_dialogs \<Rightarrow> policy_dialogs" where
  "openCreateForm s = s\<lparr>pd_editing := None, pd_viewing := None, pd_formOpen := True\<rparr>"

definition openEditForm :: "policy_read \<Rightarrow> policy_dialogs \<Rightarrow> policy_dialogs" where
  "openEditForm p s = s\<lparr>pd_editing := Some p, pd_initialTab := TabEdit, pd_viewing := Some p, pd_formOpen := False\<rparr>"

definition openView :: "policy_read option \<Rightarrow> policy_dialogs \<Rightarrow> policy_dialogs" where
  "openView p s = (case p of
      Some q \<Rightarrow> s\<lparr>pd_editing := Some q, pd_initialTab := TabDetails, pd_viewing := p\<rparr>
    | None \<Rightarrow> s\<lparr>pd_viewing := None\<rparr>)"

definition closeForm :: "policy_dialogs \<Rightarrow> policy_dialogs" where
  "closeForm s = s\<lparr>pd_formOpen := False, pd_create := Idle, pd_update := Idle\<rparr>"

text \<open>The values of the form as the two payloads.\<close>

definition update_payload :: "policy_form_values \<Rightarrow> policy_update_payload" where
  "update_payload v = \<lparr>pu_name = Some (fv_name v), pu_description = Some (fv_description v),
     pu_actions = Some (fv_actions v), pu_resource_type = Some (fv_resource_type v), pu_conditions = fv_conditions v,
     pu_is_active = None, pu_change_reason = None\<rparr>"

definition create_payload :: "policy_form_values \<Rightarrow> policy_create_payload" where
  "create_payload v = \<lparr>pc_name = fv_name v, pc_description = Some (fv_description v), pc_actions = fv_actions v,
     pc_resource_type = fv_resource_type v, pc_conditions = fv_conditions v\<rparr>"

definition handleFormSubmit :: "policy_form_values \<Rightarrow> policy_dialogs \<Rightarrow> policy_dialogs \<times> http_request" where
  "handleFormSubmit v s = (let n = pd_calls s; s' = s\<lparr>pd_calls := Suc n\<rparr> in
     case pd_editing s of
       Some p \<Rightarrow> (s'\<lparr>pd_update := Pending n\<rparr>, updatePolicyApi (pol_name p) (update_payload v))
     | None \<Rightarrow> (s'\<lparr>pd_create := Pending n\<rparr>, createPolicyApi (create_payload v)))"

definition add_toast :: "toast_type \<Rightarrow> string \<Rightarrow> policy_dialogs \<Rightarrow> policy_dialogs" where
  "add_toast ty title s = s\<lparr>pd_toasts := pd_toasts s @ [(ty, title)]\<rparr>"

text \<open>What happens when call \<open>n\<close> settles: nothing for a call that is no longer the latest.\<close>

definition update_settled :: "nat \<Rightarrow> string + unit \<Rightarrow> policy_dialogs \<Rightarrow> policy_dialogs" where
  "update_settled n r s = (if pd_update s \<noteq> Pending n then s else case r of
      Inr u \<Rightarrow> openView None (closeForm (add_toast ToastSuccess ''policies:page.policyUpdatedToast'' (s\<lparr>pd_update := Idle\<rparr>)))
    | Inl m \<Rightarrow> s\<lparr>pd_update := Failed m\<rparr>)"

definition create_settled :: "nat \<Rightarrow> string + unit \<Rightarrow> policy_dialogs \<Rightarrow> policy_dialogs" where
  "create_settled n r s = (if pd_create s \<noteq> Pending n then s else case r of
      Inr u \<Rightarrow> closeForm (add_toast ToastSuccess ''policies:page.policyCreatedToast'' (s\<lparr>pd_create := Idle\<rparr>))
    | Inl m \<Rightarrow> s\<lparr>pd_create := Failed m\<rparr>)"

definition policy_handleDeleteConfirm :: "policy_dialogs \<Rightarrow> policy_dialogs \<times> http_request option" where
  "policy_handleDeleteConfirm s = (case pd_deleting s of
      None \<Rightarrow> (s, None)
    | Some p \<Rightarrow> (s\<lparr>pd_delete := Pending (pd_calls s), pd_calls := Suc (pd_calls s)\<rparr>, Some (deletePolicyApi (pol_name p) None)))"

definition policy_delete_settled :: "nat \<Rightarrow> string + unit \<Rightarrow> policy_dialogs \<Rightarrow> policy_dialogs" where
  "policy_delete_settled n r s = (if pd_delete s \<noteq> Pending n then s else case r of
      Inr u \<Rightarrow> (add_toast ToastSuccess ''policies:page.policyDeletedToast'' (s\<lparr>pd_delete := Idle\<rparr>))\<lparr>pd_deleting := None\<rparr>
    | Inl m \<Rightarrow> add_toast ToastError m (s\<lparr>pd_delete := Failed m\<rparr>))"

text \<open>What the dialogs are handed.\<close>

definition isSaving :: "policy_dialogs \<Rightarrow> bool" where
  "isSaving s \<longleftrightarrow> isPending (pd_create s) \<or> isPending (pd_update s)"

definition formError :: "policy_dialogs \<Rightarrow> string option" where
  "formError s = (case observer_error (pd_create s) of Some m \<Rightarrow> Some m | None \<Rightarrow> observer_error (pd_update s))"

definition details_open :: "policy_dialogs \<Rightarrow> bool" where
  "details_open s \<longleftrightarrow> pd_viewing s \<noteq> None"

definition create_open :: "policy_dialogs \<Rightarrow> bool" where
  "create_open s \<longleftrightarrow> pd_formOpen s \<and> pd_editing s = None"

text \<open>The delete confirmation: the text, whether "Delete" is enabled, and whether a retry is offered.\<close>

record holders_query =
  hq_isLoading :: bool
  hq_isError :: bool
  hq_holders :: "nat option"

definition delete_description :: "holders_query \<Rightarrow> string list" where
  "delete_description q =
     (if hq_isLoading q then [''policies:page.deleteDialogLoadingHolders'']
      else if hq_isError q then [''policies:page.deleteDialogHoldersError'']
      else case hq_holders q of
          Some n \<Rightarrow> if n > 0 then [''policies:page.deleteDialogDescription'', ''policies:page.deleteDialogHolderNote'']
            else [''policies:page.deleteDialogDescription'']
        | None \<Rightarrow> [''policies:page.deleteDialogDescription''])"

definition policy_delete_dialog :: "holders_query \<Rightarrow> policy_dialogs \<Rightarrow> (string list \<times> bool \<times> bool) option" where
  "policy_delete_dialog q s = (if pd_deleting s = None then None
     else Some (delete_description q,
       \<not> (hq_isLoading q \<or> hq_isError q \<or> isPending (pd_delete s)), hq_isError q))"

definition delete_click :: "holders_query \<Rightarrow> policy_dialogs \<Rightarrow> policy_dialogs \<times> http_request option" where
  "delete_click q s = (case policy_delete_dialog q s of
      Some (d, True, r) \<Rightarrow> policy_handleDeleteConfirm s | _ \<Rightarrow> (s, None))"

datatype dialogs_event =
    OpenCreate
  | OpenEdit policy_read
  | OpenView policy_read
  | CloseView
  | CloseForm
  | CloseEditor
  | SubmitForm policy_form_values
  | UpdateSettled nat "string + unit"
  | CreateSettled nat "string + unit"
  | RequestDelete policy_read
  | CancelDelete
  | ClickDelete holders_query
  | DeleteSettled nat "string + unit"

fun dialogs_step :: "policy_dialogs \<Rightarrow> dialogs_event \<Rightarrow> policy_dialogs" where
  "dialogs_step s OpenCreate = openCreateForm s"
| "dialogs_step s (OpenEdit p) = openEditForm p s"
| "dialogs_step s (OpenView p) = openView (Some p) s"
| "dialogs_step s CloseView = openView None s"
| "dialogs_step s CloseForm = closeForm s"
| "dialogs_step s CloseEditor = openView None (closeForm s)"
| "dialogs_step s (SubmitForm v) = fst (handleFormSubmit v s)"
| "dialogs_step s (UpdateSettled n r) = update_settled n r s"
| "dialogs_step s (CreateSettled n r) = create_settled n r s"
| "dialogs_step s (RequestDelete p) = s\<lparr>pd_deleting := Some p\<rparr>"
| "dialogs_step s CancelDelete = s\<lparr>pd_deleting := None\<rparr>"
| "dialogs_step s (ClickDelete q) = fst (delete_click q s)"
| "dialogs_step s (DeleteSettled n r) = policy_delete_settled n r s"

lemmas dialogs_defs = dialogs_initial_def openCreateForm_def openEditForm_def openView_def closeForm_def
  handleFormSubmit_def add_toast_def update_settled_def create_settled_def policy_handleDeleteConfirm_def
  policy_delete_settled_def policy_delete_dialog_def delete_click_def Let_def

section \<open>The details dialog\<close>

fun tab_text :: "policy_tab \<Rightarrow> string" where
  "tab_text TabDetails = ''details''"
| "tab_text TabEdit = ''edit''"

definition details_resetKey :: "bool \<Rightarrow> policy_read option \<Rightarrow> policy_tab \<Rightarrow> string" where
  "details_resetKey isOpen policy initialTab =
     (if isOpen then ''true'' else ''false'') @ '':'' @ (case policy of Some p \<Rightarrow> pol_name p | None \<Rightarrow> [])
       @ '':'' @ tab_text initialTab"

text \<open>The embedded editor exists while the edit tab is shown.\<close>

record details_dialog =
  dd_activeTab :: policy_tab
  dd_previousResetKey :: string
  dd_editor :: "policy_form option"

definition details_mount :: details_dialog where
  "details_mount = \<lparr>dd_activeTab = TabDetails, dd_previousResetKey = [], dd_editor = None\<rparr>"

definition effectiveTab :: "auth_state \<Rightarrow> policy_read \<Rightarrow> details_dialog \<Rightarrow> policy_tab" where
  "effectiveTab s p d = (if dd_activeTab d = TabEdit \<and> useCan s (OneAction (PERM ''POLICIES_UPDATE'')) None \<and> \<not> isProtected p
     then TabEdit else TabDetails)"

text \<open>A render: the tab follows a new reset key; without a policy nothing is rendered; the editor is mounted
  when the edit tab appears and gone when it does not.\<close>

definition details_render ::
  "(json \<Rightarrow> string) \<Rightarrow> auth_state \<Rightarrow> policy_dialogs \<Rightarrow> details_dialog \<Rightarrow> details_dialog" where
  "details_render pretty s pd d =
     (let isOpen = details_open pd; policy = pd_viewing pd; key = details_resetKey isOpen policy (pd_initialTab pd);
          d1 = (if key \<noteq> dd_previousResetKey d
                then d\<lparr>dd_previousResetKey := key, dd_activeTab := pd_initialTab pd\<rparr> else d)
      in case policy of
          None \<Rightarrow> d1\<lparr>dd_editor := None\<rparr>
        | Some p \<Rightarrow> d1\<lparr>dd_editor := (if effectiveTab s p d1 = TabEdit
            then Some (render_form pretty isOpen policy (case dd_editor d of Some f \<Rightarrow> f | None \<Rightarrow> blank_form))
            else None)\<rparr>)"

text \<open>\<open>PolicyDialogTabs\<close>: the tabs, what a click activates, and what a key on a tab does.\<close>

definition dialog_tabs :: "bool \<Rightarrow> policy_tab list" where
  "dialog_tabs showEdit = (if showEdit then [TabDetails, TabEdit] else [TabDetails])"

definition activate_tab :: "bool \<Rightarrow> policy_tab \<Rightarrow> policy_tab option" where
  "activate_tab editDisabled t = (if t = TabDetails then Some TabDetails else if \<not> editDisabled then Some TabEdit else None)"

definition tab_key :: "bool \<Rightarrow> bool \<Rightarrow> policy_tab \<Rightarrow> string \<Rightarrow> policy_tab option" where
  "tab_key showEdit editDisabled current key =
     (let tabs = dialog_tabs showEdit; index = index_of current tabs; n = int (length tabs);
          nextIndex = (if key = ''ArrowRight'' \<or> key = ''ArrowDown'' then (index + 1) mod n
            else if key = ''ArrowLeft'' \<or> key = ''ArrowUp'' then (index + n - 1) mod n
            else if key = ''Home'' then 0 else if key = ''End'' then n - 1 else index)
      in if nextIndex \<noteq> index then activate_tab editDisabled (tabs ! nat nextIndex) else None)"

definition focused_tab :: "bool \<Rightarrow> bool \<Rightarrow> policy_tab \<Rightarrow> nat" where
  "focused_tab showEdit editDisabled active = (if active = TabEdit \<and> showEdit \<and> \<not> editDisabled then 1 else 0)"

definition set_tab :: "policy_tab option \<Rightarrow> details_dialog \<Rightarrow> details_dialog" where
  "set_tab t d = (case t of Some u \<Rightarrow> d\<lparr>dd_activeTab := u\<rparr> | None \<Rightarrow> d)"

text \<open>The tabs of the details dialog, for the policy shown.\<close>

definition details_showEdit :: "auth_state \<Rightarrow> bool" where
  "details_showEdit s = useCan s (OneAction (PERM ''POLICIES_UPDATE'')) None"

definition policy_holders_href :: "string \<Rightarrow> string" where
  "policy_holders_href name = ''/users?policy='' @ encodeURIComponent name"

definition holders_link :: "auth_state \<Rightarrow> policy_read \<Rightarrow> string option" where
  "holders_link s p = (if IfCan s (OneAction (PERM ''USERS_LIST_ALL'')) None () = Children
     then Some (policy_holders_href (pol_name p)) else None)"

definition humanizeConditionKey :: "string \<Rightarrow> string" where
  "humanizeConditionKey key = (let label = js_trim (spaces_for_joiners key) in
     case label of c # cs \<Rightarrow> char_upper c # cs | [] \<Rightarrow> key)"

fun readableConditionValue :: "json option \<Rightarrow> string" where
  "readableConditionValue None = ''-''"
| "readableConditionValue (Some JNull) = ''-''"
| "readableConditionValue (Some (JBool b)) = (if b then ''Yes'' else ''No'')"
| "readableConditionValue (Some (JArr vs)) =
     (if vs = [] then ''-'' else js_join '', '' (map (\<lambda>v. readableConditionValue (Some v)) vs))"
| "readableConditionValue (Some (JObj kvs)) =
     js_join [CHR 0x0A] (map (\<lambda>kv. humanizeConditionKey (fst kv) @ '': '' @ readableConditionValue (Some (snd kv))) kvs)"
| "readableConditionValue (Some (JNum n)) = int_text n"
| "readableConditionValue (Some (JStr t)) = t"

text \<open>The rows of the conditions; \<open>None\<close> for the text that there are none.\<close>

definition condition_rows :: "policy_read \<Rightarrow> (string \<times> string) list option" where
  "condition_rows p = (case pol_conditions p of
      Some (JObj kvs) \<Rightarrow> Some (map (\<lambda>(k, v). (humanizeConditionKey k, readableConditionValue (Some v))) kvs)
    | _ \<Rightarrow> None)"

section \<open>The history\<close>

definition HISTORY_PAGE_SIZE :: int where "HISTORY_PAGE_SIZE = 5"

record history_entry =
  he_id :: int
  he_change_type :: string
  he_changed_fields :: "string list option"
  he_changed_by :: "string option"

definition describeChange :: "history_entry \<Rightarrow> string \<times> string option" where
  "describeChange e =
     (if he_change_type e = ''created'' then (''policies:detailsDialog.changeCreated'', None)
      else if he_change_type e = ''deleted'' then (''policies:detailsDialog.changeDeleted'', None)
      else if he_change_type e = ''rolled_back'' then (''policies:detailsDialog.changeRolledBack'', None)
      else case he_changed_fields e of
          Some fs \<Rightarrow> if fs \<noteq> [] then (''policies:detailsDialog.changeUpdatedFields'', Some (js_join '', '' fs))
            else (''policies:detailsDialog.changeUpdatedGeneric'', None)
        | None \<Rightarrow> (''policies:detailsDialog.changeUpdatedGeneric'', None))"

definition entry_author :: "history_entry \<Rightarrow> string" where
  "entry_author e = (case he_changed_by e of
      Some a \<Rightarrow> if truthy a then a else ''policies:detailsDialog.changedBySystem''
    | None \<Rightarrow> ''policies:detailsDialog.changedBySystem'')"

record history_section =
  hs_page :: int
  hs_rollbackEntry :: "history_entry option"
  hs_previousResetKey :: string
  hs_mutation :: observer
  hs_calls :: nat

definition history_mount :: "string \<Rightarrow> history_section" where
  "history_mount resetKey = \<lparr>hs_page = 1, hs_rollbackEntry = None, hs_previousResetKey = resetKey, hs_mutation = Idle,
     hs_calls = 0\<rparr>"

definition history_render :: "string \<Rightarrow> history_section \<Rightarrow> history_section" where
  "history_render resetKey h = (if resetKey \<noteq> hs_previousResetKey h
     then h\<lparr>hs_previousResetKey := resetKey, hs_page := 1, hs_rollbackEntry := None\<rparr> else h)"

record history_query =
  yq_isLoading :: bool
  yq_isError :: bool
  yq_entries :: "history_entry list option"
  yq_total :: int

definition historyTotalPages :: "history_query \<Rightarrow> int" where
  "historyTotalPages q = max 1 (- ((- (if yq_entries q = None then 0 else yq_total q)) div HISTORY_PAGE_SIZE))"

definition history_request :: "string \<Rightarrow> history_section \<Rightarrow> http_request" where
  "history_request policyName h =
     getPolicyHistoryApi policyName (Some HISTORY_PAGE_SIZE) (Some ((hs_page h - 1) * HISTORY_PAGE_SIZE))"

datatype history_view = HistoryLoading | HistoryFailed | NoHistory
  | HistoryRows "(history_entry \<times> bool option) list"

text \<open>The rows with their rollback button: not rendered, or enabled or not.\<close>

definition rollback_button :: "bool \<Rightarrow> bool \<Rightarrow> history_section \<Rightarrow> bool option" where
  "rollback_button canEdit protected h = (if canEdit then Some (\<not> (protected \<or> isPending (hs_mutation h))) else None)"

definition history_view_of :: "bool \<Rightarrow> bool \<Rightarrow> history_query \<Rightarrow> history_section \<Rightarrow> history_view" where
  "history_view_of canEdit protected q h =
     (let entries = (case yq_entries q of Some es \<Rightarrow> es | None \<Rightarrow> []) in
      if yq_isLoading q then HistoryLoading else if yq_isError q then HistoryFailed
      else if entries = [] then NoHistory
      else HistoryRows (map (\<lambda>e. (e, rollback_button canEdit protected h)) entries))"

text \<open>A click on the rollback button of a row that is shown, and on the confirmation.\<close>

definition rollback_click :: "bool \<Rightarrow> bool \<Rightarrow> history_query \<Rightarrow> history_entry \<Rightarrow> history_section \<Rightarrow> history_section" where
  "rollback_click canEdit protected q e h = (case history_view_of canEdit protected q h of
      HistoryRows rows \<Rightarrow> if (e, Some True) \<in> set rows then h\<lparr>hs_mutation := Idle, hs_rollbackEntry := Some e\<rparr> else h
    | _ \<Rightarrow> h)"

definition confirm_rollback :: "string \<Rightarrow> history_section \<Rightarrow> history_section \<times> http_request option" where
  "confirm_rollback policyName h = (case hs_rollbackEntry h of
      None \<Rightarrow> (h, None)
    | Some e \<Rightarrow> if isPending (hs_mutation h) then (h, None)
        else (h\<lparr>hs_mutation := Pending (hs_calls h), hs_calls := Suc (hs_calls h)\<rparr>,
              Some (rollbackPolicyApi policyName (he_id e) None)))"

definition rollback_settled :: "nat \<Rightarrow> string + unit \<Rightarrow> history_section \<Rightarrow> history_section" where
  "rollback_settled n r h = (if hs_mutation h \<noteq> Pending n then h else case r of
      Inr u \<Rightarrow> h\<lparr>hs_mutation := Idle, hs_rollbackEntry := None\<rparr>
    | Inl m \<Rightarrow> h\<lparr>hs_mutation := Failed m\<rparr>)"

definition rollback_description :: "history_section \<Rightarrow> string" where
  "rollback_description h = (case observer_error (hs_mutation h) of
      Some m \<Rightarrow> m | None \<Rightarrow> ''policies:detailsDialog.rollbackDescription'')"

datatype history_event =
    HistoryPage int
  | ClickRollback history_query history_entry
  | CancelRollback
  | ConfirmRollback
  | RollbackSettled nat "string + unit"

text \<open>One event; the requests sent are collected.\<close>

fun history_step :: "bool \<Rightarrow> bool \<Rightarrow> string \<Rightarrow> history_section \<times> http_request list \<Rightarrow> history_event
    \<Rightarrow> history_section \<times> http_request list" where
  "history_step canEdit protected name (h, rs) (HistoryPage n) = (h\<lparr>hs_page := n\<rparr>, rs)"
| "history_step canEdit protected name (h, rs) (ClickRollback q e) = (rollback_click canEdit protected q e h, rs)"
| "history_step canEdit protected name (h, rs) CancelRollback = (h\<lparr>hs_rollbackEntry := None\<rparr>, rs)"
| "history_step canEdit protected name (h, rs) ConfirmRollback =
     (case confirm_rollback name h of (h', r) \<Rightarrow> (h', rs @ (case r of Some x \<Rightarrow> [x] | None \<Rightarrow> [])))"
| "history_step canEdit protected name (h, rs) (RollbackSettled n r) = (rollback_settled n r h, rs)"

section \<open>Whom the dialogs write to\<close>

definition dialogs_ok :: "policy_dialogs \<Rightarrow> bool" where
  "dialogs_ok s \<longleftrightarrow> pd_viewing s = None \<or> pd_viewing s = pd_editing s"

interpretation policy_dialogs: event_machine dialogs_step dialogs_ok
proof
  fix s e assume "dialogs_ok s"
  then show "dialogs_ok (dialogs_step s e)"
    by (cases e) (auto simp: dialogs_ok_def dialogs_defs split: option.split sum.split list.splits bool.splits)
qed

text \<open>C29. However the page came to its state, at most one of the two policy forms is open; what is saved from the
  details dialog goes to the policy the dialog shows, under the name it had when it was opened even if the form
  renames it, and what is saved from the create form makes a new policy.\<close>

theorem form_targets_shown_policy:
  assumes "s = foldl dialogs_step dialogs_initial evs"
  shows "\<not> (details_open s \<and> create_open s)
    \<and> (pd_viewing s = Some p \<longrightarrow> snd (handleFormSubmit v s) = updatePolicyApi (pol_name p) (update_payload v))
    \<and> (create_open s \<longrightarrow> snd (handleFormSubmit v s) = createPolicyApi (create_payload v))"
proof -
  have "dialogs_ok s"
    unfolding assms by (rule policy_dialogs.run_inv) (simp add: dialogs_ok_def dialogs_initial_def)
  then show ?thesis
    by (auto simp: dialogs_ok_def details_open_def create_open_def handleFormSubmit_def Let_def split: option.split)
qed

definition reader_values :: policy_form_values where
  "reader_values = \<lparr>fv_name = ''renamed'', fv_description = [], fv_actions = [''users:list_all''], fv_resource_type = ''users'',
     fv_conditions = None\<rparr>"

theorem form_targets_shown_policy_witness:
  "snd (handleFormSubmit reader_values (foldl dialogs_step dialogs_initial [OpenCreate, OpenEdit reader_policy]))
     = updatePolicyApi ''reader'' (update_payload reader_values)"
  using form_targets_shown_policy [OF refl, of "[OpenCreate, OpenEdit reader_policy]" reader_policy reader_values]
  by (simp add: openEditForm_def openCreateForm_def reader_policy_def)

text \<open>A save outlives the dialog it was sent from when that dialog is closed by its close button: the next
  policy's dialog is shown as saving, is closed when the first save succeeds, and shows the first save's error
  when it fails; the error then also stands in an empty create form.\<close>

theorem save_outlives_dialog:
  assumes "pd_editing s = Some p" and "pd_create s = Idle" and "n = pd_calls s"
    and "s2 = foldl dialogs_step s [SubmitForm v, CloseView, OpenView q]"
  shows "pd_viewing s2 = Some q \<and> isSaving s2 \<and> pd_viewing (dialogs_step s2 (UpdateSettled n (Inr ()))) = None
    \<and> formError (dialogs_step s2 (UpdateSettled n (Inl m))) = Some m
    \<and> (let s3 = foldl dialogs_step s2 [UpdateSettled n (Inl m), CloseView, OpenCreate] in
        create_open s3 \<and> formError s3 = Some m)
    \<and> formError (foldl dialogs_step s2 [UpdateSettled n (Inl m), CloseEditor, OpenCreate]) = None"
  using assms(1,2)
  unfolding assms(3,4)
  by (simp add: dialogs_defs isSaving_def formError_def create_open_def observer_error_def isPending_def)

theorem save_outlives_dialog_witness:
  "pd_viewing (foldl dialogs_step dialogs_initial [OpenEdit reader_policy, SubmitForm reader_values, CloseView,
     OpenView (reader_policy\<lparr>pol_name := ''other''\<rparr>), UpdateSettled 0 (Inr ())]) = None"
proof -
  let ?s = "foldl dialogs_step dialogs_initial [OpenEdit reader_policy]"
  have "pd_editing ?s = Some reader_policy" "pd_create ?s = Idle" "0 = pd_calls ?s"
    by (simp_all add: openEditForm_def dialogs_initial_def)
  from save_outlives_dialog [OF this refl, of reader_values "reader_policy\<lparr>pol_name := ''other''\<rparr>"]
  show ?thesis by simp
qed

section \<open>Deleting\<close>

interpretation policy_deletes: fed_machine dialogs_step "\<lambda>e. \<forall>p. e = RequestDelete p \<longrightarrow> card_delete a p = Some True"
  "\<lambda>s. \<forall>p. pd_deleting s = Some p \<longrightarrow> card_delete a p = Some True" for a
proof
  fix s :: policy_dialogs and e
  assume "\<forall>p. pd_deleting s = Some p \<longrightarrow> card_delete a p = Some True" "\<forall>p. e = RequestDelete p \<longrightarrow> card_delete a p = Some True"
  then show "\<forall>p. pd_deleting (dialogs_step s e) = Some p \<longrightarrow> card_delete a p = Some True"
    by (cases e) (auto simp: dialogs_defs split: option.split sum.split list.splits bool.splits)
qed

lemma delete_request:
  "delete_click q s = (s', Some r) \<longleftrightarrow> (\<exists>p. pd_deleting s = Some p \<and> \<not> hq_isLoading q \<and> \<not> hq_isError q
     \<and> \<not> isPending (pd_delete s) \<and> s' = s\<lparr>pd_delete := Pending (pd_calls s), pd_calls := Suc (pd_calls s)\<rparr>
     \<and> r = deletePolicyApi (pol_name p) None)"
  by (auto simp: delete_click_def policy_delete_dialog_def policy_handleDeleteConfirm_def split: option.split bool.split)

text \<open>A policy is deleted only when it is inactive, not protected, and the caller may delete policies and holds
  each of its actions; only with its holders known, so that the dialog has said how many users lose access; and
  once: while the request is on its way the button sends no other.\<close>

theorem policy_delete_guarded:
  assumes "\<forall>p. RequestDelete p \<in> set evs \<longrightarrow> card_delete a p = Some True"
    and "delete_click q (foldl dialogs_step dialogs_initial evs) = (s', Some r)"
  shows "(\<exists>p :: policy_read. r = deletePolicyApi (pol_name p) None \<and> \<not> pol_is_active p \<and> pol_name p \<notin> set PROTECTED_POLICY_NAMES
        \<and> can a (OneAction (PERM ''POLICIES_DELETE'')) \<and> set (pol_actions p) \<subseteq> set (permissions a))
    \<and> \<not> hq_isLoading q \<and> \<not> hq_isError q \<and> snd (delete_click q2 s') = None"
proof -
  let ?s = "foldl dialogs_step dialogs_initial evs"
  have inv: "\<forall>p. pd_deleting ?s = Some p \<longrightarrow> card_delete a p = Some True"
    by (rule policy_deletes.fed_run_inv) (use assms(1) in \<open>auto simp: dialogs_initial_def\<close>)
  from assms(2) obtain p where p: "pd_deleting ?s = Some p" "r = deletePolicyApi (pol_name p) None"
    and q: "\<not> hq_isLoading q" "\<not> hq_isError q" and s': "pd_delete s' = Pending (pd_calls ?s)"
    unfolding delete_request by auto
  from inv p(1) have c: "card_delete a p = Some True" by simp
  have "can a (OneAction (PERM ''POLICIES_DELETE''))" "\<not> pol_is_active p" "pol_name p \<notin> set PROTECTED_POLICY_NAMES"
    "set (pol_actions p) \<subseteq> set (permissions a)"
    using c by (auto simp: card_delete_def IfCan_children isProtected_def canManageCurrentGrant_def canGrantPolicy_iff
        split: if_split_asm)
  moreover have "snd (delete_click q2 s') = None"
    using s' by (simp add: delete_click_def policy_delete_dialog_def isPending_def)
  ultimately show ?thesis using p(2) q by blast
qed

definition retired_policy :: policy_read where
  "retired_policy = reader_policy\<lparr>pol_actions := [''policies:delete''], pol_is_active := False\<rparr>"

definition deleting_caller :: auth_state where
  "deleting_caller = auth_initial\<lparr>isAuthenticated := Some True, permissions := [''policies:delete'']\<rparr>"

theorem policy_delete_guarded_witness:
  "snd (delete_click \<lparr>hq_isLoading = False, hq_isError = False, hq_holders = Some 0\<rparr>
     (fst (delete_click \<lparr>hq_isLoading = False, hq_isError = False, hq_holders = Some 0\<rparr>
       (foldl dialogs_step dialogs_initial [RequestDelete retired_policy])))) = None"
proof -
  let ?q = "\<lparr>hq_isLoading = False, hq_isError = False, hq_holders = Some 0\<rparr>"
  let ?s = "foldl dialogs_step dialogs_initial [RequestDelete retired_policy]"
  have "PERM ''POLICIES_DELETE'' = ''policies:delete''" by (simp add: PERM_def PERMISSIONS_def)
  then have "card_delete deleting_caller retired_policy = Some True"
    by (simp add: card_delete_def IfCan_children deleting_caller_def can_def retired_policy_def reader_policy_def
        isProtected_def PROTECTED_POLICY_NAMES_def canManageCurrentGrant_def canGrantPolicy_def canGrantAction_def)
  then have fed: "\<forall>p. RequestDelete p \<in> set [RequestDelete retired_policy] \<longrightarrow> card_delete deleting_caller p = Some True"
    by simp
  have "delete_click ?q ?s = (fst (delete_click ?q ?s), Some (deletePolicyApi (pol_name retired_policy) None))"
    by (simp add: delete_click_def policy_delete_dialog_def policy_handleDeleteConfirm_def isPending_def dialogs_initial_def)
  from policy_delete_guarded [OF fed this, of ?q] show ?thesis by blast
qed

section \<open>The details dialog\<close>

text \<open>The edit tab cannot be reached without the permission or for a protected policy: not by opening the dialog
  on it, and not by the keys of the tab strip, which also skip it when it is not there.\<close>

theorem edit_tab_gated:
  "(dd_editor (details_render pretty s pd d) \<noteq> None \<longrightarrow> (\<exists>p. pd_viewing pd = Some p \<and> pol_name p \<notin> set PROTECTED_POLICY_NAMES
      \<and> can s (OneAction (PERM ''POLICIES_UPDATE''))))
   \<and> (tab_key showEdit editDisabled current key = Some TabEdit \<longrightarrow> showEdit \<and> \<not> editDisabled \<and> current = TabDetails)"
proof -
  have "useCan s (OneAction a) None \<Longrightarrow> can s (OneAction a)" for a
    by (auto simp: useCan_def can_iff split: if_splits)
  then have "dd_editor (details_render pretty s pd d) \<noteq> None \<Longrightarrow> \<exists>p. pd_viewing pd = Some p
      \<and> pol_name p \<notin> set PROTECTED_POLICY_NAMES \<and> can s (OneAction (PERM ''POLICIES_UPDATE''))"
    by (auto simp: details_render_def effectiveTab_def isProtected_def Let_def split: option.split_asm if_split_asm)
  moreover have "tab_key showEdit editDisabled current key = Some TabEdit
      \<Longrightarrow> showEdit \<and> \<not> editDisabled \<and> current = TabDetails"
    by (cases current; cases showEdit)
      (auto simp: tab_key_def dialog_tabs_def activate_tab_def Let_def split: if_split_asm)
  ultimately show ?thesis by blast
qed

definition editing_caller :: auth_state where
  "editing_caller = auth_initial\<lparr>isAuthenticated := Some True, permissions := [PERM ''POLICIES_UPDATE'']\<rparr>"

theorem edit_tab_gated_witness:
  "can editing_caller (OneAction (PERM ''POLICIES_UPDATE''))"
proof -
  have "useCan editing_caller (OneAction (PERM ''POLICIES_UPDATE'')) None"
    by (simp add: editing_caller_def useCan_def can_def)
  then have "dd_editor (details_render (\<lambda>j. []) editing_caller (openEditForm reader_policy dialogs_initial) details_mount) \<noteq> None"
    by (simp add: details_render_def details_open_def openEditForm_def dialogs_initial_def details_mount_def effectiveTab_def
        details_resetKey_def isProtected_def PROTECTED_POLICY_NAMES_def reader_policy_def Let_def)
  with edit_tab_gated [of "\<lambda>j. []" editing_caller "openEditForm reader_policy dialogs_initial" details_mount]
  show ?thesis by blast
qed

lemma details_key_fixed:
  "dd_previousResetKey (details_render pretty s pd d) = details_resetKey (details_open pd) (pd_viewing pd) (pd_initialTab pd)"
  by (auto simp: details_render_def Let_def split: option.split)

text \<open>The edit tab always opens on the policy as it was when the dialog was opened. Leaving the tab throws away
  what the editor holds without the discard question, and coming back starts from that old copy: an action
  switched on and saved in between is missing from the list the next switch sends, and saving an untouched form
  sends the old fields back, undoing a rollback made from the same dialog.\<close>

theorem edit_tab_starts_from_old_copy:
  assumes "pd_viewing pd = Some p" and "useCan s (OneAction (PERM ''POLICIES_UPDATE'')) None" and "\<not> isProtected p"
    and "dd_previousResetKey d = details_resetKey True (Some p) (pd_initialTab pd)"
    and "\<forall>j. pol_conditions p = Some j \<longrightarrow>
      is_plain_object j \<and> parse (pretty j) = Document j \<and> truthy (js_trim (pretty j))"
    and "d1 = details_render pretty s pd (set_tab (activate_tab False TabDetails) d)"
    and "d2 = details_render pretty s pd (set_tab (activate_tab False TabEdit) d1)"
  shows "dd_editor d1 = None \<and> (\<exists>g. dd_editor d2 = Some g
    \<and> (\<exists>v. handleSubmit parse g = (g, Some v)
        \<and> fv_actions v = pol_actions p \<and> fv_name v = pol_name p \<and> fv_resource_type v = pol_resource_type p
        \<and> fv_conditions v = pol_conditions p)
    \<and> fst (change_actions (Some (pol_name p)) (pf_actions g @ [b]) page) = Some (actions_request (pol_name p) (pol_actions p @ [b])))"
proof -
  let ?g = "render_form pretty True (Some p) blank_form"
  have open': "details_open pd" using assms(1) by (simp add: details_open_def)
  have d1: "dd_editor d1 = None" "dd_previousResetKey d1 = details_resetKey True (Some p) (pd_initialTab pd)"
    using assms(1,4) open' unfolding assms(6)
    by (simp_all add: details_render_def set_tab_def activate_tab_def effectiveTab_def Let_def)
  then have "dd_editor d2 = Some ?g"
    using assms(1,2,3) open' unfolding assms(7)
    by (simp add: details_render_def set_tab_def activate_tab_def effectiveTab_def Let_def)
  moreover have "\<not> pf_prevIsOpen blank_form" by (simp add: blank_form_def)
  note saved = open_submit_roundtrip [of p parse pretty blank_form, OF assms(5) this]
  moreover have "pf_actions ?g = pol_actions p"
    by (simp add: render_form_def reset_form_def blank_form_def Let_def)
  ultimately show ?thesis using d1(1) by (simp add: Let_def change_actions_def)
qed

theorem edit_tab_starts_from_old_copy_witness:
  "dd_editor (details_render (\<lambda>j. []) editing_caller (openView (Some reader_policy) dialogs_initial)
     (set_tab (Some TabDetails) (details_render (\<lambda>j. []) editing_caller (openView (Some reader_policy) dialogs_initial) details_mount))) = None"
proof -
  let ?pd = "openView (Some reader_policy) dialogs_initial"
  let ?d = "details_render (\<lambda>j. []) editing_caller ?pd details_mount"
  have v: "pd_viewing ?pd = Some reader_policy" by (simp add: openView_def)
  have "useCan editing_caller (OneAction (PERM ''POLICIES_UPDATE'')) None"
    by (simp add: editing_caller_def useCan_def can_def)
  moreover have "\<not> isProtected reader_policy"
    by (simp add: isProtected_def PROTECTED_POLICY_NAMES_def reader_policy_def)
  moreover have "dd_previousResetKey ?d = details_resetKey True (Some reader_policy) (pd_initialTab ?pd)"
    unfolding details_key_fixed v by (simp add: details_open_def v)
  moreover have "\<forall>j. pol_conditions reader_policy = Some j \<longrightarrow>
      is_plain_object j \<and> (\<lambda>t. Malformed) ((\<lambda>j. []) j) = Document j \<and> truthy (js_trim ((\<lambda>j. []) j))"
    by (simp add: reader_policy_def)
  ultimately show ?thesis
    using edit_tab_starts_from_old_copy [OF v _ _ _ _ refl refl, of editing_caller ?d "\<lambda>t. Malformed" "\<lambda>j. []" "[]"]
    by (simp add: activate_tab_def)
qed

lemma policy_href_params: "params_of (policy_holders_href n) = [(''policy'', n)]"
proof -
  have p: "path_of (policy_holders_href n) = ''/users''" by (simp add: policy_holders_href_def path_of_def)
  have d: "CHR ''&'' \<notin> set (encodeURIComponent n)" "CHR ''='' \<notin> set (encodeURIComponent n)"
    using encodeURIComponent_no_delimiter [of _ n] by (auto simp: url_delimiter_def)
  have q: "drop (length (path_of (policy_holders_href n)) + 1) (policy_holders_href n) = ''policy='' @ encodeURIComponent n"
    unfolding p by (simp add: policy_holders_href_def)
  have "encodeURIComponent ''policy'' = ''policy''"
    by (simp add: encodeURIComponent_def encode_char_def uri_unreserved_def)
  then have "form_decode ''policy'' = ''policy''" by (metis form_decode_encode)
  moreover have "js_split (CHR ''='') (''policy'' @ CHR ''='' # encodeURIComponent n) = [''policy'', encodeURIComponent n]"
    by (subst js_split_append) (simp_all add: js_split_single d)
  moreover have "js_split (CHR ''&'') (''policy='' @ encodeURIComponent n) = [''policy='' @ encodeURIComponent n]"
    using d by (intro js_split_single) auto
  ultimately show ?thesis unfolding params_of_def q by simp
qed

text \<open>"View policy holders" opens a page that lets the caller in and whose first request filters by exactly the
  policy shown, whatever characters its name has and whatever policy the session had filtered by; but every other
  filter of the session stays on, so the holders it lists can be fewer than the policy has.\<close>

theorem holders_link_opens:
  assumes "router_law match" and "isAuthenticated s = Some True" and "holders_link s p = Some dest"
  shows "opens s match dest
    \<and> (let f = users_filters_mount st (params_of dest); q = activeFilters (users_page_mount f) in
         policy_filter f = pol_name p \<and> uq_policy q = or_undefined (pol_name p)
         \<and> uq_role q = or_undefined (uu_role (uf_ui f)) \<and> uf_store f = st)"
proof -
  have dest: "dest = policy_holders_href (pol_name p)" and can: "can s (OneAction (PERM ''USERS_LIST_ALL''))"
    using assms(3) by (auto simp: holders_link_def IfCan_children split: if_split_asm)
  have path: "path_of dest = ''/users''" by (simp add: dest policy_holders_href_def path_of_def)
  have "guard_of dest = Some (OneAction (PERM ''USERS_LIST_ALL''))" "static_path (path_of dest)"
    unfolding guard_of_def path by (simp_all add: ROUTES_def static_path_def)
  then have "opens s match dest" using guard_of_opens [OF assms(1) _ _ assms(2)] can by blast
  moreover have "policy_filter (users_filters_mount st (params_of dest)) = pol_name p"
    by (simp add: dest policy_href_params policy_filter_def users_filters_mount_def url_get_def)
  ultimately show ?thesis
    by (simp add: activeFilters_def users_page_mount_def Let_def) (simp add: users_filters_mount_def)
qed

theorem holders_link_opens_witness:
  "opens (auth_initial\<lparr>isAuthenticated := Some True, permissions := [PERM ''USERS_LIST_ALL'']\<rparr>) exact_match
     (policy_holders_href ''reader'')"
proof -
  let ?s = "auth_initial\<lparr>isAuthenticated := Some True, permissions := [PERM ''USERS_LIST_ALL'']\<rparr>"
  have "holders_link ?s reader_policy = Some (policy_holders_href ''reader'')"
    by (simp add: holders_link_def IfCan_children can_def reader_policy_def)
  from holders_link_opens [OF exact_match_law _ this, of useUsersUiStore] show ?thesis by simp
qed

section \<open>Rolling back\<close>

text \<open>The entries whose rollback the events offer.\<close>

definition offered :: "bool \<Rightarrow> bool \<Rightarrow> history_event set \<Rightarrow> history_entry \<Rightarrow> bool" where
  "offered canEdit protected E e \<longleftrightarrow> canEdit \<and> \<not> protected
     \<and> (\<exists>q es. ClickRollback q e \<in> E \<and> yq_entries q = Some es \<and> e \<in> set es)"

definition history_ok :: "bool \<Rightarrow> bool \<Rightarrow> string \<Rightarrow> history_event set \<Rightarrow> history_section \<times> http_request list \<Rightarrow> bool" where
  "history_ok canEdit protected name E = (\<lambda>(h, rs).
     (\<forall>e. hs_rollbackEntry h = Some e \<longrightarrow> offered canEdit protected E e)
     \<and> (\<forall>r \<in> set rs. \<exists>e. offered canEdit protected E e \<and> r = rollbackPolicyApi name (he_id e) None))"

lemma rollback_click_offers:
  "rollback_click canEdit protected q e h \<noteq> h \<Longrightarrow> ClickRollback q e \<in> E \<Longrightarrow> offered canEdit protected E e"
  by (auto simp: rollback_click_def history_view_of_def rollback_button_def offered_def Let_def
      split: if_split_asm option.split_asm)

interpretation policy_history: fed_machine "history_step canEdit protected name" "\<lambda>ev. ev \<in> E"
  "history_ok canEdit protected name E" for canEdit protected name E
proof
  fix s ev assume ok: "history_ok canEdit protected name E s" and fed: "ev \<in> E"
  obtain h rs where s: "s = (h, rs)" by (cases s)
  show "history_ok canEdit protected name E (history_step canEdit protected name s ev)"
  proof (cases ev)
    case (ClickRollback q e)
    show ?thesis
    proof (cases "rollback_click canEdit protected q e h = h")
      case True
      then show ?thesis using ok by (simp add: s ClickRollback)
    next
      case False
      have "offered canEdit protected E e" using rollback_click_offers [OF False] fed by (simp add: ClickRollback)
      moreover have "hs_rollbackEntry (rollback_click canEdit protected q e h) \<in> {Some e, hs_rollbackEntry h}"
        by (auto simp: rollback_click_def split: history_view.split)
      ultimately show ?thesis using ok by (auto simp: s ClickRollback history_ok_def)
    qed
  qed (use ok in \<open>auto simp: s history_ok_def confirm_rollback_def rollback_settled_def split: option.split sum.split\<close>)
qed

text \<open>A rollback is sent only by a caller who may edit, for a policy that is not protected, for an entry that a
  loaded page of the history showed, and to the policy of the dialog; while one is on its way no other is sent;
  and when it fails the question stays open with the error.\<close>

theorem rollback_guarded:
  assumes "(h, rs) = foldl (history_step canEdit protected name) (history_mount key, []) evs" and "r \<in> set rs"
  shows "canEdit \<and> \<not> protected \<and> (\<exists>q e es. ClickRollback q e \<in> set evs \<and> yq_entries q = Some es \<and> e \<in> set es
      \<and> r = rollbackPolicyApi name (he_id e) None)
    \<and> (isPending (hs_mutation h) \<longrightarrow> snd (confirm_rollback name h) = None)
    \<and> (hs_mutation h = Pending n \<longrightarrow> rollback_description (rollback_settled n (Inl m) h) = m
        \<and> hs_rollbackEntry (rollback_settled n (Inl m) h) = hs_rollbackEntry h)"
proof -
  have "history_ok canEdit protected name (set evs) (foldl (history_step canEdit protected name) (history_mount key, []) evs)"
    by (rule policy_history.fed_run_inv) (simp_all add: history_ok_def history_mount_def)
  then have "\<exists>e. offered canEdit protected (set evs) e \<and> r = rollbackPolicyApi name (he_id e) None"
    using assms(2) unfolding assms(1) [symmetric] by (auto simp: history_ok_def)
  moreover have "isPending (hs_mutation h) \<Longrightarrow> snd (confirm_rollback name h) = None"
    by (simp add: confirm_rollback_def split: option.split)
  moreover have "hs_mutation h = Pending n \<Longrightarrow> rollback_description (rollback_settled n (Inl m) h) = m
      \<and> hs_rollbackEntry (rollback_settled n (Inl m) h) = hs_rollbackEntry h"
    by (simp add: rollback_settled_def rollback_description_def observer_error_def)
  ultimately show ?thesis unfolding offered_def by blast
qed

definition history_example :: history_query where
  "history_example = \<lparr>yq_isLoading = False, yq_isError = False, yq_entries =
     Some [\<lparr>he_id = 7, he_change_type = ''updated'', he_changed_fields = Some [''actions''], he_changed_by = None\<rparr>],
     yq_total = 1\<rparr>"

theorem rollback_guarded_witness:
  "\<exists>q e. ClickRollback q e \<in> set [ClickRollback history_example (hd (the (yq_entries history_example))), ConfirmRollback]
     \<and> rollbackPolicyApi ''reader'' 7 None = rollbackPolicyApi ''reader'' (he_id e) None"
proof -
  let ?evs = "[ClickRollback history_example (hd (the (yq_entries history_example))), ConfirmRollback]"
  let ?run = "foldl (history_step True False ''reader'') (history_mount [], []) ?evs"
  have "snd ?run = [rollbackPolicyApi ''reader'' 7 None]"
    by (simp add: history_example_def rollback_click_def history_view_of_def rollback_button_def confirm_rollback_def
        history_mount_def isPending_def Let_def)
  then have "rollbackPolicyApi ''reader'' 7 None \<in> set (snd ?run)" by simp
  from rollback_guarded [OF surjective_pairing [symmetric] this] show ?thesis by blast
qed

end
