(* ===== verification/LoginTrend.thy ===== *)
theory LoginTrend
  imports Complex_Main JsValues
begin

text \<open>
  The sign-in chart of the security log: its scale (\<open>loginTrendFormatting.ts\<close>), the bars, totals, labels and
  states of \<open>LoginTrendChart.tsx\<close>, and the rates of \<open>LoginTrendTable.tsx\<close>. Counts are natural numbers; the
  arithmetic of heights and positions is exact here, on rational numbers, where the code has floating point,
  and \<open>Math.floor(Math.log10(v))\<close> of a whole number is the number of its digits less one. Day labels are the
  locale library's.
\<close>

section \<open>The scale\<close>

fun log10_floor :: "nat \<Rightarrow> nat" where
  "log10_floor n = (if n < 10 then 0 else Suc (log10_floor (n div 10)))"

declare log10_floor.simps [simp del]

definition nice_residual :: "rat \<Rightarrow> rat" where
  "nice_residual residual = (if residual \<le> 1 then 1 else if residual \<le> 2 then 2 else if residual \<le> 5 / 2 then 5 / 2
     else if residual \<le> 5 then 5 else 10)"

definition niceMax :: "nat \<Rightarrow> rat" where
  "niceMax v = (if v \<le> 1 then 2 else if v \<le> 5 then of_nat v
     else (let magnitude = 10 ^ log10_floor v in nice_residual (of_nat v / magnitude) * magnitude))"

text \<open>\<open>Math.round\<close>.\<close>

definition js_round :: "rat \<Rightarrow> int" where
  "js_round x = \<lfloor>x + 1 / 2\<rfloor>"

section \<open>The chart\<close>

record trend_point =
  tp_date :: string
  tp_success :: nat
  tp_failure :: nat

datatype chart_mode = AllAttempts | FailedOnly

datatype chart_view = ChartView | TableView

definition CHART_HEIGHT :: rat where "CHART_HEIGHT = 130"

definition plotHeight :: rat where "plotHeight = CHART_HEIGHT - 12"

definition BAR_WIDTH_RATIO :: rat where "BAR_WIDTH_RATIO = 55 / 100"

definition tp_total :: "trend_point \<Rightarrow> nat" where
  "tp_total d = tp_success d + tp_failure d"

definition bar_value :: "chart_mode \<Rightarrow> trend_point \<Rightarrow> nat" where
  "bar_value m d = (if m = FailedOnly then tp_failure d else tp_total d)"

text \<open>\<open>Math.max(1, ...data.map(f))\<close>.\<close>

definition rawMax :: "chart_mode \<Rightarrow> trend_point list \<Rightarrow> nat" where
  "rawMax m data = fold max (map (bar_value m) data) 1"

definition scaleMax :: "chart_mode \<Rightarrow> trend_point list \<Rightarrow> rat" where
  "scaleMax m data = niceMax (rawMax m data)"

definition totalSuccess :: "trend_point list \<Rightarrow> nat" where
  "totalSuccess data = foldl (\<lambda>n d. n + tp_success d) 0 data"

definition totalFailure :: "trend_point list \<Rightarrow> nat" where
  "totalFailure data = foldl (\<lambda>n d. n + tp_failure d) 0 data"

definition rate_of :: "nat \<Rightarrow> nat \<Rightarrow> int" where
  "rate_of failures attempts = (if attempts = 0 then 0 else js_round (of_nat failures / of_nat attempts * 100))"

definition failureRate :: "trend_point list \<Rightarrow> int" where
  "failureRate data = rate_of (totalFailure data) (totalSuccess data + totalFailure data)"

definition worse_day :: "trend_point \<Rightarrow> trend_point \<Rightarrow> trend_point" where
  "worse_day worst d = (if tp_failure d > tp_failure worst then d else worst)"

definition worstDay :: "trend_point list \<Rightarrow> trend_point" where
  "worstDay data = foldl worse_day (hd data) data"

definition labelStride :: "trend_point list \<Rightarrow> nat" where
  "labelStride data = (if length data > 60 then 7 else if length data > 30 then 3 else if length data > 14 then 2 else 1)"

definition label_shown :: "trend_point list \<Rightarrow> nat option \<Rightarrow> nat \<Rightarrow> bool" where
  "label_shown data hovered i \<longleftrightarrow> i mod labelStride data = 0 \<or> hovered = Some i"

definition axis_labels :: "trend_point list \<Rightarrow> nat option \<Rightarrow> (nat \<times> string) list" where
  "axis_labels data hovered = filter (\<lambda>(i, date). label_shown data hovered i) (zip [0..<length data] (map tp_date data))"

text \<open>The three ticks of the vertical axis, and the heights of its two grid lines.\<close>

definition axis_ticks :: "chart_mode \<Rightarrow> trend_point list \<Rightarrow> rat list" where
  "axis_ticks m data = [scaleMax m data, of_int (js_round (scaleMax m data / 2)), 0]"

definition gridline_height :: "rat \<Rightarrow> rat" where
  "gridline_height fraction = fraction * plotHeight"

record bar =
  bar_height :: rat
  bar_failure :: rat
  bar_success :: rat

definition trend_bar :: "chart_mode \<Rightarrow> trend_point list \<Rightarrow> trend_point \<Rightarrow> bar" where
  "trend_bar m data d =
     (let total = tp_total d;
          barHeight = (if m = FailedOnly then of_nat (tp_failure d) / scaleMax m data * plotHeight
            else of_nat total / scaleMax m data * plotHeight);
          failureHeight = (if m = FailedOnly then barHeight else if total = 0 then 0
            else of_nat (tp_failure d) / of_nat total * barHeight);
          successHeight = (if m = FailedOnly then 0 else barHeight - failureHeight)
      in \<lparr>bar_height = barHeight, bar_failure = failureHeight, bar_success = successHeight\<rparr>)"

text \<open>Columns in percent of the width; the bar's own width is capped besides.\<close>

definition dayWidth :: "trend_point list \<Rightarrow> rat" where
  "dayWidth data = 100 / of_nat (length data)"

definition column_left :: "trend_point list \<Rightarrow> nat \<Rightarrow> rat" where
  "column_left data i = of_nat i * dayWidth data"

definition tooltip_left :: "trend_point list \<Rightarrow> nat \<Rightarrow> rat" where
  "tooltip_left data hovered = of_nat hovered * dayWidth data + dayWidth data / 2"

definition hoveredPoint :: "trend_point list \<Rightarrow> nat option \<Rightarrow> trend_point option" where
  "hoveredPoint data hovered = (case hovered of
      Some i \<Rightarrow> if i < length data then Some (data ! i) else None
    | None \<Rightarrow> None)"

record trend_state =
  ts_hovered :: "nat option"
  ts_mode :: chart_mode
  ts_view :: chart_view

definition trend_mount :: trend_state where
  "trend_mount = \<lparr>ts_hovered = None, ts_mode = AllAttempts, ts_view = ChartView\<rparr>"

datatype trend_content =
    TrendSkeleton
  | TrendError "string option"
  | TrendEmpty
  | TrendTable "(string \<times> nat \<times> nat \<times> int) list"
  | TrendBars "bar list"

definition trend_rows :: "trend_point list \<Rightarrow> (string \<times> nat \<times> nat \<times> int) list" where
  "trend_rows data = map (\<lambda>d. (tp_date d, tp_success d, tp_failure d, rate_of (tp_failure d) (tp_total d))) data"

definition trend_body ::
  "bool \<Rightarrow> bool \<Rightarrow> string option \<Rightarrow> trend_point list option \<Rightarrow> trend_state \<Rightarrow> trend_content" where
  "trend_body isLoading isError message data s =
     (if isLoading then TrendSkeleton else if isError then TrendError message
      else case data of
          None \<Rightarrow> TrendEmpty
        | Some ds \<Rightarrow> if ds = [] then TrendEmpty
            else if ts_view s = TableView then TrendTable (trend_rows ds)
            else TrendBars (map (trend_bar (ts_mode s) ds) ds))"

text \<open>The key figures above the chart; the worst day only when something failed.\<close>

definition trend_figures :: "trend_point list \<Rightarrow> nat \<times> nat \<times> int \<times> (string \<times> nat) option" where
  "trend_figures data = (totalSuccess data + totalFailure data, totalFailure data, failureRate data,
     if tp_failure (worstDay data) > 0 then Some (tp_date (worstDay data), tp_failure (worstDay data)) else None)"

section \<open>Bounds of the scale\<close>

lemma log10_floor_bounds: "0 < n \<Longrightarrow> 10 ^ log10_floor n \<le> n \<and> n < 10 ^ Suc (log10_floor n)"
proof (induction n rule: log10_floor.induct)
  case (1 n)
  show ?case
  proof (cases "n < 10")
    case True
    then have "log10_floor n = 0" by (subst log10_floor.simps) simp
    with True 1(2) show ?thesis by simp
  next
    case False
    then have "10 ^ log10_floor (n div 10) \<le> n div 10 \<and> n div 10 < 10 ^ Suc (log10_floor (n div 10))"
      using 1(1) by (simp add: div_greater_zero_iff)
    then have "10 ^ Suc (log10_floor (n div 10)) \<le> n \<and> n < 10 ^ Suc (Suc (log10_floor (n div 10)))"
      by (simp add: less_eq_div_iff_mult_less_eq div_less_iff_less_mult mult.commute)
    moreover have "log10_floor n = Suc (log10_floor (n div 10))"
      using False by (subst log10_floor.simps) simp
    ultimately show ?thesis by simp
  qed
qed

lemma nice_residual_bounds: "1 \<le> x \<Longrightarrow> x \<le> 10 \<Longrightarrow> x \<le> nice_residual x \<and> nice_residual x \<le> 2 * x"
  by (simp add: nice_residual_def)

lemma niceMax_bounds: "0 < v \<Longrightarrow> of_nat v \<le> niceMax v \<and> niceMax v \<le> 2 * of_nat v"
proof -
  assume v: "0 < v"
  define m :: rat where "m = 10 ^ log10_floor v"
  have "of_nat (10 ^ log10_floor v) \<le> (of_nat v :: rat)" "(of_nat v :: rat) < of_nat (10 ^ Suc (log10_floor v))"
    using log10_floor_bounds [OF v] by (simp_all only: of_nat_le_iff of_nat_less_iff)
  then have m: "0 < m" "m \<le> of_nat v" "of_nat v \<le> 10 * m" by (simp_all add: m_def)
  have "of_nat v / m \<le> nice_residual (of_nat v / m) \<and> nice_residual (of_nat v / m) \<le> 2 * (of_nat v / m)"
    using m by (intro nice_residual_bounds) (simp_all add: field_simps)
  with m(1) have "of_nat v \<le> nice_residual (of_nat v / m) * m \<and> nice_residual (of_nat v / m) * m \<le> 2 * of_nat v"
    by (simp add: field_simps)
  moreover have "v = 1" if "v \<le> 1" using v that by simp
  ultimately show ?thesis
    unfolding niceMax_def Let_def m_def by auto
qed

lemma fold_max: "fold max xs a \<ge> (a :: nat)" "x \<in> set xs \<Longrightarrow> x \<le> fold max xs a"
  "fold max xs a = a \<or> fold max xs a \<in> set xs"
proof -
  have "fold max xs a = Max (insert a (set xs))"
    using Max.set_eq_fold [of a xs] by simp
  then show "fold max xs a \<ge> a" "x \<in> set xs \<Longrightarrow> x \<le> fold max xs a" "fold max xs a = a \<or> fold max xs a \<in> set xs"
    using Max_in [of "insert a (set xs)"] by simp_all
qed

lemma rawMax_pos: "0 < rawMax m data"
  using fold_max(1) [of 1 "map (bar_value m) data"] by (simp add: rawMax_def Suc_le_eq)

lemma scaleMax_pos: "0 < scaleMax m data"
proof -
  have "(0 :: rat) < of_nat (rawMax m data)" using rawMax_pos by simp
  then show ?thesis
    using niceMax_bounds [OF rawMax_pos, of m data] unfolding scaleMax_def by linarith
qed

lemma plotHeight_pos: "0 < plotHeight" by (simp add: plotHeight_def CHART_HEIGHT_def)

lemma trend_bar_height:
  "bar_height (trend_bar m data d) = of_nat (bar_value m d) / scaleMax m data * plotHeight"
  by (simp add: trend_bar_def bar_value_def Let_def)

lemma scaled_fits:
  "0 \<le> v \<Longrightarrow> v \<le> s \<Longrightarrow> 0 < s \<Longrightarrow> 0 \<le> v / s * plotHeight \<and> v / s * plotHeight \<le> plotHeight" for v s :: rat
  using plotHeight_pos by (simp add: divide_le_eq mult_left_le_one_le)

text \<open>Every bar of the chart fits into the plot, its two parts are not negative and add up to it, the failed part
  is in proportion, and unless nothing was counted the tallest bar takes at least half the plot; in both modes.\<close>

theorem bars_fit_plot:
  assumes "d \<in> set data"
  shows "let b = trend_bar m data d in
      0 \<le> bar_failure b \<and> 0 \<le> bar_success b \<and> bar_failure b + bar_success b = bar_height b \<and> bar_height b \<le> plotHeight
    \<and> bar_failure b * of_nat (bar_value m d) = of_nat (tp_failure d) * bar_height b
    \<and> (rawMax m data = bar_value m d \<longrightarrow> plotHeight / 2 \<le> bar_height b)"
proof -
  let ?b = "trend_bar m data d" and ?v = "of_nat (bar_value m d) :: rat" and ?s = "scaleMax m data"
  have vs: "?v \<le> ?s"
  proof -
    have "bar_value m d \<le> rawMax m data" using assms fold_max(2) unfolding rawMax_def by (metis image_eqI list.set_map)
    then have "?v \<le> of_nat (rawMax m data)" by simp
    also have "\<dots> \<le> ?s" using niceMax_bounds [OF rawMax_pos] by (simp add: scaleMax_def)
    finally show ?thesis .
  qed
  have h: "0 \<le> bar_height ?b" "bar_height ?b \<le> plotHeight"
    using scaled_fits [OF _ vs scaleMax_pos] unfolding trend_bar_height by simp_all
  have part: "0 \<le> of_nat f / of_nat t * x \<and> of_nat f / of_nat t * x \<le> x" if "f \<le> t" "0 \<le> x" for f t :: nat and x :: rat
    using that by (cases "t = 0") (auto simp: divide_le_eq mult.commute intro!: mult_left_mono)
  have le: "tp_failure d \<le> tp_total d" by (simp add: tp_total_def)
  have parts: "0 \<le> bar_failure ?b \<and> 0 \<le> bar_success ?b \<and> bar_failure ?b + bar_success ?b = bar_height ?b
      \<and> bar_failure ?b * ?v = of_nat (tp_failure d) * bar_height ?b"
    using h(1) part [OF le h(1)] unfolding trend_bar_height
    by (auto simp: trend_bar_def bar_value_def Let_def tp_total_def)
  have "plotHeight / 2 \<le> bar_height ?b" if top: "rawMax m data = bar_value m d"
  proof -
    have "?s \<le> 2 * ?v" using niceMax_bounds [OF rawMax_pos, of m data] by (simp add: scaleMax_def top)
    then have "1 / 2 \<le> ?v / ?s" using scaleMax_pos [of m data] by (simp add: field_simps)
    then have "1 / 2 * plotHeight \<le> ?v / ?s * plotHeight" using plotHeight_pos by (intro mult_right_mono) simp_all
    then show ?thesis unfolding trend_bar_height by simp
  qed
  then show ?thesis using parts h(2) by (simp add: Let_def)
qed

definition trend_example :: "trend_point list" where
  "trend_example = [\<lparr>tp_date = ''2026-07-01'', tp_success = 7, tp_failure = 3\<rparr>, \<lparr>tp_date = ''2026-07-02'', tp_success = 0, tp_failure = 0\<rparr>]"

theorem bars_fit_plot_witness:
  "plotHeight / 2 \<le> bar_height (trend_bar AllAttempts trend_example (hd trend_example))"
proof -
  have "hd trend_example \<in> set trend_example" by (simp add: trend_example_def)
  moreover have "rawMax AllAttempts trend_example = bar_value AllAttempts (hd trend_example)"
    by (simp add: trend_example_def rawMax_def bar_value_def tp_total_def)
  ultimately show ?thesis using bars_fit_plot [of "hd trend_example" trend_example AllAttempts] by (simp add: Let_def)
qed

section \<open>Figures and labels\<close>

lemma totals:
  "totalSuccess data = sum_list (map tp_success data)" "totalFailure data = sum_list (map tp_failure data)"
proof -
  have "foldl (\<lambda>n d. n + f d) k data = k + sum_list (map f data)" for f :: "trend_point \<Rightarrow> nat" and k
    by (induction data arbitrary: k) simp_all
  then show "totalSuccess data = sum_list (map tp_success data)" "totalFailure data = sum_list (map tp_failure data)"
    by (simp_all add: totalSuccess_def totalFailure_def)
qed

lemma js_round_mono: "x \<le> y \<Longrightarrow> js_round x \<le> js_round y"
  unfolding js_round_def by (rule floor_mono) simp

lemma rate_percent: "f \<le> t \<Longrightarrow> 0 \<le> rate_of f t \<and> rate_of f t \<le> 100"
proof (cases "t = 0")
  case False
  assume "f \<le> t"
  with False have "0 \<le> (of_nat f / of_nat t * 100 :: rat)" "(of_nat f / of_nat t * 100 :: rat) \<le> 100"
    by (simp_all add: divide_le_eq)
  from this [THEN js_round_mono] have "js_round 0 \<le> rate_of f t \<and> rate_of f t \<le> js_round 100"
    using False by (simp only: rate_of_def if_False)
  moreover have "js_round 0 = 0" "js_round 100 = 100" by (simp_all add: js_round_def floor_eq_iff)
  ultimately show ?thesis by simp
qed (simp add: rate_of_def)

lemma worse_fold:
  "tp_failure (foldl worse_day w ds) = fold max (map tp_failure ds) (tp_failure w)
   \<and> (foldl worse_day w ds = w \<or> foldl worse_day w ds \<in> set ds)"
proof (induction ds arbitrary: w)
  case (Cons d ds)
  have "tp_failure (worse_day w d) = max (tp_failure d) (tp_failure w)" "worse_day w d \<in> {w, d}"
    by (simp_all add: worse_day_def)
  then show ?case using Cons [of "worse_day w d"] by auto
qed simp

text \<open>The figures are those of the data: the totals, a rate between 0 and 100 percent for the range and for each
  row of the table, and as worst day a day of the data that no other day exceeds; it is left out exactly when
  nothing failed.\<close>

theorem trend_figures_true:
  assumes "data \<noteq> []"
  shows "fst (trend_figures data) = sum_list (map tp_total data)
    \<and> 0 \<le> failureRate data \<and> failureRate data \<le> 100
    \<and> (\<forall>(date, s, f, r) \<in> set (trend_rows data). 0 \<le> r \<and> r \<le> 100)
    \<and> worstDay data \<in> set data \<and> (\<forall>d \<in> set data. tp_failure d \<le> tp_failure (worstDay data))
    \<and> (snd (snd (snd (trend_figures data))) = None \<longleftrightarrow> totalFailure data = 0)"
proof -
  have worst: "worstDay data \<in> set data" "tp_failure (worstDay data) = fold max (map tp_failure data) (tp_failure (hd data))"
    using worse_fold [of "hd data" data] assms hd_in_set [OF assms] by (auto simp: worstDay_def)
  then have max: "\<forall>d \<in> set data. tp_failure d \<le> tp_failure (worstDay data)"
    using fold_max(2) [of _ "map tp_failure data"] by simp
  have "snd (snd (snd (trend_figures data))) = None \<longleftrightarrow> totalFailure data = 0"
    using worst(1) max by (auto simp: trend_figures_def totals)
  moreover have "fst (trend_figures data) = sum_list (map tp_total data)"
    by (simp add: trend_figures_def totals tp_total_def [abs_def] sum_list_addf)
  moreover have "0 \<le> failureRate data \<and> failureRate data \<le> 100"
    unfolding failureRate_def by (rule rate_percent) simp
  moreover have "\<forall>(date, s, f, r) \<in> set (trend_rows data). 0 \<le> r \<and> r \<le> 100"
    using rate_percent by (auto simp: trend_rows_def tp_total_def)
  ultimately show ?thesis using worst(1) max by blast
qed

theorem trend_figures_true_witness:
  "0 \<le> failureRate trend_example \<and> worstDay trend_example \<in> set trend_example"
  using trend_figures_true [of trend_example] by (simp add: trend_example_def)

text \<open>The printed labels stay legible: at most twenty for a range of up to ninety days when no bar is hovered, and
  the first day always has its label.\<close>

lemma round_up_div: "0 < k \<Longrightarrow> (n + (k - 1)) div k = n div k + of_bool (\<not> k dvd n)" for k n :: nat
proof -
  assume k: "0 < k"
  have "n + (k - 1) = n mod k + (k - 1) + k * (n div k)"
    using mod_mult_div_eq [of n k] by linarith
  then have "(n + (k - 1)) div k = n div k + (n mod k + (k - 1)) div k"
    using k div_mult_self2 [of k "n mod k + (k - 1)" "n div k"] by simp
  also have "(n mod k + (k - 1)) div k = of_bool (\<not> k dvd n)"
  proof (cases "k dvd n")
    case False
    then have e: "n mod k + (k - 1) = (n mod k - 1) + k" using k by (simp add: dvd_eq_mod_eq_0)
    have "n mod k - 1 < k" using mod_less_divisor [OF k, of n] by linarith
    then have "((n mod k - 1) + k) div k = 1" using k by (simp only: div_add_self2 div_less)
    then show ?thesis unfolding e using False by simp
  qed (use k in simp)
  finally show ?thesis .
qed

lemma every_nth: "0 < k \<Longrightarrow> length (filter (\<lambda>i. i mod k = 0) [0..<n]) = (n + (k - 1)) div k"
proof (induction n)
  case (Suc n)
  have "(Suc n + (k - 1)) div k = n div k + 1" using Suc.prems by simp
  with Suc show ?case unfolding round_up_div [OF Suc.prems, of n] by (auto simp: dvd_eq_mod_eq_0)
qed simp

theorem axis_labels_thinned:
  assumes "data \<noteq> []" and "length data \<le> 90"
  shows "length (axis_labels data None) \<le> 20 \<and> hd (axis_labels data None) = (0, tp_date (hd data))"
proof -
  have "axis_labels data None = filter (\<lambda>(i, date). i mod labelStride data = 0) (zip [0..<length data] (map tp_date data))"
    by (simp add: axis_labels_def label_shown_def)
  moreover have "map fst (filter (\<lambda>(i, date). P i) (zip [0..<length data] (map tp_date data))) = filter P [0..<length data]" for P
  proof -
    have "map fst (filter (\<lambda>(i, date). P i) (zip xs ys)) = filter P xs" if "length xs = length ys" for xs :: "nat list" and ys :: "string list"
      using that by (induction xs ys rule: list_induct2) simp_all
    then show ?thesis by simp
  qed
  ultimately have "length (axis_labels data None) = length (filter (\<lambda>i. i mod labelStride data = 0) [0..<length data])"
    by (metis length_map)
  also have "\<dots> = (length data + (labelStride data - 1)) div labelStride data"
    by (rule every_nth) (simp add: labelStride_def)
  also have "\<dots> \<le> 20" using assms(2) by (auto simp: labelStride_def)
  finally have "length (axis_labels data None) \<le> 20" .
  moreover have "hd (axis_labels data None) = (0, tp_date (hd data))"
    using assms(1) by (cases data) (simp_all add: axis_labels_def label_shown_def upt_conv_Cons del: upt_Suc)
  ultimately show ?thesis by simp
qed

theorem axis_labels_thinned_witness: "hd (axis_labels trend_example None) = (0, ''2026-07-01'')"
  using axis_labels_thinned [of trend_example] by (simp add: trend_example_def)

text \<open>The tick in the middle stands at half the scale but is rounded to a whole number, so on an odd scale it
  names a number the line does not stand for: with at most three or five attempts on the busiest day.\<close>

theorem half_tick_rounded:
  assumes "rawMax m data \<in> {3, 5}"
  shows "axis_ticks m data ! 1 = scaleMax m data / 2 + 1 / 2
    \<and> gridline_height (scaleMax m data / 2 / scaleMax m data) = gridline_height (1 / 2)"
proof -
  have "scaleMax m data \<in> {3, 5}" using assms by (auto simp: scaleMax_def niceMax_def)
  then show ?thesis by (auto simp: axis_ticks_def js_round_def)
qed

theorem half_tick_rounded_witness:
  "axis_ticks FailedOnly trend_example ! 1 = scaleMax FailedOnly trend_example / 2 + 1 / 2"
  using half_tick_rounded [of FailedOnly trend_example]
  by (simp add: trend_example_def rawMax_def bar_value_def)

end
