(* ===== verification/UsersView.thy ===== *)
theory UsersView
  imports UsersPage BulkDialog DataTable AuditFilters Navigation
begin

text \<open>
  What the users page shows and lets its reader do: the stat tiles and the filters they set
  (\<open>UserStatsCard.tsx\<close>, \<open>UsersPage.tsx\<close>), the option lists and the chips of \<open>UsersFilterBar.tsx\<close>, the cells and
  the gated row actions of \<open>usersColumns.tsx\<close>, the page as a machine (its selection, the confirmation dialogs of
  \<open>UsersPageDialogs.tsx\<close>, and the bulk dialog it renders with that selection), and the rows of \<open>BulkPermissionTab.tsx\<close>. Texts are translation keys where the code
  translates. A setter closes over the address bar of the render it was created in, which is its first argument.
\<close>

section \<open>Tiles\<close>

datatype user_tile = UserTotal | UserVerified | UserUnverified | UserInactive

definition users_activeTile :: "users_filters \<Rightarrow> user_tile option" where
  "users_activeTile f = (let u = uf_ui f in
     if truthy (uf_search f) \<or> uu_role u \<noteq> USERS_ALL_VALUE \<or> policy_filter f \<noteq> USERS_ALL_VALUE
       \<or> permission_filter f \<noteq> USERS_ALL_VALUE \<or> uu_lastLogin u \<noteq> USERS_ALL_VALUE then None
     else if uu_verified u = ''true'' \<and> uu_status u = USERS_ALL_VALUE then Some UserVerified
     else if uu_verified u = ''false'' \<and> uu_status u = USERS_ALL_VALUE then Some UserUnverified
     else if uu_status u = ''deleted'' \<and> uu_verified u = USERS_ALL_VALUE then Some UserInactive
     else if uu_verified u = USERS_ALL_VALUE \<and> uu_status u = USERS_ALL_VALUE then Some UserTotal else None)"

text \<open>One click calls the setters in turn, all with the address bar of the render.\<close>

fun users_tile_click :: "user_tile \<Rightarrow> url_params \<Rightarrow> users_filters \<Rightarrow> users_filters" where
  "users_tile_click UserTotal sp f =
     (setLastLogin USERS_ALL_VALUE \<circ> setPermission sp USERS_ALL_VALUE \<circ> setPolicy sp USERS_ALL_VALUE
      \<circ> setStatus USERS_ALL_VALUE \<circ> setVerified USERS_ALL_VALUE \<circ> setRole USERS_ALL_VALUE \<circ> setSearch []) f"
| "users_tile_click UserVerified sp f =
     (setLastLogin USERS_ALL_VALUE \<circ> setPermission sp USERS_ALL_VALUE \<circ> setPolicy sp USERS_ALL_VALUE
      \<circ> setStatus USERS_ALL_VALUE \<circ> setRole USERS_ALL_VALUE \<circ> setVerified ''true'' \<circ> setSearch []) f"
| "users_tile_click UserUnverified sp f =
     (setLastLogin USERS_ALL_VALUE \<circ> setPermission sp USERS_ALL_VALUE \<circ> setPolicy sp USERS_ALL_VALUE
      \<circ> setStatus USERS_ALL_VALUE \<circ> setRole USERS_ALL_VALUE \<circ> setVerified ''false'' \<circ> setSearch []) f"
| "users_tile_click UserInactive sp f =
     (setLastLogin USERS_ALL_VALUE \<circ> setPermission sp USERS_ALL_VALUE \<circ> setPolicy sp USERS_ALL_VALUE
      \<circ> setVerified USERS_ALL_VALUE \<circ> setRole USERS_ALL_VALUE \<circ> setStatus ''deleted'' \<circ> setSearch []) f"

record user_stats =
  us_total :: nat
  us_verified :: nat
  us_unverified :: nat
  us_inactive :: nat

fun user_tile_value :: "user_stats \<Rightarrow> user_tile \<Rightarrow> nat" where
  "user_tile_value d UserTotal = us_total d"
| "user_tile_value d UserVerified = us_verified d"
| "user_tile_value d UserUnverified = us_unverified d"
| "user_tile_value d UserInactive = us_inactive d"

text \<open>The row of tiles, each with its number and whether it is pressed; nothing when the counts failed.\<close>

definition users_tiles :: "bool \<Rightarrow> user_stats option \<Rightarrow> users_filters \<Rightarrow> (user_tile \<times> nat option \<times> bool) list" where
  "users_tiles isError data f = (if isError then []
     else map (\<lambda>k. (k, map_option (\<lambda>d. user_tile_value d k) data, users_activeTile f = Some k))
       [UserTotal, UserVerified, UserUnverified, UserInactive])"

text \<open>What the list asks the server for under the filters of the page, its search apart.\<close>

lemma users_tile_eq:
  "policy_filter (users_tile_click k (uf_url f) f) =
     (case url_get ''policy'' (uf_url f) of Some p \<Rightarrow> if url_get ''permission'' (uf_url f) = None then [] else p | None \<Rightarrow> [])"
  "permission_filter (users_tile_click k (uf_url f) f) = []"
  "permissionSource (users_tile_click k (uf_url f) f) =
     (if url_get ''permission'' (uf_url f) = None then permissionSource f else None)"
  by (cases k; auto simp: filter_setters policy_filter_def permission_filter_def permissionSource_def
      USERS_ALL_VALUE_def split: option.splits)+

lemma users_tile_ui:
  "uf_search (users_tile_click k sp f) = []" "uu_role (uf_ui (users_tile_click k sp f)) = []"
  "uu_lastLogin (uf_ui (users_tile_click k sp f)) = []"
  "uu_verified (uf_ui (users_tile_click k sp f)) = (case k of UserVerified \<Rightarrow> ''true'' | UserUnverified \<Rightarrow> ''false'' | _ \<Rightarrow> [])"
  "uu_status (uf_ui (users_tile_click k sp f)) = (if k = UserInactive then ''deleted'' else [])"
  by (cases k; simp add: filter_setters USERS_ALL_VALUE_def)+

text \<open>A click on a stat tile makes exactly that tile the pressed one, whatever the filters were - except when the
  address bar carries both a policy and a permission: then the policy stays and no tile is pressed. A permission
  source without a permission survives the click, and the tile shows as pressed all the same.\<close>

theorem tile_click_presses:
  "users_activeTile (users_tile_click k (uf_url f) f) =
     (if (\<exists>p. url_get ''policy'' (uf_url f) = Some p \<and> p \<noteq> []) \<and> url_get ''permission'' (uf_url f) \<noteq> None
      then None else Some k)
   \<and> permissionSource (users_tile_click k (uf_url f) f) =
     (if url_get ''permission'' (uf_url f) = None then permissionSource f else None)"
  by (cases k) (simp_all add: users_activeTile_def users_tile_eq users_tile_ui USERS_ALL_VALUE_def Let_def truthy_def
      del: users_tile_click.simps split: option.split)

section \<open>The filter bar\<close>

definition option_of :: "bool \<Rightarrow> string \<Rightarrow> string \<Rightarrow> search_option" where
  "option_of destructive value label = \<lparr>so_value = value, so_label = label, so_sublabel = None, so_destructive = destructive\<rparr>"

definition users_permissionGroups :: "option_group list" where
  "users_permissionGroups = map (\<lambda>(rt, as). \<lparr>og_key = rt, og_label = formatResourceTypeLabel rt,
       og_options = map (\<lambda>a. option_of (isDestructiveAction a) a (formatPolicyActionLabel a)) as\<rparr>)
     (group_by (\<lambda>a. hd (js_split CHR '':'' a)) permission_values)"

text \<open>\<open>le\<close> stands for \<open>left.localeCompare(right) <= 0\<close>.\<close>

definition users_policyGroups :: "(string \<Rightarrow> string \<Rightarrow> bool) \<Rightarrow> policy_read list option \<Rightarrow> option_group list" where
  "users_policyGroups le policies =
     map (\<lambda>g. g\<lparr>og_options := js_sort (\<lambda>a b. le (so_label a) (so_label b)) (og_options g)\<rparr>)
       (js_sort (\<lambda>a b. le (og_label a) (og_label b))
         (map (\<lambda>(rt, ps). \<lparr>og_key = rt, og_label = formatResourceTypeLabel rt,
             og_options = map (\<lambda>p. option_of False (pol_name p) (pol_name p)) ps\<rparr>)
           (group_by pol_resource_type (case policies of Some ps \<Rightarrow> ps | None \<Rightarrow> []))))"

definition last_login_labels :: "(string \<times> string) list" where
  "last_login_labels = [(''today'', ''users:page.lastLoginToday''), (''7d'', ''users:page.lastLogin7d''),
     (''30d'', ''users:page.lastLogin30d''), (''90d'', ''users:page.lastLogin90d''), (''never'', ''users:page.lastLoginNever'')]"

definition users_role_options :: "(string \<times> string) list" where
  "users_role_options = (USERS_ALL_VALUE, ''users:page.allRoles'') # map (\<lambda>r. (r, capitalize r)) ROLE_OPTIONS"

definition users_verified_options :: "(string \<times> string) list" where
  "users_verified_options = [(USERS_ALL_VALUE, ''users:page.allVerification''), (''true'', ''users:page.verified''),
     (''false'', ''users:page.unverified'')]"

definition users_status_options :: "(string \<times> string) list" where
  "users_status_options = [(USERS_ALL_VALUE, ''users:page.allStatuses''), (''active'', ''ui_text:active''),
     (''deleted'', ''users:page.deactivated'')]"

definition users_last_login_options :: "(string \<times> string) list" where
  "users_last_login_options = (USERS_ALL_VALUE, ''users:page.anyTime'') # last_login_labels"

datatype users_chip = SearchChip_u | PermissionChip_u | SourceChip_u | RoleChip_u | VerifiedChip_u | StatusChip_u
  | PolicyChip_u | LastLoginChip_u

definition users_chips :: "users_filters \<Rightarrow> users_chip list" where
  "users_chips f = (let u = uf_ui f in
     (if truthy (uf_search f) then [SearchChip_u] else [])
     @ (if permission_filter f \<noteq> USERS_ALL_VALUE then [PermissionChip_u] else [])
     @ (if permissionSource f \<noteq> None then [SourceChip_u] else [])
     @ (if uu_role u \<noteq> USERS_ALL_VALUE then [RoleChip_u] else [])
     @ (if uu_verified u \<noteq> USERS_ALL_VALUE then [VerifiedChip_u] else [])
     @ (if uu_status u \<noteq> USERS_ALL_VALUE then [StatusChip_u] else [])
     @ (if policy_filter f \<noteq> USERS_ALL_VALUE then [PolicyChip_u] else [])
     @ (if uu_lastLogin u \<noteq> USERS_ALL_VALUE then [LastLoginChip_u] else []))"

fun users_chip_label :: "users_chip \<Rightarrow> users_filters \<Rightarrow> string" where
  "users_chip_label SearchChip_u f = ''Search: '' @ uf_search f"
| "users_chip_label PermissionChip_u f = ''Permission: '' @ formatPolicyActionLabel (permission_filter f)"
| "users_chip_label SourceChip_u f = (if permissionSource f = Some ''policy'' then ''users:page.permissionViaPolicy''
     else ''users:page.permissionDirect'')"
| "users_chip_label RoleChip_u f = ''Role: '' @ capitalize (uu_role (uf_ui f))"
| "users_chip_label VerifiedChip_u f = (if uu_verified (uf_ui f) = ''true'' then ''users:page.verified''
     else ''users:page.unverified'')"
| "users_chip_label StatusChip_u f = (if uu_status (uf_ui f) = ''active'' then ''ui_text:active''
     else ''users:page.deactivated'')"
| "users_chip_label PolicyChip_u f = ''Policy: '' @ policy_filter f"
| "users_chip_label LastLoginChip_u f = (case map_of last_login_labels (uu_lastLogin (uf_ui f)) of
      Some k \<Rightarrow> k | None \<Rightarrow> uu_lastLogin (uf_ui f))"

fun clear_users_chip :: "users_chip \<Rightarrow> url_params \<Rightarrow> users_filters \<Rightarrow> users_filters" where
  "clear_users_chip SearchChip_u sp f = setSearch [] f"
| "clear_users_chip PermissionChip_u sp f = setPermission sp USERS_ALL_VALUE f"
| "clear_users_chip SourceChip_u sp f = setPermission sp USERS_ALL_VALUE f"
| "clear_users_chip RoleChip_u sp f = setRole USERS_ALL_VALUE f"
| "clear_users_chip VerifiedChip_u sp f = setVerified USERS_ALL_VALUE f"
| "clear_users_chip StatusChip_u sp f = setStatus USERS_ALL_VALUE f"
| "clear_users_chip PolicyChip_u sp f = setPolicy sp USERS_ALL_VALUE f"
| "clear_users_chip LastLoginChip_u sp f = setLastLogin USERS_ALL_VALUE f"

lemma users_chip_shown:
  "c \<in> set (users_chips f) \<longleftrightarrow> (case c of SearchChip_u \<Rightarrow> truthy (uf_search f)
     | PermissionChip_u \<Rightarrow> permission_filter f \<noteq> USERS_ALL_VALUE | SourceChip_u \<Rightarrow> permissionSource f \<noteq> None
     | RoleChip_u \<Rightarrow> uu_role (uf_ui f) \<noteq> USERS_ALL_VALUE | VerifiedChip_u \<Rightarrow> uu_verified (uf_ui f) \<noteq> USERS_ALL_VALUE
     | StatusChip_u \<Rightarrow> uu_status (uf_ui f) \<noteq> USERS_ALL_VALUE | PolicyChip_u \<Rightarrow> policy_filter f \<noteq> USERS_ALL_VALUE
     | LastLoginChip_u \<Rightarrow> uu_lastLogin (uf_ui f) \<noteq> USERS_ALL_VALUE)"
  by (cases c) (simp_all add: users_chips_def Let_def)

lemmas users_filter_defs = filter_setters policy_filter_def permission_filter_def permissionSource_def

text \<open>Clicking a chip away removes that chip and no other, with two exceptions. With a permission in the address
  bar the chips of the permission and of its source go together. Without one, the source's chip stays where it is,
  and clicking it removes the permission's chip instead. A chip is shown exactly when "Clear filters" has work.\<close>

theorem users_chip_clears:
  "set (users_chips (clear_users_chip c (uf_url f) f)) =
     set (users_chips f) - (case c of
         PermissionChip_u \<Rightarrow> if url_get ''permission'' (uf_url f) = None then {c} else {c, SourceChip_u}
       | SourceChip_u \<Rightarrow> if url_get ''permission'' (uf_url f) = None then {PermissionChip_u} else {c, PermissionChip_u}
       | _ \<Rightarrow> {c})
   \<and> (users_chips f \<noteq> [] \<longleftrightarrow> hasActiveFilters f)"
proof
  show "users_chips f \<noteq> [] \<longleftrightarrow> hasActiveFilters f"
    by (simp add: users_chips_def hasActiveFilters_def Let_def)
  have "d \<in> set (users_chips (clear_users_chip c (uf_url f) f)) \<longleftrightarrow> d \<in> set (users_chips f) \<and> d \<notin> (case c of
         PermissionChip_u \<Rightarrow> if url_get ''permission'' (uf_url f) = None then {c} else {c, SourceChip_u}
       | SourceChip_u \<Rightarrow> if url_get ''permission'' (uf_url f) = None then {PermissionChip_u} else {c, PermissionChip_u}
       | _ \<Rightarrow> {c})" for d
    unfolding users_chip_shown
    by (cases c; cases d)
      (simp_all add: users_filter_defs truthy_def USERS_ALL_VALUE_def split: option.split)
  then show "set (users_chips (clear_users_chip c (uf_url f) f)) =
     set (users_chips f) - (case c of
         PermissionChip_u \<Rightarrow> if url_get ''permission'' (uf_url f) = None then {c} else {c, SourceChip_u}
       | SourceChip_u \<Rightarrow> if url_get ''permission'' (uf_url f) = None then {PermissionChip_u} else {c, PermissionChip_u}
       | _ \<Rightarrow> {c})"
    by blast
qed

text \<open>The option lists lose nothing and invent nothing.\<close>

definition options_of :: "option_group list \<Rightarrow> (string \<times> string) list" where
  "options_of gs = concat (map (\<lambda>g. map (\<lambda>ao. (og_key g, so_value ao)) (og_options g)) gs)"

lemma group_by_pairs:
  "mset (concat (map (\<lambda>(k, g). map (\<lambda>x. (k, f x)) g) (group_by key xs))) = mset (map (\<lambda>x. (key x, f x)) xs)"
proof -
  have "concat (map (\<lambda>(k, g). map (\<lambda>x. (k, f x)) g) gs) = map (\<lambda>x. (key x, f x)) (concat (map snd gs))"
    if "\<forall>(k, g) \<in> set gs. \<forall>x \<in> set g. key x = k" for gs
    using that by (induction gs) auto
  moreover have "\<forall>(k, g) \<in> set (group_by key xs). \<forall>x \<in> set g. key x = k" by (auto simp: group_by_entries)
  ultimately show ?thesis using grouping.nothing_lost [OF group_by_grouping, of key xs] by simp
qed

lemma options_sorted [simp]: "mset (options_of (js_sort le gs)) = mset (options_of gs)"
  by (simp add: options_of_def mset_concat_mset)

lemma options_each_sorted [simp]:
  "mset (options_of (map (\<lambda>g. g\<lparr>og_options := js_sort le (og_options g)\<rparr>) gs)) = mset (options_of gs)"
  by (induction gs) (simp_all add: options_of_def)

text \<open>The policy picker offers every policy under its type, each as often as it occurs, and the permission picker
  every permission once, under the part of its name before the colon, and nothing else; whatever order the
  language's collation puts the names in.\<close>

theorem users_pickers_complete:
  "mset (options_of (users_policyGroups le (Some ps))) = mset (map (\<lambda>p. (pol_resource_type p, pol_name p)) ps)
   \<and> mset (options_of users_permissionGroups) = mset (map (\<lambda>a. (hd (js_split CHR '':'' a), a)) permission_values)"
proof
  have opts: "options_of (map (\<lambda>(k, g). \<lparr>og_key = k, og_label = l k, og_options = map (\<lambda>x. option_of (b x) (v x) (m x)) g\<rparr>) gs)
      = concat (map (\<lambda>(k, g). map (\<lambda>x. (k, v x)) g) gs)"
    for l :: "string \<Rightarrow> string" and b and v :: "'x \<Rightarrow> string" and m and gs
    by (induction gs) (auto simp: options_of_def option_of_def)
  show "mset (options_of (users_policyGroups le (Some ps))) = mset (map (\<lambda>p. (pol_resource_type p, pol_name p)) ps)"
    by (simp add: users_policyGroups_def opts group_by_pairs)
  show "mset (options_of users_permissionGroups) = mset (map (\<lambda>a. (hd (js_split CHR '':'' a), a)) permission_values)"
    by (simp add: users_permissionGroups_def opts group_by_pairs)
qed

section \<open>The columns\<close>

text \<open>A row as the list shows it: what the page's state keeps of a user, and the columns' further fields. A role
  that is \<open>null\<close> is the empty string.\<close>

record user_row = managed_user +
  ro_is_verified :: bool
  ro_is_active :: bool
  ro_deleted_at :: "string option"
  ro_last_login_at :: "string option"

abbreviation row_user :: "user_row \<Rightarrow> managed_user" where
  "row_user u \<equiv> managed_user.truncate u"

text \<open>\<open>name.split(" ").filter(Boolean).map((part) => part[0]).slice(0, 2).join("").toUpperCase()\<close>.\<close>

definition initialsFor :: "string \<Rightarrow> string" where
  "initialsFor name = map char_upper (take 2 (map hd (filter truthy (js_split CHR '' '' name))))"

definition permits :: "auth_state \<Rightarrow> string \<Rightarrow> bool" where
  "permits a name \<longleftrightarrow> IfCan a (OneAction (PERM name)) None () = Children"

definition is_you :: "auth_state \<Rightarrow> user_row \<Rightarrow> bool" where
  "is_you a u \<longleftrightarrow> Some (mu_email u) = profile_email a"

text \<open>The name cell: the initials, the name, whether it carries the "you" badge, the address.\<close>

definition name_cell :: "auth_state \<Rightarrow> user_row \<Rightarrow> string \<times> string \<times> bool \<times> string" where
  "name_cell a u = (initialsFor (mu_name u), mu_name u, is_you a u, mu_email u)"

datatype role_cell =
    RoleText string
  | RoleSelect string "(string \<times> string) list" bool "string option"

definition role_cell_of :: "auth_state \<Rightarrow> user_row \<Rightarrow> role_cell" where
  "role_cell_of a u = (if permits a ''USERS_ASSIGN_ROLE''
     then RoleSelect (mu_role u) (map (\<lambda>r. (r, capitalize r)) ROLE_OPTIONS) (is_you a u \<or> mu_role u = ''system'')
       (if is_you a u then Some ''users:columns.cannotChangeOwnRole''
        else if mu_role u = ''system'' then Some ''users:columns.cannotModifySystemUser'' else None)
     else RoleText (if mu_role u = [] then ''users:columns.noRoleAssigned'' else mu_role u))"

datatype status_cell = StatusDeactivated | StatusVerified | StatusUnverified

definition status_cell_of :: "user_row \<Rightarrow> status_cell" where
  "status_cell_of u = (if \<not> ro_is_active u then StatusDeactivated
     else if ro_is_verified u then StatusVerified else StatusUnverified)"

definition last_login_cell :: "user_row \<Rightarrow> string option" where
  "last_login_cell u = Option.bind (ro_last_login_at u) or_undefined"

datatype user_row_action = RowView | RowPolicies | RowPermissions | RowReactivate | RowDeactivate | RowDelete

definition row_deleted :: "user_row \<Rightarrow> bool" where
  "row_deleted u \<longleftrightarrow> (case ro_deleted_at u of Some d \<Rightarrow> truthy d | None \<Rightarrow> False)"

text \<open>The "More" menu of a row, none for the system account: each item with whether it is enabled.\<close>

definition more_menu :: "auth_state \<Rightarrow> string option \<Rightarrow> user_row \<Rightarrow> (user_row_action \<times> bool) list" where
  "more_menu a reactivatingEmail u =
     (if mu_role u = ''system'' then []
      else (if row_deleted u
            then (if permits a ''USERS_REACTIVATE'' then [(RowReactivate, reactivatingEmail \<noteq> Some (mu_email u))] else [])
            else (if permits a ''USERS_DEACTIVATE_ANY'' then [(RowDeactivate, \<not> is_you a u)] else []))
        @ (if row_deleted u \<and> permits a ''USERS_DELETE_ANY'' then [(RowDelete, \<not> is_you a u)] else []))"

definition user_row_actions :: "auth_state \<Rightarrow> string option \<Rightarrow> user_row \<Rightarrow> (user_row_action \<times> bool) list" where
  "user_row_actions a reactivatingEmail u =
     [(RowView, True)]
     @ (if permits a ''POLICIES_READ'' then [(RowPolicies, True)] else [])
     @ (if permits a ''PERMISSIONS_READ'' then [(RowPermissions, True)] else [])
     @ more_menu a reactivatingEmail u"

text \<open>The columns' sort keys, \<open>None\<close> where the header does not sort.\<close>

definition users_columns :: "(string \<times> bool) list" where
  "users_columns = [(''name'', True), (''role'', True), (''status'', False), (''last_login_at'', True), (''row_actions'', False)]"

text \<open>What a row lets its reader do, all of it: deactivating and deleting need their permission, never the own
  account and never a system account, and one takes a row that is not deactivated, the other one that is;
  reactivating is not offered for a row whose reactivation is running.\<close>

theorem row_actions_exact:
  "((RowDeactivate, True) \<in> set (user_row_actions a r u) \<longleftrightarrow> permits a ''USERS_DEACTIVATE_ANY''
      \<and> mu_role u \<noteq> ''system'' \<and> \<not> is_you a u \<and> \<not> row_deleted u)
   \<and> ((RowDelete, True) \<in> set (user_row_actions a r u) \<longleftrightarrow> permits a ''USERS_DELETE_ANY''
      \<and> mu_role u \<noteq> ''system'' \<and> \<not> is_you a u \<and> row_deleted u)
   \<and> ((RowReactivate, True) \<in> set (user_row_actions a r u) \<longleftrightarrow> permits a ''USERS_REACTIVATE''
      \<and> mu_role u \<noteq> ''system'' \<and> row_deleted u \<and> r \<noteq> Some (mu_email u))
   \<and> distinct (map fst (user_row_actions a r u))"
  by (auto simp: user_row_actions_def more_menu_def)

section \<open>The dialogs\<close>

text \<open>The page with the mutations that run, each with the address it runs for, and the bulk dialog it renders.\<close>

record users_console =
  uc_page :: users_page
  uc_pending :: "users_action \<Rightarrow> string option"
  uc_bulk :: bulk_access

definition console_mount :: "users_filters \<Rightarrow> users_console" where
  "console_mount f = \<lparr>uc_page = users_page_mount f, uc_pending = (\<lambda>_. None),
     uc_bulk = bulk_access_mount False [] PoliciesTab_bulk\<rparr>"

text \<open>The surroundings of a render: the rows and the total the page's query holds, and what the bulk dialog reads, the
  signed-in account among it.\<close>

record users_scene =
  sc_data :: "(managed_user list \<times> int) option"
  sc_bulk :: bulk_env

definition sc_auth :: "users_scene \<Rightarrow> auth_state" where
  "sc_auth sc = be_auth (sc_bulk sc)"

definition sc_rows :: "users_scene \<Rightarrow> managed_user list option" where
  "sc_rows sc = map_option fst (sc_data sc)"

datatype users_event =
    UcRow user_row_action user_row
  | UcRole user_row string
  | UcClose users_action
  | UcConfirm users_action
  | UcSettle users_action "string + unit"
  | UcTable table_event
  | UcSelectAllMatching
  | UcSelectAllSettles "string + string list"
  | UcRowClickSelects
  | UcFilters users_filters
  | UcDebounced
  | UcTurnPage int
  | UcToolbar toolbar_button
  | UcCloseBulk
  | UcBulk bulk_event
  | UcRendered

text \<open>What a step sets going: a request, or a run of the bulk dialog, which theory BulkMutations cuts into requests.\<close>

datatype users_request = Sends http_request | StartsBulk bulk_command

text \<open>The user a confirmation dialog is open for.\<close>

fun dialog_user :: "users_action \<Rightarrow> users_page \<Rightarrow> managed_user option" where
  "dialog_user RoleChange p = map_option fst (up_pendingRoleChange p)"
| "dialog_user Deactivate p = up_deletingUser p"
| "dialog_user Purge p = up_purgingUser p"
| "dialog_user Reactivate p = None"

fun confirm_request :: "users_action \<Rightarrow> users_page \<Rightarrow> http_request option" where
  "confirm_request RoleChange p = handleRoleChangeConfirm p"
| "confirm_request Deactivate p = handleDeleteConfirm p"
| "confirm_request Purge p = handlePurgeConfirm p"
| "confirm_request Reactivate p = None"

definition mutation_runs :: "users_action \<Rightarrow> string \<Rightarrow> users_console \<Rightarrow> users_console" where
  "mutation_runs k e s = s\<lparr>uc_pending := (uc_pending s)(k := Some e)\<rparr>"

fun row_click_step :: "user_row_action \<Rightarrow> user_row \<Rightarrow> users_console \<Rightarrow> users_console \<times> users_request list" where
  "row_click_step RowView u s = (s\<lparr>uc_page := onOpenAccess (row_user u) DetailsTab (uc_page s)\<rparr>, [])"
| "row_click_step RowPolicies u s = (s\<lparr>uc_page := onOpenAccess (row_user u) PoliciesTab (uc_page s)\<rparr>, [])"
| "row_click_step RowPermissions u s = (s\<lparr>uc_page := onOpenAccess (row_user u) PermissionsTab (uc_page s)\<rparr>, [])"
| "row_click_step RowReactivate u s = (mutation_runs Reactivate (mu_email u) s, [Sends (handleReactivate (mu_email u))])"
| "row_click_step RowDeactivate u s = (s\<lparr>uc_page := (uc_page s)\<lparr>up_deletingUser := Some (row_user u)\<rparr>\<rparr>, [])"
| "row_click_step RowDelete u s = (s\<lparr>uc_page := (uc_page s)\<lparr>up_purgingUser := Some (row_user u)\<rparr>\<rparr>, [])"

text \<open>The table of the page: no row is kept from being selected.\<close>

definition users_table :: "users_scene \<Rightarrow> users_page \<Rightarrow> (managed_user, int) table_props" where
  "users_table sc p = \<lparr>tb_rowKey = mu_id, tb_rows = sc_rows sc, tb_selectable = True,
     tb_rowClickSelects = up_rowClickSelects p, tb_disabledKeys = {}\<rparr>"

fun toolbar_click :: "toolbar_button \<Rightarrow> users_page \<Rightarrow> users_page" where
  "toolbar_click TbAssignPolicy p = p\<lparr>up_bulkDialog := Some BulkPolicy\<rparr>"
| "toolbar_click TbGrantPermission p = p\<lparr>up_bulkDialog := Some BulkPermission\<rparr>"
| "toolbar_click TbSetRole p = p\<lparr>up_bulkDialog := Some BulkRole\<rparr>"
| "toolbar_click TbClear p = clearSelection p"

text \<open>What an event does to the page's own state.\<close>

fun page_event :: "translate \<Rightarrow> users_scene \<Rightarrow> users_event \<Rightarrow> users_page \<Rightarrow> users_page" where
  "page_event tr sc (UcRole u r) p = onRoleChangeRequest (row_user u) r p"
| "page_event tr sc (UcClose k) p = close_dialog k p"
| "page_event tr sc (UcSettle k res) p = snd (users_action_settled tr k res p :: unit toast_options \<times> users_page)"
| "page_event tr sc (UcTable ev) p = handleSelectionChange (\<lambda>sel. table_step (users_table sc p) sel ev) p"
| "page_event tr sc UcSelectAllMatching p = snd (handleSelectAllMatching p)"
| "page_event tr sc (UcSelectAllSettles r) p = snd (select_all_settled r p :: unit toast_options option \<times> users_page)"
| "page_event tr sc UcRowClickSelects p = p\<lparr>up_rowClickSelects := \<not> up_rowClickSelects p\<rparr>"
| "page_event tr sc (UcFilters f) p = p\<lparr>up_filters := f\<rparr>"
| "page_event tr sc UcDebounced p = p\<lparr>up_debounced := uf_search (up_filters p)\<rparr>"
| "page_event tr sc (UcTurnPage n) p = p\<lparr>up_page := (up_page p)\<lparr>cell_page := n\<rparr>\<rparr>"
| "page_event tr sc (UcToolbar b) p = toolbar_click b p"
| "page_event tr sc UcCloseBulk p = p\<lparr>up_bulkDialog := None\<rparr>"
| "page_event tr sc _ p = p"

fun console_event :: "(string \<Rightarrow> json_text) \<Rightarrow> translate \<Rightarrow> users_scene \<Rightarrow> users_event \<Rightarrow> users_console
    \<Rightarrow> users_console \<times> users_request list" where
  "console_event parse tr sc (UcRow k u) s = row_click_step k u s"
| "console_event parse tr sc (UcConfirm k) s = (case (dialog_user k (uc_page s), confirm_request k (uc_page s)) of
      (Some u, Some req) \<Rightarrow> (mutation_runs k (mu_email u) s, [Sends req])
    | _ \<Rightarrow> (s, []))"
| "console_event parse tr sc (UcSettle k res) s =
     (s\<lparr>uc_page := page_event tr sc (UcSettle k res) (uc_page s), uc_pending := (uc_pending s)(k := None)\<rparr>, [])"
| "console_event parse tr sc (UcBulk ev) s = (let (b, out) = bulk_step parse (sc_bulk sc) (uc_bulk s) ev in
     (s\<lparr>uc_bulk := b\<rparr>, map StartsBulk out))"
| "console_event parse tr sc ev s = (s\<lparr>uc_page := page_event tr sc ev (uc_page s)\<rparr>, [])"

text \<open>The render that follows: the page's state settles, and the dialog gets the selection of that moment.\<close>

definition console_render :: "(string \<Rightarrow> json_text) \<Rightarrow> users_scene \<Rightarrow> users_console \<Rightarrow> users_console" where
  "console_render parse sc s = (let p = users_page_render (uc_page s) in
     s\<lparr>uc_page := p, uc_bulk := fst (bulk_step parse (sc_bulk sc) (uc_bulk s)
       (BulkProps (up_bulkDialog p \<noteq> None) (selectedUserEmails (sc_rows sc) p) (bulk_initialTab (up_bulkDialog p))))\<rparr>)"

definition users_console_step :: "(string \<Rightarrow> json_text) \<Rightarrow> translate \<Rightarrow> users_scene \<Rightarrow> users_event \<Rightarrow> users_console
    \<Rightarrow> users_console \<times> users_request list" where
  "users_console_step parse tr sc ev s = (let (s1, out) = console_event parse tr sc ev s in (console_render parse sc s1, out))"

text \<open>What the page offers in a state. A dialog's cross and Escape close it at any time, only its "Cancel" button
  waits for a running mutation; the confirm button does. The table hears what changes the selection; the bulk dialog
  offers what \<open>bulk_offers\<close> says, its props being the page's to give.\<close>

fun users_offers :: "users_scene \<Rightarrow> users_console \<Rightarrow> users_event \<Rightarrow> bool" where
  "users_offers sc s (UcRow k u) = ((k, True) \<in> set (user_row_actions (sc_auth sc) (uc_pending s Reactivate) u))"
| "users_offers sc s (UcRole u r) = (case role_cell_of (sc_auth sc) u of
      RoleSelect v opts disabled tip \<Rightarrow> \<not> disabled \<and> r \<in> fst ` set opts | RoleText _ \<Rightarrow> False)"
| "users_offers sc s (UcClose k) = (dialog_user k (uc_page s) \<noteq> None)"
| "users_offers sc s (UcConfirm k) = (dialog_user k (uc_page s) \<noteq> None \<and> uc_pending s k = None)"
| "users_offers sc s (UcSettle k res) = (uc_pending s k \<noteq> None)"
| "users_offers sc s (UcTable ev) = (table_step (users_table sc (uc_page s)) (up_selectedUserIds (uc_page s)) ev
     \<noteq> up_selectedUserIds (uc_page s))"
| "users_offers sc s UcSelectAllMatching = (let p = uc_page s in \<not> up_isSelectingAllMatching p
     \<and> canOfferSelectAllMatching (up_selectAllMatching p) (card (up_selectedUserIds p))
         (case sc_rows sc of Some us \<Rightarrow> length us | None \<Rightarrow> 0) (case sc_data sc of Some d \<Rightarrow> snd d | None \<Rightarrow> 0))"
| "users_offers sc s (UcSelectAllSettles r) = up_isSelectingAllMatching (uc_page s)"
| "users_offers sc s (UcToolbar b) =
     ((b, False) \<in> set (toolbar_buttons (sc_auth sc) (selectedCount (sc_data sc) (uc_page s))))"
| "users_offers sc s UcCloseBulk = (up_bulkDialog (uc_page s) \<noteq> None)"
| "users_offers sc s (UcBulk (BulkProps i es t)) = False"
| "users_offers sc s (UcBulk ev) = bulk_offers (sc_bulk sc) (uc_bulk s) ev"
| "users_offers sc s _ = True"

definition users_interact :: "(string \<Rightarrow> json_text) \<Rightarrow> translate \<Rightarrow> users_console \<Rightarrow> users_scene \<times> users_event \<Rightarrow> users_console" where
  "users_interact parse tr s x =
     (if users_offers (fst x) s (snd x) then fst (users_console_step parse tr (fst x) (snd x) s) else s)"

text \<open>Whoever a dialog is open for is neither the reader nor a system account, and a role asked for, there or in the
  bulk dialog, is one of the list.\<close>

definition dialogs_safe :: "string \<Rightarrow> users_page \<Rightarrow> bool" where
  "dialogs_safe me p \<longleftrightarrow> (\<forall>k u. dialog_user k p = Some u \<longrightarrow> mu_email u \<noteq> me \<and> mu_role u \<noteq> ''system'')
     \<and> (\<forall>u r. up_pendingRoleChange p = Some (u, r) \<longrightarrow> r \<in> set ROLE_OPTIONS)"

definition console_safe :: "string \<Rightarrow> users_console \<Rightarrow> bool" where
  "console_safe me s \<longleftrightarrow> dialogs_safe me (uc_page s) \<and> (ba_role (uc_bulk s) = [] \<or> ba_role (uc_bulk s) \<in> set ROLE_OPTIONS)"

lemma row_user_fields [simp]: "mu_email (row_user u) = mu_email u" "mu_role (row_user u) = mu_role u"
  by (simp_all add: managed_user.defs)

lemma dialog_user_close [simp]:
  "dialog_user k (close_dialog j p) = (if k = j then None else dialog_user k p)"
  "up_pendingRoleChange (close_dialog j p) = (if j = RoleChange then None else up_pendingRoleChange p)"
  by (cases k; cases j; simp)+

lemma dialog_user_update [simp]:
  "dialog_user k (p\<lparr>up_accessTab := t, up_accessUser := x\<rparr>) = dialog_user k p"
  "dialog_user k (p\<lparr>up_deletingUser := d\<rparr>) = (if k = Deactivate then d else dialog_user k p)"
  "dialog_user k (p\<lparr>up_purgingUser := d\<rparr>) = (if k = Purge then d else dialog_user k p)"
  "dialog_user k (p\<lparr>up_pendingRoleChange := y\<rparr>) = (if k = RoleChange then map_option fst y else dialog_user k p)"
  by (cases k; simp)+

text \<open>Everything else the page does, its rendering included, leaves the dialogs alone.\<close>

lemma dialog_user_frame:
  assumes "up_deletingUser q = up_deletingUser p" "up_purgingUser q = up_purgingUser p"
    and "up_pendingRoleChange q = up_pendingRoleChange p"
  shows "dialog_user k q = dialog_user k p"
  using assms by (cases k) simp_all

lemma page_render_dialogs [simp]:
  "dialog_user k (users_page_render p) = dialog_user k p"
  "up_pendingRoleChange (users_page_render p) = up_pendingRoleChange p"
  "up_bulkDialog (users_page_render p) = up_bulkDialog p"
  by (rule dialog_user_frame; simp add: users_page_render_def Let_def clearSelection_def)
    (simp_all add: users_page_render_def Let_def clearSelection_def)

lemma dialogs_safe_frame:
  assumes "dialogs_safe me p" and "up_deletingUser q = up_deletingUser p" "up_purgingUser q = up_purgingUser p"
    and "up_pendingRoleChange q = up_pendingRoleChange p"
  shows "dialogs_safe me q"
  using assms(1,4) unfolding dialogs_safe_def dialog_user_frame [OF assms(2-4)] by simp

lemma page_event_safe:
  assumes "dialogs_safe me p" and "profile_email (sc_auth sc) = Some me" and "users_offers sc s e"
  shows "dialogs_safe me (page_event tr sc e p)"
proof (cases e)
  case (UcRole u r)
  with assms show ?thesis
    by (auto simp: dialogs_safe_def onRoleChangeRequest_def role_cell_of_def is_you_def image_image
        split: if_split_asm)
next
  case (UcSettle k res)
  with assms show ?thesis by (auto simp: dialogs_safe_def users_action_settled_def split: sum.split)
next
  case (UcSelectAllSettles r)
  with assms(1) show ?thesis by (cases r) (auto elim!: dialogs_safe_frame simp: select_all_settled_def)
next
  case (UcToolbar b)
  with assms(1) show ?thesis by (cases b) (auto elim!: dialogs_safe_frame simp: clearSelection_def)
next
  case (UcClose k)
  with assms(1) show ?thesis by (auto simp: dialogs_safe_def)
qed (use assms(1) in \<open>auto elim!: dialogs_safe_frame simp: handleSelectionChange_def handleSelectAllMatching_def\<close>)

lemma render_safe: "console_safe me s \<Longrightarrow> console_safe me (console_render parse sc s)"
  by (simp add: console_safe_def console_render_def Let_def dialogs_safe_def)

lemma bulk_role_listed:
  assumes "bulk_offers env b ev" and "ba_role b = [] \<or> ba_role b \<in> set ROLE_OPTIONS"
  shows "ba_role (fst (bulk_step parse env b ev)) = [] \<or> ba_role (fst (bulk_step parse env b ev)) \<in> set ROLE_OPTIONS"
  using assms by (cases ev) (auto simp: reset_bulk_def visibleRoles_def)

lemma console_step_safe:
  assumes "console_safe me s" and "profile_email (sc_auth sc) = Some me" and "users_offers sc s e"
  shows "console_safe me (fst (users_console_step parse tr sc e s))"
proof -
  have safe: "dialogs_safe me (uc_page s)" and role: "ba_role (uc_bulk s) = [] \<or> ba_role (uc_bulk s) \<in> set ROLE_OPTIONS"
    using assms(1) by (simp_all add: console_safe_def)
  note page = page_event_safe [OF safe assms(2,3), of tr]
  have "console_safe me (fst (console_event parse tr sc e s))"
  proof (cases e)
    case (UcRow k u)
    with assms safe role show ?thesis
      by (cases k) (auto simp: console_safe_def dialogs_safe_def onOpenAccess_def mutation_runs_def row_actions_exact is_you_def)
  next
    case (UcConfirm k)
    with safe role show ?thesis by (auto simp: console_safe_def mutation_runs_def split: option.split)
  next
    case (UcBulk ev)
    with assms(3) have "bulk_offers (sc_bulk sc) (uc_bulk s) ev" by (cases ev) simp_all
    with UcBulk safe bulk_role_listed [OF _ role] show ?thesis by (simp add: console_safe_def split_beta)
  qed (use page safe role in \<open>simp_all add: console_safe_def\<close>)
  then show ?thesis by (simp add: users_console_step_def split_beta render_safe)
qed

interpretation users_dialogs: fed_machine "users_interact parse tr" "\<lambda>x. profile_email (sc_auth (fst x)) = Some me"
  "console_safe me" for parse tr me
  by unfold_locales (auto simp: users_interact_def console_step_safe)

lemma console_mount_safe: "console_safe me (console_mount f)"
proof -
  have "dialog_user k (users_page_mount f) = None" for k
    by (cases k) (simp_all add: users_page_mount_def Let_def)
  then show ?thesis
    by (simp add: console_safe_def dialogs_safe_def console_mount_def users_page_mount_def Let_def bulk_access_mount_def)
qed

text \<open>After a render the bulk dialog names the users selected in it.\<close>

lemma rendered_selection:
  "ba_userEmails (uc_bulk (console_render parse sc s)) = selectedUserEmails (sc_rows sc) (uc_page (console_render parse sc s))"
  by (simp add: console_render_def Let_def bulk_step_def effect_defs)

lemma rendered_now:
  "ba_userEmails (uc_bulk (users_interact parse tr s (sc, UcRendered)))
     = selectedUserEmails (sc_rows sc) (uc_page (users_interact parse tr s (sc, UcRendered)))"
  by (simp add: users_interact_def users_console_step_def rendered_selection)


definition users_reader :: "string list \<Rightarrow> auth_state" where
  "users_reader ps = auth_initial\<lparr>isAuthenticated := Some True, profile_email := Some ''me@x'', permissions := ps\<rparr>"

definition row_example :: "int \<Rightarrow> string \<Rightarrow> user_row" where
  "row_example i e = \<lparr>mu_id = i, mu_name = ''Amara Chen'', mu_email = e, mu_role = ''user'', ro_is_verified = True,
     ro_is_active = True, ro_deleted_at = None, ro_last_login_at = None\<rparr>"

lemma reader_permits:
  "permits (users_reader ps) name \<longleftrightarrow> PERM name \<in> set ps"
  by (simp add: permits_def IfCan_children can_def users_reader_def)

definition scene_of :: "auth_state \<Rightarrow> managed_user list \<Rightarrow> users_scene" where
  "scene_of a us = \<lparr>sc_data = Some (us, int (length us)), sc_bulk = \<lparr>be_auth = a, be_policies = None, be_catalog = None,
     be_myPolicies = None, be_myPermissions = None\<rparr>\<rparr>"

lemma scene_of_fields [simp]:
  "sc_auth (scene_of a us) = a" "sc_rows (scene_of a us) = Some us" "sc_data (scene_of a us) = Some (us, int (length us))"
  by (simp_all add: scene_of_def sc_auth_def sc_rows_def)

lemma console_render_frame [simp]:
  "dialog_user k (uc_page (console_render parse sc s)) = dialog_user k (uc_page s)"
  "uc_pending (console_render parse sc s) = uc_pending s"
  by (simp_all add: console_render_def Let_def)

lemma console_step_frame [simp]:
  "uc_page (fst (users_console_step parse tr sc e s)) = users_page_render (uc_page (fst (console_event parse tr sc e s)))"
  "uc_pending (fst (users_console_step parse tr sc e s)) = uc_pending (fst (console_event parse tr sc e s))"
  "snd (users_console_step parse tr sc e s) = snd (console_event parse tr sc e s)"
  by (simp_all add: users_console_step_def split_beta) (simp add: console_render_def Let_def)


text \<open>What a render's props, and the switch of a role, leave in the bulk dialog.\<close>

lemma dialog_effects [simp]:
  "ba_isOpen (tab_effect b s) = ba_isOpen s" "ba_userEmails (tab_effect b s) = ba_userEmails s"
  "ba_initialTab (tab_effect b s) = ba_initialTab s" "ba_runs (tab_effect b s) = ba_runs s"
  "ba_tab (tab_effect b s) = (if (ba_isOpen s \<noteq> ba_isOpen b \<or> ba_initialTab s \<noteq> ba_initialTab b) \<and> ba_isOpen s
     then ba_initialTab s else ba_tab s)"
  "ba_isOpen (catalog_effect env s) = ba_isOpen s" "ba_userEmails (catalog_effect env s) = ba_userEmails s"
  "ba_initialTab (catalog_effect env s) = ba_initialTab s" "ba_runs (catalog_effect env s) = ba_runs s"
  "ba_tab (catalog_effect env s) = ba_tab s"
  "ba_isOpen (close_effect b s) = ba_isOpen s" "ba_userEmails (close_effect b s) = ba_userEmails s"
  "ba_initialTab (close_effect b s) = ba_initialTab s" "ba_tab (close_effect b s) = ba_tab s"
  "ba_runs (close_effect b s) = (if ba_isOpen b \<and> \<not> ba_isOpen s then (\<lambda>_. idle_run) else ba_runs s)"
  "ba_isOpen (result_effect b s) = ba_isOpen s" "ba_userEmails (result_effect b s) = ba_userEmails s"
  "ba_initialTab (result_effect b s) = ba_initialTab s" "ba_runs (result_effect b s) = ba_runs s"
  "ba_tab (result_effect b s) = ba_tab s"
  by (simp_all add: effect_defs)

lemma props_step [simp]:
  "ba_isOpen (fst (bulk_step parse env b (BulkProps i es t))) = i"
  "ba_userEmails (fst (bulk_step parse env b (BulkProps i es t))) = es"
  "ba_initialTab (fst (bulk_step parse env b (BulkProps i es t))) = t"
  "ba_tab (fst (bulk_step parse env b (BulkProps i es t)))
     = (if (i \<noteq> ba_isOpen b \<or> t \<noteq> ba_initialTab b) \<and> i then t else ba_tab b)"
  "br_pending (ba_runs (fst (bulk_step parse env b (BulkProps i es t))) x)
     = (if ba_isOpen b \<and> \<not> i then None else br_pending (ba_runs b x))"
  by (simp_all add: bulk_step_def idle_run_def)

lemma role_switch_step [simp]:
  "ba_isOpen (fst (bulk_step parse env b (BulkRoleSwitch r c))) = ba_isOpen b"
  "ba_userEmails (fst (bulk_step parse env b (BulkRoleSwitch r c))) = ba_userEmails b"
  "ba_initialTab (fst (bulk_step parse env b (BulkRoleSwitch r c))) = ba_initialTab b"
  "ba_tab (fst (bulk_step parse env b (BulkRoleSwitch r c))) = ba_tab b"
  "br_pending (ba_runs (fst (bulk_step parse env b (BulkRoleSwitch r c))) x) = br_pending (ba_runs b x)"
  by (simp_all add: bulk_step_def)

lemma console_step_bulk:
  "uc_bulk (fst (users_console_step parse tr sc e s)) = (let s1 = fst (console_event parse tr sc e s); p = users_page_render (uc_page s1)
     in fst (bulk_step parse (sc_bulk sc) (uc_bulk s1)
       (BulkProps (up_bulkDialog p \<noteq> None) (selectedUserEmails (sc_rows sc) p) (bulk_initialTab (up_bulkDialog p)))))"
  by (simp add: users_console_step_def split_beta console_render_def Let_def)

text \<open>Selecting every row with the checkbox of the header takes the reader's own row and those of system accounts along, and
  the role run that follows names them.\<close>

theorem bulk_role_spares_nobody:
  assumes "permits (sc_auth sc) ''USERS_ASSIGN_ROLE''" and "sc_data sc = Some (us, n)" and "us \<noteq> []"
    and "r \<in> set (visibleRoles (sc_auth sc))"
    and "s = foldl (users_interact parse tr) (console_mount f)
      [(sc, UcTable TableCheckAll), (sc, UcToolbar TbSetRole), (sc, UcBulk (BulkRoleSwitch r True))]"
  shows "users_offers sc s (UcBulk BulkRunRole)
    \<and> snd (users_console_step parse tr sc (UcBulk BulkRunRole) s) = [StartsBulk (RoleRun (map mu_email us) r)]"
proof -
  let ?p0 = "users_page_mount f" let ?p1 = "handleSelectionChange (\<lambda>_. mu_id ` set us) ?p0"
  let ?p2 = "?p1\<lparr>up_bulkDialog := Some BulkRole\<rparr>"
  let ?step = "users_interact parse tr"
  let ?s1 = "?step (console_mount f) (sc, UcTable TableCheckAll)" let ?s2 = "?step ?s1 (sc, UcToolbar TbSetRole)"
  have rows: "sc_rows sc = Some us" using assms(2) by (simp add: sc_rows_def)
  have mount: "rendered ?p0" "up_selectedUserIds ?p0 = {}" "up_bulkDialog ?p0 = None"
    by (simp_all add: rendered_def users_page_mount_def Let_def page_mount_def selectionResetKey_def filterResetKey_def)
  have render: "users_page_render ?p1 = ?p1" "users_page_render ?p2 = ?p2"
    using mount(1) by (auto intro!: rendered_stays simp: rendered_def selectionResetKey_def filterResetKey_def handleSelectionChange_def)
  have emails: "selectedUserEmails (Some us) ?p1 = map mu_email us" "selectedUserEmails (Some us) ?p2 = map mu_email us"
    by (simp_all add: selectedUserEmails_def handleSelectionChange_def)
  have all: "table_step (users_table sc ?p0) {} TableCheckAll = mu_id ` set us"
    using assms(3) by (simp add: users_table_def rows table_row_def table_keys_def allKeysOnScreen_def toggleAll_eq isAllSelected_iff)
  have s1: "uc_page ?s1 = ?p1" "ba_userEmails (uc_bulk ?s1) = map mu_email us" "\<not> ba_isOpen (uc_bulk ?s1)"
    "ba_role (uc_bulk ?s1) = []" "br_pending (ba_runs (uc_bulk ?s1) OpSetRole) = None"
    using all assms(3) mount render(1) emails(1)
    by (simp_all add: users_interact_def console_mount_def console_step_bulk Let_def rows bulk_access_mount_def idle_run_def
        handleSelectionChange_def del: table_step.simps)
  have "selectedCount (sc_data sc) ?p1 \<noteq> 0"
    using assms(3) by (simp add: selectedCount_def handleSelectionChange_def)
  then have "users_offers sc ?s1 (UcToolbar TbSetRole)"
    using assms(1) by (simp add: s1(1) toolbar_buttons_def Let_def permits_def PERM_def PERMISSIONS_def)
  then have s2: "uc_page ?s2 = ?p2" "ba_userEmails (uc_bulk ?s2) = map mu_email us" "ba_isOpen (uc_bulk ?s2)"
    "ba_role (uc_bulk ?s2) = []" "br_pending (ba_runs (uc_bulk ?s2) OpSetRole) = None" "ba_tab (uc_bulk ?s2) = RolesTab_bulk"
    "ba_initialTab (uc_bulk ?s2) = RolesTab_bulk"
    using s1 render(2) emails(2)
    by (simp_all add: users_interact_def [of _ _ ?s1] console_step_bulk Let_def rows bulk_initialTab_def del: users_offers.simps)
  have "r \<in> set ROLE_OPTIONS" using assms(4) by (simp add: visibleRoles_def)
  then have r: "r \<noteq> []" by (auto simp: ROLE_OPTIONS_def)
  then have offered: "users_offers sc ?s2 (UcBulk (BulkRoleSwitch r True))"
    using assms(4) s2(3,4,6) by (simp add: sc_auth_def)
  have s: "s = fst (users_console_step parse tr sc (UcBulk (BulkRoleSwitch r True)) ?s2)"
    unfolding assms(5) using offered by (simp add: users_interact_def [of _ _ ?s2] del: users_offers.simps)
  have "ba_isOpen (uc_bulk s)" "ba_tab (uc_bulk s) = RolesTab_bulk" "ba_role (uc_bulk s) = r"
    "ba_userEmails (uc_bulk s) = map mu_email us" "br_pending (ba_runs (uc_bulk s) OpSetRole) = None"
    unfolding s using s2 render(2) emails(2)
    by (simp_all add: console_step_bulk Let_def split_beta rows bulk_initialTab_def)
  with r show ?thesis by (simp add: split_beta bulk_step_def runRole_def)
qed

theorem bulk_role_spares_nobody_witness:
  "\<exists>s. snd (users_console_step (\<lambda>_. Malformed) (\<lambda>k args. k) (scene_of (users_reader [PERM ''USERS_ASSIGN_ROLE''])
       [\<lparr>mu_id = 1, mu_name = ''Me'', mu_email = ''me@x'', mu_role = ''admin''\<rparr>,
        \<lparr>mu_id = 2, mu_name = ''Root'', mu_email = ''root@x'', mu_role = ''system''\<rparr>]) (UcBulk BulkRunRole) s)
     = [StartsBulk (RoleRun [''me@x'', ''root@x''] ''user'')]"
proof -
  let ?us = "[\<lparr>mu_id = 1, mu_name = ''Me'', mu_email = ''me@x'', mu_role = ''admin''\<rparr>,
        \<lparr>mu_id = 2, mu_name = ''Root'', mu_email = ''root@x'', mu_role = ''system''\<rparr>] :: managed_user list"
  let ?sc = "scene_of (users_reader [PERM ''USERS_ASSIGN_ROLE'']) ?us"
  have "permits (sc_auth ?sc) ''USERS_ASSIGN_ROLE''" "''user'' \<in> set (visibleRoles (sc_auth ?sc))" "?us \<noteq> []"
    by (simp_all add: reader_permits visibleRoles_def ROLE_OPTIONS_def)
  then have "\<exists>s. snd (users_console_step (\<lambda>_. Malformed) (\<lambda>k args. k) ?sc (UcBulk BulkRunRole) s)
      = [StartsBulk (RoleRun (map mu_email ?us) ''user'')]"
    using bulk_role_spares_nobody [OF _ scene_of_fields(3) _ _ refl] by blast
  then show ?thesis by (simp del: console_step_frame)
qed

text \<open>A confirmation dialog closed by its cross while its request still runs, and opened for another user, is closed
  by the first request's success, without the second user having been confirmed; and until then its confirm
  button is not offered.\<close>

theorem success_closes_other_dialog:
  assumes "k = Deactivate \<and> open_row = RowDeactivate \<or> k = Purge \<and> open_row = RowDelete"
    and "dialog_user k (uc_page s) = Some u"
    and "s1 = fst (users_console_step parse tr sc (UcConfirm k) s)" and "s2 = fst (users_console_step parse tr sc (UcClose k) s1)"
    and "s3 = fst (users_console_step parse tr sc (UcRow open_row v) s2)"
    and "s4 = fst (users_console_step parse tr sc (UcSettle k (Inr ())) s3)"
  shows "users_offers sc s1 (UcClose k) \<and> dialog_user k (uc_page s3) = Some (row_user v)
    \<and> \<not> users_offers sc s3 (UcConfirm k) \<and> dialog_user k (uc_page s4) = None \<and> uc_pending s4 k = None"
proof -
  have s1: "uc_pending s1 k = Some (mu_email u)" "dialog_user k (uc_page s1) = Some u"
    using assms(1-3) by (auto simp: handleDeleteConfirm_def handlePurgeConfirm_def mutation_runs_def)
  then have s3: "uc_pending s3 k = Some (mu_email u)" "dialog_user k (uc_page s3) = Some (row_user v)"
    using assms(1,4,5) by auto
  then have "dialog_user k (uc_page s4) = None" "uc_pending s4 k = None"
    unfolding assms(6) by (simp_all add: users_action_settled_def)
  with s3 s1 show ?thesis by simp
qed

theorem success_closes_other_dialog_witness:
  "\<exists>s. dialog_user Purge (uc_page (fst (users_console_step (\<lambda>_. Malformed) (\<lambda>k args. k) (scene_of (users_reader []) [])
     (UcSettle Purge (Inr ())) s))) = None"
proof -
  let ?sc = "scene_of (users_reader []) []"
  let ?s = "fst (users_console_step (\<lambda>_. Malformed) (\<lambda>k args. k) ?sc (UcRow RowDelete (row_example 2 ''a@x''))
     (console_mount (users_filters_mount useUsersUiStore [])))"
  have "dialog_user Purge (uc_page ?s) = Some (row_user (row_example 2 ''a@x''))" by simp
  from success_closes_other_dialog [OF disjI2 [OF conjI [OF refl refl]] this refl refl refl refl] show ?thesis by blast
qed

text \<open>The role list of a row offers "system" to everyone who may assign roles; the role list of the bulk dialog keeps
  it from those who lack the permission for that role.\<close>

theorem row_role_offers_system:
  assumes "permits (sc_auth sc) ''USERS_ASSIGN_ROLE''" and "\<not> is_you (sc_auth sc) u" and "mu_role u \<noteq> ''system''"
    and "\<not> can (sc_auth sc) (OneAction ''users:assign_system_role'')"
  shows "users_offers sc s (UcRole u ''system'') \<and> ''system'' \<notin> set (visibleRoles (sc_auth sc))"
  using assms by (simp add: role_cell_of_def ROLE_OPTIONS_def visibleRoles_def)

theorem row_role_offers_system_witness:
  "users_offers (scene_of (users_reader [PERM ''USERS_ASSIGN_ROLE'']) []) (console_mount (users_filters_mount useUsersUiStore []))
     (UcRole (row_example 2 ''a@x'') ''system'')"
proof -
  let ?sc = "scene_of (users_reader [PERM ''USERS_ASSIGN_ROLE'']) []"
  have "permits (sc_auth ?sc) ''USERS_ASSIGN_ROLE''" by (simp add: reader_permits)
  moreover have "\<not> can (sc_auth ?sc) (OneAction ''users:assign_system_role'')"
    by (simp add: can_def users_reader_def PERM_def PERMISSIONS_def auth_initial_def)
  ultimately show ?thesis
    using row_role_offers_system [of ?sc "row_example 2 ''a@x''" "console_mount (users_filters_mount useUsersUiStore [])"]
    by (simp add: is_you_def users_reader_def row_example_def)
qed

section \<open>What the page passes on\<close>

definition users_emptyMessage :: "users_filters \<Rightarrow> string" where
  "users_emptyMessage f = (if truthy (uf_search f) then ''users:page.noUsersMatchSearch'' else ''users:page.noUsersMatchFilters'')"

definition users_startIndex :: "users_page \<Rightarrow> int" where
  "users_startIndex p = (cell_page (up_page p) - 1) * USERS_PAGE_SIZE"

definition users_exportButton :: "auth_state \<Rightarrow> bool \<Rightarrow> bool option" where
  "users_exportButton a pending = (if permits a ''USERS_LIST_ALL'' then Some (\<not> pending) else None)"

text \<open>A confirmation dialog: its title, the address and role its text names, its button's label, whether it is the
  red one, and whether that button waits.\<close>

record confirm_view =
  cf_title :: string
  cf_email :: string
  cf_role :: "string option"
  cf_confirmLabel :: string
  cf_isDestructive :: bool
  cf_isLoading :: bool

fun users_confirm_view :: "users_console \<Rightarrow> users_action \<Rightarrow> confirm_view option" where
  "users_confirm_view s Deactivate = map_option (\<lambda>u. \<lparr>cf_title = ''users:page.deactivateDialogTitle'', cf_email = mu_email u,
     cf_role = None, cf_confirmLabel = ''users:columns.deactivate'', cf_isDestructive = True,
     cf_isLoading = uc_pending s Deactivate \<noteq> None\<rparr>) (up_deletingUser (uc_page s))"
| "users_confirm_view s Purge = map_option (\<lambda>u. \<lparr>cf_title = ''users:page.deleteDialogTitle'', cf_email = mu_email u,
     cf_role = None, cf_confirmLabel = ''ui_text:delete'', cf_isDestructive = True,
     cf_isLoading = uc_pending s Purge \<noteq> None\<rparr>) (up_purgingUser (uc_page s))"
| "users_confirm_view s RoleChange = map_option (\<lambda>(u, r). \<lparr>cf_title = ''users:page.changeRoleDialogTitle'', cf_email = mu_email u,
     cf_role = Some (capitalize r), cf_confirmLabel = ''users:page.changeRoleConfirmLabel'', cf_isDestructive = False,
     cf_isLoading = uc_pending s RoleChange \<noteq> None\<rparr>) (up_pendingRoleChange (uc_page s))"
| "users_confirm_view s Reactivate = None"

text \<open>What a dialog says is what its button does: the request carries the address the text names, and the button
  is enabled exactly when the page offers the confirmation.\<close>

theorem dialog_says_what_it_does:
  assumes "users_confirm_view s k = Some v"
  shows "(users_offers sc s (UcConfirm k) \<longleftrightarrow> \<not> cf_isLoading v)
    \<and> (\<exists>r. snd (users_console_step parse tr sc (UcConfirm k) s) = [Sends (case k of Deactivate \<Rightarrow> deleteUserApi (cf_email v)
        | Purge \<Rightarrow> purgeUserApi (cf_email v) | _ \<Rightarrow> updateUserRoleApi (cf_email v) r)]
      \<and> cf_role v = (if k = RoleChange then Some (capitalize r) else None))"
  using assms
  by (cases k; auto simp: handleDeleteConfirm_def handlePurgeConfirm_def handleRoleChangeConfirm_def)+

theorem dialog_says_what_it_does_witness:
  "\<exists>r. snd (users_console_step (\<lambda>_. Malformed) (\<lambda>k args. k) (scene_of (users_reader []) []) (UcConfirm RoleChange)
     (fst (console_event (\<lambda>_. Malformed) (\<lambda>k args. k) (scene_of (users_reader []) []) (UcRole (row_example 2 ''a@x'') ''admin'')
       (console_mount (users_filters_mount useUsersUiStore [])))))
     = [Sends (updateUserRoleApi ''a@x'' r)] \<and> capitalize ''admin'' = capitalize r"
proof -
  let ?s = "fst (console_event (\<lambda>_. Malformed) (\<lambda>k args. k) (scene_of (users_reader []) []) (UcRole (row_example 2 ''a@x'') ''admin'')
     (console_mount (users_filters_mount useUsersUiStore [])))"
  have "users_confirm_view ?s RoleChange = Some \<lparr>cf_title = ''users:page.changeRoleDialogTitle'', cf_email = ''a@x'',
      cf_role = Some (capitalize ''admin''), cf_confirmLabel = ''users:page.changeRoleConfirmLabel'', cf_isDestructive = False,
      cf_isLoading = False\<rparr>"
    by (simp add: onRoleChangeRequest_def console_mount_def row_example_def)
  from dialog_says_what_it_does [OF this, of _ "\<lambda>_. Malformed" "\<lambda>k args. k"] show ?thesis by simp
qed

section \<open>The permissions tab of the bulk dialog\<close>

record bulk_permission_row =
  bp_key :: string
  bp_copyKey :: string
  bp_label :: string
  bp_sensitive :: bool
  bp_checked :: bool

definition bulk_permission_row_of :: "bulk_access \<Rightarrow> permission_entry \<Rightarrow> bulk_permission_row" where
  "bulk_permission_row_of s e = \<lparr>bp_key = entry_key e, bp_copyKey = pe_action e @ '':'' @ pe_resource_type e,
     bp_label = (if truthy (pe_description e) then pe_description e else formatPolicyActionLabel (pe_action e)),
     bp_sensitive = isDestructiveAction (pe_action e), bp_checked = (entry_key e \<in> set (ba_permissions s))\<rparr>"

text \<open>A group: its type, the number of its actions, and its rows when it is open.\<close>

definition bulk_permission_groups ::
  "bulk_env \<Rightarrow> bulk_access \<Rightarrow> (string \<times> string \<times> nat \<times> bulk_permission_row list option) list" where
  "bulk_permission_groups env s = map (\<lambda>(rt, es). (rt, formatResourceTypeLabel rt, length es,
     if rt \<in> set (ba_expanded s) then Some (map (bulk_permission_row_of s) es) else None)) (permissionGroups env s)"

datatype bulk_row_part = RowBackground | RowText | RowCopyButton | RowSwitch

text \<open>The row's own handler leaves clicks on its button and its switch alone, the text stops its click.\<close>

fun bulk_row_click :: "bulk_row_part \<Rightarrow> bulk_permission_row \<Rightarrow> bulk_event list" where
  "bulk_row_click RowBackground r = [BulkPermissionToggle (bp_key r) (\<not> bp_checked r)]"
| "bulk_row_click RowText r = [BulkPermissionToggle (bp_key r) (\<not> bp_checked r)]"
| "bulk_row_click RowCopyButton r = []"
| "bulk_row_click RowSwitch r = [BulkPermissionToggle (bp_key r) (\<not> bp_checked r)]"

definition bulk_copy :: "bulk_permission_row \<Rightarrow> string \<times> string" where
  "bulk_copy r = (bp_copyKey r, ''users:accessDialog.copyKeyToast'')"

text \<open>A click anywhere on a row but its copy button turns exactly that permission over, once, and is a step the
  dialog offers; the copy button turns none.\<close>

theorem bulk_row_toggles_once:
  assumes "ba_isOpen s" and "ba_tab s = PermissionsTab_bulk"
    and "(rt, l, n, Some rs) \<in> set (bulk_permission_groups env s)" and "r \<in> set rs"
    and "s' = foldl (\<lambda>s ev. bulk_interact parse s (env, ev)) s (bulk_row_click part r)"
  shows "n = length rs \<and> set (ba_permissions s') = (if part = RowCopyButton then set (ba_permissions s)
     else if bp_checked r then set (ba_permissions s) - {bp_key r} else insert (bp_key r) (set (ba_permissions s)))"
proof -
  obtain es e where es: "(rt, es) \<in> set (permissionGroups env s)" "rt \<in> set (ba_expanded s)"
      "rs = map (bulk_permission_row_of s) es" "n = length es" and e: "e \<in> set es" "r = bulk_permission_row_of s e"
    using assms(3,4) by (auto simp: bulk_permission_groups_def split: if_split_asm)
  have in_es: "e \<in> set (availablePermissions env s) \<and> pe_resource_type e = rt"
    using es(1) e(1) by (auto simp: permissionGroups_def group_by_entries)
  have offered: "bulk_offers env s (BulkPermissionToggle (bp_key r) (\<not> bp_checked r))"
    using assms(1,2) in_es es(2) by (auto simp: e(2) bulk_permission_row_of_def)
  have "s' = (if part = RowCopyButton then s else fst (bulk_step parse env s (BulkPermissionToggle (bp_key r) (\<not> bp_checked r))))"
    unfolding assms(5) using offered by (cases part) (simp_all add: bulk_interact_def del: bulk_offers.simps)
  then show ?thesis by (auto simp: es(3,4))
qed

definition purge_entry :: permission_entry where
  "purge_entry = \<lparr>pe_action = ''users:purge'', pe_resource_type = ''users'', pe_description = []\<rparr>"

theorem bulk_row_toggles_once_witness:
  "set (ba_permissions (foldl (\<lambda>s ev. bulk_interact (\<lambda>_. Malformed) s
      (\<lparr>be_auth = users_reader [''users:purge''], be_policies = None, be_catalog = Some [purge_entry], be_myPolicies = None,
        be_myPermissions = None\<rparr>, ev))
     ((bulk_access_mount True [''b@x''] PermissionsTab_bulk)\<lparr>ba_expanded := [''users'']\<rparr>) [BulkPermissionToggle (entry_key purge_entry) True]))
   = {entry_key purge_entry}"
proof -
  let ?env = "\<lparr>be_auth = users_reader [''users:purge''], be_policies = None, be_catalog = Some [purge_entry],
      be_myPolicies = None, be_myPermissions = None\<rparr> :: bulk_env"
  let ?s = "(bulk_access_mount True [''b@x''] PermissionsTab_bulk)\<lparr>ba_expanded := [''users'']\<rparr>"
  have "bulk_grants ?env ?s = None"
    by (simp add: bulk_grants_def bulk_self_def bulk_access_mount_def users_reader_def)
  then have "availablePermissions ?env ?s = [purge_entry]"
    by (simp add: availablePermissions_def purge_entry_def canGrantAction_def can_def users_reader_def)
  then have row: "(''users'', formatResourceTypeLabel ''users'', 1, Some [bulk_permission_row_of ?s purge_entry])
      \<in> set (bulk_permission_groups ?env ?s)"
    by (simp add: bulk_permission_groups_def permissionGroups_def group_by_entries purge_entry_def)
  have click: "bulk_row_click RowText (bulk_permission_row_of ?s purge_entry) = [BulkPermissionToggle (entry_key purge_entry) True]"
    by (simp add: bulk_permission_row_of_def bulk_access_mount_def)
  show ?thesis
    using bulk_row_toggles_once [OF _ _ row _ refl, of "bulk_permission_row_of ?s purge_entry" "\<lambda>_. Malformed" RowText]
    unfolding click by (simp add: bulk_permission_row_of_def bulk_access_mount_def)
qed

end
