(* ===== verification/LogDetails.thy ===== *)
theory LogDetails
  imports AuditLog
begin

text \<open>
  The details drawers of the audit log: how a value of the log becomes text and which sections an entry gets
  (\<open>AuthorizationDetailsDrawer.tsx\<close>, \<open>SecurityDetailsDrawer.tsx\<close>), the copy buttons with their timers, the
  one-click filters of the footer, and the keyboard of the drawer (\<open>ui/display/DetailsDrawer.tsx\<close>) on top of the
  walk through the list of theory AuditLog. The text of a timestamp is a parameter (\<open>stamp\<close>, which gives
  nothing for a text no date can be made of); a number prints its digits.
\<close>

section \<open>Values as text\<close>

definition humanizeKey :: "string \<Rightarrow> string" where
  "humanizeKey key = (let label = js_trim (spaces_for_joiners key) in if truthy label then capitalize label else key)"

definition humanizeIdentifier :: "string \<Rightarrow> string" where
  "humanizeIdentifier value = (let label = js_trim (spaces_for_joiners value) in if truthy label then capitalize label else value)"

text \<open>The pattern of a timestamp, \<open>^dddd-dd-ddTdd:dd:dd(.d+)?(Z|(+|-)dd:dd)$\<close>; \<open>d\<close> stands for a digit.\<close>

fun matches_mask :: "string \<Rightarrow> string \<Rightarrow> bool" where
  "matches_mask [] [] = True"
| "matches_mask (m # ms) (c # cs) = ((if m = CHR ''d'' then is_digit c else m = c) \<and> matches_mask ms cs)"
| "matches_mask _ _ = False"

definition zone_text :: "string \<Rightarrow> bool" where
  "zone_text s \<longleftrightarrow> s = ''Z'' \<or> matches_mask ''+dd:dd'' s \<or> matches_mask ''-dd:dd'' s"

definition is_timestamp :: "string \<Rightarrow> bool" where
  "is_timestamp s \<longleftrightarrow> matches_mask ''dddd-dd-ddTdd:dd:dd'' (take 19 s)
     \<and> (case drop 19 s of
          c # r \<Rightarrow> if c = CHR ''.'' then takeWhile is_digit r \<noteq> [] \<and> zone_text (dropWhile is_digit r) else zone_text (c # r)
        | [] \<Rightarrow> False)"

fun readableValue :: "(string \<Rightarrow> string option) \<Rightarrow> json \<Rightarrow> string" where
  "readableValue stamp JNull = ''-''"
| "readableValue stamp (JBool b) = (if b then ''Yes'' else ''No'')"
| "readableValue stamp (JArr vs) = (if vs = [] then ''-'' else js_join '', '' (map (readableValue stamp) vs))"
| "readableValue stamp (JObj kvs) = js_join [CHR 0x0A] (map (\<lambda>(k, v). humanizeKey k @ '': '' @ readableValue stamp v) kvs)"
| "readableValue stamp (JStr s) = (if is_timestamp s then (case stamp s of Some t \<Rightarrow> t | None \<Rightarrow> s) else s)"
| "readableValue stamp (JNum n) = int_text n"

definition METADATA_LABELS :: "(string \<times> string) list" where
  "METADATA_LABELS = [(''action'', ''Action''), (''assigned_by'', ''Assigned by''), (''changed_by'', ''Changed by''),
     (''deleted_by'', ''Deleted by''), (''granted_by'', ''Granted by''), (''new_role'', ''New role''),
     (''old_role'', ''Old role''), (''policy_name'', ''Policy''), (''purged_by'', ''Purged by''),
     (''reactivated_by'', ''Reactivated by''), (''reason'', ''Reason''), (''resource_type'', ''Resource type''),
     (''retained_actions'', ''Retained actions''), (''revoked_by'', ''Revoked by''),
     (''sessions_revoked'', ''Sessions revoked''), (''sessions_revoked_confirmed'', ''Sessions revoked'')]"

definition metadataLabel :: "string \<Rightarrow> string" where
  "metadataLabel key = (case map_of METADATA_LABELS key of Some l \<Rightarrow> l
     | None \<Rightarrow> js_join '' '' (map capitalize (filter truthy (js_split CHR ''_'' key))))"

definition is_plain_item :: "json \<Rightarrow> bool" where
  "is_plain_item v = (case v of JStr s \<Rightarrow> True | JNum n \<Rightarrow> True | JBool b \<Rightarrow> True | _ \<Rightarrow> False)"

fun metadataValue :: "json \<Rightarrow> string" where
  "metadataValue JNull = ''-''"
| "metadataValue (JBool b) = (if b then ''Yes'' else ''No'')"
| "metadataValue (JArr vs) = (if vs = [] then ''-''
     else js_join (if list_all is_plain_item vs then '', '' else [CHR 0x0A]) (map metadataValue vs))"
| "metadataValue (JObj kvs) = js_join [CHR 0x0A] (map (\<lambda>(k, v). metadataLabel k @ '': '' @ metadataValue v) kvs)"
| "metadataValue (JStr s) = s"
| "metadataValue (JNum n) = int_text n"

text \<open>The values shown as nothing at all: an empty text, an empty object, and a list of one of these.\<close>

fun blank_value :: "json \<Rightarrow> bool" where
  "blank_value (JStr s) = (s = [])"
| "blank_value (JObj kvs) = (kvs = [])"
| "blank_value (JArr vs) = (case vs of [v] \<Rightarrow> blank_value v | _ \<Rightarrow> False)"
| "blank_value _ = False"

lemma js_join_empty: "js_join sep xs = [] \<longleftrightarrow> xs = [] \<or> xs = [[]]" if "sep \<noteq> []" for xs
  using that by (cases "(sep, xs)" rule: js_join.cases) auto

lemma mapped_blank: "map f xs = [[]] \<longleftrightarrow> (\<exists>x. xs = [x] \<and> f x = [])"
  by (cases xs) auto

lemma int_text_nonempty [simp]: "int_text n \<noteq> []"
  by (simp add: int_text_def nat_text.simps)

text \<open>Only these are shown as nothing; everything else an entry carries leaves a text - in both drawers, provided a
  timestamp's text is not empty.\<close>

theorem blank_values:
  assumes "\<And>s. stamp s \<noteq> Some []"
  shows "(readableValue stamp v = [] \<longleftrightarrow> blank_value v) \<and> (metadataValue v = [] \<longleftrightarrow> blank_value v)"
proof (induction v)
  case (JArr vs)
  show ?case
  proof (cases vs)
    case (Cons x xs)
    with JArr show ?thesis by (cases xs) (auto simp: js_join_empty)
  qed simp
next
  case (JStr s)
  show ?case using assms [of s] by (auto simp: is_timestamp_def split: option.split)
qed (auto simp: js_join_empty mapped_blank)

theorem blank_values_witness:
  "readableValue (\<lambda>s. None) (JArr [JObj []]) = [] \<and> metadataValue (JArr [JNull, JStr []]) \<noteq> []"
  using blank_values [of "\<lambda>s. None" "JArr [JObj []]"] blank_values [of "\<lambda>s. None" "JArr [JNull, JStr []]"] by simp

section \<open>What an entry's drawer shows\<close>

record authorization_entry =
  ae_id :: int
  ae_user_email :: string
  ae_action :: string
  ae_resource_type :: string
  ae_resource_identifier :: "string option"
  ae_allowed :: bool
  ae_candidate_policy_names :: "string list"
  ae_granting_policy_names :: "string list"
  ae_failed_conditions :: "(string \<times> string list) list option"
  ae_context :: "(string \<times> json) list option"
  ae_created_at :: string

definition consideredNotGranting :: "authorization_entry \<Rightarrow> string list" where
  "consideredNotGranting e = filter (\<lambda>n. n \<notin> set (ae_granting_policy_names e)) (ae_candidate_policy_names e)"

datatype auth_section =
    DecisionSection bool string string "string option" string string
  | AuditRecordSection int
  | NoPoliciesConsidered
  | PoliciesSection "string list" "string list"
  | NoPolicyCovered
  | FailedConditions "(string \<times> string) list"
  | RequestContext "(string \<times> string) list"

definition policies_section :: "authorization_entry \<Rightarrow> auth_section" where
  "policies_section e = (if ae_granting_policy_names e = [] \<and> consideredNotGranting e = [] then NoPoliciesConsidered
     else PoliciesSection (ae_granting_policy_names e) (consideredNotGranting e))"

definition conditions_section :: "authorization_entry \<Rightarrow> auth_section list" where
  "conditions_section e = (if ae_allowed e then []
     else [case ae_failed_conditions e of
         Some (c # cs) \<Rightarrow> FailedConditions (map (\<lambda>(k, needed). (humanizeKey k, js_join '', '' needed)) (c # cs))
       | _ \<Rightarrow> NoPolicyCovered])"

definition context_section :: "(string \<Rightarrow> string option) \<Rightarrow> authorization_entry \<Rightarrow> auth_section list" where
  "context_section stamp e = (case ae_context e of
      Some (c # cs) \<Rightarrow> [RequestContext (map (\<lambda>(k, v). (humanizeKey k, readableValue stamp v)) (c # cs))]
    | _ \<Rightarrow> [])"

definition authorization_sections :: "(string \<Rightarrow> string option) \<Rightarrow> authorization_entry \<Rightarrow> auth_section list" where
  "authorization_sections stamp e =
     [DecisionSection (ae_allowed e) (formatPolicyActionLabel (ae_action e)) (formatResourceTypeLabel (ae_resource_type e))
        (Option.bind (ae_resource_identifier e) or_undefined) (ae_user_email e) (ae_created_at e),
      AuditRecordSection (ae_id e), policies_section e] @ conditions_section e @ context_section stamp e"

text \<open>The policies an entry names are all shown, each on its own side, and no policy that did not grant is shown as
  granting; failed conditions are shown for refusals only, all of them.\<close>

theorem authorization_drawer_faithful:
  "set (ae_granting_policy_names e) \<union> set (consideredNotGranting e)
      = set (ae_granting_policy_names e) \<union> set (ae_candidate_policy_names e)
   \<and> set (ae_granting_policy_names e) \<inter> set (consideredNotGranting e) = {}
   \<and> (policies_section e = NoPoliciesConsidered \<longleftrightarrow> ae_granting_policy_names e = [] \<and> ae_candidate_policy_names e = [])
   \<and> (conditions_section e = [] \<longleftrightarrow> ae_allowed e)
   \<and> (conditions_section e = [NoPolicyCovered] \<longleftrightarrow> \<not> ae_allowed e \<and> (ae_failed_conditions e = None \<or> ae_failed_conditions e = Some []))"
  by (auto simp: consideredNotGranting_def policies_section_def conditions_section_def filter_empty_conv
      split: option.split list.split)

record security_row = security_entry +
  sy_id :: int
  sy_success :: bool
  sy_ip_address :: "string option"
  sy_user_agent :: "string option"
  sy_request_id :: "string option"
  sy_created_at :: string

datatype security_section =
    EventSection bool string "string option" string
  | AccessChangeSection "(string \<times> string list) option" "(string \<times> string) list"
  | ClientSection "string option" bool "string option"
  | RequestSection "string option" int
  | MetadataSection "(string \<times> string) list"
  | NoMetadata

definition metadata_entries :: "security_row \<Rightarrow> (string \<times> json) list" where
  "metadata_entries e = (case se_event_metadata e of Some (JObj kvs) \<Rightarrow> kvs | _ \<Rightarrow> [])"

definition security_sections :: "security_row \<Rightarrow> security_section list" where
  "security_sections e = (let base = security_entry.truncate e in
     [EventSection (sy_success e) (humanizeIdentifier (se_event_type e)) (se_user_email e) (sy_created_at e)]
     @ (if securityAccessChangeDetails base \<noteq> []
        then [AccessChangeSection (securityAccessChangeSummary base) (securityAccessChangeDetails base)] else [])
     @ [ClientSection (sy_ip_address e) (case sy_ip_address e of Some ip \<Rightarrow> truthy ip | None \<Rightarrow> False) (sy_user_agent e),
        RequestSection (sy_request_id e) (sy_id e),
        if metadata_entries e = [] then NoMetadata
        else MetadataSection (map (\<lambda>(k, v). (metadataLabel k, metadataValue v)) (metadata_entries e))])"

text \<open>\<open>index\<close> and \<open>total\<close> in the header, when both are known.\<close>

definition drawer_position :: "int option \<Rightarrow> int option \<Rightarrow> (int \<times> int) option" where
  "drawer_position index totalRows = (case (index, totalRows) of (Some i, Some n) \<Rightarrow> Some (i, n) | _ \<Rightarrow> None)"

section \<open>One-click filters\<close>

datatype log_shortcut = OnlyUser string | OnlyAction string | OnlyIp string | OnlyEvent string

text \<open>The buttons of the footer; the list of the caller's own entries passes no handler for the user.\<close>

definition authorization_footer :: "bool \<Rightarrow> authorization_entry \<Rightarrow> log_shortcut list" where
  "authorization_footer mine e = (if mine then [] else [OnlyUser (ae_user_email e)]) @ [OnlyAction (ae_action e)]"

definition security_footer :: "bool \<Rightarrow> security_row \<Rightarrow> log_shortcut list" where
  "security_footer mine e =
     (case se_user_email e of Some u \<Rightarrow> if \<not> mine \<and> truthy u then [OnlyUser u] else [] | None \<Rightarrow> [])
     @ (case sy_ip_address e of Some ip \<Rightarrow> if truthy ip then [OnlyIp ip] else [] | None \<Rightarrow> [])
     @ [OnlyEvent (se_event_type e)]"

text \<open>A click sets its filter and closes the drawer.\<close>

fun authorization_shortcut :: "log_shortcut \<Rightarrow> authorization_filters \<times> 'e drawer \<Rightarrow> authorization_filters \<times> 'e drawer" where
  "authorization_shortcut (OnlyUser u) (f, d) = (f\<lparr>lf_search := u\<rparr>, drawer_closed)"
| "authorization_shortcut (OnlyAction a) (f, d) = (setAction a f, drawer_closed)"
| "authorization_shortcut _ fd = fd"

fun security_shortcut :: "log_shortcut \<Rightarrow> security_filters \<times> 'e drawer \<Rightarrow> security_filters \<times> 'e drawer" where
  "security_shortcut (OnlyUser u) (f, d) = (f\<lparr>lf_search := u\<rparr>, drawer_closed)"
| "security_shortcut (OnlyIp ip) (f, d) = (f\<lparr>sf_ipAddress := ip\<rparr>, drawer_closed)"
| "security_shortcut (OnlyEvent ty) (f, d) = (f\<lparr>sf_eventType := ty\<rparr>, drawer_closed)"
| "security_shortcut _ fd = fd"

text \<open>Every shortcut of the security drawer does what its label says, in the caller's own list and in that of all
  users: it closes the drawer, and its filter is among the chips with the entry's own value, the others kept.\<close>

theorem security_shortcut_filters:
  assumes "k \<in> set (security_footer mine e)" and "se_event_type e \<noteq> AUDIT_ALL_VALUE"
    and "(f', d') = security_shortcut k (f, d)"
  shows "d' = drawer_closed \<and> (case k of
      OnlyUser u \<Rightarrow> se_user_email e = Some u \<and> lf_search f' = u \<and> set (security_chips mine f') = insert SecSearchChip (set (security_chips mine f))
    | OnlyIp ip \<Rightarrow> sy_ip_address e = Some ip \<and> sf_ipAddress f' = ip \<and> set (security_chips mine f') = insert IpChip (set (security_chips mine f))
    | OnlyEvent ty \<Rightarrow> se_event_type e = ty \<and> sf_eventType f' = ty \<and> set (security_chips mine f') = insert EventTypeChip (set (security_chips mine f))
    | OnlyAction a \<Rightarrow> False)"
  using assms by (auto simp: security_footer_def security_chips_def split: option.split_asm if_split_asm)

definition security_row_example :: security_row where
  "security_row_example = \<lparr>se_event_type = ''login'', se_user_email = Some ''a@x'', se_event_metadata = None, sy_id = 7,
     sy_success = False, sy_ip_address = Some ''10.0.0.9'', sy_user_agent = None, sy_request_id = None,
     sy_created_at = ''2026-07-01T10:00:00Z''\<rparr>"

theorem security_shortcut_filters_witness:
  "set (security_chips True (fst (security_shortcut (OnlyIp ''10.0.0.9'') (security_defaults, drawer_closed :: nat drawer))))
     = insert IpChip (set (security_chips True security_defaults))"
  using security_shortcut_filters [of "OnlyIp ''10.0.0.9''" True security_row_example
      "fst (security_shortcut (OnlyIp ''10.0.0.9'') (security_defaults, drawer_closed :: nat drawer))"
      drawer_closed security_defaults drawer_closed]
  by (simp add: security_footer_def security_row_example_def AUDIT_ALL_VALUE_def truthy_def)

section \<open>The copy buttons\<close>

text \<open>The field that shows the check mark, and the timers that run: when each is due, and for which field it was
  started. The state is the drawer's, not the entry's: another entry shown in it finds the mark as it is.\<close>

definition COPIED_MS :: int where "COPIED_MS = 1500"

record 'f copy_state =
  cp_copiedField :: "'f option"
  cp_timers :: "(int \<times> 'f) list"

definition copy_mount :: "'f copy_state" where
  "copy_mount = \<lparr>cp_copiedField = None, cp_timers = []\<rparr>"

definition copy_click :: "int \<Rightarrow> 'f \<Rightarrow> 'f copy_state \<Rightarrow> 'f copy_state" where
  "copy_click now f s = \<lparr>cp_copiedField = Some f, cp_timers = cp_timers s @ [(now + COPIED_MS, f)]\<rparr>"

text \<open>What a timer does: the authorization drawer clears whatever field is marked, the security drawer its own.\<close>

definition clear_any :: "'f \<Rightarrow> 'f option \<Rightarrow> 'f option" where
  "clear_any f c = None"

definition clear_own :: "'f \<Rightarrow> 'f option \<Rightarrow> 'f option" where
  "clear_own f c = (if c = Some f then None else c)"

text \<open>The time reaches \<open>now\<close>: the timers due by then have run.\<close>

definition copy_time :: "('f \<Rightarrow> 'f option \<Rightarrow> 'f option) \<Rightarrow> int \<Rightarrow> 'f copy_state \<Rightarrow> 'f copy_state" where
  "copy_time clear now s = (let due = filter (\<lambda>(t, f). t \<le> now) (cp_timers s) in
     \<lparr>cp_copiedField = foldl (\<lambda>c (t, f). clear f c) (cp_copiedField s) due,
      cp_timers = filter (\<lambda>(t, f). now < t) (cp_timers s)\<rparr>)"

lemmas copy_defs = copy_click_def copy_time_def COPIED_MS_def clear_any_def clear_own_def Let_def

text \<open>A single copy is marked for a second and a half. But a second click, of the other field or of the same one, is
  not given its own time in the authorization drawer: the first click's timer takes the mark away. The security
  drawer's check of the field helps only between different fields - and it has one.\<close>

theorem copy_mark_cut_short:
  assumes "cp_timers s = []" and "0 \<le> d" and "d < COPIED_MS"
  shows "(\<forall>t. now \<le> t \<and> t < now + COPIED_MS \<longrightarrow> cp_copiedField (copy_time clear_any t (copy_click now f s)) = Some f)
    \<and> cp_copiedField (copy_time clear_any (now + COPIED_MS) (copy_click now f s)) = None
    \<and> cp_copiedField (copy_time clear_any (now + COPIED_MS) (copy_click (now + d) g (copy_time clear_any (now + d) (copy_click now f s)))) = None
    \<and> cp_copiedField (copy_time clear_own (now + COPIED_MS) (copy_click (now + d) f (copy_time clear_own (now + d) (copy_click now f s)))) = None
    \<and> (g \<noteq> f \<and> 0 < d \<longrightarrow> cp_copiedField (copy_time clear_own (now + COPIED_MS)
          (copy_click (now + d) g (copy_time clear_own (now + d) (copy_click now f s)))) = Some g)"
  using assms by (simp add: copy_defs)

theorem copy_mark_cut_short_witness:
  "cp_copiedField (copy_time clear_any 1500 (copy_click 1400 ''event'' (copy_time clear_any 1400 (copy_click 0 ''user'' copy_mount)))) = None"
  using copy_mark_cut_short [of copy_mount 1400 0 "''user''" "''event''"] by (simp add: copy_mount_def COPIED_MS_def)

section \<open>The keyboard of the drawer\<close>

datatype key_target = TypingTarget | OtherTarget

definition forward_keys :: "string list" where "forward_keys = [''j'', ''ArrowRight'', ''ArrowDown'']"

definition backward_keys :: "string list" where "backward_keys = [''k'', ''ArrowLeft'', ''ArrowUp'']"

text \<open>\<open>handleKeyDown\<close>: the arrow the key stands for, if any (\<open>True\<close> is the next one).\<close>

definition handleKeyDown :: "key_target \<Rightarrow> string \<Rightarrow> bool \<Rightarrow> bool \<Rightarrow> bool option" where
  "handleKeyDown target key previous_open next_open =
     (if target = TypingTarget then None
      else if key \<in> set forward_keys \<and> next_open then Some True
      else if key \<in> set backward_keys \<and> previous_open then Some False else None)"

text \<open>A key pressed in the drawer of a list; \<open>cached\<close> says whether a page the arrow crosses into is in the cache.\<close>

definition press :: "('e \<Rightarrow> 'k) \<Rightarrow> 'e list \<Rightarrow> bool \<Rightarrow> string \<Rightarrow> 'e drawer_state \<Rightarrow> 'e drawer_state" where
  "press row_id es cached key s =
     (case handleKeyDown OtherTarget key (canGoPrevious (ds_drawer s)) (canGoNext (log_query_of es (ds_page s) (ds_phase s)) (ds_drawer s)) of
        Some nxt \<Rightarrow> drawer_step row_id es s (if nxt then GoNext cached else GoPrevious cached)
      | None \<Rightarrow> s)"

text \<open>A press and then, before anything else happens, the arrival of the page it leads to.\<close>

definition press_and_arrive :: "('e \<Rightarrow> 'k) \<Rightarrow> 'e list \<Rightarrow> bool \<Rightarrow> string \<Rightarrow> 'e drawer_state \<Rightarrow> 'e drawer_state" where
  "press_and_arrive row_id es cached key s = drawer_step row_id es (press row_id es cached key s) PageArrives"

definition at_index :: "'e list \<Rightarrow> int \<Rightarrow> 'e drawer_state \<Rightarrow> bool" where
  "at_index es i s \<longleftrightarrow> drawer_ok es s \<and> ds_phase s = Settled \<and> dr_openGlobalIndex (ds_drawer s) = Some i"

lemma at_index_shows: "at_index es i s \<Longrightarrow> shown_entry es s = Some (es ! nat i)"
  unfolding at_index_def by (blast intro: settled_entry)

lemma at_index_bounds: "at_index es i s \<Longrightarrow> 0 \<le> i \<and> i < int (length es)"
  by (auto simp: at_index_def drawer_ok_def)

lemma key_moves:
  assumes "dr_openGlobalIndex (ds_drawer s) = Some i" and "ds_phase s = Settled"
  shows "canGoPrevious (ds_drawer s) \<longleftrightarrow> 0 < i"
    and "canGoNext (log_query_of es (ds_page s) (ds_phase s)) (ds_drawer s) \<longleftrightarrow> i < int (length es) - 1"
  using assms by (auto simp: canGoPrevious_def canGoNext_def log_query_of_def toPageResult_def)

lemma press_forward:
  assumes "at_index es i s" and "key \<in> set forward_keys"
  shows "at_index es (min (i + 1) (int (length es) - 1)) (press_and_arrive row_id es cached key s)"
proof -
  note s = assms(1) [unfolded at_index_def]
  show ?thesis
  proof (cases "i < int (length es) - 1")
    case True
    then have "press_and_arrive row_id es cached key s = foldl (drawer_step row_id es) s [GoNext cached, PageArrives]"
      using assms(2) s key_moves [of s i] by (simp add: press_and_arrive_def press_def handleKeyDown_def)
    moreover have "dr_openGlobalIndex (ds_drawer (drawer_step row_id es s (GoNext cached))) = Some (i + 1)"
      using s True by (intro next_index) simp_all
    moreover have "drawer_ok es (foldl (drawer_step row_id es) s [GoNext cached, PageArrives])"
      using s by (intro drawer.run_inv) simp
    ultimately show ?thesis using True by (simp add: at_index_def arrives)
  next
    case False
    moreover from False have "i = int (length es) - 1" using at_index_bounds [OF assms(1)] by simp
    moreover have "key \<notin> set backward_keys" using assms(2) by (auto simp: forward_keys_def backward_keys_def)
    ultimately show ?thesis using assms key_moves [of s i] s drawer_step_ok [of es s row_id PageArrives]
      by (simp add: press_and_arrive_def press_def handleKeyDown_def at_index_def arrives)
  qed
qed

text \<open>Going back needs no page: the index moves whatever has arrived.\<close>

lemma press_backward:
  assumes "drawer_ok es s" and "dr_openGlobalIndex (ds_drawer s) = Some i" and "key \<in> set backward_keys"
  shows "drawer_ok es (press row_id es cached key s)
    \<and> dr_openGlobalIndex (ds_drawer (press row_id es cached key s)) = Some (max (i - 1) 0)"
proof -
  have other: "key \<notin> set forward_keys" using assms(3) by (auto simp: forward_keys_def backward_keys_def)
  have i: "0 \<le> i" "canGoPrevious (ds_drawer s) \<longleftrightarrow> 0 < i" using assms(1,2) by (auto simp: drawer_ok_def canGoPrevious_def)
  show ?thesis
  proof (cases "0 < i")
    case True
    then have "press row_id es cached key s = drawer_step row_id es s (GoPrevious cached)"
      using assms(3) other i by (simp add: press_def handleKeyDown_def)
    then show ?thesis using drawer_step_ok [OF assms(1)] previous_index [OF assms(2) True, of row_id es cached] True by simp
  next
    case False
    then show ?thesis using assms i other by (simp add: press_def handleKeyDown_def)
  qed
qed

lemma press_loading: "ds_phase s = Loading \<Longrightarrow> key \<in> set forward_keys \<Longrightarrow> press row_id es cached key s = s"
  by (auto simp: press_def handleKeyDown_def canGoNext_def log_query_of_def forward_keys_def backward_keys_def split: option.split)

text \<open>C21. The keyboard walks the open drawer through the list, across the borders of pages, and stops at its ends. Where every
  page arrives before the next press, n presses of a forward key (an arrow or \<open>j\<close>) show the entry n further on, or the last one. Backward
  (an arrow or \<open>k\<close>) no press is lost even if nothing arrives: n presses stand n entries before, or at the first, which
  shows once its page is there. But a forward key pressed while the page is loading does nothing, so a held
  key walks on only as pages arrive; and nothing moves while the reader types.\<close>

theorem keys_walk_log:
  assumes "s = foldl (drawer_step row_id es) drawer_mount evs" and "dr_openGlobalIndex (ds_drawer s) = Some i"
    and "ds_phase s = Settled" and "key \<in> set forward_keys" and "back \<in> set backward_keys"
  shows "shown_entry es (((\<lambda>t. press_and_arrive row_id es (cached t) key t) ^^ n) s)
        = Some (es ! nat (min (i + int n) (int (length es) - 1)))
    \<and> dr_openGlobalIndex (ds_drawer (((\<lambda>t. press row_id es (cached t) back t) ^^ n) s)) = Some (max (i - int n) 0)
    \<and> shown_entry es (drawer_step row_id es (((\<lambda>t. press row_id es (cached t) back t) ^^ n) s) PageArrives)
        = Some (es ! nat (max (i - int n) 0))
    \<and> (ds_phase t = Loading \<longrightarrow> press row_id es b key t = t)
    \<and> handleKeyDown TypingTarget key b1 b2 = None"
proof -
  let ?fwd = "\<lambda>t. press_and_arrive row_id es (cached t) key t" and ?bwd = "\<lambda>t. press row_id es (cached t) back t"
  have start: "at_index es i s"
    using assms(2,3) drawer.run_inv [OF drawer_mount_ok] unfolding at_index_def assms(1) by blast
  have "at_index es (min (i + int n) (int (length es) - 1)) ((?fwd ^^ n) s)"
  proof (induction n)
    case 0
    then show ?case using start at_index_bounds [OF start] by simp
  next
    case (Suc n)
    have "min (min (i + int n) (int (length es) - 1) + 1) (int (length es) - 1) = min (i + int (Suc n)) (int (length es) - 1)"
      by linarith
    with press_forward [OF Suc assms(4), of row_id "cached ((?fwd ^^ n) s)"] show ?case by simp
  qed
  moreover have backs: "drawer_ok es ((?bwd ^^ n) s) \<and> dr_openGlobalIndex (ds_drawer ((?bwd ^^ n) s)) = Some (max (i - int n) 0)"
  proof (induction n)
    case 0
    then show ?case using start at_index_bounds [OF start] by (simp add: at_index_def)
  next
    case (Suc n)
    have "max (max (i - int n) 0 - 1) 0 = max (i - int (Suc n)) 0" by linarith
    with press_backward [OF conjunct1 [OF Suc] conjunct2 [OF Suc] assms(5), of row_id "cached ((?bwd ^^ n) s)"] show ?case by simp
  qed
  moreover have "shown_entry es (drawer_step row_id es ((?bwd ^^ n) s) PageArrives) = Some (es ! nat (max (i - int n) 0))"
    using backs drawer_step_ok [of es "(?bwd ^^ n) s" row_id PageArrives] by (intro settled_entry) (simp_all add: arrives)
  ultimately show ?thesis by (simp add: at_index_shows handleKeyDown_def press_loading assms(4))
qed

theorem keys_walk_log_witness:
  "shown_entry [7, 8, 9 :: nat] (((\<lambda>t. press_and_arrive id [7, 8, 9] False ''j'' t) ^^ 5)
      (foldl (drawer_step id [7, 8, 9]) drawer_mount [PageArrives, ClickRow 7])) = Some 9"
proof -
  let ?s = "foldl (drawer_step id [7, 8, 9 :: nat]) drawer_mount [PageArrives, ClickRow 7]"
  have "dr_openGlobalIndex (ds_drawer ?s) = Some 0" "ds_phase ?s = Settled"
    by (simp_all add: drawer_step_def drawer_mount_def drawer_closed_def onRowClick_def log_query_of_def toPageResult_def
        AUDIT_PAGE_SIZE_def Let_def)
  from keys_walk_log [OF refl this, of "''j''" "''k''" 5 "\<lambda>t. False"] show ?thesis by (simp add: forward_keys_def backward_keys_def)
qed

end
