(* ===== verification/Controls.thy ===== *)
theory Controls
  imports PolicyForm
begin

text \<open>
  The controls the pages share, and what they decide: the select with its stand-in for the empty value
  (\<open>StyledSelect.tsx\<close>), the keyboard of the segmented control (\<open>SegmentedControl.tsx\<close>), the confirmation dialog
  that keeps its text while it closes (\<open>ConfirmDialog.tsx\<close>), the hint of the search box (\<open>SearchInput.tsx\<close>), the
  number of a stat tile (\<open>StatTile.tsx\<close>), the tooltip of an icon button (\<open>TableActionIconButton.tsx\<close>), relative times
  (\<open>dateFormatters.ts\<close>) - and the grid of switches in the policy form (\<open>PolicyActionGrid.tsx\<close>).
\<close>

section \<open>StyledSelect\<close>

definition EMPTY_VALUE_SENTINEL :: string where "EMPTY_VALUE_SENTINEL = ''__styled_select_empty__''"

definition toRadixValue :: "string \<Rightarrow> string" where
  "toRadixValue value = (if value = [] then EMPTY_VALUE_SENTINEL else value)"

definition fromRadixValue :: "string \<Rightarrow> string" where
  "fromRadixValue value = (if value = EMPTY_VALUE_SENTINEL then [] else value)"

text \<open>Options are pairs of a value and a label.\<close>

record select_props =
  sl_value :: string
  sl_options :: "(string \<times> string) list"
  sl_disabled :: bool
  sl_isLoading :: bool
  sl_placeholder :: "string option"

definition select_hasMatch :: "select_props \<Rightarrow> bool" where
  "select_hasMatch p \<longleftrightarrow> sl_value p \<in> fst ` set (sl_options p)"

definition select_radixValue :: "select_props \<Rightarrow> string" where
  "select_radixValue p = (if sl_isLoading p \<or> \<not> select_hasMatch p then [] else toRadixValue (sl_value p))"

definition select_items :: "select_props \<Rightarrow> (string \<times> string) list" where
  "select_items p = map (\<lambda>(v, l). (toRadixValue v, l)) (sl_options p)"

text \<open>The trigger: disabled or not, and the text it shows, that of the checked item or the placeholder.\<close>

definition select_enabled :: "select_props \<Rightarrow> bool" where
  "select_enabled p \<longleftrightarrow> \<not> (sl_disabled p \<or> sl_isLoading p)"

definition select_text :: "select_props \<Rightarrow> string option" where
  "select_text p = (case map_of (select_items p) (select_radixValue p) of
      Some l \<Rightarrow> Some l
    | None \<Rightarrow> if sl_isLoading p then Some ''loading'' else sl_placeholder p)"

text \<open>The library hands the value of the chosen item to \<open>onValueChange\<close>; the native select beside it hands the option's
  own. Both end in \<open>onChange\<close>.\<close>

definition select_choose :: "select_props \<Rightarrow> nat \<Rightarrow> string option" where
  "select_choose p i = (if select_enabled p \<and> i < length (select_items p)
     then Some (fromRadixValue (fst (select_items p ! i))) else None)"

definition native_choose :: "select_props \<Rightarrow> nat \<Rightarrow> string option" where
  "native_choose p i = (if select_enabled p \<and> i < length (sl_options p) then Some (fst (sl_options p ! i)) else None)"

text \<open>The key the control is mounted under.\<close>

definition select_key :: "select_props \<Rightarrow> string" where
  "select_key p = (if length (sl_options p) > 0 then ''loaded'' else ''loading'')"

lemma radix_inverse: "v \<noteq> EMPTY_VALUE_SENTINEL \<Longrightarrow> fromRadixValue (toRadixValue v) = v"
  by (simp add: toRadixValue_def fromRadixValue_def)

lemma radix_injective: "v \<noteq> EMPTY_VALUE_SENTINEL \<Longrightarrow> w \<noteq> EMPTY_VALUE_SENTINEL \<Longrightarrow> toRadixValue v = toRadixValue w \<longleftrightarrow> v = w"
  by (metis radix_inverse)

lemma toRadixValue_nonempty [simp]: "toRadixValue v \<noteq> []"
  by (simp add: toRadixValue_def EMPTY_VALUE_SENTINEL_def)

lemma select_items_lookup:
  assumes "EMPTY_VALUE_SENTINEL \<notin> fst ` set os" and "v \<noteq> EMPTY_VALUE_SENTINEL"
  shows "map_of (map (\<lambda>(v, l). (toRadixValue v, l)) os) (toRadixValue v) = map_of os v"
  using assms by (induction os) (auto simp: radix_injective)

text \<open>The stand-in for the empty value never shows through: whatever is chosen, by the list or by the native select,
  the caller gets the option's own value, the empty one included; the library is never given an empty item; and
  the trigger shows the label of the option that has the caller's value, a placeholder exactly when none has.\<close>

theorem select_stands_in:
  assumes "EMPTY_VALUE_SENTINEL \<notin> insert (sl_value p) (fst ` set (sl_options p))"
  shows "select_choose p i = native_choose p i \<and> [] \<notin> fst ` set (select_items p)
    \<and> (\<not> sl_isLoading p \<longrightarrow> select_text p = (case map_of (sl_options p) (sl_value p) of Some l \<Rightarrow> Some l | None \<Rightarrow> sl_placeholder p))
    \<and> (sl_isLoading p \<longrightarrow> select_text p = Some ''loading'' \<and> select_choose p i = None)"
proof -
  have ne: "[] \<notin> fst ` set (select_items p)"
    by (auto simp: select_items_def) (metis toRadixValue_nonempty)
  then have none: "map_of (select_items p) [] = None" by (simp add: map_of_eq_None_iff)
  have "select_choose p i = native_choose p i"
  proof (cases "i < length (sl_options p)")
    case True
    then have "sl_options p ! i \<in> set (sl_options p)" by simp
    then have "fst (sl_options p ! i) \<noteq> EMPTY_VALUE_SENTINEL" using assms by (metis image_eqI insertI2)
    with True show ?thesis
      by (simp add: select_choose_def native_choose_def select_items_def split_beta radix_inverse)
  qed (simp add: select_choose_def native_choose_def select_items_def)
  moreover have "select_text p = (case map_of (sl_options p) (sl_value p) of Some l \<Rightarrow> Some l | None \<Rightarrow> sl_placeholder p)"
    if "\<not> sl_isLoading p"
  proof (cases "select_hasMatch p")
    case True
    then have "select_radixValue p = toRadixValue (sl_value p)" using that by (simp add: select_radixValue_def)
    moreover have "map_of (select_items p) (toRadixValue (sl_value p)) = map_of (sl_options p) (sl_value p)"
      unfolding select_items_def using assms by (intro select_items_lookup) auto
    ultimately show ?thesis using that by (simp add: select_text_def)
  next
    case False
    then have "map_of (sl_options p) (sl_value p) = None" by (simp add: select_hasMatch_def map_of_eq_None_iff)
    with False that none show ?thesis by (simp add: select_text_def select_radixValue_def)
  qed
  ultimately show ?thesis
    using ne none by (simp add: select_text_def select_radixValue_def select_choose_def select_enabled_def)
qed

theorem select_stands_in_witness:
  "select_choose \<lparr>sl_value = ''user'', sl_options = [([], ''All roles''), (''user'', ''User'')], sl_disabled = False,
     sl_isLoading = False, sl_placeholder = None\<rparr> 0 = Some []"
  using select_stands_in [of "\<lparr>sl_value = ''user'', sl_options = [([], ''All roles''), (''user'', ''User'')], sl_disabled = False,
     sl_isLoading = False, sl_placeholder = None\<rparr>" 0]
  by (simp add: EMPTY_VALUE_SENTINEL_def native_choose_def select_enabled_def)

section \<open>SegmentedControl\<close>

definition segment_next :: "nat \<Rightarrow> string \<Rightarrow> nat \<Rightarrow> nat" where
  "segment_next n key index =
     (if key = ''ArrowRight'' \<or> key = ''ArrowDown'' then (index + 1) mod n
      else if key = ''ArrowLeft'' \<or> key = ''ArrowUp'' then (index + n - 1) mod n
      else if key = ''Home'' then 0 else if key = ''End'' then n - 1 else index)"

text \<open>A key on the button with an index: the value chosen, if another one, and the button that has the focus then.\<close>

definition activateByKeyboard :: "string list \<Rightarrow> string \<Rightarrow> nat \<Rightarrow> string option \<times> nat" where
  "activateByKeyboard values key index = (let nextIndex = segment_next (length values) key index in
     if nextIndex \<noteq> index then (Some (values ! nextIndex), nextIndex) else (None, index))"

text \<open>The roles and the tab order of a button.\<close>

definition segment_tabIndex :: "bool \<Rightarrow> string \<Rightarrow> string \<Rightarrow> int option" where
  "segment_tabIndex tabRole value option_value = (if tabRole then Some (if option_value = value then 0 else - 1) else None)"

text \<open>From every button every other one is reached by arrow keys, round the ends; the two directions undo each other;
  the focus always ends on a button, and the value chosen is that button's.\<close>

theorem segments_reachable:
  assumes "index < length values"
  shows "((segment_next (length values) ''ArrowRight'') ^^ k) index = (index + k) mod length values
    \<and> segment_next (length values) ''ArrowLeft'' (segment_next (length values) ''ArrowRight'' index) = index
    \<and> snd (activateByKeyboard values key index) < length values
    \<and> (\<forall>v. fst (activateByKeyboard values key index) = Some v \<longrightarrow> v = values ! snd (activateByKeyboard values key index))"
proof -
  have n: "0 < length values" using assms by linarith
  have "((segment_next (length values) ''ArrowRight'') ^^ k) index = (index + k) mod length values"
    using assms by (induction k) (simp_all add: segment_next_def mod_Suc_eq)
  moreover have "segment_next (length values) ''ArrowLeft'' (segment_next (length values) ''ArrowRight'' index) = index"
  proof (cases "Suc index = length values")
    case False
    with assms have "Suc index < length values" by simp
    then show ?thesis using assms by (simp add: segment_next_def)
  qed (use n in \<open>simp add: segment_next_def\<close>)
  ultimately show ?thesis using n assms by (simp add: activateByKeyboard_def segment_next_def Let_def)
qed

theorem segments_reachable_witness:
  "((segment_next (length [''all'', ''true'', ''false'']) ''ArrowRight'') ^^ 4) 1 = 2"
  using segments_reachable [of 1 "[''all'', ''true'', ''false'']" 4, THEN conjunct1] by simp

section \<open>ConfirmDialog\<close>

type_synonym confirm_content = "string \<times> string \<times> string option"

text \<open>One render with its props: open or not, and title, description and label.\<close>

definition confirm_render :: "confirm_content \<Rightarrow> bool \<times> confirm_content \<Rightarrow> confirm_content" where
  "confirm_render s p = (if fst p \<and> s \<noteq> snd p then snd p else s)"

record confirm_buttons =
  cb_cancel :: bool
  cb_confirm :: bool
  cb_retry :: bool
  cb_confirmLabel :: string

definition confirm_buttons_of :: "bool \<Rightarrow> bool \<Rightarrow> bool \<Rightarrow> confirm_content \<Rightarrow> confirm_buttons" where
  "confirm_buttons_of isLoading confirmDisabled has_retry s = \<lparr>cb_cancel = (\<not> isLoading),
     cb_confirm = (\<not> (confirmDisabled \<or> isLoading)), cb_retry = has_retry,
     cb_confirmLabel = (case snd (snd s) of Some l \<Rightarrow> l | None \<Rightarrow> ''confirm'')\<rparr>"

text \<open>After any renders the dialog shows the text of the last one in which it was open; so it shows its caller's text
  whenever it is open, and goes on showing the last such text while it closes, whatever the caller has cleared.\<close>

theorem confirm_text_frozen:
  "foldl confirm_render s ps = (case filter fst ps of [] \<Rightarrow> s | q # qs \<Rightarrow> snd (last (q # qs)))
   \<and> foldl confirm_render s (ps @ [(True, c)] @ map (Pair False) cs) = c"
proof
  have step: "foldl confirm_render s ps = (if filter fst ps = [] then s else snd (last (filter fst ps)))" for s ps
    by (induction ps rule: rev_induct) (auto simp: confirm_render_def)
  then show "foldl confirm_render s ps = (case filter fst ps of [] \<Rightarrow> s | q # qs \<Rightarrow> snd (last (q # qs)))"
    by (simp split: list.split)
  show "foldl confirm_render s (ps @ [(True, c)] @ map (Pair False) cs) = c"
    unfolding step by (simp add: filter_map o_def)
qed

section \<open>SearchInput, StatTile, TableActionIconButton\<close>

definition SEARCH_QUERY_MAX_LENGTH :: nat where "SEARCH_QUERY_MAX_LENGTH = 100"

datatype search_hint = HintSpinner | HintCount nat

definition search_hint_of :: "string \<Rightarrow> bool \<Rightarrow> nat option \<Rightarrow> search_hint option" where
  "search_hint_of value isFetching totalResults =
     (if js_trim value = [] then None else if isFetching then Some HintSpinner else map_option HintCount totalResults)"

datatype tile_value = TileSkeleton | TileDash | TileNumber nat

definition tile_value_of :: "bool \<Rightarrow> bool \<Rightarrow> nat option \<Rightarrow> tile_value" where
  "tile_value_of isLoading isError value = (if isLoading then TileSkeleton
     else case value of Some n \<Rightarrow> if isError then TileDash else TileNumber n | None \<Rightarrow> TileDash)"

definition tooltipText :: "bool \<Rightarrow> string option \<Rightarrow> string \<Rightarrow> string" where
  "tooltipText disabled disabledLabel label =
     (case disabledLabel of Some l \<Rightarrow> if disabled \<and> truthy l then l else label | None \<Rightarrow> label)"

section \<open>Relative times\<close>

definition RELATIVE_UNITS :: "(string \<times> int) list" where
  "RELATIVE_UNITS = [(''year'', 365 * 24 * 60 * 60), (''month'', 30 * 24 * 60 * 60), (''week'', 7 * 24 * 60 * 60),
     (''day'', 24 * 60 * 60), (''hour'', 60 * 60), (''minute'', 60)]"

text \<open>The number and the unit the text is made of, from two times in milliseconds.\<close>

fun relative_unit :: "int \<Rightarrow> (string \<times> int) list \<Rightarrow> int \<times> string" where
  "relative_unit seconds [] = (0, ''second'')"
| "relative_unit seconds ((unit, unitSeconds) # us) =
     (if seconds \<ge> unitSeconds then (- (seconds div unitSeconds), unit) else relative_unit seconds us)"

definition elapsed_seconds :: "int \<Rightarrow> int \<Rightarrow> int" where
  "elapsed_seconds now time = max 0 ((now - time) div 1000)"

definition formatRelativeTime :: "int \<Rightarrow> int \<Rightarrow> int \<times> string" where
  "formatRelativeTime now time = relative_unit (elapsed_seconds now time) RELATIVE_UNITS"

text \<open>A relative time is never in the future, never off by a whole unit, and stays below the next unit: at most 59
  minutes, 23 hours, 6 days, 4 weeks, 12 months; less than a minute, and any time ahead of the clock, is "now".\<close>

theorem relative_time_bounds:
  assumes "formatRelativeTime now time = (n, unit)"
  shows "n \<le> 0 \<and> (unit = ''second'' \<longleftrightarrow> now - time < 60000) \<and> (unit = ''second'' \<longrightarrow> n = 0)
    \<and> (unit \<noteq> ''second'' \<longrightarrow> (\<exists>k. (unit, k) \<in> set RELATIVE_UNITS \<and> n < 0
        \<and> - n * k \<le> elapsed_seconds now time \<and> elapsed_seconds now time < (- n + 1) * k))
    \<and> (unit = ''minute'' \<longrightarrow> - n \<le> 59) \<and> (unit = ''hour'' \<longrightarrow> - n \<le> 23) \<and> (unit = ''day'' \<longrightarrow> - n \<le> 6)
    \<and> (unit = ''week'' \<longrightarrow> - n \<le> 4) \<and> (unit = ''month'' \<longrightarrow> - n \<le> 12)"
proof -
  define s where "s = elapsed_seconds now time"
  have s: "0 \<le> s" "s < 60 \<longleftrightarrow> now - time < 60000" by (auto simp: s_def elapsed_seconds_def)
  have q: "- (- (s div k)) * k \<le> s \<and> s < (- (- (s div k)) + 1) * k" if "0 < k" for k
  proof -
    have "s = k * (s div k) + s mod k" by (rule mult_div_mod_eq [symmetric])
    moreover have "0 \<le> s mod k" "s mod k < k" using that by (rule pos_mod_sign, rule pos_mod_bound)
    moreover have "- (- (s div k)) * k = k * (s div k)" "(- (- (s div k)) + 1) * k = k * (s div k) + k"
      by (simp_all add: algebra_simps)
    ultimately show ?thesis by linarith
  qed
  have unit: "(n, unit) = (if 31536000 \<le> s then (- (s div 31536000), ''year'')
      else if 2592000 \<le> s then (- (s div 2592000), ''month'') else if 604800 \<le> s then (- (s div 604800), ''week'')
      else if 86400 \<le> s then (- (s div 86400), ''day'') else if 3600 \<le> s then (- (s div 3600), ''hour'')
      else if 60 \<le> s then (- (s div 60), ''minute'') else (0, ''second''))"
    unfolding assms [symmetric] formatRelativeTime_def RELATIVE_UNITS_def s_def [symmetric] by simp
  have pos: "0 < s div k" if "0 < k" "k \<le> s" for k using that by (simp add: pos_imp_zdiv_pos_iff)
  have below: "s div k \<le> m" if "0 < k" "s < (m + 1) * k" for k m
  proof (rule ccontr)
    assume "\<not> s div k \<le> m"
    then have "(m + 1) * k \<le> s div k * k" using that by (intro mult_right_mono) simp_all
    moreover have "s div k * k \<le> s" using q [OF that(1)] by simp
    ultimately show False using that by linarith
  qed
  have small: "s < 60 \<longleftrightarrow> now - time < 60000" by (rule s(2))
  consider (known) k m where "(unit, k) \<in> set RELATIVE_UNITS" "unit \<noteq> ''second''" "60 \<le> k" "k \<le> s" "n = - (s div k)"
      "(unit, m) \<in> {(''minute'', 59), (''hour'', 23), (''day'', 6), (''week'', 4), (''month'', 12)} \<and> s < (m + 1) * k \<or> unit = ''year''"
    | (now) "unit = ''second''" "n = 0" "s < 60"
  proof (cases "s < 60")
    case False
    note pick = known [unfolded RELATIVE_UNITS_def]
    consider "31536000 \<le> s" | "2592000 \<le> s" "s < 31536000" | "604800 \<le> s" "s < 2592000" | "86400 \<le> s" "s < 604800"
      | "3600 \<le> s" "s < 86400" | "60 \<le> s" "s < 3600" using False by linarith
    then show ?thesis
    proof cases
      case 1
      then have "unit = ''year''" "n = - (s div 31536000)" using unit by simp_all
      with 1 show ?thesis by (intro pick [of 31536000 0]) simp_all
    next
      case 2
      then have "unit = ''month''" "n = - (s div 2592000)" using unit by simp_all
      with 2 show ?thesis by (intro pick [of 2592000 12]) simp_all
    next
      case 3
      then have "unit = ''week''" "n = - (s div 604800)" using unit by simp_all
      with 3 show ?thesis by (intro pick [of 604800 4]) simp_all
    next
      case 4
      then have "unit = ''day''" "n = - (s div 86400)" using unit by simp_all
      with 4 show ?thesis by (intro pick [of 86400 6]) simp_all
    next
      case 5
      then have "unit = ''hour''" "n = - (s div 3600)" using unit by simp_all
      with 5 show ?thesis by (intro pick [of 3600 23]) simp_all
    next
      case 6
      then have "unit = ''minute''" "n = - (s div 60)" using unit by simp_all
      with 6 show ?thesis by (intro pick [of 60 59]) simp_all
    qed
  qed (use unit now in simp)
  then show ?thesis
  proof cases
    case (known k m)
    have "0 < s div k" using known by (intro pos) simp_all
    moreover have "s div k * k \<le> s \<and> s < (s div k + 1) * k" using q [of k] known(3) by simp
    moreover have "\<not> s < 60" using known by simp
    moreover have "s div k \<le> m" if "unit \<noteq> ''year''" using below [of k m] known that by auto
    ultimately show ?thesis using known small unfolding s_def [symmetric] by auto
  next
    case now
    then show ?thesis using small by simp
  qed
qed

theorem relative_time_bounds_witness:
  "formatRelativeTime 7200000 0 = (- 2, ''hour'') \<and> - (- 2) \<le> (23 :: int)"
proof -
  have t: "formatRelativeTime 7200000 0 = (- 2, ''hour'')"
    by (simp add: formatRelativeTime_def elapsed_seconds_def RELATIVE_UNITS_def)
  from relative_time_bounds [OF this] t show ?thesis by simp
qed

section \<open>PolicyActionGrid\<close>

datatype grid_filter = GridAll | GridSelected | GridDestructive

record action_grid =
  ag_search :: string
  ag_quickFilter :: grid_filter

definition grid_mount :: action_grid where
  "grid_mount = \<lparr>ag_search = [], ag_quickFilter = GridAll\<rparr>"

text \<open>Options are pairs of an action and its label.\<close>

definition grid_shown :: "(string \<times> string) list \<Rightarrow> string list \<Rightarrow> action_grid \<Rightarrow> (string \<times> string) list" where
  "grid_shown options values g = (let q = js_lower (js_trim (ag_search g)) in
     filter (\<lambda>(v, l). (\<not> truthy q \<or> js_includes (js_lower l) q)
       \<and> (case ag_quickFilter g of GridAll \<Rightarrow> True | GridSelected \<Rightarrow> v \<in> set values | GridDestructive \<Rightarrow> isDestructiveAction v)) options)"

definition grid_toggle :: "string \<Rightarrow> string list \<Rightarrow> string list" where
  "grid_toggle v values = (if v \<in> set values then filter (\<lambda>x. x \<noteq> v) values else values @ [v])"

definition grid_segments :: "(string \<times> string) list \<Rightarrow> string list \<Rightarrow> (grid_filter \<times> nat) list" where
  "grid_segments options values = [(GridAll, length options),
     (GridSelected, length (filter (\<lambda>v. v \<in> fst ` set options) values)),
     (GridDestructive, length (filter (\<lambda>(v, l). isDestructiveAction v) options))]"

text \<open>The body: a note, or the rows with their action, label, destructive badge and whether the switch is on.\<close>

datatype grid_body = GridChooseType | GridNoActions | GridNoMatch | GridRows "(string \<times> string \<times> bool \<times> bool) list"

definition grid_body_of :: "bool \<Rightarrow> (string \<times> string) list \<Rightarrow> string list \<Rightarrow> action_grid \<Rightarrow> grid_body" where
  "grid_body_of disabled options values g =
     (if disabled then GridChooseType else if options = [] then GridNoActions
      else if grid_shown options values g = [] then GridNoMatch
      else GridRows (map (\<lambda>(v, l). (v, l, isDestructiveAction v, v \<in> set values)) (grid_shown options values g)))"

text \<open>A click on the row turns its action over, a click on its switch does so by the switch's own handler only.\<close>

datatype grid_target = GridRowArea | GridSwitch

definition grid_click :: "grid_target \<Rightarrow> string \<Rightarrow> string list \<Rightarrow> string list" where
  "grid_click target v values =
     (let by_row = (if target = GridSwitch then values else grid_toggle v values)
      in if target = GridSwitch then grid_toggle v by_row else by_row)"

datatype grid_event = GridClick grid_target string | GridSearch string | GridFilter grid_filter

fun grid_step :: "string list \<times> action_grid \<Rightarrow> grid_event \<Rightarrow> string list \<times> action_grid" where
  "grid_step (values, g) (GridClick target v) = (grid_click target v values, g)"
| "grid_step (values, g) (GridSearch q) = (values, g\<lparr>ag_search := q\<rparr>)"
| "grid_step (values, g) (GridFilter k) = (values, g\<lparr>ag_quickFilter := k\<rparr>)"

lemma grid_click_toggles [simp]: "grid_click target v values = grid_toggle v values"
  by (simp add: grid_click_def Let_def)

lemma grid_toggle_set: "set (grid_toggle v values) = (if v \<in> set values then set values - {v} else insert v (set values))"
  by (auto simp: grid_toggle_def)

interpretation action_grid: event_machine grid_step "\<lambda>s. distinct (fst s)"
proof
  show "distinct (fst (grid_step s e))" if "distinct (fst s)" for s e
    using that by (cases s; cases e) (auto simp: grid_toggle_def)
qed

definition grid_clicks :: "grid_event list \<Rightarrow> string \<Rightarrow> nat" where
  "grid_clicks es v = length (filter (\<lambda>e. \<exists>target. e = GridClick target v) es)"

lemma grid_run_parity:
  "v \<in> set (fst (foldl grid_step s es)) \<longleftrightarrow> (v \<in> set (fst s)) = even (grid_clicks es v)"
proof (induction es arbitrary: s)
  case (Cons e es)
  have "v \<in> set (fst (grid_step s e)) \<longleftrightarrow> (v \<in> set (fst s)) = even (grid_clicks [e] v)"
    by (cases s; cases e) (auto simp: grid_clicks_def grid_toggle_set)
  moreover have "grid_clicks (e # es) v = grid_clicks [e] v + grid_clicks es v" by (simp add: grid_clicks_def)
  ultimately show ?case using Cons [of "grid_step s e"] by simp blast
qed (simp add: grid_clicks_def)

text \<open>The grid of switches edits a set: after any clicks, searches and filters an action is chosen exactly when it
  was turned over an odd number of times since it was not (or an even number since it was), none is listed twice,
  and actions the grid does not show keep their state. The number on a quick filter is the number of rows it lists.\<close>

theorem action_grid_edits:
  assumes "distinct values" and "distinct (map fst options)" and "(values', g') = foldl grid_step (values, grid_mount) es"
  shows "distinct values' \<and> (\<forall>v. v \<in> set values' \<longleftrightarrow> (v \<in> set values) = even (grid_clicks es v))
    \<and> (\<forall>v. grid_clicks es v = 0 \<longrightarrow> (v \<in> set values' \<longleftrightarrow> v \<in> set values))
    \<and> (\<forall>k n. (k, n) \<in> set (grid_segments options values') \<longrightarrow>
        n = length (grid_shown options values' \<lparr>ag_search = [], ag_quickFilter = k\<rparr>))"
proof -
  have dist: "distinct values'"
    using action_grid.run_inv [of "(values, grid_mount)" es] assms(1) unfolding assms(3) [symmetric] by simp
  have parity: "v \<in> set values' \<longleftrightarrow> (v \<in> set values) = even (grid_clicks es v)" for v
    using grid_run_parity [of v "(values, grid_mount)" es] unfolding assms(3) [symmetric] by simp
  have "length (filter (\<lambda>v. v \<in> fst ` set options) values') = length (filter (\<lambda>(v, l). v \<in> set values') options)"
  proof -
    have "length (filter (\<lambda>(v, l). v \<in> set values') options) = length (filter (\<lambda>v. v \<in> set values') (map fst options))"
      by (simp add: filter_map o_def case_prod_unfold)
    also have "\<dots> = card (set (filter (\<lambda>v. v \<in> set values') (map fst options)))"
      using assms(2) by (intro distinct_card [symmetric] distinct_filter)
    also have "set (filter (\<lambda>v. v \<in> set values') (map fst options)) = set (filter (\<lambda>v. v \<in> fst ` set options) values')"
      by auto
    also have "card \<dots> = length (filter (\<lambda>v. v \<in> fst ` set options) values')"
      using dist by (intro distinct_card distinct_filter)
    finally show ?thesis by simp
  qed
  moreover have "js_lower (js_trim []) = []" by (simp add: js_trim_def js_trim_start_def js_trim_end_def js_lower_def)
  ultimately show ?thesis
    using dist parity by (auto simp: grid_segments_def grid_shown_def truthy_def)
qed

theorem action_grid_edits_witness:
  "''users:purge'' \<in> set (fst (foldl grid_step ([''users:read''], grid_mount)
      [GridSearch ''purge'', GridClick GridSwitch ''users:purge'', GridSearch [], GridClick GridRowArea ''users:read'']))"
proof -
  let ?es = "[GridSearch ''purge'', GridClick GridSwitch ''users:purge'', GridSearch [], GridClick GridRowArea ''users:read'']"
  have "grid_clicks ?es ''users:purge'' = 1" by (simp add: grid_clicks_def)
  then show ?thesis
    using action_grid_edits [of "[''users:read'']" "[]" "fst (foldl grid_step ([''users:read''], grid_mount) ?es)"
        "snd (foldl grid_step ([''users:read''], grid_mount) ?es)" ?es]
    by simp
qed

end
