(* ===== verification/AppPages.thy ===== *)
theory AppPages
  imports ApiClient
begin

text \<open>
  The application's own pages besides the resume editor: the tracked applications with the select of their status
  and the pager (\<open>app/applications/ApplicationsPage.tsx\<close>, \<open>app/ui/Pager.tsx\<close>), the career knowledge base with its
  editable copy (\<open>app/career_knowledge/CareerKnowledgePage.tsx\<close>), and the two steps that create a resume
  (\<open>app/resume_builder/ResumeSetupPage.tsx\<close>, \<open>ResumeTemplatePickerPage.tsx\<close>). A page is a machine over its state; what
  the server answers is part of the events.
\<close>

section \<open>Pager\<close>

definition pager_hasNextPage :: "nat \<Rightarrow> nat option \<Rightarrow> bool" where
  "pager_hasNextPage limit rowCount \<longleftrightarrow> rowCount = Some limit"

text \<open>The number of the page and which of the two buttons are enabled; nothing when there is nothing to page through.\<close>

definition pager_view :: "nat \<Rightarrow> nat \<Rightarrow> nat option \<Rightarrow> (nat \<times> bool \<times> bool) option" where
  "pager_view limit offset rowCount = (if offset = 0 \<and> \<not> pager_hasNextPage limit rowCount then None
     else Some (offset div limit + 1, offset > 0, pager_hasNextPage limit rowCount))"

definition pager_previous :: "nat \<Rightarrow> nat \<Rightarrow> nat" where
  "pager_previous limit offset = offset - limit"

definition pager_next :: "nat \<Rightarrow> nat \<Rightarrow> nat" where
  "pager_next limit offset = offset + limit"

text \<open>A page of a list as the server cuts it.\<close>

definition server_page :: "nat \<Rightarrow> 'a list \<Rightarrow> nat \<Rightarrow> 'a list" where
  "server_page limit xs offset = take limit (drop offset xs)"

definition pager_click :: "nat \<Rightarrow> 'a list \<Rightarrow> nat \<Rightarrow> bool \<Rightarrow> nat" where
  "pager_click limit xs offset forward = (case pager_view limit offset (Some (length (server_page limit xs offset))) of
      Some (n, prev_on, next_on) \<Rightarrow> if forward \<and> next_on then pager_next limit offset
        else if \<not> forward \<and> prev_on then pager_previous limit offset else offset
    | None \<Rightarrow> offset)"

definition pager_ok :: "nat \<Rightarrow> 'a list \<Rightarrow> nat \<Rightarrow> bool" where
  "pager_ok limit xs offset \<longleftrightarrow> limit dvd offset \<and> offset \<le> length xs"

lemma pager_click_eq:
  "pager_click limit xs offset forward =
     (if forward then if offset + limit \<le> length xs then offset + limit else offset else offset - limit)"
  if "0 < limit" "offset \<le> length xs"
  using that by (auto simp: pager_click_def pager_view_def pager_hasNextPage_def server_page_def pager_next_def pager_previous_def)

interpretation pager: event_machine "\<lambda>offset. pager_click limit xs offset" "\<lambda>offset. 0 < limit \<longrightarrow> pager_ok limit xs offset"
  for limit and xs :: "'a list"
proof
  show "0 < limit \<longrightarrow> pager_ok limit xs (pager_click limit xs offset e)" if "0 < limit \<longrightarrow> pager_ok limit xs offset" for offset e
    using that by (auto simp: pager_ok_def pager_click_eq)
qed

lemma server_page_has: "xs ! i \<in> set (server_page limit xs k)" if "k \<le> i" "i < k + limit" "i < length xs"
proof -
  have "xs ! i = server_page limit xs k ! (i - k)" "i - k < length (server_page limit xs k)"
    using that by (auto simp: server_page_def)
  then show ?thesis by simp
qed

text \<open>Next and Previous keep whole pages: wherever they lead, the page starts at a multiple of the page size and not
  behind the list. Every row is reached: with as many clicks on Next as there are pages before it its page is shown.
  But a list that ends with a full page has one more, empty page behind it.\<close>

theorem pager_reaches_rows:
  assumes "0 < limit" and "i < length xs"
  shows "pager_ok limit xs (foldl (pager_click limit xs) 0 es)
    \<and> foldl (pager_click limit xs) 0 (replicate (i div limit) True) = i div limit * limit
    \<and> xs ! i \<in> set (server_page limit xs (i div limit * limit))
    \<and> (limit dvd length xs \<longrightarrow>
        server_page limit xs (foldl (pager_click limit xs) 0 (replicate (length xs div limit) True)) = [])"
proof -
  have walk: "foldl (pager_click limit xs) 0 (replicate k True) = k * limit" if "k * limit \<le> length xs" for k
    using that
  proof (induction k)
    case (Suc k)
    have "replicate (Suc k) True = replicate k True @ [True]" by (simp add: replicate_append_same)
    then have "foldl (pager_click limit xs) 0 (replicate (Suc k) True) = pager_click limit xs (k * limit) True"
      using Suc by simp
    then show ?case using Suc.prems assms(1) by (simp add: pager_click_eq)
  qed simp
  have le: "i div limit * limit \<le> i" "i < i div limit * limit + limit"
    using assms(1) div_mod_decomp [of i limit] mod_less_divisor [of limit i] by linarith+
  have "pager_ok limit xs (foldl (pager_click limit xs) 0 es)"
    using pager.run_inv [of limit xs 0 es] assms(1) by (simp add: pager_ok_def)
  moreover have "xs ! i \<in> set (server_page limit xs (i div limit * limit))"
    by (rule server_page_has [OF le assms(2)])
  moreover have "server_page limit xs (foldl (pager_click limit xs) 0 (replicate (length xs div limit) True)) = []"
    if "limit dvd length xs"
    using that walk [of "length xs div limit"] by (simp add: server_page_def)
  ultimately show ?thesis using walk [of "i div limit"] le assms(2) by simp
qed

theorem pager_reaches_rows_witness:
  "server_page 2 [5, 6 :: nat] (foldl (pager_click 2 [5, 6 :: nat]) 0 (replicate 1 True)) = []"
  using pager_reaches_rows [of 2 0 "[5, 6 :: nat]"] by simp

section \<open>Deleting an application\<close>

definition APPLICATIONS_PAGE_SIZE :: nat where "APPLICATIONS_PAGE_SIZE = 20"

definition STATUS_OPTIONS :: "string list" where
  "STATUS_OPTIONS = [''applied'', ''interviewing'', ''offered'', ''rejected'']"

text \<open>The pending deletion carries what its closure has captured: the id, and whether the row was the last of its page.\<close>

record applications_page =
  apl_offset :: nat
  apl_deletingApp :: "int option"
  apl_pending :: "(int \<times> bool) option"

definition applications_mount :: applications_page where
  "applications_mount = \<lparr>apl_offset = 0, apl_deletingApp = None, apl_pending = None\<rparr>"

definition applications_request :: "applications_page \<Rightarrow> http_request" where
  "applications_request s = listApplicationsApi (Some (int APPLICATIONS_PAGE_SIZE)) (Some (int (apl_offset s)))"

definition applications_rows :: "int list \<Rightarrow> applications_page \<Rightarrow> int list" where
  "applications_rows apps s = server_page APPLICATIONS_PAGE_SIZE apps (apl_offset s)"

definition isLastRowOnThisPage :: "int list option \<Rightarrow> nat \<Rightarrow> bool" where
  "isLastRowOnThisPage applications offset \<longleftrightarrow> map_option length applications = Some 1 \<and> offset > 0"

definition applications_handleDeleteConfirm ::
  "int list option \<Rightarrow> applications_page \<Rightarrow> applications_page \<times> http_request option" where
  "applications_handleDeleteConfirm applications s = (case apl_deletingApp s of
      None \<Rightarrow> (s, None)
    | Some i \<Rightarrow> (s\<lparr>apl_pending := Some (i, isLastRowOnThisPage applications (apl_offset s))\<rparr>, Some (deleteApplicationApi i)))"

definition applications_delete_settled :: "bool \<Rightarrow> applications_page \<Rightarrow> applications_page" where
  "applications_delete_settled ok s = (case apl_pending s of
      None \<Rightarrow> s
    | Some (i, last_row) \<Rightarrow> if ok
        then s\<lparr>apl_pending := None, apl_deletingApp := None,
          apl_offset := (if last_row then apl_offset s - APPLICATIONS_PAGE_SIZE else apl_offset s)\<rparr>
        else s\<lparr>apl_pending := None\<rparr>)"

lemma shown_row_offset: "i \<in> set (applications_rows apps s) \<Longrightarrow> apl_offset s < length apps"
  by (cases "apl_offset s < length apps") (simp_all add: applications_rows_def server_page_def)

text \<open>C30. Deleting a row leads to a page that shows something: with the row of a shown page confirmed and the page not
  turned in between, the page afterwards has rows, unless no application is left at all; a deletion that fails
  moves nothing and keeps the dialog open.\<close>

theorem delete_keeps_rows:
  assumes "distinct apps" and "APPLICATIONS_PAGE_SIZE dvd apl_offset s" and "i \<in> set (applications_rows apps s)"
    and "apl_deletingApp s = Some i"
    and "s1 = fst (applications_handleDeleteConfirm (Some (applications_rows apps s)) s)"
  shows "snd (applications_handleDeleteConfirm (Some (applications_rows apps s)) s) = Some (deleteApplicationApi i)
    \<and> (applications_rows (remove1 i apps) (applications_delete_settled True s1) = [] \<longrightarrow> apps = [i])
    \<and> APPLICATIONS_PAGE_SIZE dvd apl_offset (applications_delete_settled True s1)
    \<and> apl_deletingApp (applications_delete_settled True s1) = None
    \<and> apl_offset (applications_delete_settled False s1) = apl_offset s
    \<and> apl_deletingApp (applications_delete_settled False s1) = Some i"
proof -
  let ?o = "apl_offset s" and ?n = APPLICATIONS_PAGE_SIZE
  let ?last = "isLastRowOnThisPage (Some (applications_rows apps s)) ?o"
  have s1: "s1 = s\<lparr>apl_pending := Some (i, ?last)\<rparr>" "snd (applications_handleDeleteConfirm (Some (applications_rows apps s)) s) = Some (deleteApplicationApi i)"
    using assms(4,5) by (simp_all add: applications_handleDeleteConfirm_def)
  have i: "i \<in> set apps" using assms(3) by (auto simp: applications_rows_def server_page_def dest: in_set_takeD in_set_dropD)
  have len: "length (remove1 i apps) = length apps - 1" using i by (simp add: length_remove1)
  have rows: "length (applications_rows apps s) = min ?n (length apps - ?o)" by (simp add: applications_rows_def server_page_def)
  have off: "?o < length apps" by (rule shown_row_offset [OF assms(3)])
  have n: "0 < ?n" by (simp add: APPLICATIONS_PAGE_SIZE_def)
  have "apl_offset (applications_delete_settled True s1) < length apps - 1 \<or> length apps = 1"
  proof (cases ?last)
    case True
    then have "?o > 0" "length (applications_rows apps s) = 1" by (simp_all add: isLastRowOnThisPage_def)
    moreover have "?n \<le> ?o" using assms(2) \<open>?o > 0\<close> by (rule dvd_imp_le)
    ultimately show ?thesis using off n True by (simp add: s1 applications_delete_settled_def)
  next
    case False
    then have "?o = 0 \<or> length (applications_rows apps s) \<noteq> 1" by (auto simp: isLastRowOnThisPage_def)
    then have "?o < length apps - 1 \<or> length apps = 1"
      using off rows n by (cases "length apps") (auto simp: APPLICATIONS_PAGE_SIZE_def)
    then show ?thesis using False by (simp add: s1 applications_delete_settled_def)
  qed
  then have "applications_rows (remove1 i apps) (applications_delete_settled True s1) \<noteq> [] \<or> length apps = 1"
    using len n by (auto simp: applications_rows_def server_page_def)
  moreover have "apps = [i]" if "length apps = 1" using that i by (cases apps) auto
  moreover have "?n dvd apl_offset (applications_delete_settled True s1)"
    using assms(2) by (auto simp: s1 applications_delete_settled_def intro: dvd_diff_nat)
  ultimately show ?thesis
    using s1(2) assms(4) by (auto simp: s1(1) applications_delete_settled_def)
qed

text \<open>Forty applications and the only row of the third page deleted: the second page is shown.\<close>

theorem delete_keeps_rows_witness:
  "apl_offset (applications_delete_settled True (fst (applications_handleDeleteConfirm
      (Some (applications_rows (map int [0..<41]) \<lparr>apl_offset = 40, apl_deletingApp = Some 40, apl_pending = None\<rparr>))
      \<lparr>apl_offset = 40, apl_deletingApp = Some 40, apl_pending = None\<rparr>))) = 20
   \<and> applications_rows (remove1 40 (map int [0..<41])) \<lparr>apl_offset = 20, apl_deletingApp = None, apl_pending = None\<rparr> \<noteq> []"
  using delete_keeps_rows [of "map int [0..<41]" "\<lparr>apl_offset = 40, apl_deletingApp = Some 40, apl_pending = None\<rparr>" 40]
  by (simp add: distinct_map applications_rows_def server_page_def APPLICATIONS_PAGE_SIZE_def drop_map
      applications_handleDeleteConfirm_def applications_delete_settled_def isLastRowOnThisPage_def upt_rec
      length_remove1 remove1_append)

section \<open>The status of an application in the table\<close>

text \<open>\<open>stc_server\<close> is the status the row is rendered with, \<open>stc_pending\<close> the running update with what its error callback
  puts back.\<close>

record status_select =
  stc_localStatus :: string
  stc_prevServerStatus :: string
  stc_server :: string
  stc_pending :: "string option"

definition status_cell_mount :: "string \<Rightarrow> status_select" where
  "status_cell_mount status = \<lparr>stc_localStatus = status, stc_prevServerStatus = status, stc_server = status, stc_pending = None\<rparr>"

definition status_cell_sync :: "status_select \<Rightarrow> status_select" where
  "status_cell_sync s = (if stc_server s \<noteq> stc_prevServerStatus s \<and> stc_pending s = None
     then s\<lparr>stc_localStatus := stc_server s, stc_prevServerStatus := stc_server s\<rparr> else s)"

datatype status_event = PickStatus string | RowRefetched string | StatusSaved | StatusRefused

definition status_handleChange :: "string \<Rightarrow> status_select \<Rightarrow> status_select" where
  "status_handleChange nextStatus s = s\<lparr>stc_localStatus := nextStatus, stc_pending := Some (stc_localStatus s)\<rparr>"

text \<open>The select is disabled while an update runs; a settled update without one changes nothing.\<close>

fun status_event_effect :: "status_select \<Rightarrow> status_event \<Rightarrow> status_select" where
  "status_event_effect s (PickStatus v) =
     (if stc_pending s = None \<and> v \<in> set STATUS_OPTIONS then status_handleChange v s else s)"
| "status_event_effect s (RowRefetched v) = s\<lparr>stc_server := v\<rparr>"
| "status_event_effect s StatusSaved = s\<lparr>stc_pending := None\<rparr>"
| "status_event_effect s StatusRefused = (case stc_pending s of
      Some previous \<Rightarrow> s\<lparr>stc_localStatus := previous, stc_pending := None\<rparr> | None \<Rightarrow> s)"

definition status_cell_step :: "status_select \<Rightarrow> status_event \<Rightarrow> status_select" where
  "status_cell_step s e = status_cell_sync (status_event_effect s e)"

definition status_pick_request :: "int \<Rightarrow> string \<Rightarrow> http_request" where
  "status_pick_request i v = updateApplicationApi i
     \<lparr>au_company_name = None, au_application_date = None, au_application_time = None, au_status = Some v\<rparr>"

definition status_cell_ok :: "status_select \<Rightarrow> bool" where
  "status_cell_ok s \<longleftrightarrow> (stc_pending s = None \<longrightarrow> stc_prevServerStatus s = stc_server s)"

interpretation status_select: event_machine status_cell_step status_cell_ok
  by unfold_locales (auto simp: status_cell_step_def status_cell_sync_def status_cell_ok_def)

lemma status_during_update:
  "foldl status_cell_step s (map RowRefetched vs) = s\<lparr>stc_server := last (stc_server s # vs)\<rparr>" if "stc_pending s \<noteq> None"
  using that by (induction vs arbitrary: s) (auto simp: status_cell_step_def status_cell_sync_def)

text \<open>What the select of an application's status shows. The pick shows at once. Whatever the row's refetches bring
  while the update runs is not shown, but when the update has settled, the server's status is shown if it has changed;
  if it has not, an accepted update leaves the pick and a refused one brings back the status from before it.\<close>

theorem status_cell_settles:
  assumes "s0 = foldl status_cell_step (status_cell_mount status) es" and "stc_pending s0 = None"
    and "pick \<in> set STATUS_OPTIONS" and "s1 = foldl status_cell_step s0 (PickStatus pick # map RowRefetched served)"
    and "now = last (stc_server s0 # served)"
  shows "stc_localStatus s1 = pick \<and> stc_pending s1 = Some (stc_localStatus s0)
    \<and> stc_localStatus (status_cell_step s1 StatusSaved) = (if now \<noteq> stc_server s0 then now else pick)
    \<and> stc_localStatus (status_cell_step s1 StatusRefused) = (if now \<noteq> stc_server s0 then now else stc_localStatus s0)
    \<and> stc_pending (status_cell_step s1 StatusRefused) = None"
proof -
  have synced: "stc_prevServerStatus s0 = stc_server s0"
    using status_select.run_inv [of "status_cell_mount status" es] assms(1,2) by (simp add: status_cell_ok_def status_cell_mount_def)
  have "status_cell_step s0 (PickStatus pick) = status_handleChange pick s0"
    using assms(2,3) by (simp add: status_cell_step_def status_cell_sync_def status_handleChange_def)
  then have "s1 = (status_handleChange pick s0)\<lparr>stc_server := now\<rparr>"
    using assms(4,5) status_during_update [of "status_handleChange pick s0" served] by (simp add: status_handleChange_def)
  then show ?thesis using synced by (simp add: status_handleChange_def status_cell_step_def status_cell_sync_def)
qed

theorem status_cell_settles_witness:
  "stc_localStatus (status_cell_step (foldl status_cell_step (status_cell_mount ''applied'')
     (PickStatus ''offered'' # map RowRefetched [])) StatusRefused) = ''applied''"
proof -
  let ?s0 = "status_cell_mount ''applied''"
  have s0: "?s0 = foldl status_cell_step ?s0 []" "stc_pending ?s0 = None" "''offered'' \<in> set STATUS_OPTIONS"
    "stc_server ?s0 = last (stc_server ?s0 # [])" "stc_localStatus ?s0 = ''applied''"
    by (simp_all add: STATUS_OPTIONS_def status_cell_mount_def)
  show ?thesis
    using status_cell_settles [OF s0(1-3) refl s0(4)] by (simp only: s0(5) simp_thms if_False)
qed

text \<open>The other side of it: if the first refetch after an accepted update brings the status from before the pick (another tab
  has set it back meanwhile), the select goes on showing the pick, through every later refetch that brings the same.\<close>

theorem status_cell_misses_reset:
  "let s = foldl status_cell_step (status_cell_mount ''applied'') ([PickStatus ''offered'', StatusSaved] @ replicate n (RowRefetched ''applied''))
   in stc_server s = ''applied'' \<and> stc_localStatus s = ''offered''"
proof -
  let ?s = "foldl status_cell_step (status_cell_mount ''applied'') [PickStatus ''offered'', StatusSaved]"
  have s: "?s = \<lparr>stc_localStatus = ''offered'', stc_prevServerStatus = ''applied'', stc_server = ''applied'', stc_pending = None\<rparr>"
    by (simp add: status_cell_mount_def status_cell_step_def status_cell_sync_def status_handleChange_def STATUS_OPTIONS_def)
  have "foldl status_cell_step ?s (replicate n (RowRefetched ''applied'')) = ?s" unfolding s
    by (induction n) (simp_all add: status_cell_step_def status_cell_sync_def)
  then show ?thesis unfolding Let_def foldl_append s by simp
qed

section \<open>Career knowledge base\<close>

text \<open>\<open>ck_data\<close> is the content of the cached knowledge base (None: none, or not loaded), \<open>ck_saving\<close> the content of a running
  save.\<close>

record career_page =
  ck_data :: "string option"
  ck_rawInput :: string
  ck_content :: string
  ck_prevContent :: "string option"
  ck_saving :: "string option"

definition career_mount :: career_page where
  "career_mount = \<lparr>ck_data = None, ck_rawInput = '''', ck_content = '''', ck_prevContent = None, ck_saving = None\<rparr>"

definition career_sync :: "career_page \<Rightarrow> career_page" where
  "career_sync s = (case ck_data s of
      Some c \<Rightarrow> if ck_prevContent s \<noteq> Some c then s\<lparr>ck_prevContent := Some c, ck_content := c\<rparr> else s
    | None \<Rightarrow> s)"

definition career_isDirty :: "career_page \<Rightarrow> bool" where
  "career_isDirty s = (case ck_data s of Some c \<Rightarrow> ck_content s \<noteq> c | None \<Rightarrow> ck_rawInput s \<noteq> '''')"

definition career_create_disabled :: "career_page \<Rightarrow> bool" where
  "career_create_disabled s \<longleftrightarrow> js_trim (ck_rawInput s) = ''''"

definition career_save_disabled :: "career_page \<Rightarrow> bool" where
  "career_save_disabled s \<longleftrightarrow> \<not> career_isDirty s \<or> js_trim (ck_content s) = ''''"

text \<open>What happens: loading or another reader brings the data, the caller types into the shown form, a creation or a deletion
  succeeds, a save is sent, succeeds with the server's copy, or fails.\<close>

datatype career_event = CareerLoaded "string option" | TypeRaw string | TypeContent string | CareerCreated string
  | CareerDeleted | SaveClicked | CareerSaved string | CareerSaveFailed

fun career_effect :: "career_page \<Rightarrow> career_event \<Rightarrow> career_page" where
  "career_effect s (CareerLoaded d) = s\<lparr>ck_data := d\<rparr>"
| "career_effect s (TypeRaw t) = (if ck_data s = None then s\<lparr>ck_rawInput := t\<rparr> else s)"
| "career_effect s (TypeContent t) = (if ck_data s \<noteq> None then s\<lparr>ck_content := t\<rparr> else s)"
| "career_effect s (CareerCreated c) = s\<lparr>ck_data := Some c, ck_rawInput := ''''\<rparr>"
| "career_effect s CareerDeleted = s\<lparr>ck_data := None\<rparr>"
| "career_effect s SaveClicked = (if ck_data s \<noteq> None \<and> \<not> career_save_disabled s \<and> ck_saving s = None
     then s\<lparr>ck_saving := Some (ck_content s)\<rparr> else s)"
| "career_effect s (CareerSaved c) = s\<lparr>ck_data := Some c, ck_saving := None\<rparr>"
| "career_effect s CareerSaveFailed = s\<lparr>ck_saving := None\<rparr>"

definition career_step :: "career_page \<Rightarrow> career_event \<Rightarrow> career_page" where
  "career_step s e = career_sync (career_effect s e)"

definition career_handleCreate :: "career_page \<Rightarrow> http_request" where
  "career_handleCreate s = createCareerKnowledgeBaseApi (ck_rawInput s)"

definition career_handleSave :: "career_page \<Rightarrow> http_request" where
  "career_handleSave s = updateCareerKnowledgeBaseApi None (Some (ck_content s))"

definition career_ok :: "career_page \<Rightarrow> bool" where
  "career_ok s \<longleftrightarrow> (\<forall>c. ck_data s = Some c \<longrightarrow> ck_prevContent s = Some c)"

lemma career_sync_ok: "career_ok (career_sync s)"
  by (cases "ck_data s") (simp_all add: career_ok_def career_sync_def)

interpretation career: event_machine career_step career_ok
  by unfold_locales (simp add: career_step_def career_sync_ok)

lemma career_step_data: "ck_data (career_step s e) = ck_data (career_effect s e)"
  by (simp add: career_step_def career_sync_def split: option.split)

text \<open>The knowledge base's editor follows the server. After any events: a server's copy
  equal to the one the editor has already taken leaves the edit alone, another replaces it; a failed save leaves it; and when a save whose content the
  server stores as sent comes back, the editor holds that content and nothing is unsaved, even if the caller has
  typed on while it ran: that is lost.\<close>

theorem career_editor_follows:
  assumes "s = foldl career_step career_mount es" and "ck_data s = Some c"
  shows "ck_content (career_step s (CareerLoaded (Some d))) = (if d = c then ck_content s else d)
    \<and> ck_content (career_step s CareerSaveFailed) = ck_content s
    \<and> (\<not> career_save_disabled s \<longrightarrow> ck_saving s = None \<longrightarrow>
        ck_saving (career_step s SaveClicked) = Some (ck_content s)
        \<and> ck_content (foldl career_step s [SaveClicked, TypeContent later, CareerSaved (ck_content s)]) = ck_content s
        \<and> \<not> career_isDirty (foldl career_step s [SaveClicked, TypeContent later, CareerSaved (ck_content s)]))"
proof -
  have "career_ok s" using career.run_inv [of career_mount es] assms(1) by (simp add: career_ok_def career_mount_def)
  then have "ck_prevContent s = Some c" using assms(2) by (simp add: career_ok_def)
  then show ?thesis using assms(2)
    by (auto simp: career_step_def career_sync_def career_save_disabled_def career_isDirty_def)
qed

theorem career_editor_follows_witness:
  "ck_content (foldl career_step (foldl career_step career_mount [CareerLoaded (Some ''A''), TypeContent ''B''])
     [SaveClicked, TypeContent ''BC'', CareerSaved ''B'']) = ''B''"
  using career_editor_follows [of _ "[CareerLoaded (Some ''A''), TypeContent ''B'']" "''A''" "''A''" "''BC''"]
  by (simp add: career_mount_def career_step_def career_sync_def career_save_disabled_def career_isDirty_def
      js_trim_def js_trim_start_def js_trim_end_def)

text \<open>Starting over does not forget the edit: if the new knowledge base comes out with the old content, the unsaved text from
  before the deletion is back in the editor, as an unsaved change of the new one.\<close>

theorem start_over_keeps_edit:
  assumes "edit \<noteq> c"
  shows "let s = foldl career_step career_mount [CareerLoaded (Some c), TypeContent edit, CareerDeleted, TypeRaw raw, CareerCreated c]
    in ck_data s = Some c \<and> ck_content s = edit \<and> career_isDirty s \<and> ck_rawInput s = ''''"
  using assms by (simp add: career_mount_def career_step_def career_sync_def career_isDirty_def)

theorem start_over_keeps_edit_witness:
  "ck_content (foldl career_step career_mount [CareerLoaded (Some ''A''), TypeContent ''B'', CareerDeleted, TypeRaw ''r'', CareerCreated ''A'']) = ''B''"
  using start_over_keeps_edit [of "''B''" "''A''" "''r''"] by (simp add: Let_def)

section \<open>Creating a resume\<close>

text \<open>The state the two steps hand each other through the location, with both fields possibly missing.\<close>

record resume_setup =
  rsu_title :: "string option"
  rsu_jobDescription :: "string option"

lemma dropWhile_idem: "dropWhile p (dropWhile p xs) = dropWhile p xs"
  by (induction xs) auto

lemma dropWhile_rev_start: "dropWhile p xs = xs \<Longrightarrow> dropWhile p (rev (dropWhile q (rev xs))) = rev (dropWhile q (rev xs))"
  if "\<And>c. p c = q c"
proof (cases "rev (dropWhile q (rev xs))")
  case (Cons y ys)
  assume xs: "dropWhile p xs = xs"
  have "xs = rev (dropWhile q (rev xs)) @ rev (takeWhile q (rev xs))"
    by (metis rev_append rev_rev_ident takeWhile_dropWhile_id)
  then have "hd xs = y" "xs \<noteq> []" using Cons by (metis append_Cons list.sel(1), auto)
  then have "\<not> p y" using xs by (metis hd_dropWhile)
  then show ?thesis using Cons by simp
next
  case Nil
  then have "dropWhile q (rev xs) = []" by simp
  then show ?thesis by (simp only: rev.simps dropWhile.simps)
qed

lemma js_trim_idem: "js_trim (js_trim s) = js_trim s"
  by (simp add: js_trim_def js_trim_start_def js_trim_end_def dropWhile_idem dropWhile_rev_start)

definition setup_mount :: "resume_setup option \<Rightarrow> string \<times> string" where
  "setup_mount loc = (case loc of
      None \<Rightarrow> (''My resume'', '''')
    | Some p \<Rightarrow> (case rsu_title p of Some t \<Rightarrow> t | None \<Rightarrow> ''My resume'',
        case rsu_jobDescription p of Some j \<Rightarrow> j | None \<Rightarrow> ''''))"

definition canContinue :: "string \<Rightarrow> string \<Rightarrow> bool" where
  "canContinue title jobDescription \<longleftrightarrow> length (js_trim title) > 0 \<and> length (js_trim jobDescription) > 0"

definition setup_continue :: "string \<Rightarrow> string \<Rightarrow> resume_setup option" where
  "setup_continue title jobDescription = (if canContinue title jobDescription
     then Some \<lparr>rsu_title = Some (js_trim title), rsu_jobDescription = Some (js_trim jobDescription)\<rparr> else None)"

definition missing_text :: "string option \<Rightarrow> bool" where
  "missing_text v \<longleftrightarrow> v = None \<or> v = Some ''''"

definition picker_redirects :: "resume_setup \<Rightarrow> bool" where
  "picker_redirects setup \<longleftrightarrow> missing_text (rsu_title setup) \<or> missing_text (rsu_jobDescription setup)"

definition DEFAULT_TEMPLATE :: string where "DEFAULT_TEMPLATE = ''classic_single_column''"

definition picker_create :: "resume_setup \<Rightarrow> string \<Rightarrow> http_request" where
  "picker_create setup selectedKey = createBuilderWorkspaceApi
     (let t = (case rsu_title setup of Some t \<Rightarrow> js_trim t | None \<Rightarrow> '''') in if truthy t then t else ''My resume'')
     (case rsu_jobDescription setup of Some j \<Rightarrow> js_trim j | None \<Rightarrow> '''') selectedKey"

definition picker_use_disabled :: "bool \<Rightarrow> string \<Rightarrow> bool" where
  "picker_use_disabled loading selectedKey \<longleftrightarrow> loading \<or> selectedKey = ''''"

text \<open>The two steps fit: whatever the first step lets through the second does not send back, it creates the resume with
  exactly the trimmed texts and the chosen template, and going back to the first step shows the same texts and can
  continue again to the same place.\<close>

theorem resume_wizard_fits:
  assumes "setup_continue title job = Some setup"
  shows "\<not> picker_redirects setup
    \<and> picker_create setup key = createBuilderWorkspaceApi (js_trim title) (js_trim job) key
    \<and> setup_mount (Some setup) = (js_trim title, js_trim job)
    \<and> (case setup_mount (Some setup) of (t, j) \<Rightarrow> setup_continue t j = Some setup)"
  using assms by (auto simp: setup_continue_def canContinue_def picker_redirects_def missing_text_def picker_create_def truthy_def
      setup_mount_def js_trim_idem split: if_splits)

theorem resume_wizard_fits_witness:
  "\<not> picker_redirects \<lparr>rsu_title = Some ''CV'', rsu_jobDescription = Some ''Dev''\<rparr>"
  using resume_wizard_fits [of "'' CV''" "''Dev ''" _ "''k''"]
  by (simp add: setup_continue_def canContinue_def js_trim_def js_trim_start_def js_trim_end_def is_space_def)

end
