(* ===== verification/Dashboard.thy ===== *)
theory Dashboard
  imports Navigation AccessDialog ActiveSessions UsersView
begin

text \<open>
  The dashboard (\<open>dashboard/DashboardPage.tsx\<close>, \<open>DashboardIdentityCard.tsx\<close>, \<open>OperationsShortcutsCard.tsx\<close>,
  \<open>usePreviousLoginQuery.ts\<close>, \<open>layout/app_layout/initialsFor.ts\<close>) and the account status of the settings page
  (\<open>account_settings/AccountStatusCard.tsx\<close>): which shortcuts are offered and what their figures say, which login counts as
  the previous one, and what a caller is told about their own access. What the queries hold is an input.
\<close>

section \<open>Operations shortcuts\<close>

datatype dash_tile = TileUsers | TilePolicies | TilePermissions | TileRateLimits | TileSecurity

definition DASH_TILES :: "dash_tile list" where
  "DASH_TILES = [TileUsers, TilePolicies, TilePermissions, TileRateLimits, TileSecurity]"

fun tile_permission :: "dash_tile \<Rightarrow> string" where
  "tile_permission TileUsers = PERM ''USERS_LIST_ALL''"
| "tile_permission TilePolicies = PERM ''POLICIES_READ''"
| "tile_permission TilePermissions = PERM ''PERMISSIONS_READ''"
| "tile_permission TileRateLimits = PERM ''RATE_LIMITS_READ''"
| "tile_permission TileSecurity = PERM ''SECURITY_AUDIT_READ''"

definition tile_allowed :: "auth_state \<Rightarrow> dash_tile \<Rightarrow> bool" where
  "tile_allowed a ti = useCan a (OneAction (tile_permission ti)) None"

text \<open>The card: \<open>None\<close> when nothing is permitted.\<close>

definition dash_tiles :: "auth_state \<Rightarrow> dash_tile list option" where
  "dash_tiles a = (if \<not> tile_allowed a TileUsers \<and> \<not> tile_allowed a TilePolicies \<and> \<not> tile_allowed a TilePermissions
       \<and> \<not> tile_allowed a TileRateLimits \<and> \<not> tile_allowed a TileSecurity then None
     else Some (filter (tile_allowed a) DASH_TILES))"

fun tile_target :: "dash_tile \<Rightarrow> string" where
  "tile_target TileUsers = ''/users''"
| "tile_target TilePolicies = ''/policies''"
| "tile_target TilePermissions = ''/permissions''"
| "tile_target TileRateLimits = ''/rate-limits''"
| "tile_target TileSecurity = ''/audit-log?category=security&scope=all''"

definition all_policies_params :: list_policies_params where
  "all_policies_params = \<lparr>lp_limit = None, lp_offset = None, lp_search = None, lp_resourceType = None, lp_isActive = None,
     lp_containsAction = None, lp_destructiveOnly = None, lp_sortBy = None, lp_sortDir = None\<rparr>"

definition rate_limit_count_params :: list_rate_limits_params where
  "rate_limit_count_params = \<lparr>rl_page = None, rl_scope = None, rl_endpoint = None, rl_identifier = None,
     rl_pageSize = Some 1, rl_kind = None, rl_sortBy = None, rl_sortDir = None\<rparr>"

fun tile_request :: "dash_tile \<Rightarrow> http_request option" where
  "tile_request TileUsers = Some getUserStatsApi"
| "tile_request TilePolicies = Some (listPoliciesApi all_policies_params)"
| "tile_request TilePermissions = Some getPermissionCatalogApi"
| "tile_request TileRateLimits = Some (listRateLimitsApi rate_limit_count_params)"
| "tile_request TileSecurity = None"

text \<open>The queries are declared before the early return, each enabled by its own permission.\<close>

definition dash_requests :: "auth_state \<Rightarrow> http_request list" where
  "dash_requests a = List.map_filter tile_request (filter (tile_allowed a) [TileUsers, TilePolicies, TilePermissions, TileRateLimits])"

text \<open>A query as a tile sees it, and what a tile shows: \<open>None\<close> for the dash in place of a figure.\<close>

record 'd tile_query =
  tq_data :: "'d option"
  tq_isLoading :: bool
  tq_isError :: bool

datatype tile_caption = LoadError | UsersCaption nat nat | PoliciesCaption nat int | ResourceTypesCaption nat | PlainCaption

datatype tile_face = CountFace "nat option" tile_caption | CaptionFace tile_caption

definition shortcut_face :: "nat option \<Rightarrow> bool \<Rightarrow> bool \<Rightarrow> tile_caption \<Rightarrow> tile_face" where
  "shortcut_face v isLoading isError secondary =
     (let hasCount = v \<noteq> None \<or> isLoading \<or> isError; caption = (if isError then LoadError else secondary)
      in if hasCount then CountFace (if isLoading \<or> isError then None else v) caption else CaptionFace caption)"

definition users_shortcut :: "user_stats tile_query \<Rightarrow> tile_face" where
  "users_shortcut q = shortcut_face (map_option us_total (tq_data q)) (tq_isLoading q) (tq_isError q)
     (UsersCaption (case tq_data q of Some d \<Rightarrow> us_unverified d | None \<Rightarrow> 0)
        (case tq_data q of Some d \<Rightarrow> us_inactive d | None \<Rightarrow> 0))"

definition activePolicies :: "policy_read list tile_query \<Rightarrow> nat option" where
  "activePolicies q = map_option (\<lambda>ps. length (filter pol_is_active ps)) (tq_data q)"

definition policies_shortcut :: "policy_read list tile_query \<Rightarrow> tile_face" where
  "policies_shortcut q = shortcut_face (map_option length (tq_data q)) (tq_isLoading q) (tq_isError q)
     (PoliciesCaption (case activePolicies q of Some n \<Rightarrow> n | None \<Rightarrow> 0)
        (int (case tq_data q of Some ps \<Rightarrow> length ps | None \<Rightarrow> 0) - int (case activePolicies q of Some n \<Rightarrow> n | None \<Rightarrow> 0)))"

definition resourceTypes_count :: "permission_entry list tile_query \<Rightarrow> nat option" where
  "resourceTypes_count q = map_option (\<lambda>es. length (js_distinct (map pe_resource_type es))) (tq_data q)"

definition permissions_shortcut :: "permission_entry list tile_query \<Rightarrow> tile_face" where
  "permissions_shortcut q = shortcut_face (map_option length (tq_data q)) (tq_isLoading q) (tq_isError q)
     (ResourceTypesCaption (case resourceTypes_count q of Some n \<Rightarrow> n | None \<Rightarrow> 0))"

definition rate_limits_shortcut :: "nat tile_query \<Rightarrow> tile_face" where
  "rate_limits_shortcut q = shortcut_face (tq_data q) (tq_isLoading q) (tq_isError q) PlainCaption"

definition security_shortcut_tile :: tile_face where
  "security_shortcut_tile = shortcut_face None False False PlainCaption"

lemma tile_guards: "\<exists>p. guard_of (tile_target ti) = Some p \<and> static_path (path_of (tile_target ti))
    \<and> (holds_action ps (OneAction (tile_permission ti)) \<longrightarrow> no_permission_asked p \<or> holds_action ps p)"
  by (cases ti) (simp_all add: guard_of_def path_of_def ROUTES_def static_path_def)

lemma dash_tiles_Some: "dash_tiles a = Some ts \<Longrightarrow> ti \<in> set ts \<longleftrightarrow> tile_allowed a ti"
  by (cases ti) (auto simp: dash_tiles_def DASH_TILES_def split: if_splits)

text \<open>The shortcuts of the dashboard fit the permissions: for a caller the store calls signed in, a tile is shown exactly when
  its permission is held, its page then lets them in, only queries of permitted tiles are sent, and without
  any of the five permissions there is neither a card nor a request.\<close>

theorem dashboard_shortcuts:
  assumes "router_law match" and "isAuthenticated a = Some True"
  shows "(dash_tiles a = None \<longleftrightarrow> (\<forall>ti. tile_permission ti \<notin> set (permissions a)))
    \<and> (\<forall>ts. dash_tiles a = Some ts \<longrightarrow> (\<forall>ti. ti \<in> set ts \<longleftrightarrow> tile_permission ti \<in> set (permissions a))
        \<and> (\<forall>ti \<in> set ts. opens a match (tile_target ti)))
    \<and> (\<forall>r. r \<in> set (dash_requests a) \<longleftrightarrow> (\<exists>ti. tile_request ti = Some r \<and> tile_permission ti \<in> set (permissions a)))"
proof -
  have allowed: "tile_allowed a ti \<longleftrightarrow> tile_permission ti \<in> set (permissions a)" for ti
    using assms(2) by (simp add: tile_allowed_def useCan_def can_iff)
  have "dash_tiles a = None \<longleftrightarrow> (\<forall>ti. \<not> tile_allowed a ti)"
    unfolding dash_tiles_def by (auto, metis dash_tile.exhaust)
  moreover have "opens a match (tile_target ti)" if "tile_allowed a ti" for ti
  proof -
    obtain p where "guard_of (tile_target ti) = Some p" "static_path (path_of (tile_target ti))"
      "holds_action (permissions a) (OneAction (tile_permission ti)) \<longrightarrow> no_permission_asked p \<or> holds_action (permissions a) p"
      using tile_guards by blast
    then show ?thesis
      using guard_of_opens [OF assms(1) _ _ assms(2)] that allowed assms(2) by (auto simp: can_iff)
  qed
  moreover have "r \<in> set (dash_requests a) \<longleftrightarrow> (\<exists>ti. tile_request ti = Some r \<and> tile_allowed a ti)" for r
  proof -
    have "tile_request ti = Some r \<Longrightarrow> ti \<in> set [TileUsers, TilePolicies, TilePermissions, TileRateLimits]" for ti
      by (cases ti) simp_all
    then show ?thesis by (force simp: dash_requests_def List.map_filter_def)
  qed
  ultimately show ?thesis using dash_tiles_Some [of a] by (simp add: allowed)
qed

definition dash_auditor :: auth_state where
  "dash_auditor = \<lparr>isAuthenticated = Some True, authenticatedAt = Some 0, profile_name = Some ''A'', profile_email = Some ''a'',
     profile_role = None, permissions = [PERM ''SECURITY_AUDIT_READ''], hasPassword = True, permissionsPending = False\<rparr>"

theorem dashboard_shortcuts_witness:
  "TileUsers \<notin> set (case dash_tiles dash_auditor of Some ts \<Rightarrow> ts | None \<Rightarrow> [])"
  using dashboard_shortcuts [OF exact_match_law, of dash_auditor]
  by (auto simp: dash_auditor_def PERM_def PERMISSIONS_def split: option.split)

text \<open>The figures agree with their captions: active and inactive policies add up to the count, there are no more resource types than
  entries and some if there is an entry; a failed query shows a dash and says so, and no stale figure.\<close>

theorem shortcut_figures:
  "(policies_shortcut \<lparr>tq_data = Some ps, tq_isLoading = False, tq_isError = False\<rparr> = CountFace (Some n) (PoliciesCaption act inact)
      \<longrightarrow> n = length ps \<and> int act + inact = int n \<and> 0 \<le> inact)
   \<and> (permissions_shortcut \<lparr>tq_data = Some es, tq_isLoading = False, tq_isError = False\<rparr> = CountFace (Some n) (ResourceTypesCaption k)
      \<longrightarrow> n = length es \<and> k \<le> n \<and> (0 < n \<longrightarrow> 0 < k))
   \<and> policies_shortcut \<lparr>tq_data = old, tq_isLoading = l, tq_isError = True\<rparr> = CountFace None LoadError"
proof -
  have "length (js_distinct (map pe_resource_type es)) \<le> length es"
    by (metis distinct_js_distinct set_js_distinct card_length distinct_card length_map)
  moreover have "js_distinct (map pe_resource_type es) \<noteq> []" if "es \<noteq> []"
    using that by (metis list.map_disc_iff set_empty set_js_distinct)
  ultimately show ?thesis
    by (auto simp: policies_shortcut_def permissions_shortcut_def shortcut_face_def activePolicies_def resourceTypes_count_def
        length_filter_le Let_def)
qed

section \<open>The previous login\<close>

record login_entry =
  le_created_at :: string
  le_ip_address :: "string option"
  le_user_agent :: "string option"

definition LOGIN_EVENT_TYPES :: "string list" where
  "LOGIN_EVENT_TYPES = [''login_success'', ''oauth2_login_success'']"

definition fetchRecentLogins :: "string \<Rightarrow> http_request" where
  "fetchRecentLogins eventType = getMySecurityAuditLogApi
     \<lparr>al_limit = Some 2, al_offset = None, al_search = None, al_sortBy = None, al_sortDir = Some ''desc'', al_from = None, al_to = None,
      al_eventType = Some eventType, al_ipAddress = None, al_success = Some True\<rparr>"

text \<open>\<open>le\<close> is \<open>localeCompare\<close> of two time stamps: not after.\<close>

definition newest_first :: "(string \<Rightarrow> string \<Rightarrow> bool) \<Rightarrow> login_entry list \<Rightarrow> login_entry list" where
  "newest_first le = js_sort (\<lambda>a b. le (le_created_at b) (le_created_at a))"

definition previousLogin :: "(string \<Rightarrow> string \<Rightarrow> bool) \<Rightarrow> login_entry list list \<Rightarrow> login_entry option" where
  "previousLogin le answers = (let logins = newest_first le (concat answers)
     in if 1 < length logins then Some (logins ! 1) else None)"

text \<open>What the server answers to one of the two requests: the two newest of all entries of the type.\<close>

definition recent_logins :: "(string \<Rightarrow> string \<Rightarrow> bool) \<Rightarrow> login_entry list \<Rightarrow> login_entry list" where
  "recent_logins le all = take 2 (newest_first le all)"

text \<open>The reference: an entry is the second newest of a collection if one other entry is at least as new and no further one is newer.\<close>

definition second_newest :: "(string \<Rightarrow> string \<Rightarrow> bool) \<Rightarrow> login_entry multiset \<Rightarrow> login_entry \<Rightarrow> bool" where
  "second_newest le M p \<longleftrightarrow> (\<exists>q rest. M = add_mset q (add_mset p rest) \<and> le (le_created_at p) (le_created_at q)
     \<and> (\<forall>r \<in># rest. le (le_created_at r) (le_created_at p)))"

lemma newest_first_sorted:
  "sorted_wrt (\<lambda>a b. le (le_created_at b) (le_created_at a)) (newest_first le xs)" if "total_preorder le"
  unfolding newest_first_def by (rule sorted_js_sort) (use that in \<open>unfold total_preorder_def, blast\<close>)

lemma mset_newest_first [simp]: "mset (newest_first le xs) = mset xs"
  by (simp add: newest_first_def)

lemma length_newest_first [simp]: "length (newest_first le xs) = length xs"
  by (simp add: newest_first_def)

text \<open>Whatever a type's answer leaves out is not newer than the second of the merged list.\<close>

lemma left_out_older:
  assumes pre: "total_preorder le" and sub: "mset (recent_logins le xs) \<subseteq># add_mset q (mset (p # rest))"
    and older: "\<forall>r \<in> set rest. le (le_created_at r) (le_created_at p)" and r: "r \<in> set (drop 2 (newest_first le xs))"
  shows "le (le_created_at r) (le_created_at p)"
proof -
  obtain a b more where S: "newest_first le xs = a # b # more"
    using r by (cases "newest_first le xs" rule: remdups_adj.cases) auto
  have ab: "le (le_created_at r) (le_created_at a)" "le (le_created_at r) (le_created_at b)"
    using newest_first_sorted [OF pre, of xs] r by (auto simp: S)
  have "{#a, b#} \<subseteq># add_mset q (mset (p # rest))" using sub by (simp add: recent_logins_def S numeral_2_eq_2)
  then have "a \<in> set (p # rest) \<or> b \<in> set (p # rest)"
    by (cases "a = q") (auto dest: mset_subset_eqD)
  then obtain c where c: "c \<in> set (p # rest)" "le (le_created_at r) (le_created_at c)" using ab by blast
  have "le (le_created_at c) (le_created_at p)" using c(1) older pre by (auto simp: total_preorder_def)
  then show ?thesis using c(2) pre unfolding total_preorder_def by blast
qed

text \<open>C20. The previous login is right although only two entries of each of the two kinds are fetched: what is shown is the second
  newest of all successful logins of both kinds, and nothing is shown exactly when there are fewer than two.\<close>

theorem previous_login_right:
  assumes "total_preorder le"
  shows "case previousLogin le [recent_logins le passwords, recent_logins le oauths] of
      None \<Rightarrow> length passwords + length oauths < 2
    | Some p \<Rightarrow> second_newest le (mset passwords + mset oauths) p"
proof -
  let ?T = "newest_first le (recent_logins le passwords @ recent_logins le oauths)"
  have len: "length ?T = min 2 (length passwords) + min 2 (length oauths)"
    by (simp add: recent_logins_def)
  show ?thesis
  proof (cases "1 < length ?T")
    case True
    then obtain q p rest where T: "?T = q # p # rest" by (cases ?T rule: remdups_adj.cases) auto
    have mT: "mset (recent_logins le passwords) + mset (recent_logins le oauths) = add_mset q (mset (p # rest))"
      using mset_newest_first [of le "recent_logins le passwords @ recent_logins le oauths"] by (simp add: T)
    have sorted: "le (le_created_at p) (le_created_at q)" "\<forall>r \<in> set rest. le (le_created_at r) (le_created_at p)"
      using newest_first_sorted [OF assms, of "recent_logins le passwords @ recent_logins le oauths"] by (simp_all add: T)
    let ?d = "\<lambda>xs. drop 2 (newest_first le xs)"
    have split: "mset xs = mset (recent_logins le xs) + mset (?d xs)" for xs
      by (metis append_take_drop_id mset_append mset_newest_first recent_logins_def)
    have "mset passwords + mset oauths = add_mset q (add_mset p (mset rest + mset (?d passwords) + mset (?d oauths)))"
      using split [of passwords] split [of oauths] mT by (simp add: ac_simps)
    moreover have "\<forall>r \<in># mset rest + mset (?d passwords) + mset (?d oauths). le (le_created_at r) (le_created_at p)"
    proof -
      have "mset (recent_logins le passwords) \<subseteq># add_mset q (mset (p # rest))"
        "mset (recent_logins le oauths) \<subseteq># add_mset q (mset (p # rest))"
        unfolding mT [symmetric] by simp_all
      then show ?thesis using sorted(2) left_out_older [OF assms _ sorted(2)] by auto
    qed
    ultimately have "second_newest le (mset passwords + mset oauths) p"
      unfolding second_newest_def using sorted(1) by blast
    then show ?thesis by (simp add: previousLogin_def T)
  next
    case False
    then have "length passwords + length oauths < 2" unfolding len by linarith
    then show ?thesis using False by (simp add: previousLogin_def)
  qed
qed

definition login_at :: "string \<Rightarrow> login_entry" where
  "login_at at = \<lparr>le_created_at = at, le_ip_address = None, le_user_agent = None\<rparr>"

text \<open>The order of the instance is by length: a later time is a longer text.\<close>

theorem previous_login_right_witness:
  "second_newest string_le (mset [login_at ''TTTT'', login_at ''T'', login_at ''TT''] + mset [login_at ''TTT'']) (login_at ''TTT'')"
proof -
  have "previousLogin string_le [recent_logins string_le [login_at ''TTTT'', login_at ''T'', login_at ''TT''],
      recent_logins string_le [login_at ''TTT'']] = Some (login_at ''TTT'')"
    by code_simp
  with previous_login_right [OF string_le_total, of "[login_at ''TTTT'', login_at ''T'', login_at ''TT'']" "[login_at ''TTT'']"]
  show ?thesis by simp
qed

section \<open>Greeting and identity\<close>

datatype greeting = Morning | Afternoon | Evening

definition greetingKeyFor :: "nat \<Rightarrow> greeting" where
  "greetingKeyFor hour = (if 5 \<le> hour \<and> hour < 12 then Morning
     else if 12 \<le> hour \<and> hour < 17 then Afternoon else Evening)"


text \<open>Splitting at runs of white space, and the initials of a name or else of an address.\<close>

function space_split :: "string \<Rightarrow> string list" where
  "space_split s = takeWhile (\<lambda>c. \<not> is_space c) s # (let r = dropWhile (\<lambda>c. \<not> is_space c) s in
     if r = [] then [] else space_split (dropWhile is_space r))"
  by pat_completeness auto

termination
proof (relation "measure length", simp)
  fix s r assume r: "r = dropWhile (\<lambda>c. \<not> is_space c) s" "r \<noteq> []"
  then have "is_space (hd r)" by (metis (mono_tags, lifting) hd_dropWhile)
  then have "length (dropWhile is_space r) < length r"
    using r(2) by (cases r) (auto intro: le_less_trans [OF length_dropWhile_le])
  also have "\<dots> \<le> length s" unfolding r(1) by (rule length_dropWhile_le)
  finally show "(dropWhile is_space r, s) \<in> measure length" by simp
qed

declare space_split.simps [simp del]

fun upper_initial :: "string \<Rightarrow> string" where
  "upper_initial [] = []"
| "upper_initial (c # s) = [char_upper c]"

definition identity_initials :: "string option \<Rightarrow> string option \<Rightarrow> string" where
  "identity_initials name email =
     (let named = (case name of Some n \<Rightarrow> js_trim n | None \<Rightarrow> '''');
          source = (if truthy named then named
            else case email of Some e \<Rightarrow> takeWhile (\<lambda>c. c \<noteq> CHR ''@'') e | None \<Rightarrow> '''')
      in if source = '''' then '''' else concat (map upper_initial (take 2 (space_split source))))"

lemma upper_initials_at_most: "length (concat (map upper_initial xs)) \<le> length xs"
proof (induction xs)
  case (Cons x xs)
  then show ?case by (cases x) auto
qed simp

lemma identity_initials_at_most: "length (identity_initials name email) \<le> 2"
  unfolding identity_initials_def Let_def
  by (auto intro: order_trans [OF upper_initials_at_most] split: option.split)

definition dash_firstName :: "current_user_profile option \<Rightarrow> string option" where
  "dash_firstName user = map_option (\<lambda>u. hd (space_split (js_trim (cu_name u)))) user"

text \<open>The line under the heading: who is greeted how, if at all, before the date.\<close>

definition dash_subtitle :: "current_user_profile option \<Rightarrow> nat \<Rightarrow> (greeting \<times> string) option" where
  "dash_subtitle user hour = (case dash_firstName user of
      Some n \<Rightarrow> if truthy n then Some (greetingKeyFor hour, n) else None
    | None \<Rightarrow> None)"

datatype identity_body = IdentitySkeleton | IdentityError | IdentityNoUser | IdentityOf current_user_profile

definition identity_card :: "current_user_profile option \<Rightarrow> bool \<Rightarrow> bool \<Rightarrow> identity_body" where
  "identity_card user isLoading isError = (if isLoading then IdentitySkeleton else if isError then IdentityError
     else case user of None \<Rightarrow> IdentityNoUser | Some u \<Rightarrow> IdentityOf u)"

text \<open>What the stat of the previous login says: nothing is known, there was none, or its time, device and the tooltip.\<close>

datatype previous_value = NothingKnown | NoPreviousLogin | PreviousAt string string "string option"

definition previousLoginValue :: "i18n \<Rightarrow> login_entry option option \<Rightarrow> previous_value" where
  "previousLoginValue i v = (case v of
      None \<Rightarrow> NothingKnown
    | Some None \<Rightarrow> NoPreviousLogin
    | Some (Some e) \<Rightarrow> PreviousAt (le_created_at e) (parseUserAgent i (le_user_agent e))
        (case le_ip_address e of Some ip \<Rightarrow> if truthy ip then Some ip else None | None \<Rightarrow> None))"

text \<open>Whether the shortcuts and the sessions card are on the page.\<close>

definition dash_cards_shown :: "current_user_profile option \<Rightarrow> bool \<Rightarrow> bool \<Rightarrow> bool" where
  "dash_cards_shown user isLoading isError \<longleftrightarrow> \<not> isLoading \<and> \<not> isError \<and> user \<noteq> None"

text \<open>The jump of the sessions stat: focus before scrolling, none of it without the section.\<close>

datatype page_effect = FocusSessions | ScrollToSessions bool

definition goToActiveSessions :: "bool \<Rightarrow> bool \<Rightarrow> page_effect list" where
  "goToActiveSessions section_present reduceMotion =
     (if \<not> section_present then [] else [FocusSessions, ScrollToSessions (\<not> reduceMotion)])"

lemma js_trim_first: "js_trim s = c # r \<Longrightarrow> \<not> is_space c"
proof -
  assume "js_trim s = c # r"
  then have t: "js_trim_end (js_trim_start s) = c # r" by (simp add: js_trim_def)
  have "js_trim_start s = js_trim_end (js_trim_start s) @ rev (takeWhile is_space (rev (js_trim_start s)))"
    unfolding js_trim_end_def by (metis rev_append rev_rev_ident takeWhile_dropWhile_id)
  then have "js_trim_start s \<noteq> [] \<and> hd (js_trim_start s) = c" using t by (metis append_Cons list.distinct(1) list.sel(1))
  then show ?thesis unfolding js_trim_start_def by (metis hd_dropWhile)
qed

lemma first_of_trimmed: "js_trim s \<noteq> [] \<Longrightarrow> \<exists>c w ws. space_split (js_trim s) = (c # w) # ws"
  using js_trim_first [of s] by (subst space_split.simps, cases "js_trim s") auto

lemma hd_space_split: "hd (space_split s) = takeWhile (\<lambda>c. \<not> is_space c) s"
  by (subst space_split.simps) simp

text \<open>The top of the dashboard: a caller is greeted exactly when their name is not blank, by one word of it; the avatar shows at most two
  letters, and one at least for a name that is not blank; and the sessions stat, offered only with the identity, always has the section to jump to.\<close>

theorem dashboard_top:
  "(dash_subtitle (Some u) hour \<noteq> None \<longleftrightarrow> js_trim (cu_name u) \<noteq> [])
   \<and> (dash_subtitle user hour = Some (g, n) \<longrightarrow> n \<noteq> [] \<and> (\<forall>c \<in> set n. \<not> is_space c) \<and> g = greetingKeyFor hour)
   \<and> length (identity_initials (Some name) email) \<le> 2
   \<and> (js_trim name \<noteq> [] \<longrightarrow> identity_initials (Some name) email \<noteq> [])
   \<and> (identity_card user isLoading isError = IdentityOf v \<longrightarrow> user = Some v
        \<and> goToActiveSessions (dash_cards_shown user isLoading isError) False = [FocusSessions, ScrollToSessions True])"
proof -
  have "dash_subtitle (Some u) hour \<noteq> None \<longleftrightarrow> js_trim (cu_name u) \<noteq> []"
    using first_of_trimmed [of "cu_name u"] hd_space_split [of "js_trim (cu_name u)"]
    by (cases "js_trim (cu_name u) = []") (auto simp: dash_subtitle_def dash_firstName_def truthy_def)
  moreover have "dash_subtitle user hour = Some (g, n) \<longrightarrow> n \<noteq> [] \<and> (\<forall>c \<in> set n. \<not> is_space c) \<and> g = greetingKeyFor hour"
    by (auto simp: dash_subtitle_def dash_firstName_def truthy_def hd_space_split dest: set_takeWhileD split: option.splits if_splits)
  moreover have "js_trim name \<noteq> [] \<longrightarrow> identity_initials (Some name) email \<noteq> []"
    using first_of_trimmed [of name] by (auto simp: identity_initials_def Let_def truthy_def)
  ultimately show ?thesis
    by (auto simp: identity_initials_at_most identity_card_def dash_cards_shown_def goToActiveSessions_def split: option.splits if_splits)
qed

section \<open>Account status\<close>

text \<open>Both queries: the policies and the direct permissions of the caller.\<close>

record status_queries =
  sq_policies :: "policy_read list option"
  sq_policiesLoading :: bool
  sq_policiesError :: bool
  sq_permissions :: "grant list option"
  sq_permissionsLoading :: bool
  sq_permissionsError :: bool

definition status_policies :: "status_queries \<Rightarrow> policy_read list" where
  "status_policies q = (case sq_policies q of Some ps \<Rightarrow> ps | None \<Rightarrow> [])"

definition rawDirectPermissions :: "status_queries \<Rightarrow> grant list" where
  "rawDirectPermissions q = (case sq_permissions q of Some ds \<Rightarrow> ds | None \<Rightarrow> [])"

definition bothLoaded :: "status_queries \<Rightarrow> bool" where
  "bothLoaded q \<longleftrightarrow> \<not> sq_policiesLoading q \<and> \<not> sq_policiesError q \<and> \<not> sq_permissionsLoading q \<and> \<not> sq_permissionsError q"

definition grant_pair :: "grant \<Rightarrow> string \<times> string" where
  "grant_pair d = (g_action d, g_resource_type d)"

definition effectiveWithSource :: "status_queries \<Rightarrow> effective_grant list" where
  "effectiveWithSource q = (if bothLoaded q
     then (let es = buildEffectiveGrantsWithSource (status_policies q) (rawDirectPermissions q)
       in dedupeAgainstWildcards pair_of es (map pair_of es))
     else [])"

definition effectivePermissions :: "string \<Rightarrow> status_queries \<Rightarrow> access_chip list" where
  "effectivePermissions direct_label q = map (\<lambda>g. \<lparr>ac_action = g_action g, ac_resource_type = g_resource_type g,
     ac_sources = (if direct g then policyNames g @ [direct_label] else policyNames g)\<rparr>) (effectiveWithSource q)"

definition directPermissions :: "status_queries \<Rightarrow> grant list" where
  "directPermissions q = dedupeAgainstWildcards grant_pair (rawDirectPermissions q)
     (if bothLoaded q then map pair_of (effectiveWithSource q) else map grant_pair (rawDirectPermissions q))"

datatype status_face = StatusLoading | StatusFailed | StatusShown

definition status_section :: "bool \<Rightarrow> bool \<Rightarrow> status_face" where
  "status_section isLoading isError = (if isLoading then StatusLoading else if isError then StatusFailed else StatusShown)"

definition effective_section :: "status_queries \<Rightarrow> status_face" where
  "effective_section q = status_section (sq_policiesLoading q \<or> sq_permissionsLoading q) (sq_policiesError q \<or> sq_permissionsError q)"

definition my_policies_shown :: "(string \<Rightarrow> string \<Rightarrow> bool) \<Rightarrow> status_queries \<Rightarrow> (string \<times> string list) list option" where
  "my_policies_shown le q = (if length (status_policies q) > 0
     then Some (map (\<lambda>(r, ps). (formatResourceTypeLabel r, map pol_name ps)) (groupPoliciesByResourceType le (status_policies q)))
     else None)"

definition chip_pair :: "access_chip \<Rightarrow> string \<times> string" where
  "chip_pair c = (ac_action c, ac_resource_type c)"

text \<open>C28. The account status tells callers exactly what they hold. When both queries have loaded, the effective permissions decide every pair
  like the assigned policies and direct grants do, wildcards included, list nothing that is not held, each pair once; and a direct grant is
  left out only where a listed wildcard covers it. Before that no union of one half is shown.\<close>

theorem account_status_exact:
  assumes "\<forall>(a, r) \<in> granted_pairs (status_policies q) (rawDirectPermissions q). plain_action a"
  shows "(effective_section q = StatusShown \<longrightarrow>
      (\<forall>a r. holds_on (chip_pair ` set (effectivePermissions lbl q)) a r
          \<longleftrightarrow> holds_on (granted_pairs (status_policies q) (rawDirectPermissions q)) a r)
      \<and> chip_pair ` set (effectivePermissions lbl q) \<subseteq> granted_pairs (status_policies q) (rawDirectPermissions q)
      \<and> distinct (map chip_pair (effectivePermissions lbl q))
      \<and> (\<forall>d \<in> set (rawDirectPermissions q). d \<notin> set (directPermissions q)
          \<longrightarrow> (g_action d, WILDCARD_RESOURCE_TYPE) \<in> chip_pair ` set (effectivePermissions lbl q)))
    \<and> (effective_section q \<noteq> StatusShown \<longrightarrow> effectivePermissions lbl q = [])"
proof -
  let ?ps = "status_policies q" and ?ds = "rawDirectPermissions q"
  let ?es = "buildEffectiveGrantsWithSource ?ps ?ds"
  have shown: "effective_section q = StatusShown \<longleftrightarrow> bothLoaded q"
    by (auto simp: effective_section_def status_section_def bothLoaded_def)
  have chips: "map chip_pair (effectivePermissions lbl q) = map pair_of (effectiveWithSource q)"
    by (simp add: effectivePermissions_def chip_pair_def pair_of_def)
  have es: "distinct (map pair_of ?es)" "pair_of ` set ?es = granted_pairs ?ps ?ds"
    using effective_grants_with_source [OF assms] by (simp_all add: Let_def)
  have "?thesis" if both: "bothLoaded q"
  proof -
    have eff: "effectiveWithSource q = dedupeAgainstWildcards pair_of ?es (map pair_of ?es)"
      using both by (simp add: effectiveWithSource_def Let_def)
    have "set (effectiveWithSource q) \<subseteq> set ?es" by (auto simp: eff dedupe_keeps)
    moreover have "distinct (map pair_of (effectiveWithSource q))"
      using es(1) by (simp add: eff dedupeAgainstWildcards_def Let_def distinct_map_filter)
    moreover have img: "pair_of ` set (effectiveWithSource q) = {p \<in> granted_pairs ?ps ?ds. \<not> isSubsumedByWildcard p (map pair_of ?es)}"
    proof -
      have "set (effectiveWithSource q) = {e \<in> set ?es. \<not> isSubsumedByWildcard (pair_of e) (map pair_of ?es)}"
        by (auto simp: eff dedupe_keeps)
      then show ?thesis unfolding es(2) [symmetric] by blast
    qed
    have sub: "isSubsumedByWildcard p (map pair_of ?es) \<longleftrightarrow> snd p \<noteq> WILDCARD_RESOURCE_TYPE
        \<and> (fst p, WILDCARD_RESOURCE_TYPE) \<in> granted_pairs ?ps ?ds" for p
      unfolding es(2) [symmetric] by (force simp: isSubsumedByWildcard_def)
    have holds: "holds_on (pair_of ` set (effectiveWithSource q)) a r \<longleftrightarrow> holds_on (granted_pairs ?ps ?ds) a r" for a r
      unfolding img holds_on_def sub by auto
    have "(g_action d, WILDCARD_RESOURCE_TYPE) \<in> pair_of ` set (effectiveWithSource q)"
      if "d \<in> set ?ds" "d \<notin> set (directPermissions q)" for d
    proof -
      have "isSubsumedByWildcard (grant_pair d) (map pair_of (effectiveWithSource q))"
        using that both by (simp add: directPermissions_def dedupe_keeps)
      then show ?thesis by (force simp: isSubsumedByWildcard_def grant_pair_def split: if_split_asm)
    qed
    moreover have "chip_pair ` set (effectivePermissions lbl q) = pair_of ` set (effectiveWithSource q)"
      using chips by (metis set_map)
    moreover have "pair_of ` set (effectiveWithSource q) \<subseteq> granted_pairs ?ps ?ds" unfolding img by blast
    ultimately show ?thesis using shown both holds chips by metis
  qed
  moreover have ?thesis if "\<not> bothLoaded q"
    using that shown by (simp add: effectivePermissions_def effectiveWithSource_def)
  ultimately show ?thesis by blast
qed

text \<open>A policy that grants an action everywhere and the same action granted directly on one resource type.\<close>

definition status_example :: status_queries where
  "status_example = \<lparr>sq_policies = Some [\<lparr>pol_id = 1, pol_name = ''root'', pol_description = None, pol_actions = [''users:list''],
       pol_resource_type = ''*'', pol_conditions = None, pol_is_active = True\<rparr>], sq_policiesLoading = False, sq_policiesError = False,
     sq_permissions = Some [\<lparr>g_action = ''users:list'', g_resource_type = ''users''\<rparr>],
     sq_permissionsLoading = False, sq_permissionsError = False\<rparr>"

theorem account_status_exact_witness:
  "holds_on (chip_pair ` set (effectivePermissions ''Direct'' status_example)) ''users:list'' ''policies''"
  using account_status_exact [of status_example "''Direct''"]
  by (simp add: status_example_def status_policies_def rawDirectPermissions_def granted_pairs_def plain_action_def
      effective_section_def status_section_def holds_on_def WILDCARD_RESOURCE_TYPE_def)

end
