(* ===== verification/Spec2Isabelle.thy ===== *)
theory Spec2Isabelle
  imports Authorization Interceptor CrossTab PoliciesPage BulkMutations UsersPage ResumeEditor PaletteKeyboard AccountSettings AuditLog
    DataTable ActiveSessions Preferences PermissionsPage RateLimits BulkDialog AccessDialog PoliciesView PolicyDialogs LoginTrend UsersView LogDetails Controls AppPages Dashboard
begin

text \<open>
  A model of the ManifestCV frontend (\<open>src/frontend/src\<close>, TypeScript and React): the parts of it that
  decide something. Every definition is a translation of a function, a handler or a piece of state of
  the source and keeps its name where Isabelle allows; the file and the lines stand in the manifest.

  The program. A browser application on top of \<open>mystic_auth\<close>, a template for authentication and
  policy-based authorization, with the application's own pages in \<open>app\<close>. A tab keeps the caller's
  session in a store (\<open>authStore\<close>), talks to the backend through axios with an interceptor that refreshes
  an expired session, and caches what it reads in a TanStack query client. Tabs of one browser share
  cookies and the local storage and have to agree on who refreshes. The pages read the caches, keep
  filters and selections, and change the server through mutation hooks.

  Theories and what they model:

  \<^item> \<open>Prelude\<close>, \<open>JsValues\<close>: strings, sets, sorting and grouping as JavaScript has them, JSON, URLs,
    requests, and the locales \<open>event_machine\<close>, \<open>fed_machine\<close> (what is kept depends on what the events bring in)
    and \<open>transition_system\<close> every stateful component below is an interpretation of, with \<open>grouping\<close> for
    everything that is displayed in groups.
  \<^item> \<open>AuthStore\<close>, \<open>Authorization\<close>: the session store, the permission check \<open>can\<close>, and what guards use it.
  \<^item> \<open>QueryClient\<close>, \<open>ApiError\<close>, \<open>ApiClient\<close>: query keys and commands, error messages, and every function
    of \<open>api/*.ts\<close> and \<open>app/api/*.ts\<close> as the request it builds.
  \<^item> \<open>SessionLifecycle\<close>, \<open>Interceptor\<close>, \<open>CrossTab\<close>: how a session starts, is refreshed and ends, in one
    tab and between tabs.
  \<^item> \<open>EffectiveGrants\<close>, \<open>PolicyHelpers\<close>, \<open>PolicyForm\<close>, \<open>PoliciesPage\<close>, \<open>PoliciesView\<close>, \<open>PolicyDialogs\<close>: what
    somebody holds; the policy editor; the policies page as its state and handlers, as what its cards, tiles and
    lists show (\<open>policies/PoliciesPageContent.tsx\<close>, \<open>PolicyCard.tsx\<close>), and as the machine of its dialogs.
  \<^item> \<open>Mutations\<close>, \<open>BulkMutations\<close>: every mutation hook as request, error message and effect on the client.
  \<^item> \<open>Toaster\<close>, \<open>UiHooks\<close>, \<open>Controls\<close>, \<open>DataTable\<close>: notifications, the shared hooks, and the shared controls
    and table of \<open>ui\<close>, down to what a key or a click does.
  \<^item> \<open>UserAccess\<close>, \<open>AccessDialog\<close>, \<open>UsersPage\<close>, \<open>UsersView\<close>, \<open>BulkDialog\<close>: the access dialog as its mutations and as
    its rows and switches; the users page as its filters and selection and as the machine of its rows, menus, dialogs and selection; and the
    dialog that changes many users at once, which that machine contains.
  \<^item> \<open>AccountForms\<close>, \<open>AccountSettings\<close>, \<open>ActiveSessions\<close>, \<open>Preferences\<close>: signing in and up, passwords, verification and
    deletion (\<open>auth\<close>, \<open>account_settings\<close>), the sessions card, and theme, font size, language and colour (\<open>store\<close>).
  \<^item> \<open>TimeRange\<close>, \<open>AuditFilters\<close>, \<open>AuditLog\<close>, \<open>LogDetails\<close>, \<open>LoginTrend\<close>: the audit log (\<open>audit_log\<close>): ranges of time, filters
    and chips, the lists with the drawer that walks them, the details of an entry, and the figures of the chart.
  \<^item> \<open>PermissionsPage\<close>, \<open>RateLimits\<close>, \<open>Dashboard\<close>: the pages of the same names, and the account status.
  \<^item> \<open>Navigation\<close>, \<open>SearchText\<close>, \<open>CommandPalette\<close>, \<open>PaletteKeyboard\<close>: links, routes and their guards, and the
    palette that searches them.
  \<^item> \<open>ResumeEditor\<close>, \<open>AppPages\<close>: the resume document, its editor with undo, and saving; tracked applications, the
    career knowledge base, the pager and the steps that create a resume (\<open>app\<close>).

  How the code is represented. A store or component state is a record and an action a function on it;
  what a handler sends is a value (\<open>http_request\<close>, a query command, a toast), its settlement another
  function. The clock, generated ids and the server's answers are arguments. Interleaving is made
  explicit where it matters: \<open>CrossTab\<close> has one step per access to the shared storage.

  What is a parameter. The network (\<open>net\<close>, the server functions of \<open>BulkMutations\<close> and \<open>UsersPage\<close>),
  i18next, \<open>localeCompare\<close>, the query cache (\<open>query_client_laws\<close>), React's and react-router's choices
  (\<open>router_law\<close>, \<open>kept\<close>), the time zone (the local day of an instant, when a day starts, and when its clocks first show 23:59:59.999), \<open>JSON.parse\<close> and the text of a date. Laws
  about them are hypotheses, and every law has an instance.

  Bounds. No definition runs on fuel where the code has none: the interceptor's recursion and the
  paging of all matching users have termination proofs; \<open>run_to_await\<close> makes at most six steps because no
  turn has more; the polling of jobs makes the sixty attempts the code makes. That a recursion ends is not that an await
  does: in \<open>Interceptor\<close> each await may never settle and the call is then \<open>Unsettled\<close>, which happens to a tracked
  request that waits for itself and, by \<open>CrossTab\<close>, in tabs whose storage cannot be written.

  The groups of lemmas. Each theory proves what its operations keep and how they behave on every
  branch, then the properties that rest on these. The most important are: at most one refresh at a time
  (\<open>lease_mutual_exclusion\<close>, \<open>one_refresh_in_flight\<close>) and the schedule that breaks it when turns are not
  atomic; the interceptor sends a bounded number of requests, and ends the session exactly when it says so; route guards, sidebar and
  palette agree on who may open what; grants and their wildcards are what the key sets say; the document
  editor loses and duplicates nothing and undo is exact, while its saving loses edits; and whatever is clicked on a
  page, in whatever order answers arrive, only the requests it may send leave it: the users page (whose bulk role run alone is unguarded), the bulk dialog, the
  sessions card, the deletion of an account and the policy dialogs each have a theorem over all runs of their machine.

  Not modelled. The backend (Python) and its services. Markup, styling and icons, the shadcn primitives, the
  layout's navigation bar and the brand colour scale (a third-party library computes it); the legal and landing
  pages, which are text; of the DOM only what is named above (focus and scrolling where a handler decides them);
  Unicode beyond Latin-1, \<open>Intl\<close> and \<open>localeCompare\<close>. Numbers of the resume layout and of the chart are
  rationals, so the rounding of doubles is not seen. BroadcastChannel and storage events only wake a waiting
  tab and have no model of their own. Object identity matters in one place (memoisation) and is left out.
  The columns of tables that only display a field are left out, and so are the translated texts.
\<close>

end
